(* ===== verification/Js_Prelude.thy ===== *)
theory Js_Prelude
  imports Complex_Main "HOL-Library.Sublist" "HOL-Library.Multiset"
begin

text \<open>
  The shared ground of the development: results that may throw, arrays, insertion-ordered
  sets and the string primitives of JavaScript that the designer's TypeScript uses. A
  JavaScript string is a \<^typ>\<open>string\<close> here, one \<^typ>\<open>char\<close> per code unit, so the model
  covers the code units below 256 (Latin-1); the case mapping, white space and URI encoding
  below are exact on that range.
\<close>

named_theorems res_simps "evaluation of results that may throw"
named_theorems arr_simps "arrays and insertion-ordered sets"
named_theorems str_simps "string primitives"

section \<open>Results that may throw\<close>

datatype js_error =
    TypeError       \<comment> \<open>a property read on \<open>undefined\<close>\<close>
  | UriError        \<comment> \<open>a malformed percent escape\<close>
  | SyntaxError     \<comment> \<open>\<open>JSON.parse\<close> on a text that is no JSON\<close>
  | StorageError    \<comment> \<open>\<open>localStorage\<close> disabled or full\<close>
  | SparseArray     \<comment> \<open>a store past the end that leaves a hole\<close>
  | Unrepresentable \<comment> \<open>a string outside the modelled code units\<close>
  | Thrown string   \<comment> \<open>\<open>throw new Error(message)\<close>\<close>

type_synonym 'a res = "js_error + 'a"

definition bind_res :: "'a res \<Rightarrow> ('a \<Rightarrow> 'b res) \<Rightarrow> 'b res" where
  "bind_res r f = (case r of Inl e \<Rightarrow> Inl e | Inr x \<Rightarrow> f x)"

definition map_res :: "('a \<Rightarrow> 'b) \<Rightarrow> 'a res \<Rightarrow> 'b res" where
  "map_res f r = (case r of Inl e \<Rightarrow> Inl e | Inr x \<Rightarrow> Inr (f x))"

definition catch_res :: "'a res \<Rightarrow> 'a \<Rightarrow> 'a" where
  "catch_res r d = (case r of Inl _ \<Rightarrow> d | Inr x \<Rightarrow> x)"

lemma bind_res_simps [simp, res_simps]:
  "bind_res (Inl e) f = Inl e" "bind_res (Inr x) f = f x"
  by (simp_all add: bind_res_def)

lemma map_res_simps [simp, res_simps]:
  "map_res f (Inl e) = Inl e" "map_res f (Inr x) = Inr (f x)"
  by (simp_all add: map_res_def)

lemma catch_res_simps [simp, res_simps]:
  "catch_res (Inl e) d = d" "catch_res (Inr x) d = x"
  by (simp_all add: catch_res_def)

lemma bind_res_eq_Inr [simp]: "bind_res r f = Inr y \<longleftrightarrow> (\<exists>x. r = Inr x \<and> f x = Inr y)"
  by (cases r) auto

lemma map_res_eq_Inr [simp]: "map_res f r = Inr y \<longleftrightarrow> (\<exists>x. r = Inr x \<and> y = f x)"
  by (cases r) auto

lemma map_res_eq_Inl [simp]: "map_res f r = Inl e \<longleftrightarrow> r = Inl e"
  by (cases r) auto

fun mapM_res :: "('a \<Rightarrow> 'b res) \<Rightarrow> 'a list \<Rightarrow> 'b list res" where
  "mapM_res f [] = Inr []"
| "mapM_res f (x # xs) = bind_res (f x) (\<lambda>y. map_res (Cons y) (mapM_res f xs))"

lemma mapM_res_all: "(\<And>x. x \<in> set xs \<Longrightarrow> f x = Inr (g x)) \<Longrightarrow> mapM_res f xs = Inr (map g xs)"
  by (induction xs) auto

lemma mapM_res_members:
  "mapM_res f xs = Inr ys \<Longrightarrow>
     (\<forall>y \<in> set ys. \<exists>x \<in> set xs. f x = Inr y) \<and> (\<forall>x \<in> set xs. \<exists>y \<in> set ys. f x = Inr y)"
  by (induction xs arbitrary: ys) (auto, blast+)

lemma mapM_res_pointwise: "mapM_res f xs = Inr ys \<Longrightarrow> list_all2 (\<lambda>x y. f x = Inr y) xs ys"
  by (induction xs arbitrary: ys) auto

lemma mapM_res_image:
  assumes "mapM_res f xs = Inr ys" "\<And>x y. x \<in> set xs \<Longrightarrow> f x = Inr y \<Longrightarrow> g y = h x"
  shows "map g ys = map h xs"
  using assms by (induction xs arbitrary: ys) auto

section \<open>Arrays\<close>

definition js_get :: "'a list \<Rightarrow> nat \<Rightarrow> 'a option" where
  "js_get xs i = (if i < length xs then Some (xs ! i) else None)"

definition js_store :: "'a list \<Rightarrow> nat \<Rightarrow> 'a \<Rightarrow> 'a list res" where
  "js_store xs i v =
     (if i < length xs then Inr (xs[i := v])
      else if i = length xs then Inr (xs @ [v]) else Inl SparseArray)"

definition insert_at :: "nat \<Rightarrow> 'a \<Rightarrow> 'a list \<Rightarrow> 'a list" where
  "insert_at i x xs = take i xs @ x # drop i xs"

definition without_index :: "nat \<Rightarrow> 'a list \<Rightarrow> 'a list" where
  "without_index i xs = map fst (filter (\<lambda>(x, j). j \<noteq> i) (zip xs [0..<length xs]))"

definition slice :: "'a list \<Rightarrow> nat \<Rightarrow> nat \<Rightarrow> 'a list" where
  "slice xs a b = take (b - a) (drop a xs)"

lemma js_get_simps [simp, arr_simps]:
  "js_get [] i = None" "js_get (x # xs) 0 = Some x" "js_get (x # xs) (Suc i) = js_get xs i"
  by (simp_all add: js_get_def)

lemma js_get_eq_Some [arr_simps]: "js_get xs i = Some x \<longleftrightarrow> i < length xs \<and> xs ! i = x"
  by (simp add: js_get_def)

lemma js_get_eq_None [arr_simps]: "js_get xs i = None \<longleftrightarrow> length xs \<le> i"
  by (auto simp: js_get_def)

lemma js_store_in_range: "i < length xs \<Longrightarrow> js_store xs i v = Inr (xs[i := v])"
  by (simp add: js_store_def)

lemma js_get_in_set: "js_get xs i = Some x \<Longrightarrow> x \<in> set xs"
  by (auto simp: js_get_eq_Some)

lemma without_index_Nil [simp]: "without_index i [] = []"
  by (simp add: without_index_def)

lemma without_index_gen:
  "map fst (filter (\<lambda>(x, j). j \<noteq> i) (zip xs [a..<a + length xs])) =
     (if i < a then xs else take (i - a) xs @ drop (Suc (i - a)) xs)"
proof (induction xs arbitrary: a)
  case Nil
  then show ?case by simp
next
  case (Cons x xs)
  have u: "[a..<a + length (x # xs)] = a # [Suc a..<Suc a + length xs]"
    by (simp add: upt_conv_Cons del: upt_Suc)
  have IH: "map fst (filter (\<lambda>(x, j). j \<noteq> i) (zip xs [Suc a..<Suc a + length xs])) =
     (if i < Suc a then xs else take (i - Suc a) xs @ drop (Suc (i - Suc a)) xs)"
    by (rule Cons.IH)
  consider "i < a" | "i = a" | k where "i = Suc a + k"
    by (metis add_Suc less_iff_Suc_add nat_neq_iff)
  then show ?case
    using IH unfolding u by cases simp_all
qed

lemma without_index_take_drop: "without_index i xs = take i xs @ drop (Suc i) xs"
  using without_index_gen [of i xs 0] by (simp add: without_index_def)

lemma without_index_insert_at:
  "i \<le> length xs \<Longrightarrow> without_index i (insert_at i x xs) = xs"
  by (simp add: without_index_take_drop insert_at_def Suc_diff_le)

lemma length_without_index: "i < length xs \<Longrightarrow> Suc (length (without_index i xs)) = length xs"
  by (simp add: without_index_take_drop)

text \<open>\<open>xs.filter((x) => x !== null)\<close> on a list of optional values.\<close>

fun somes :: "'a option list \<Rightarrow> 'a list" where
  "somes [] = []"
| "somes (None # xs) = somes xs"
| "somes (Some x # xs) = x # somes xs"

lemma set_somes [simp, arr_simps]: "x \<in> set (somes xs) \<longleftrightarrow> Some x \<in> set xs"
  by (induction xs rule: somes.induct) auto

lemma somes_map_Some [simp, arr_simps]: "somes (map Some xs) = xs"
  by (induction xs) auto

lemma somes_map_None [simp, arr_simps]: "somes (map (\<lambda>_. None) xs) = []"
  by (induction xs) auto

lemma somes_append [simp, arr_simps]: "somes (xs @ ys) = somes xs @ somes ys"
  by (induction xs rule: somes.induct) auto

lemma somes_map_id: "(\<And>x. x \<in> set xs \<Longrightarrow> f x = Some x) \<Longrightarrow> somes (map f xs) = xs"
  by (induction xs) auto

lemma subseq_somes: "(\<And>x y. x \<in> set xs \<Longrightarrow> f x = Some y \<Longrightarrow> g y = h x) \<Longrightarrow>
   subseq (map g (somes (map f xs))) (map h xs)"
proof (induction xs)
  case (Cons x xs)
  then show ?case by (cases "f x") auto
qed simp

section \<open>Insertion-ordered sets\<close>

definition set_add :: "'a \<Rightarrow> 'a list \<Rightarrow> 'a list" where
  "set_add x s = (if x \<in> set s then s else s @ [x])"

definition set_delete :: "'a \<Rightarrow> 'a list \<Rightarrow> 'a list" where
  "set_delete x s = filter (\<lambda>y. y \<noteq> x) s"

definition js_set :: "'a list \<Rightarrow> 'a list" where
  "js_set xs = foldl (\<lambda>s x. set_add x s) [] xs"

lemma set_set_add [simp, arr_simps]: "set (set_add x s) = insert x (set s)"
  by (auto simp: set_add_def)

lemma distinct_set_add [simp, arr_simps]: "distinct s \<Longrightarrow> distinct (set_add x s)"
  by (simp add: set_add_def)

lemma set_set_delete [simp, arr_simps]: "set (set_delete x s) = set s - {x}"
  by (auto simp: set_delete_def)

lemma distinct_set_delete [simp, arr_simps]: "distinct s \<Longrightarrow> distinct (set_delete x s)"
  by (simp add: set_delete_def)

lemma foldl_set_add:
  "set (foldl (\<lambda>s x. set_add x s) s xs) = set s \<union> set xs \<and>
   (distinct s \<longrightarrow> distinct (foldl (\<lambda>s x. set_add x s) s xs))"
  by (induction xs arbitrary: s) auto

lemma set_js_set [simp, arr_simps]: "set (js_set xs) = set xs"
  using foldl_set_add [of "[]" xs] by (simp add: js_set_def)

lemma distinct_js_set [simp, arr_simps]: "distinct (js_set xs)"
  using foldl_set_add [of "[]" xs] by (simp add: js_set_def)

lemma js_set_snoc: "js_set (xs @ [x]) = set_add x (js_set xs)"
  by (simp add: js_set_def)

lemma js_set_distinct: "distinct xs \<Longrightarrow> js_set xs = xs"
proof (induction xs rule: rev_induct)
  case Nil
  then show ?case by (simp add: js_set_def)
next
  case (snoc x xs)
  then show ?case by (simp add: js_set_snoc set_add_def)
qed

section \<open>Strings\<close>

definition code_unit :: "char \<Rightarrow> nat" where
  "code_unit c = of_char c"

definition digit :: "nat \<Rightarrow> char" where
  "digit d = char_of (48 + d)"

fun show_nat :: "nat \<Rightarrow> string" where
  "show_nat n = (if n < 10 then [digit n] else show_nat (n div 10) @ [digit (n mod 10)])"

declare show_nat.simps [simp del]

definition is_digit :: "char \<Rightarrow> bool" where
  "is_digit c \<longleftrightarrow> 48 \<le> code_unit c \<and> code_unit c \<le> 57"

definition read_nat :: "string \<Rightarrow> nat" where
  "read_nat s = foldl (\<lambda>a c. 10 * a + (code_unit c - 48)) 0 s"

lemma code_unit_digit: "d < 10 \<Longrightarrow> code_unit (digit d) = 48 + d"
  by (simp add: code_unit_def digit_def)

lemma read_show_nat [simp]: "read_nat (show_nat n) = n"
proof (induction n rule: show_nat.induct)
  case (1 n)
  show ?case
  proof (cases "n < 10")
    case True
    then show ?thesis
      by (subst show_nat.simps) (simp add: read_nat_def code_unit_digit)
  next
    case False
    with 1 have "read_nat (show_nat (n div 10)) = n div 10" by simp
    with False show ?thesis
      by (subst show_nat.simps) (simp add: read_nat_def code_unit_digit)
  qed
qed

lemma show_nat_inject [simp]: "show_nat m = show_nat n \<longleftrightarrow> m = n"
  by (metis read_show_nat)

lemma show_nat_digits: "\<forall>c \<in> set (show_nat n). is_digit c"
proof (induction n rule: show_nat.induct)
  case (1 n)
  have d: "is_digit (digit k)" if "k < 10" for k
    using that by (simp add: is_digit_def code_unit_digit)
  show ?case
  proof (cases "n < 10")
    case True
    then show ?thesis by (subst show_nat.simps) (simp add: d)
  next
    case False
    with 1 show ?thesis by (subst show_nat.simps) (simp add: d)
  qed
qed

lemma show_nat_nonempty [simp]: "show_nat n \<noteq> []"
  by (subst show_nat.simps) simp

lemma Nil_neq_show_nat [simp]: "[] \<noteq> show_nat n"
  by (metis show_nat_nonempty)

lemma show_nat_no_char: "\<not> is_digit c \<Longrightarrow> c \<notin> set (show_nat n)"
  using show_nat_digits by blast

definition starts_with :: "string \<Rightarrow> string \<Rightarrow> bool" where
  "starts_with p s \<longleftrightarrow> take (length p) s = p"

definition ends_with :: "string \<Rightarrow> string \<Rightarrow> bool" where
  "ends_with p s \<longleftrightarrow> length p \<le> length s \<and> drop (length s - length p) s = p"

fun includes_str :: "string \<Rightarrow> string \<Rightarrow> bool" where
  "includes_str p [] \<longleftrightarrow> p = []"
| "includes_str p (c # s) \<longleftrightarrow> starts_with p (c # s) \<or> includes_str p s"

fun index_of :: "string \<Rightarrow> string \<Rightarrow> nat option" where
  "index_of p [] = (if p = [] then Some 0 else None)"
| "index_of p (c # s) =
     (if starts_with p (c # s) then Some 0 else map_option Suc (index_of p s))"

definition index_of_from :: "string \<Rightarrow> string \<Rightarrow> nat \<Rightarrow> nat option" where
  "index_of_from p s from = map_option ((+) (min from (length s))) (index_of p (drop from s))"

lemma index_of_Some:
  "index_of p s = Some i \<Longrightarrow> i + length p \<le> length s \<and> take (length p) (drop i s) = p"
proof (induction p s arbitrary: i rule: index_of.induct)
  case (2 p c s)
  then show ?case
    by (auto simp: starts_with_def split: if_splits)
      (metis diff_le_self length_Cons length_take min.absorb_iff2 min_def nle_le take_all_iff)
qed (auto split: if_splits)

lemma index_of_char:
  "index_of [c] s = (if c \<in> set s then Some (length (takeWhile (\<lambda>x. x \<noteq> c) s)) else None)"
  by (induction s) (auto simp: starts_with_def)

lemma index_of_None: "index_of p s = None \<Longrightarrow> take (length p) (drop i s) = p \<Longrightarrow> length s < i + length p"
proof (induction p s arbitrary: i rule: index_of.induct)
  case (2 p c s)
  then show ?case
    by (cases i) (auto simp: starts_with_def split: if_splits)
qed (auto split: if_splits)

lemma index_of_from_Some:
  assumes "index_of_from p s from = Some i" and "p \<noteq> []"
  shows "from \<le> i" and "i + length p \<le> length s" and "take (length p) (drop i s) = p"
proof -
  obtain j where j: "index_of p (drop from s) = Some j" "i = min from (length s) + j"
    using assms(1) by (auto simp: index_of_from_def)
  have *: "j + length p \<le> length s - from" "take (length p) (drop j (drop from s)) = p"
    using index_of_Some [OF j(1)] by simp_all
  have "0 < length p" using assms(2) by simp
  with *(1) have le: "from \<le> length s" by linarith
  with j(2) have i: "i = from + j" by simp
  show "from \<le> i" using i by simp
  show "i + length p \<le> length s" using i le *(1) by linarith
  show "take (length p) (drop i s) = p" using *(2) i by (simp add: add.commute)
qed

definition last_index_of_char :: "char \<Rightarrow> string \<Rightarrow> nat option" where
  "last_index_of_char c s =
     (if c \<in> set s then Some (length s - Suc (length (takeWhile (\<lambda>x. x \<noteq> c) (rev s)))) else None)"

definition to_lower_char :: "char \<Rightarrow> char" where
  "to_lower_char c =
     (let n = code_unit c in
      if (65 \<le> n \<and> n \<le> 90) \<or> (192 \<le> n \<and> n \<le> 222 \<and> n \<noteq> 215) then char_of (n + 32) else c)"

definition to_lower :: "string \<Rightarrow> string" where
  "to_lower s = map to_lower_char s"

definition is_space :: "char \<Rightarrow> bool" where
  "is_space c \<longleftrightarrow> (9 \<le> code_unit c \<and> code_unit c \<le> 13) \<or> code_unit c = 32 \<or> code_unit c = 160"

definition trim :: "string \<Rightarrow> string" where
  "trim s = rev (dropWhile is_space (rev (dropWhile is_space s)))"

fun split_char :: "char \<Rightarrow> string \<Rightarrow> string list" where
  "split_char d [] = [[]]"
| "split_char d (c # s) =
     (if c = d then [] # split_char d s
      else (case split_char d s of [] \<Rightarrow> [[c]] | w # ws \<Rightarrow> (c # w) # ws))"

fun join_with :: "string \<Rightarrow> string list \<Rightarrow> string" where
  "join_with sep [] = []"
| "join_with sep [x] = x"
| "join_with sep (x # y # ys) = x @ sep @ join_with sep (y # ys)"

lemma map_pair_zip: "map (\<lambda>x. (f x, g x)) xs = zip (map f xs) (map g xs)"
  by (induction xs) auto

lemma split_char_nonempty [simp, str_simps]: "split_char d s \<noteq> []"
  by (induction s) (auto split: list.splits)

lemma join_split_char [simp, str_simps]: "join_with [d] (split_char d s) = s"
proof (induction s)
  case Nil
  then show ?case by simp
next
  case (Cons c s)
  obtain w ws where "split_char d s = w # ws"
    by (cases "split_char d s") simp_all
  with Cons show ?case by (cases ws) auto
qed

lemma split_char_no_sep: "d \<notin> set s \<Longrightarrow> split_char d s = [s]"
  by (induction s) auto

lemma split_char_append:
  "d \<notin> set u \<Longrightarrow> split_char d (u @ d # v) = u # split_char d v"
  by (induction u) auto

lemma split_char_join_parts: "split_char d (u @ d # v) = split_char d u @ split_char d v"
proof (induction u)
  case (Cons c u)
  then show ?case by (cases "split_char d u") auto
qed simp

lemma split_join_char:
  "xs \<noteq> [] \<Longrightarrow> \<forall>x \<in> set xs. d \<notin> set x \<Longrightarrow> split_char d (join_with [d] xs) = xs"
proof (induction xs rule: induct_list012)
  case (3 x y zs)
  then show ?case by (simp add: split_char_append)
qed (auto simp: split_char_no_sep)

lemma ends_with_append [simp, str_simps]: "ends_with p (s @ p)"
  by (simp add: ends_with_def)

lemma starts_with_append [simp, str_simps]: "starts_with p (p @ s)"
  by (simp add: starts_with_def)

lemma ends_with_iff: "ends_with p s \<longleftrightarrow> (\<exists>u. s = u @ p)"
  by (auto simp: ends_with_def) (metis append_take_drop_id)

section \<open>Fresh names\<close>

text \<open>
  Three loops of the program look for a name that is not taken by counting a suffix up.
  \<open>fresh_from\<close> is that loop with fuel; the locale shows that one more step than there are
  taken names is enough whenever the candidates are pairwise different, and that the result
  is the first free candidate.
\<close>

fun fresh_from :: "nat \<Rightarrow> (nat \<Rightarrow> string) \<Rightarrow> string list \<Rightarrow> nat \<Rightarrow> nat option" where
  "fresh_from 0 cand taken n = None"
| "fresh_from (Suc fuel) cand taken n =
     (if cand n \<in> set taken then fresh_from fuel cand taken (Suc n) else Some n)"

locale namer =
  fixes cand :: "nat \<Rightarrow> string"
  assumes cand_inject: "cand m = cand n \<longleftrightarrow> m = n"
begin

lemma fresh_from_first:
  "fresh_from fuel cand taken n = Some k \<Longrightarrow>
     n \<le> k \<and> cand k \<notin> set taken \<and> (\<forall>i. n \<le> i \<and> i < k \<longrightarrow> cand i \<in> set taken)"
proof (induction fuel arbitrary: n)
  case 0
  then show ?case by simp
next
  case (Suc fuel)
  show ?case
  proof (cases "cand n \<in> set taken")
    case True
    with Suc have "Suc n \<le> k \<and> cand k \<notin> set taken \<and> (\<forall>i. Suc n \<le> i \<and> i < k \<longrightarrow> cand i \<in> set taken)"
      by simp
    with True show ?thesis by (metis Suc_leD le_antisym not_less_eq_eq)
  next
    case False
    with Suc.prems have "n = k" by simp
    with False show ?thesis by (metis leD order_refl)
  qed
qed

lemma fresh_from_None:
  "fresh_from fuel cand taken n = None \<Longrightarrow> \<forall>i. n \<le> i \<and> i < n + fuel \<longrightarrow> cand i \<in> set taken"
proof (induction fuel arbitrary: n)
  case 0
  then show ?case by (metis add_0_right leD)
next
  case (Suc fuel)
  then have "cand n \<in> set taken" and "fresh_from fuel cand taken (Suc n) = None"
    by (auto split: if_splits)
  with Suc.IH [of "Suc n"] show ?case
    by (metis Suc_leI add_Suc_shift le_neq_implies_less)
qed

lemma fresh_from_enough: "\<exists>k. fresh_from (Suc (length taken)) cand taken n = Some k"
proof (rule ccontr)
  assume "\<nexists>k. fresh_from (Suc (length taken)) cand taken n = Some k"
  then have "cand ` {n..<n + Suc (length taken)} \<subseteq> set taken"
    using fresh_from_None by fastforce
  then have "card (cand ` {n..<n + Suc (length taken)}) \<le> length taken"
    by (metis card_length card_mono finite_set le_trans)
  moreover have "card (cand ` {n..<n + Suc (length taken)}) = Suc (length taken)"
    by (subst card_image) (auto intro: inj_onI simp: cand_inject)
  ultimately show False by simp
qed

lemma fresh_name:
  "\<exists>k. fresh_from (Suc (length taken)) cand taken n = Some k \<and> cand k \<notin> set taken \<and>
       (\<forall>i. n \<le> i \<and> i < k \<longrightarrow> cand i \<in> set taken)"
  using fresh_from_enough fresh_from_first by blast

end

text \<open>
  The candidates that all three loops try: a fixed name first, then a prefix with the counter
  2, 3, \dots
\<close>

definition numbered :: "string \<Rightarrow> string \<Rightarrow> nat \<Rightarrow> string" where
  "numbered base pre n = (if n = 0 then base else pre @ show_nat (Suc n))"

lemma numbered_inject:
  assumes "\<And>n. base \<noteq> pre @ show_nat n"
  shows "numbered base pre m = numbered base pre n \<longleftrightarrow> m = n"
  using assms by (auto simp: numbered_def)

lemma append_not_numbered: "s \<noteq> s @ show_nat n"
  by simp

section \<open>Stable sorting\<close>

text \<open>\<open>Array.sort\<close> is stable; its default comparator is the order of the code units.\<close>

fun insert_by :: "('a \<Rightarrow> 'a \<Rightarrow> bool) \<Rightarrow> 'a \<Rightarrow> 'a list \<Rightarrow> 'a list" where
  "insert_by leq x [] = [x]"
| "insert_by leq x (y # ys) = (if leq x y then x # y # ys else y # insert_by leq x ys)"

definition sort_by :: "('a \<Rightarrow> 'a \<Rightarrow> bool) \<Rightarrow> 'a list \<Rightarrow> 'a list" where
  "sort_by leq xs = foldr (insert_by leq) xs []"

fun str_leq :: "string \<Rightarrow> string \<Rightarrow> bool" where
  "str_leq [] ys = True"
| "str_leq (x # xs) [] = False"
| "str_leq (x # xs) (y # ys) = (code_unit x < code_unit y \<or> (x = y \<and> str_leq xs ys))"

lemma mset_insert_by [simp]: "mset (insert_by leq x xs) = add_mset x (mset xs)"
  by (induction xs) auto

lemma mset_sort_by: "mset (sort_by leq xs) = mset xs"
  by (induction xs) (simp_all add: sort_by_def)

lemma set_sort_by [simp]: "set (sort_by leq xs) = set xs"
  by (metis mset_sort_by set_mset_mset)

lemma set_insert_by [simp]: "set (insert_by leq x xs) = insert x (set xs)"
  by (induction xs) auto

lemma sorted_sort_by:
  assumes "\<And>a b. leq a b \<or> leq b a" "\<And>a b c. leq a b \<Longrightarrow> leq b c \<Longrightarrow> leq a c"
  shows "sorted_wrt leq (sort_by leq xs)"
proof -
  have "sorted_wrt leq ys \<Longrightarrow> sorted_wrt leq (insert_by leq x ys)" for x ys
    by (induction ys) (use assms in \<open>auto intro: assms(2)\<close>)
  then show ?thesis by (induction xs) (simp_all add: sort_by_def)
qed

end
