(* ===== verification/Js_Object.thy ===== *)
theory Js_Object
  imports Js_Prelude
begin

text \<open>
  JavaScript objects used as dictionaries (\<open>Record<string, T>\<close>): an association list in the
  order of \<open>Object.entries\<close>. Keys that are canonical array indices come first and ascending,
  the other keys follow in the order they were created; overwriting a key keeps its place.
  Only own properties are modelled: no key is one of \<open>Object.prototype\<close>'s names.
\<close>

type_synonym 'v jobj = "(string \<times> 'v) list"

definition is_index_key :: "string \<Rightarrow> bool" where
  "is_index_key k \<longleftrightarrow>
     k \<noteq> [] \<and> list_all is_digit k \<and> (hd k \<noteq> CHR ''0'' \<or> length k = 1) \<and> read_nat k < 4294967295"

definition obj_keys :: "'v jobj \<Rightarrow> string list" where
  "obj_keys ob = map fst ob"

definition obj_get :: "'v jobj \<Rightarrow> string \<Rightarrow> 'v option" where
  "obj_get ob k = map_of ob k"

definition has_key :: "'v jobj \<Rightarrow> string \<Rightarrow> bool" where
  "has_key ob k \<longleftrightarrow> obj_get ob k \<noteq> None"

definition before_key :: "string \<Rightarrow> string \<times> 'v \<Rightarrow> bool" where
  "before_key k e \<longleftrightarrow> is_index_key (fst e) \<and> read_nat (fst e) < read_nat k"

definition obj_put :: "'v jobj \<Rightarrow> string \<Rightarrow> 'v \<Rightarrow> 'v jobj" where
  "obj_put ob k v =
     (if has_key ob k then map (\<lambda>(k', v'). if k' = k then (k', v) else (k', v')) ob
      else if is_index_key k then takeWhile (before_key k) ob @ (k, v) # dropWhile (before_key k) ob
      else ob @ [(k, v)])"

definition obj_delete :: "'v jobj \<Rightarrow> string \<Rightarrow> 'v jobj" where
  "obj_delete ob k = filter (\<lambda>(k', v'). k' \<noteq> k) ob"

definition obj_wf :: "'v jobj \<Rightarrow> bool" where
  "obj_wf ob \<longleftrightarrow> distinct (obj_keys ob)"

text \<open>An object literal or a loop of assignments into a fresh object.\<close>

definition obj_of :: "(string \<times> 'v) list \<Rightarrow> 'v jobj" where
  "obj_of es = foldl (\<lambda>ob (k, v). obj_put ob k v) [] es"

section \<open>The record interface\<close>

text \<open>
  What the clients of a record rely on: reading after writing, reading after deleting, and
  that both keep the well-formedness. The laws for re-keying an entry and for deleting a set
  of keys are proved once from them.
\<close>

locale record_store =
  fixes lookup :: "'m \<Rightarrow> string \<Rightarrow> 'v option"
    and put :: "'m \<Rightarrow> string \<Rightarrow> 'v \<Rightarrow> 'm"
    and del :: "'m \<Rightarrow> string \<Rightarrow> 'm"
    and wf :: "'m \<Rightarrow> bool"
  assumes lookup_put: "lookup (put m k v) k' = (if k' = k then Some v else lookup m k')"
    and lookup_del: "lookup (del m k) k' = (if k' = k then None else lookup m k')"
    and wf_put: "wf m \<Longrightarrow> wf (put m k v)"
    and wf_del: "wf m \<Longrightarrow> wf (del m k)"
begin

lemma lookup_rekey:
  assumes "a \<noteq> b" and "lookup m a = Some v"
  shows "lookup (del (put m b v) a) k =
    (if k = a then None else if k = b then lookup m a else lookup m k)"
  using assms by (simp add: lookup_put lookup_del)

lemma lookup_del_all:
  "lookup (foldl del m ks) k = (if k \<in> set ks then None else lookup m k)"
  by (induction ks arbitrary: m) (auto simp: lookup_del)

lemma wf_del_all: "wf m \<Longrightarrow> wf (foldl del m ks)"
  by (induction ks arbitrary: m) (auto intro: wf_del)

lemma lookup_put_all:
  "lookup (foldl (\<lambda>m (k, v). put m k v) m es) k =
     (case map_of (rev es) k of None \<Rightarrow> lookup m k | Some v \<Rightarrow> Some v)"
proof (induction es arbitrary: m)
  case Nil
  then show ?case by simp
next
  case (Cons e es)
  obtain k' v' where "e = (k', v')" by (cases e)
  with Cons show ?case
    by (auto simp: lookup_put map_add_def split: option.splits)
qed

text \<open>
  Re-keying a batch of entries one after the other. When no old key is also a new key, the
  order does not matter and every entry ends up under its new key.
\<close>

definition rekey :: "'m \<Rightarrow> string \<times> string \<Rightarrow> 'm" where
  "rekey m = (\<lambda>(a, b). case lookup m a of None \<Rightarrow> m | Some v \<Rightarrow> del (put m b v) a)"

lemma lookup_rekey_step:
  "a \<noteq> b \<Longrightarrow> lookup (rekey m (a, b)) k =
     (if k = a then None else if k = b \<and> lookup m a \<noteq> None then lookup m a else lookup m k)"
  by (auto simp: rekey_def lookup_put lookup_del split: option.splits)

lemma wf_rekey_all: "wf m \<Longrightarrow> wf (foldl rekey m rs)"
  by (induction rs arbitrary: m) (auto simp: rekey_def wf_put wf_del split: option.splits)

lemma lookup_rekey_all:
  assumes "distinct (map fst rs)" and "distinct (map snd rs)"
    and "set (map fst rs) \<inter> set (map snd rs) = {}"
  shows "lookup (foldl rekey m rs) k =
    (if k \<in> set (map fst rs) then None
     else case map_of (map prod.swap rs) k of
       None \<Rightarrow> lookup m k
     | Some a \<Rightarrow> (case lookup m a of None \<Rightarrow> lookup m k | Some v \<Rightarrow> Some v))"
  using assms
proof (induction rs arbitrary: m)
  case Nil
  then show ?case by simp
next
  case (Cons r rs)
  obtain a b where r: "r = (a, b)" by (cases r)
  have ab: "a \<noteq> b" and b: "b \<notin> set (map fst rs)" "b \<notin> set (map snd rs)"
    and a: "a \<notin> set (map fst rs)" "a \<notin> set (map snd rs)"
    using Cons.prems by (auto simp: r)
  have swap: "map_of (map prod.swap rs) j = None" if "j \<notin> set (map snd rs)" for j
    using that by (induction rs) auto
  have dom: "i \<in> set (map fst rs)" if "map_of (map prod.swap rs) j = Some i" for i j
    using that by (induction rs) (auto split: if_splits)
  have step: "lookup (rekey m (a, b)) j =
      (if j = a then None else if j = b \<and> lookup m a \<noteq> None then lookup m a else lookup m j)" for j
    by (rule lookup_rekey_step [OF ab])
  have IH: "lookup (foldl rekey (rekey m (a, b)) rs) k =
    (if k \<in> set (map fst rs) then None
     else case map_of (map prod.swap rs) k of
       None \<Rightarrow> lookup (rekey m (a, b)) k
     | Some i \<Rightarrow> (case lookup (rekey m (a, b)) i of None \<Rightarrow> lookup (rekey m (a, b)) k | Some v \<Rightarrow> Some v))"
    using Cons.prems by (intro Cons.IH) (auto simp: r)
  consider "k \<in> set (map fst rs)" | "k = a" | "k = b" | "k \<notin> set (map fst (r # rs))" "k \<noteq> b"
    by (auto simp: r)
  then show ?case
  proof cases
    case 1
    then show ?thesis using IH by (simp add: r)
  next
    case 2
    then show ?thesis using IH a swap [of a] by (simp add: r step)
  next
    case 3
    then show ?thesis using IH b ab swap [of b] by (auto simp: r step split: option.splits)
  next
    case 4
    show ?thesis
    proof (cases "map_of (map prod.swap rs) k")
      case None
      then show ?thesis using IH 4 by (simp add: r step)
    next
      case (Some i)
      then have "i \<in> set (map fst rs)" by (rule dom)
      then have "i \<noteq> a" "i \<noteq> b" using a b by auto
      with Some show ?thesis using IH 4 by (simp add: r step split: option.splits)
    qed
  qed
qed

lemma wf_put_all: "wf m \<Longrightarrow> wf (foldl (\<lambda>m (k, v). put m k v) m es)"
  by (induction es arbitrary: m) (auto intro: wf_put)

end

lemma map_of_overwrite:
  "map_of (map (\<lambda>(k', v'). if k' = k then (k', v) else (k', v')) ob) j =
     (if j = k \<and> map_of ob k \<noteq> None then Some v else map_of ob j)"
  by (induction ob) auto

lemma map_of_insert_middle:
  "map_of (xs @ ys) k = None \<Longrightarrow>
   map_of (xs @ (k, v) # ys) j = (if j = k then Some v else map_of (xs @ ys) j)"
  by (induction xs) (auto split: if_splits)

lemma obj_get_put: "obj_get (obj_put ob k v) j = (if j = k then Some v else obj_get ob j)"
proof (cases "has_key ob k")
  case True
  then show ?thesis
    by (simp add: obj_put_def obj_get_def has_key_def map_of_overwrite)
next
  case False
  then have "map_of (takeWhile (before_key k) ob @ dropWhile (before_key k) ob) k = None"
    by (simp add: has_key_def obj_get_def)
  from map_of_insert_middle [OF this, of v j]
  have "map_of (takeWhile (before_key k) ob @ (k, v) # dropWhile (before_key k) ob) j =
      (if j = k then Some v else map_of ob j)"
    by (simp only: takeWhile_dropWhile_id)
  with False show ?thesis
    by (cases "is_index_key k") (auto simp: obj_put_def obj_get_def has_key_def map_add_def split: option.splits)
qed

lemma obj_get_delete: "obj_get (obj_delete ob k) j = (if j = k then None else obj_get ob j)"
  by (induction ob) (auto simp: obj_get_def obj_delete_def)

lemma keys_overwrite:
  "map fst (map (\<lambda>(k', v'). if k' = k then (k', v) else (k', v')) ob) = map fst ob"
  by (induction ob) auto

lemma has_key_iff: "has_key ob k \<longleftrightarrow> k \<in> set (obj_keys ob)"
  by (simp add: has_key_def obj_get_def obj_keys_def map_of_eq_None_iff)

lemma obj_wf_put: "obj_wf ob \<Longrightarrow> obj_wf (obj_put ob k v)"
proof (cases "has_key ob k")
  case True
  then show "obj_wf ob \<Longrightarrow> ?thesis"
    by (simp add: obj_put_def obj_wf_def obj_keys_def keys_overwrite del: map_map)
next
  case False
  have "map fst ob = map fst (takeWhile (before_key k) ob) @ map fst (dropWhile (before_key k) ob)"
    by (metis map_append takeWhile_dropWhile_id)
  with False show "obj_wf ob \<Longrightarrow> ?thesis"
    by (auto simp: obj_put_def obj_wf_def obj_keys_def has_key_iff)
qed

lemma obj_wf_delete: "obj_wf ob \<Longrightarrow> obj_wf (obj_delete ob k)"
  by (induction ob) (auto simp: obj_wf_def obj_keys_def obj_delete_def)

interpretation obj: record_store obj_get obj_put obj_delete obj_wf
  by unfold_locales (simp_all add: obj_get_put obj_get_delete obj_wf_put obj_wf_delete)

lemmas obj_laws = obj_get_put obj_get_delete

lemma obj_wf_empty [simp]: "obj_wf []"
  by (simp add: obj_wf_def obj_keys_def)

lemma obj_get_empty [simp]: "obj_get [] k = None"
  by (simp add: obj_get_def)

lemma has_key_put [simp]: "has_key (obj_put ob k v) j \<longleftrightarrow> j = k \<or> has_key ob j"
  by (simp add: has_key_def obj_get_put)

lemma has_key_delete [simp]: "has_key (obj_delete ob k) j \<longleftrightarrow> j \<noteq> k \<and> has_key ob j"
  by (simp add: has_key_def obj_get_delete)

lemma obj_wf_of: "obj_wf (obj_of es)"
  unfolding obj_of_def by (rule obj.wf_put_all) simp

lemma obj_get_of: "obj_get (obj_of es) k = map_of (rev es) k"
  unfolding obj_of_def obj.lookup_put_all by (simp split: option.splits)

lemma obj_get_in: "obj_wf ob \<Longrightarrow> (k, v) \<in> set ob \<Longrightarrow> obj_get ob k = Some v"
  by (simp add: obj_wf_def obj_keys_def obj_get_def)

lemma obj_get_mem: "obj_get ob k = Some v \<Longrightarrow> (k, v) \<in> set ob"
  by (simp add: obj_get_def map_of_SomeD)

text \<open>
  \<open>Map\<close> with \<open>set\<close> in a loop: insertion order, the last value of a key at its first place.
\<close>

definition map_set :: "(string \<times> 'v) list \<Rightarrow> string \<Rightarrow> 'v \<Rightarrow> (string \<times> 'v) list" where
  "map_set m k v =
     (if map_of m k \<noteq> None then map (\<lambda>(k', v'). if k' = k then (k', v) else (k', v')) m
      else m @ [(k, v)])"

lemma map_set_new: "k \<notin> set (map fst m) \<Longrightarrow> map_set m k v = m @ [(k, v)]"
  by (simp add: map_set_def map_of_eq_None_iff)

lemma map_of_map_set: "map_of (map_set m k v) j = (if j = k then Some v else map_of m j)"
  by (auto simp: map_set_def map_of_overwrite map_add_def split: option.splits)

lemma keys_map_set: "set (map fst (map_set m k v)) = insert k (set (map fst m))"
proof (cases "map_of m k")
  case None
  then show ?thesis by (auto simp: map_set_def)
next
  case (Some w)
  then have "k \<in> set (map fst m)" by (metis map_of_eq_None_iff option.distinct(1) set_map)
  with Some show ?thesis
    unfolding map_set_def using keys_overwrite [of k v m] by (simp del: map_map) blast
qed

end
