(* ===== verification/Js_Value.thy ===== *)
theory Js_Value
  imports Js_Object
begin

text \<open>
  Plain JavaScript values (\<open>unknown\<close> in the TypeScript) and the two bridges of
  \<^verbatim>\<open>model/generic.ts\<close> between them and the server's externally tagged \<open>GenericValue\<close>;
  then \<open>JSON.stringify\<close>/\<open>JSON.parse\<close> on such values and the browser's \<open>localStorage\<close>.
  Numbers are rationals with the IEEE specials; rounding is not modelled.
\<close>

datatype js_num = Fin rat | NaN | Infinite bool

datatype js =
    JUndef
  | JNull
  | JBool bool
  | JNum js_num
  | JStr string
  | JArr "js list"
  | JObj "(string \<times> js) list"
  | JBigint int
  | JExotic  \<comment> \<open>a function or a symbol, which \<open>JSON.stringify\<close> maps to \<open>undefined\<close>\<close>

definition is_integer_num :: "js_num \<Rightarrow> bool" where
  "is_integer_num n = (case n of Fin q \<Rightarrow> of_int \<lfloor>q\<rfloor> = q | _ \<Rightarrow> False)"

definition show_int :: "int \<Rightarrow> string" where
  "show_int i = (if i < 0 then CHR ''-'' # show_nat (nat (- i)) else show_nat (nat i))"

section \<open>GenericValue\<close>

fun toGeneric :: "js \<Rightarrow> js" where
  "toGeneric JNull = JStr ''Null''"
| "toGeneric JUndef = JStr ''Null''"
| "toGeneric (JBool b) = JObj [(''Bool'', JBool b)]"
| "toGeneric (JNum n) =
     (if is_integer_num n then JObj [(''BigInt'', JNum n)] else JObj [(''Double'', JNum n)])"
| "toGeneric (JStr s) = JObj [(''String'', JStr s)]"
| "toGeneric (JArr xs) = JObj [(''Array'', JArr (map toGeneric xs))]"
| "toGeneric (JObj es) = JObj [(''Map'', JObj (obj_of (map (\<lambda>(k, v). (k, toGeneric v)) es)))]"
| "toGeneric (JBigint i) = JObj [(''String'', JStr (show_int i))]"
| "toGeneric JExotic = JObj [(''String'', JStr '''')]"

text \<open>The tags whose payload is returned as it is, in the order they are tried.\<close>

definition scalar_tags :: "string list" where
  "scalar_tags =
     [''Bool'', ''String'', ''Uuid'', ''SmallInt'', ''Int'', ''BigInt'', ''Float'', ''Double'',
      ''Decimal'', ''Date'', ''Time'', ''Timestamp'', ''TimestampTz'']"

definition scalar_payload :: "js jobj \<Rightarrow> js option" where
  "scalar_payload ob = (case find (has_key ob) scalar_tags of None \<Rightarrow> None | Some k \<Rightarrow> obj_get ob k)"

lemma entry_size: "(k, v) \<in> set ob \<Longrightarrow> size v < size_list (size_prod (\<lambda>_. 0) size) ob"
  by (induction ob) auto

lemma obj_get_size: "obj_get ob k = Some v \<Longrightarrow> size v < size (JObj ob)"
  using entry_size [OF obj_get_mem] by fastforce

lemma arr_elem_size: "x \<in> set xs \<Longrightarrow> size x < size (JArr xs)"
  by (simp add: less_Suc_eq_le size_list_estimation')

function fromGeneric :: "js \<Rightarrow> js" where
  "fromGeneric g =
     (case g of
        JNull \<Rightarrow> JNull
      | JUndef \<Rightarrow> JNull
      | JStr s \<Rightarrow> (if s = ''Null'' then JNull else g)
      | JObj ob \<Rightarrow>
          (case scalar_payload ob of
             Some v \<Rightarrow> v
           | None \<Rightarrow>
               (case obj_get ob ''Array'' of
                  Some (JArr xs) \<Rightarrow> JArr (map fromGeneric xs)
                | _ \<Rightarrow>
                    (case obj_get ob ''Map'' of
                       Some (JObj es) \<Rightarrow> JObj (obj_of (map (\<lambda>(k, v). (k, fromGeneric v)) es))
                     | Some (JArr xs) \<Rightarrow>
                         JObj (obj_of (zip (map show_nat [0..<length xs]) (map fromGeneric xs)))
                     | _ \<Rightarrow> g)))
      | _ \<Rightarrow> g)"
  by pat_completeness auto
termination
  by (relation "measure size")
     (auto dest!: obj_get_size arr_elem_size entry_size)

declare fromGeneric.simps [simp del]

text \<open>
  A plain value as a user can type it: no \<open>undefined\<close>, no exotic value, and every object in
  the order its own keys are enumerated in.
\<close>

fun plain :: "js \<Rightarrow> bool" where
  "plain JNull = True"
| "plain (JBool b) = True"
| "plain (JNum n) = True"
| "plain (JStr s) = True"
| "plain (JArr xs) = list_all plain xs"
| "plain (JObj es) = (obj_of es = es \<and> list_all (\<lambda>(k, v). plain v) es)"
| "plain _ = False"

lemma scalar_payload_hit:
  "k \<in> set scalar_tags \<Longrightarrow> scalar_payload [(k, v)] = Some v"
  by (auto simp: scalar_payload_def scalar_tags_def has_key_def obj_get_def)

lemma scalar_payload_miss:
  "k \<notin> set scalar_tags \<Longrightarrow> scalar_payload [(k, v)] = None"
  by (auto simp: scalar_payload_def scalar_tags_def has_key_def obj_get_def)

lemma fromGeneric_tagged:
  "k \<in> set scalar_tags \<Longrightarrow> fromGeneric (JObj [(k, v)]) = v"
  by (simp add: fromGeneric.simps scalar_payload_hit)

lemma fromGeneric_Array: "fromGeneric (JObj [(''Array'', JArr xs)]) = JArr (map fromGeneric xs)"
  by (subst fromGeneric.simps)
     (simp add: scalar_payload_miss scalar_tags_def obj_get_def cong: map_cong)

lemma fromGeneric_Map:
  "fromGeneric (JObj [(''Map'', JObj es)]) = JObj (obj_of (map (\<lambda>(k, v). (k, fromGeneric v)) es))"
  by (subst fromGeneric.simps) (simp add: scalar_payload_miss scalar_tags_def obj_get_def)

text \<open>Re-assigning the values of an object's entries keeps the enumeration order of its keys.\<close>

lemma obj_put_map:
  "map (\<lambda>(k, v). (k, f v)) (obj_put ob k v) = obj_put (map (\<lambda>(k, v). (k, f v)) ob) k (f v)"
proof -
  have keys: "map fst (map (\<lambda>(k, v). (k, f v)) ob) = map fst ob"
    by (induction ob) auto
  then have hk: "has_key (map (\<lambda>(k, v). (k, f v)) ob) k = has_key ob k"
    unfolding has_key_iff obj_keys_def by (simp only:)
  have tw: "takeWhile (before_key k) (map (\<lambda>(k, v). (k, f v)) ob) =
      map (\<lambda>(k, v). (k, f v)) (takeWhile (before_key k) ob)"
    and dw: "dropWhile (before_key k) (map (\<lambda>(k, v). (k, f v)) ob) =
      map (\<lambda>(k, v). (k, f v)) (dropWhile (before_key k) ob)"
    by (induction ob) (auto simp: before_key_def)
  show ?thesis
    unfolding obj_put_def hk tw dw by (auto simp: case_prod_unfold)
qed

lemma obj_of_map: "obj_of (map (\<lambda>(k, v). (k, f v)) es) = map (\<lambda>(k, v). (k, f v)) (obj_of es)"
proof (induction es rule: rev_induct)
  case Nil
  then show ?case by (simp add: obj_of_def)
next
  case (snoc e es)
  obtain k v where "e = (k, v)" by (cases e)
  with snoc show ?case by (simp add: obj_of_def obj_put_map)
qed

lemma generic_roundtrip: "plain v \<Longrightarrow> fromGeneric (toGeneric v) = v"
proof (induction v)
  case JNull
  then show ?case by (simp add: fromGeneric.simps)
next
  case (JArr xs)
  then have "map (\<lambda>x. fromGeneric (toGeneric x)) xs = map (\<lambda>x. x) xs"
    by (intro map_cong) (auto simp: list_all_iff)
  then show ?case by (simp add: fromGeneric_Array comp_def)
next
  case (JObj es)
  have id: "map (\<lambda>(k, v). (k, fromGeneric (toGeneric v))) es = es"
    by (rule map_idI) (use JObj in \<open>auto simp: list_all_iff\<close>)
  have "obj_of (map (\<lambda>(k, v). (k, toGeneric v)) es) = map (\<lambda>(k, v). (k, toGeneric v)) es"
    using JObj.prems by (simp add: obj_of_map)
  then show ?case
    using JObj.prems id
    by (simp add: fromGeneric_Map comp_def case_prod_unfold)
qed (simp_all add: fromGeneric_tagged scalar_tags_def)

section \<open>JSON text and localStorage\<close>

text \<open>
  A stored text is represented by what \<open>JSON.parse\<close> makes of it: \<open>Json v\<close>, or \<open>Text s\<close> for
  a text that is only ever compared (a theme name, a flag) or that does not parse.
  \<open>json_norm\<close> is what a round trip through JSON keeps: \<open>undefined\<close> properties are dropped,
  \<open>undefined\<close> elements and the non-finite numbers become \<open>null\<close>.
\<close>

datatype stored = Text string | Json js

definition json_absent :: "js \<Rightarrow> bool" where
  "json_absent v \<longleftrightarrow> v = JUndef \<or> v = JExotic"

fun json_norm :: "js \<Rightarrow> js" where
  "json_norm (JNum n) = (case n of Fin q \<Rightarrow> JNum n | _ \<Rightarrow> JNull)"
| "json_norm (JArr xs) = JArr (map json_norm xs)"
| "json_norm (JObj es) = JObj (map (\<lambda>(k, v). (k, json_norm v)) (filter (\<lambda>(k, v). \<not> json_absent v) es))"
| "json_norm JUndef = JNull"
| "json_norm JExotic = JNull"
| "json_norm v = v"

definition json_stringify :: "js \<Rightarrow> stored" where
  "json_stringify v = Json (json_norm v)"

definition json_parse :: "stored \<Rightarrow> js res" where
  "json_parse t = (case t of Text _ \<Rightarrow> Inl SyntaxError | Json v \<Rightarrow> Inr v)"

record storage =
  st_readable :: bool
  st_writable :: bool
  st_items :: "string \<rightharpoonup> stored"

definition get_item :: "storage \<Rightarrow> string \<Rightarrow> stored option res" where
  "get_item st k = (if st_readable st then Inr (st_items st k) else Inl StorageError)"

definition set_item :: "storage \<Rightarrow> string \<Rightarrow> stored \<Rightarrow> storage res" where
  "set_item st k v =
     (if st_writable st then Inr (st\<lparr>st_items := (st_items st)(k \<mapsto> v)\<rparr>) else Inl StorageError)"

definition remove_item :: "storage \<Rightarrow> string \<Rightarrow> storage res" where
  "remove_item st k =
     (if st_readable st then Inr (st\<lparr>st_items := (st_items st)(k := None)\<rparr>) else Inl StorageError)"

text \<open>\<open>try { localStorage.setItem(k, v) } catch {}\<close>, and the same for \<open>removeItem\<close>.\<close>

definition try_set_item :: "storage \<Rightarrow> string \<Rightarrow> stored \<Rightarrow> storage" where
  "try_set_item st k v = catch_res (set_item st k v) st"

definition try_remove_item :: "storage \<Rightarrow> string \<Rightarrow> storage" where
  "try_remove_item st k = catch_res (remove_item st k) st"

text \<open>
  What the clients of the storage rely on when it is available: the last write is read back,
  other keys are left alone, and a failing write changes nothing.
\<close>

locale kv_store =
  fixes fetch :: "'s \<Rightarrow> string \<Rightarrow> 'v option res"
    and store :: "'s \<Rightarrow> string \<Rightarrow> 'v \<Rightarrow> 's"
    and usable :: "'s \<Rightarrow> bool"
  assumes read_write: "usable s \<Longrightarrow> fetch (store s k v) k = Inr (Some v)"
    and read_other: "k' \<noteq> k \<Longrightarrow> fetch (store s k v) k' = fetch s k'"
    and usable_write: "usable s \<Longrightarrow> usable (store s k v)"
begin

lemma last_write_wins: "usable s \<Longrightarrow> fetch (store (store s k v) k w) k = Inr (Some w)"
  by (simp add: read_write usable_write)

lemma write_commutes_read:
  "usable s \<Longrightarrow> k' \<noteq> k \<Longrightarrow> fetch (store (store s k v) k' w) k = Inr (Some v)"
  using read_other [of k k' "store s k v" w] by (simp add: read_write)

end

definition st_usable :: "storage \<Rightarrow> bool" where
  "st_usable st \<longleftrightarrow> st_readable st \<and> st_writable st"

interpretation ls: kv_store get_item try_set_item st_usable
  by unfold_locales (auto simp: get_item_def try_set_item_def set_item_def st_usable_def)

lemma try_set_item_unwritable: "\<not> st_writable st \<Longrightarrow> try_set_item st k v = st"
  by (simp add: try_set_item_def set_item_def)

definition empty_storage :: storage where
  "empty_storage = \<lparr>st_readable = True, st_writable = True, st_items = Map.empty\<rparr>"

end
