(* ===== verification/Schema.thy ===== *)
theory Schema
  imports Js_Value
begin

text \<open>
  The vocabulary of \<^verbatim>\<open>api.ts\<close>: the index schema tree, the catalog, the project and its
  configuration, and the file operations a save sends. An externally tagged union is a
  datatype, an interface a record; an optional property is an \<open>option\<close>, \<^const>\<open>None\<close> standing
  for \<open>undefined\<close> and for an absent property alike. The only recursive type is \<open>field\<close>; the
  layers between a field and its child fields are parametric in it.
\<close>

section \<open>Field types\<close>

datatype scalar =
    Text_t | Identifier_t | Keyword_t | Enum_t | Uuid_t | Boolean_t | Short_t | Integer_t | Long_t
  | Float_t | Double_t | Decimal_t | Date_t | Timestamp_t | Binary_t | Json_t | Geo_point_t

datatype flusso_type =
    Scalar scalar
  | Map_t flusso_type
  | Custom_t "string list" string

fun scalar_name :: "scalar \<Rightarrow> string" where
  "scalar_name Text_t = ''text''"
| "scalar_name Identifier_t = ''identifier''"
| "scalar_name Keyword_t = ''keyword''"
| "scalar_name Enum_t = ''enum''"
| "scalar_name Uuid_t = ''uuid''"
| "scalar_name Boolean_t = ''boolean''"
| "scalar_name Short_t = ''short''"
| "scalar_name Integer_t = ''integer''"
| "scalar_name Long_t = ''long''"
| "scalar_name Float_t = ''float''"
| "scalar_name Double_t = ''double''"
| "scalar_name Decimal_t = ''decimal''"
| "scalar_name Date_t = ''date''"
| "scalar_name Timestamp_t = ''timestamp''"
| "scalar_name Binary_t = ''binary''"
| "scalar_name Json_t = ''json''"
| "scalar_name Geo_point_t = ''geo_point''"

definition SCALAR_TYPES :: "scalar list" where
  "SCALAR_TYPES =
     [Text_t, Identifier_t, Keyword_t, Enum_t, Uuid_t, Boolean_t, Short_t, Integer_t, Long_t,
      Float_t, Double_t, Decimal_t, Date_t, Timestamp_t, Binary_t, Json_t]"

definition SCALAR_NAMES :: "string list" where
  "SCALAR_NAMES = map scalar_name SCALAR_TYPES"

text \<open>\<open>kind as FlussoType\<close>, for a \<open>kind\<close> that \<open>SCALAR_TYPES\<close> includes.\<close>

definition scalar_of :: "string \<Rightarrow> scalar option" where
  "scalar_of s = find (\<lambda>t. scalar_name t = s) SCALAR_TYPES"

lemma scalar_name_inject [simp]: "scalar_name a = scalar_name b \<longleftrightarrow> a = b"
  by (cases a; cases b) simp_all

lemma SCALAR_TYPES_all: "t \<noteq> Geo_point_t \<Longrightarrow> t \<in> set SCALAR_TYPES"
  by (cases t) (simp_all add: SCALAR_TYPES_def)

lemma scalar_of_name [simp]: "t \<noteq> Geo_point_t \<Longrightarrow> scalar_of (scalar_name t) = Some t"
  by (cases t) (simp_all add: scalar_of_def SCALAR_TYPES_def)

lemma scalar_of_Some: "scalar_of s = Some t \<Longrightarrow> scalar_name t = s \<and> t \<noteq> Geo_point_t"
  by (auto simp: scalar_of_def find_Some_iff SCALAR_TYPES_def nth_Cons' split: if_splits)

lemma SCALAR_NAMES_iff: "s \<in> set SCALAR_NAMES \<longleftrightarrow> (\<exists>t. t \<noteq> Geo_point_t \<and> s = scalar_name t)"
proof -
  have "set SCALAR_TYPES = {t. t \<noteq> Geo_point_t}"
    using SCALAR_TYPES_all by (auto simp: SCALAR_TYPES_def)
  then show ?thesis by (auto simp: SCALAR_NAMES_def)
qed

section \<open>Columns, filters and relations\<close>

datatype transform = Lowercase | Trim

record column =
  col_column :: string
  col_ty :: flusso_type
  col_nullable :: bool
  col_transforms :: "transform list option"
  col_default :: "js option"
  col_enum_order :: "string list option"

record geo =
  geo_lat :: string
  geo_lon :: string
  geo_nullable :: bool

datatype filter_op =
  Op_eq | Op_neq | Op_lt | Op_lte | Op_gt | Op_gte | Op_in | Op_not_in | Op_like | Op_ilike | Op_between

datatype filter_value = Single string | List "string list" | Range string string

datatype null_op = Is_null | Is_not_null

datatype filter =
    Raw string
  | Null_check string null_op
  | Value_op string filter_op filter_value

record through =
  th_table :: string
  th_left_key :: string
  th_right_key :: string
  th_filters :: "filter list option"

datatype join_kind =
    Belongs_to string
  | Has_one string
  | Has_many string
  | Many_to_many through

datatype direction = Asc | Desc

record order_by =
  ob_column :: string
  ob_direction :: "direction option"

text \<open>A join without its child fields, which are the second argument of \<open>Join_r\<close> below.\<close>

record join =
  j_table :: string
  j_kind :: join_kind
  j_primary_key :: string
  j_nullable :: bool
  j_filters :: "filter list option"
  j_order_by :: "order_by list option"
  j_limit :: "js_num option"

datatype aggregate_op =
    Count_op
  | Sum_op string
  | Avg_op string
  | Min_op string
  | Max_op string
  | Ids_op flusso_type

datatype aggregate_key = Direct string | Through through

record aggregate =
  agg_table :: string
  agg_op :: aggregate_op
  agg_key :: aggregate_key
  agg_value_type :: "flusso_type option"
  agg_filters :: "filter list option"
  agg_distinct :: "bool option"

datatype 'f relation = Join_r join "'f list" | Aggregate_r aggregate

datatype 'f field_source =
    Column_s column
  | Group_s "'f list"
  | Geo_s geo
  | Relation_s "'f relation"
  | Constant_s js

datatype field =
  Field (f_field: string) (f_options: "js jobj option") (f_source: "field field_source")

text \<open>\<open>{ ...f, field }\<close> and \<open>{ ...f, source }\<close>.\<close>

definition with_name :: "field \<Rightarrow> string \<Rightarrow> field" where
  "with_name f n = Field n (f_options f) (f_source f)"

definition with_source :: "field \<Rightarrow> field field_source \<Rightarrow> field" where
  "with_source f s = Field (f_field f) (f_options f) s"

lemma with_name_simps [simp]:
  "f_field (with_name f n) = n" "f_options (with_name f n) = f_options f"
  "f_source (with_name f n) = f_source f"
  by (simp_all add: with_name_def)

lemma with_source_simps [simp]:
  "f_field (with_source f s) = f_field f" "f_options (with_source f s) = f_options f"
  "f_source (with_source f s) = s"
  by (simp_all add: with_source_def)

lemma with_source_id [simp]: "with_source f (f_source f) = f"
  by (simp add: with_source_def)

section \<open>The index schema\<close>

datatype soft_delete =
    Sd_field string "filter list option"
  | Sd_column string "filter list option"

record index_schema =
  s_version :: nat
  s_table :: string
  s_db_schema :: string
  s_primary_key :: "string option"
  s_doc_id :: "string option"
  s_soft_delete :: "soft_delete option"
  s_filters :: "filter list option"
  s_fields :: "field list"

section \<open>The catalog\<close>

record column_shape =
  cs_name :: string
  cs_sql_type :: string
  cs_nullable :: bool
  cs_is_primary_key :: bool
  cs_suggested_type :: "flusso_type option"

record foreign_key =
  fk_columns :: "string list"
  fk_references_schema :: string
  fk_references_table :: string
  fk_references_columns :: "string list"

record table_shape =
  t_schema :: string
  t_name :: string
  t_columns :: "column_shape list"
  t_primary_key :: "string list"
  t_foreign_keys :: "foreign_key list"

record junction =
  jn_schema :: string
  jn_table :: string
  jn_left :: foreign_key
  jn_right :: foreign_key

record catalog_response =
  cat_tables :: "table_shape list"
  cat_junctions :: "junction list"
  cat_error :: "string option"

section \<open>Project, configuration and saves\<close>

record index_entry =
  e_name :: string
  e_schema :: string
  e_enabled :: bool
  e_on_error :: "js option"
  e_id :: "string option"

record config_toml =
  cfg_source :: "js jobj"
  cfg_stream :: "js jobj option"
  cfg_sinks :: "js jobj option"
  cfg_index :: "index_entry list option"
  cfg_prefix :: "string option"
  cfg_on_error :: "js option"
  cfg_batch :: "(js_num option \<times> js_num option) option"
  cfg_server :: "js jobj option"

record index_file =
  if_name :: string
  if_enabled :: bool
  if_schema_path :: string
  if_schema :: "index_schema option"
  if_raw :: "string option"
  if_error :: "string option"

datatype op_kind = Upsert | Move | Delete

record file_op =
  op_kind :: op_kind
  op_path :: string
  op_from :: "string option"
  op_schema :: "index_schema option"
  op_raw :: "string option"

datatype diff_op = D_write | D_move | D_delete

record op_diff =
  d_op :: diff_op
  d_path :: string
  d_from :: "string option"
  d_current :: string
  d_next :: string
  d_changed :: bool
  d_warning :: "string option"

record moved_file =
  mv_from :: string
  mv_to :: string

record save_result =
  sr_written :: "string list"
  sr_moved :: "moved_file list"
  sr_deleted :: "string list"
  sr_pruned :: "string list"

record project =
  p_config_path :: string
  p_config :: config_toml
  p_indexes :: "index_file list"

datatype document_node =
  Document_node (dn_name: string) (dn_type: string) (dn_nullable: bool) (dn_array: bool)
    (dn_children: "document_node list option")

record preview_response =
  pv_yaml :: string
  pv_mapping :: js
  pv_document :: "document_node list"
  pv_parse_ok :: bool
  pv_parse_error :: "string option"

record diagnostic =
  dg_index :: string
  dg_field :: string
  dg_severity :: string
  dg_message :: string

record validate_response =
  vr_diagnostics :: "diagnostic list"
  vr_db_reachable :: bool
  vr_error :: "string option"

record sample_response =
  sm_document :: "js option"
  sm_synthetic :: bool
  sm_db_reachable :: bool
  sm_note :: "string option"
  sm_error :: "string option"

record parse_response =
  pr_schema :: "index_schema option"
  pr_error :: "string option"
  pr_location :: "(nat \<times> nat) option"
  pr_field :: "string option"
  pr_type_tag :: "string option"

text \<open>A translator: message key and variables to text.\<close>

type_synonym translate = "string \<Rightarrow> js jobj \<Rightarrow> string"

section \<open>The API client\<close>

text \<open>
  A response is its status and its body; \<open>res.text()\<close> is the body, \<open>JSON.parse\<close> of it is a
  value or a syntax error. A failure throws the server's \<open>error\<close> message when the body
  carries one.
\<close>

record response =
  res_status :: nat
  res_statusText :: string
  res_text :: string
  res_json :: "js option"

definition res_ok :: "response \<Rightarrow> bool" where
  "res_ok r \<longleftrightarrow> 200 \<le> res_status r \<and> res_status r \<le> 299"

definition error_message :: "response \<Rightarrow> string" where
  "error_message r =
     (let message = (if res_text r \<noteq> [] then res_text r
                     else show_nat (res_status r) @ '' '' @ res_statusText r)
      in case res_json r of
           Some (JObj ob) \<Rightarrow>
             (case obj_get ob ''error'' of Some (JStr e) \<Rightarrow> if e \<noteq> [] then e else message | _ \<Rightarrow> message)
         | _ \<Rightarrow> message)"

definition json_response :: "response \<Rightarrow> js res" where
  "json_response r =
     (if \<not> res_ok r then Inl (Thrown (error_message r))
      else case res_json r of None \<Rightarrow> Inl SyntaxError | Some v \<Rightarrow> Inr v)"

definition stripIds :: "config_toml \<Rightarrow> config_toml" where
  "stripIds config =
     (case cfg_index config of
        None \<Rightarrow> config
      | Some es \<Rightarrow> config\<lparr>cfg_index := Some (map (\<lambda>e. e\<lparr>e_id := None\<rparr>) es)\<rparr>)"

text \<open>The requests the client issues: method and path by constructor, the body as payload.\<close>

datatype request =
    Get string
  | Post_parse string
  | Post_test_connection config_toml
  | Post_preview string index_schema
  | Post_validate config_toml "(string \<times> index_schema) list"
  | Post_sample config_toml string index_schema
  | Post_diff config_toml "file_op list"
  | Post_save config_toml "file_op list" "string list"

fun request_path :: "request \<Rightarrow> string" where
  "request_path (Get p) = p"
| "request_path (Post_parse _) = ''/api/parse''"
| "request_path (Post_test_connection _) = ''/api/test-connection''"
| "request_path (Post_preview _ _) = ''/api/preview''"
| "request_path (Post_validate _ _) = ''/api/validate''"
| "request_path (Post_sample _ _ _) = ''/api/sample''"
| "request_path (Post_diff _ _) = ''/api/diff''"
| "request_path (Post_save _ _ _) = ''/api/save''"

definition api_project :: request where "api_project = Get ''/api/project''"
definition api_adapters :: request where "api_adapters = Get ''/api/adapters''"
definition api_catalog :: request where "api_catalog = Get ''/api/catalog''"
definition api_dirs :: request where "api_dirs = Get ''/api/dirs''"
definition api_parse :: "string \<Rightarrow> request" where "api_parse yaml = Post_parse yaml"

definition api_testConnection :: "config_toml \<Rightarrow> request" where
  "api_testConnection config = Post_test_connection (stripIds config)"

definition api_preview :: "string \<Rightarrow> index_schema \<Rightarrow> request" where
  "api_preview index schema = Post_preview index schema"

definition api_validate :: "config_toml \<Rightarrow> (string \<times> index_schema) list \<Rightarrow> request" where
  "api_validate config indexes = Post_validate (stripIds config) indexes"

definition api_sample :: "config_toml \<Rightarrow> string \<Rightarrow> index_schema \<Rightarrow> request" where
  "api_sample config name schema = Post_sample (stripIds config) name schema"

definition api_diff :: "config_toml \<Rightarrow> file_op list \<Rightarrow> request" where
  "api_diff config ops = Post_diff (stripIds config) ops"

definition api_save :: "config_toml \<Rightarrow> file_op list \<Rightarrow> string list \<Rightarrow> request" where
  "api_save config ops skip = Post_save (stripIds config) ops skip"

fun request_config :: "request \<Rightarrow> config_toml option" where
  "request_config (Post_test_connection c) = Some c"
| "request_config (Post_validate c _) = Some c"
| "request_config (Post_sample c _ _) = Some c"
| "request_config (Post_diff c _) = Some c"
| "request_config (Post_save c _ _) = Some c"
| "request_config _ = None"

definition ids_stripped :: "config_toml \<Rightarrow> bool" where
  "ids_stripped config \<longleftrightarrow> (\<forall>e \<in> set (case cfg_index config of None \<Rightarrow> [] | Some es \<Rightarrow> es). e_id e = None)"

lemma ids_stripped_stripIds: "ids_stripped (stripIds config)"
  by (auto simp: ids_stripped_def stripIds_def split: option.splits)

lemma stripIds_idem: "stripIds (stripIds config) = stripIds config"
  by (auto simp: stripIds_def split: option.splits)

end
