(* ===== verification/Field_Kinds.thy ===== *)
theory Field_Kinds
  imports Schema
begin

text \<open>
  \<^verbatim>\<open>fields.ts\<close>: the UI kind a field is edited as, and the fresh default field of a kind.
  The lemmas show that the two agree (a default field is classified as the kind it was built
  for) and that the kinds of containers are exactly the containers.
\<close>

definition JOIN_KINDS :: "string list" where
  "JOIN_KINDS = [''belongs_to'', ''has_one'', ''has_many'', ''many_to_many'']"

definition AGGREGATE_OPS :: "string list" where
  "AGGREGATE_OPS = [''count'', ''sum'', ''avg'', ''min'', ''max'', ''ids'']"

definition STRUCTURED_KINDS :: "string list" where
  "STRUCTURED_KINDS = [''map'', ''custom'', ''geo'', ''object'', ''constant'']"

definition KIND_HELP :: "string jobj" where
  "KIND_HELP = map (\<lambda>k. (k, ''kindHelp.'' @ k))
     [''belongs_to'', ''has_one'', ''has_many'', ''many_to_many'', ''object'', ''count'', ''sum'',
      ''avg'', ''min'', ''max'', ''ids'', ''geo'', ''map'', ''custom'', ''constant'']"

definition LEAF_TYPES :: "scalar list" where
  "LEAF_TYPES = [Text_t, Keyword_t, Integer_t, Long_t, Double_t, Date_t]"

definition KIND_GROUPS :: "(string \<times> string list) list" where
  "KIND_GROUPS =
     [(''Scalar'', SCALAR_NAMES), (''Structured'', STRUCTURED_KINDS),
      (''Join'', JOIN_KINDS), (''Aggregate'', AGGREGATE_OPS)]"

definition isToMany :: "string \<Rightarrow> bool" where
  "isToMany kind \<longleftrightarrow> kind \<in> set [''has_many'', ''many_to_many'']"

fun joinVerb :: "join_kind \<Rightarrow> string" where
  "joinVerb (Belongs_to _) = ''belongs_to''"
| "joinVerb (Has_one _) = ''has_one''"
| "joinVerb (Has_many _) = ''has_many''"
| "joinVerb (Many_to_many _) = ''many_to_many''"

fun aggOp :: "aggregate_op \<Rightarrow> string" where
  "aggOp Count_op = ''count''"
| "aggOp (Sum_op _) = ''sum''"
| "aggOp (Avg_op _) = ''avg''"
| "aggOp (Min_op _) = ''min''"
| "aggOp (Max_op _) = ''max''"
| "aggOp (Ids_op _) = ''ids''"

fun fieldKind :: "field \<Rightarrow> string" where
  "fieldKind (Field _ _ (Column_s c)) =
     (case col_ty c of Scalar t \<Rightarrow> scalar_name t | Map_t _ \<Rightarrow> ''map'' | Custom_t _ _ \<Rightarrow> ''custom'')"
| "fieldKind (Field _ _ (Geo_s _)) = ''geo''"
| "fieldKind (Field _ _ (Group_s _)) = ''object''"
| "fieldKind (Field _ _ (Constant_s _)) = ''constant''"
| "fieldKind (Field _ _ (Relation_s (Join_r j _))) = joinVerb (j_kind j)"
| "fieldKind (Field _ _ (Relation_s (Aggregate_r a))) = aggOp (agg_op a)"

definition plain_column :: "string \<Rightarrow> flusso_type \<Rightarrow> bool \<Rightarrow> column" where
  "plain_column name ty nullable =
     \<lparr>col_column = name, col_ty = ty, col_nullable = nullable, col_transforms = None,
      col_default = None, col_enum_order = None\<rparr>"

definition blank_through :: through where
  "blank_through = \<lparr>th_table = '''', th_left_key = '''', th_right_key = '''', th_filters = None\<rparr>"

definition defaultJoinKind :: "string \<Rightarrow> join_kind" where
  "defaultJoinKind kind =
     (if kind = ''belongs_to'' then Belongs_to ''''
      else if kind = ''has_one'' then Has_one ''''
      else if kind = ''has_many'' then Has_many ''''
      else Many_to_many blank_through)"

definition defaultJoin :: "string \<Rightarrow> string \<Rightarrow> join" where
  "defaultJoin kind table =
     \<lparr>j_table = table, j_kind = defaultJoinKind kind, j_primary_key = ''id'', j_nullable = False,
      j_filters = None, j_order_by = None, j_limit = None\<rparr>"

definition defaultAggregateOp :: "string \<Rightarrow> aggregate_op" where
  "defaultAggregateOp kind =
     (if kind = ''count'' then Count_op
      else if kind = ''sum'' then Sum_op ''''
      else if kind = ''avg'' then Avg_op ''''
      else if kind = ''min'' then Min_op ''''
      else if kind = ''max'' then Max_op ''''
      else Ids_op (Scalar Long_t))"

definition defaultAggregate :: "string \<Rightarrow> string \<Rightarrow> aggregate" where
  "defaultAggregate kind table =
     \<lparr>agg_table = table, agg_op = defaultAggregateOp kind, agg_key = Direct '''',
      agg_value_type =
        (if kind = ''sum'' \<or> kind = ''min'' \<or> kind = ''max'' then Some (Scalar Integer_t) else None),
      agg_filters = None, agg_distinct = None\<rparr>"

definition defaultSource :: "string \<Rightarrow> string \<Rightarrow> string \<Rightarrow> field field_source" where
  "defaultSource name kind table =
     (case scalar_of kind of
        Some t \<Rightarrow> Column_s (plain_column name (Scalar t) False)
      | None \<Rightarrow>
          if kind = ''map'' then Column_s (plain_column name (Map_t (Scalar Text_t)) False)
          else if kind = ''custom'' then Column_s (plain_column name (Custom_t [] ''keyword'') False)
          else if kind = ''geo'' then Geo_s \<lparr>geo_lat = ''lat'', geo_lon = ''lon'', geo_nullable = False\<rparr>
          else if kind = ''object'' then Group_s []
          else if kind = ''constant'' then Constant_s (JStr '''')
          else if kind \<in> set JOIN_KINDS then Relation_s (Join_r (defaultJoin kind table) [])
          else if kind \<in> set AGGREGATE_OPS then Relation_s (Aggregate_r (defaultAggregate kind table))
          else Column_s (plain_column name (Scalar Keyword_t) False))"

definition defaultField :: "string \<Rightarrow> string \<Rightarrow> string \<Rightarrow> field" where
  "defaultField name kind prevTable = Field name None (defaultSource name kind prevTable)"

fun relationTable :: "field \<Rightarrow> string" where
  "relationTable (Field _ _ (Relation_s (Join_r j _))) = j_table j"
| "relationTable (Field _ _ (Relation_s (Aggregate_r a))) = agg_table a"
| "relationTable _ = ''''"

definition all_kinds :: "string list" where
  "all_kinds = concat (map snd KIND_GROUPS)"

lemma all_kinds_cases:
  "kind \<in> set all_kinds \<longleftrightarrow>
     kind \<in> set SCALAR_NAMES \<or> kind \<in> set STRUCTURED_KINDS \<or> kind \<in> set JOIN_KINDS \<or>
     kind \<in> set AGGREGATE_OPS"
  by (simp add: all_kinds_def KIND_GROUPS_def)

lemma scalar_of_kind:
  "kind \<in> set STRUCTURED_KINDS \<or> kind \<in> set JOIN_KINDS \<or> kind \<in> set AGGREGATE_OPS \<Longrightarrow>
   scalar_of kind = None"
proof -
  have "list_all (\<lambda>k. scalar_of k = None) (STRUCTURED_KINDS @ JOIN_KINDS @ AGGREGATE_OPS)"
    by code_simp
  then show "kind \<in> set STRUCTURED_KINDS \<or> kind \<in> set JOIN_KINDS \<or> kind \<in> set AGGREGATE_OPS \<Longrightarrow>
      scalar_of kind = None"
    by (auto simp: list_all_iff)
qed

text \<open>A fresh field of any kind the pickers offer is classified as that kind again.\<close>

lemma fieldKind_defaultField:
  assumes "kind \<in> set all_kinds"
  shows "fieldKind (defaultField name kind table) = kind"
proof (cases "kind \<in> set SCALAR_NAMES")
  case True
  then obtain t where "t \<noteq> Geo_point_t" and "kind = scalar_name t"
    by (auto simp: SCALAR_NAMES_iff)
  then show ?thesis
    by (simp add: defaultField_def defaultSource_def plain_column_def)
next
  case False
  with assms have k: "kind \<in> set STRUCTURED_KINDS \<or> kind \<in> set JOIN_KINDS \<or> kind \<in> set AGGREGATE_OPS"
    by (simp add: all_kinds_cases)
  then show ?thesis
    using scalar_of_kind [OF k]
    by (auto simp: defaultField_def defaultSource_def STRUCTURED_KINDS_def JOIN_KINDS_def
        AGGREGATE_OPS_def plain_column_def defaultJoin_def defaultJoinKind_def
        defaultAggregate_def defaultAggregateOp_def)
qed

text \<open>A kind outside the menus falls back to a keyword column.\<close>

lemma fieldKind_defaultField_other:
  "kind \<notin> set all_kinds \<Longrightarrow> fieldKind (defaultField name kind table) = ''keyword''"
proof -
  assume k: "kind \<notin> set all_kinds"
  then have "scalar_of kind = None"
    by (metis SCALAR_NAMES_iff all_kinds_cases not_None_eq scalar_of_Some)
  with k show ?thesis
    by (simp add: all_kinds_cases defaultField_def defaultSource_def STRUCTURED_KINDS_def
        plain_column_def)
qed

lemma relationTable_defaultField:
  "kind \<in> set JOIN_KINDS \<or> kind \<in> set AGGREGATE_OPS \<Longrightarrow>
   relationTable (defaultField name kind table) = table"
  using scalar_of_kind [of kind]
  by (auto simp: defaultField_def defaultSource_def JOIN_KINDS_def AGGREGATE_OPS_def
      defaultJoin_def defaultAggregate_def)

end
