(* ===== verification/Schema_Tree.thy ===== *)
theory Schema_Tree
  imports Field_Kinds
begin

text \<open>
  \<^verbatim>\<open>model/tree.ts\<close>: the schema tree addressed by paths, and its projection into the canvas
  graph. A path is the list of field indices from the root. Reading along a stale path gives
  the empty list; rebuilding along one reads a property of \<open>undefined\<close> and throws, which is
  the \<^const>\<open>Inl\<close> result below.
\<close>

type_synonym path = "nat list"

section \<open>Containers\<close>

fun childFields :: "field \<Rightarrow> field list option" where
  "childFields (Field _ _ (Group_s fs)) = Some fs"
| "childFields (Field _ _ (Relation_s (Join_r _ fs))) = Some fs"
| "childFields _ = None"

fun setChildFields :: "field \<Rightarrow> field list \<Rightarrow> field" where
  "setChildFields (Field n opts (Group_s _)) fs = Field n opts (Group_s fs)"
| "setChildFields (Field n opts (Relation_s (Join_r j _))) fs = Field n opts (Relation_s (Join_r j fs))"
| "setChildFields f fs = f"

definition is_container :: "field \<Rightarrow> bool" where
  "is_container f \<longleftrightarrow> childFields f \<noteq> None"

lemma childFields_size [termination_simp]:
  "childFields f = Some fs \<Longrightarrow> g \<in> set fs \<Longrightarrow> size g < size f"
  by (cases f rule: childFields.cases)
     (auto simp: less_Suc_eq_le intro: size_list_estimation' le_SucI)

text \<open>Induction over the tree: a field holds if it holds for all the fields below it.\<close>

lemma field_tree_induct [case_names field]:
  assumes "\<And>f. (\<And>fs g. childFields f = Some fs \<Longrightarrow> g \<in> set fs \<Longrightarrow> P g) \<Longrightarrow> P f"
  shows "P f"
proof (induction f rule: measure_induct_rule [where f = size])
  case (less f)
  then show ?case using assms childFields_size by blast
qed

lemma childFields_setChildFields [simp]:
  "childFields (setChildFields f fs) = (if is_container f then Some fs else None)"
  by (cases f rule: childFields.cases) (auto simp: is_container_def)

lemma is_container_setChildFields [simp]: "is_container (setChildFields f fs) = is_container f"
  by (cases f rule: childFields.cases) (auto simp: is_container_def)

lemma setChildFields_same [simp]: "childFields f = Some fs \<Longrightarrow> setChildFields f fs = f"
  by (cases f rule: childFields.cases) auto

lemma setChildFields_twice [simp]: "setChildFields (setChildFields f fs) gs = setChildFields f gs"
  by (cases f rule: childFields.cases) auto

lemma f_field_setChildFields [simp]: "f_field (setChildFields f fs) = f_field f"
  by (cases f rule: childFields.cases) auto

lemma fieldKind_setChildFields [simp]: "fieldKind (setChildFields f fs) = fieldKind f"
  by (cases f rule: childFields.cases) auto

section \<open>Reading and rebuilding along a path\<close>

fun walk_fields :: "field list \<Rightarrow> path \<Rightarrow> field list" where
  "walk_fields fs [] = fs"
| "walk_fields fs (idx # rest) =
     (case js_get fs idx of
        None \<Rightarrow> []
      | Some field \<Rightarrow> (case childFields field of None \<Rightarrow> [] | Some cf \<Rightarrow> walk_fields cf rest))"

definition nodeFields :: "index_schema \<Rightarrow> path \<Rightarrow> field list" where
  "nodeFields schema path = walk_fields (s_fields schema) path"

fun rebuild :: "field list \<Rightarrow> field list \<Rightarrow> path \<Rightarrow> field list res" where
  "rebuild new fs [] = Inr new"
| "rebuild new fs (idx # rest) =
     (case js_get fs idx of
        None \<Rightarrow> Inl TypeError
      | Some field \<Rightarrow>
          bind_res
            (if rest = [] then Inr (setChildFields field new)
             else map_res (setChildFields field)
                    (rebuild new (case childFields field of None \<Rightarrow> [] | Some cf \<Rightarrow> cf) rest))
            (\<lambda>updated. Inr (fs[idx := updated])))"

definition withNodeFields :: "index_schema \<Rightarrow> path \<Rightarrow> field list \<Rightarrow> index_schema res" where
  "withNodeFields schema path new =
     (if path = [] then Inr (schema\<lparr>s_fields := new\<rparr>)
      else map_res (\<lambda>fs'. schema\<lparr>s_fields := fs'\<rparr>) (rebuild new (s_fields schema) path))"

definition fieldAtPath :: "index_schema \<Rightarrow> path \<Rightarrow> field option" where
  "fieldAtPath schema path =
     (if path = [] then None else js_get (nodeFields schema (butlast path)) (last path))"

text \<open>
  For the root path \<open>parent[undefined]\<close> is assigned, which leaves the elements as they are.
\<close>

definition setNodeField :: "index_schema \<Rightarrow> path \<Rightarrow> field \<Rightarrow> index_schema res" where
  "setNodeField schema path field =
     (if path = [] then withNodeFields schema [] (nodeFields schema [])
      else bind_res (js_store (nodeFields schema (butlast path)) (last path) field)
             (\<lambda>parent. withNodeFields schema (butlast path) parent))"

definition pathLabels :: "index_schema \<Rightarrow> path \<Rightarrow> string list" where
  "pathLabels schema path =
     List.map_filter (\<lambda>i. map_option f_field (fieldAtPath schema (take i path))) [1..<Suc (length path)]"

fun join_table_or :: "string \<Rightarrow> field \<Rightarrow> string" where
  "join_table_or table (Field _ _ (Relation_s (Join_r j _))) = j_table j"
| "join_table_or table _ = table"

fun walk_table :: "string \<Rightarrow> field list \<Rightarrow> path \<Rightarrow> string" where
  "walk_table table fs [] = table"
| "walk_table table fs (idx # rest) =
     (case js_get fs idx of
        None \<Rightarrow> table
      | Some field \<Rightarrow>
          walk_table (join_table_or table field)
            (case childFields field of None \<Rightarrow> [] | Some cf \<Rightarrow> cf) rest)"

definition effectiveTable :: "index_schema \<Rightarrow> path \<Rightarrow> string" where
  "effectiveTable schema path = walk_table (s_table schema) (s_fields schema) path"

fun joinOf :: "field option \<Rightarrow> (join \<times> field list) option" where
  "joinOf (Some (Field _ _ (Relation_s (Join_r j fs)))) = Some (j, fs)"
| "joinOf _ = None"

text \<open>A live path: every index is in range and every field on it is a container.\<close>

fun live_in :: "field list \<Rightarrow> path \<Rightarrow> bool" where
  "live_in fs [] = True"
| "live_in fs (idx # rest) =
     (case js_get fs idx of
        None \<Rightarrow> False
      | Some field \<Rightarrow> (case childFields field of None \<Rightarrow> False | Some cf \<Rightarrow> live_in cf rest))"

definition live_path :: "index_schema \<Rightarrow> path \<Rightarrow> bool" where
  "live_path schema path = live_in (s_fields schema) path"

text \<open>A path whose indices are in range, its last field a container or not.\<close>

fun in_range :: "field list \<Rightarrow> path \<Rightarrow> bool" where
  "in_range fs [] = True"
| "in_range fs (idx # rest) =
     (case js_get fs idx of
        None \<Rightarrow> False
      | Some field \<Rightarrow> in_range (case childFields field of None \<Rightarrow> [] | Some cf \<Rightarrow> cf) rest)"

lemma in_range_Nil_fields: "in_range [] path \<longleftrightarrow> path = []"
  by (cases path) auto

lemma rebuild_succeeds_iff: "(\<exists>fs'. rebuild new fs path = Inr fs') \<longleftrightarrow> in_range fs path"
proof (induction new fs path rule: rebuild.induct)
  case (2 new fs idx rest)
  then show ?case by (cases rest) (auto split: option.splits)
qed simp

lemma live_in_range: "live_in fs path \<Longrightarrow> in_range fs path"
  by (induction fs path rule: live_in.induct) (auto split: option.splits)

lemma rebuild_error: "rebuild new fs path = Inl e \<Longrightarrow> e = TypeError"
proof (induction new fs path arbitrary: e rule: rebuild.induct)
  case (2 new fs idx rest)
  then show ?case by (auto simp: bind_res_def map_res_def split: option.splits if_splits sum.splits)
qed simp

section \<open>The laws of path-addressed reading and rebuilding\<close>

text \<open>
  The interface the edits rely on: at a live path the read part can be replaced, the
  replacement is read back, replacing by what is there changes nothing, the last replacement
  wins, and a path that neither extends nor is extended by it reads the same as before.
\<close>

definition apart :: "path \<Rightarrow> path \<Rightarrow> bool" where
  "apart p q \<longleftrightarrow> \<not> prefix p q \<and> \<not> prefix q p"

locale path_store =
  fixes fetch :: "'s \<Rightarrow> path \<Rightarrow> 'v"
    and replace :: "'s \<Rightarrow> path \<Rightarrow> 'v \<Rightarrow> 's res"
    and live :: "'s \<Rightarrow> path \<Rightarrow> bool"
  assumes replace_total: "live s p \<Longrightarrow> \<exists>s'. replace s p v = Inr s'"
    and fetch_replace: "live s p \<Longrightarrow> replace s p v = Inr s' \<Longrightarrow> fetch s' p = v"
    and replace_fetch: "live s p \<Longrightarrow> replace s p (fetch s p) = Inr s"
    and replace_replace: "live s p \<Longrightarrow> replace s p v = Inr s' \<Longrightarrow> replace s' p w = replace s p w"
    and live_replace: "live s p \<Longrightarrow> replace s p v = Inr s' \<Longrightarrow> live s' p"
    and fetch_apart: "replace s p v = Inr s' \<Longrightarrow> apart p q \<Longrightarrow> fetch s' q = fetch s q"
begin

text \<open>An edit is a function of what is at the path.\<close>

lemma edit_total: "live s p \<Longrightarrow> \<exists>s'. replace s p (f (fetch s p)) = Inr s' \<and> fetch s' p = f (fetch s p)"
  using replace_total fetch_replace by blast

lemma edit_fusion:
  assumes "live s p" and "replace s p (f (fetch s p)) = Inr s'"
  shows "replace s' p (g (fetch s' p)) = replace s p (g (f (fetch s p)))"
  using assms by (simp add: fetch_replace replace_replace)

lemma edit_inverse:
  assumes "live s p" and "replace s p (f (fetch s p)) = Inr s'" and "g (f (fetch s p)) = fetch s p"
  shows "replace s' p (g (fetch s' p)) = Inr s"
  using assms edit_fusion [of s p f s' g] by (simp add: replace_fetch)

lemma edit_id: "live s p \<Longrightarrow> f (fetch s p) = fetch s p \<Longrightarrow> replace s p (f (fetch s p)) = Inr s"
  by (simp add: replace_fetch)

end

definition child_list :: "field \<Rightarrow> field list" where
  "child_list f = (case childFields f of None \<Rightarrow> [] | Some cf \<Rightarrow> cf)"

lemma child_list_setChildFields [simp]:
  "child_list (setChildFields f fs) = (if is_container f then fs else [])"
  by (simp add: child_list_def)

lemma rebuild_Cons:
  "rebuild new fs (i # p) =
     (case js_get fs i of
        None \<Rightarrow> Inl TypeError
      | Some f \<Rightarrow> map_res (\<lambda>x. fs[i := setChildFields f x]) (rebuild new (child_list f) p))"
  by (cases p)
     (auto simp: child_list_def map_res_def bind_res_def split: option.splits sum.splits)

lemma walk_fields_Cons:
  "walk_fields fs (i # p) =
     (case js_get fs i of None \<Rightarrow> [] | Some f \<Rightarrow> walk_fields (child_list f) p)"
  by (cases p) (auto simp: child_list_def split: option.splits)

lemma walk_fields_Nil [simp]: "walk_fields [] p = []"
  by (cases p) auto

lemma live_in_Cons:
  "live_in fs (i # p) \<longleftrightarrow>
     (\<exists>f. js_get fs i = Some f \<and> is_container f \<and> live_in (child_list f) p)"
  by (auto simp: child_list_def is_container_def split: option.splits)

lemma in_range_Cons:
  "in_range fs (i # p) \<longleftrightarrow> (\<exists>f. js_get fs i = Some f \<and> in_range (child_list f) p)"
  by (auto simp: child_list_def split: option.splits)

lemmas path_simps =
  rebuild_Cons walk_fields_Cons live_in_Cons in_range_Cons rebuild.simps(1) walk_fields.simps(1)
  live_in.simps(1) in_range.simps(1)

declare rebuild.simps(2) [simp del] walk_fields.simps(2) [simp del] live_in.simps(2) [simp del]
  in_range.simps(2) [simp del]

lemma setChildFields_child_list [simp]: "setChildFields f (child_list f) = f"
  by (cases f rule: childFields.cases) (auto simp: child_list_def)

lemma walk_rebuild:
  "live_in fs p \<Longrightarrow> rebuild new fs p = Inr fs' \<Longrightarrow> walk_fields fs' p = new"
  by (induction p arbitrary: fs fs') (auto simp: path_simps js_get_def)

lemma live_rebuild: "live_in fs p \<Longrightarrow> rebuild new fs p = Inr fs' \<Longrightarrow> live_in fs' p"
  by (induction p arbitrary: fs fs') (auto simp: path_simps js_get_def split: if_splits)

lemma rebuild_walk: "live_in fs p \<Longrightarrow> rebuild (walk_fields fs p) fs p = Inr fs"
  by (induction p arbitrary: fs) (auto simp: path_simps js_get_def split: if_splits)

lemma rebuild_rebuild:
  "live_in fs p \<Longrightarrow> rebuild v fs p = Inr fs' \<Longrightarrow> rebuild w fs' p = rebuild w fs p"
proof (induction p arbitrary: fs fs')
  case (Cons i p)
  then obtain f x where "js_get fs i = Some f" "is_container f" "live_in (child_list f) p"
    and "rebuild v (child_list f) p = Inr x" "fs' = fs[i := setChildFields f x]"
    by (auto simp: path_simps)
  then show ?case
    using Cons.IH by (auto simp: path_simps js_get_def map_res_def split: if_splits sum.splits)
qed simp

lemma walk_rebuild_apart:
  "rebuild v fs p = Inr fs' \<Longrightarrow> apart p q \<Longrightarrow> walk_fields fs' q = walk_fields fs q"
proof (induction p arbitrary: fs fs' q)
  case Nil
  then show ?case by (simp add: apart_def)
next
  case (Cons i p)
  then obtain f x where f: "js_get fs i = Some f" and x: "rebuild v (child_list f) p = Inr x"
    and fs': "fs' = fs[i := setChildFields f x]"
    by (auto simp: path_simps split: option.splits)
  from Cons.prems(2) obtain k q' where q: "q = k # q'"
    by (cases q) (auto simp: apart_def)
  show ?case
  proof (cases "k = i")
    case False
    then show ?thesis
      by (simp add: q fs' path_simps js_get_def)
  next
    case True
    with Cons.prems(2) q have "apart p q'" by (simp add: apart_def)
    with Cons.IH x have "walk_fields x q' = walk_fields (child_list f) q'" by blast
    moreover have "walk_fields (child_list f) q' = []" if "\<not> is_container f"
      using that by (simp add: is_container_def child_list_def)
    ultimately show ?thesis
      using f by (auto simp: q fs' True path_simps js_get_def split: if_splits)
  qed
qed

lemma rebuild_leaf: "in_range fs p \<Longrightarrow> \<not> live_in fs p \<Longrightarrow> rebuild v fs p = Inr fs"
proof (induction p arbitrary: fs)
  case (Cons i p)
  then obtain f where f: "js_get fs i = Some f" and r: "in_range (child_list f) p"
    by (auto simp: path_simps)
  show ?case
  proof (cases "is_container f")
    case True
    with Cons f r show ?thesis by (auto simp: path_simps js_get_def split: if_splits)
  next
    case False
    then have "child_list f = []" and leaf: "setChildFields f v = f"
      by (cases f rule: childFields.cases; simp add: is_container_def child_list_def)+
    with r have "p = []" by (simp add: in_range_Nil_fields)
    with f leaf show ?thesis by (auto simp: path_simps js_get_def split: if_splits)
  qed
qed simp

lemma withNodeFields_rebuild:
  "withNodeFields schema path new = map_res (\<lambda>fs. schema\<lparr>s_fields := fs\<rparr>) (rebuild new (s_fields schema) path)"
  by (simp add: withNodeFields_def)

interpretation tree: path_store nodeFields withNodeFields live_path
proof unfold_locales
  fix s p v s' assume "live_path s p"
  then have "\<exists>fs'. rebuild v (s_fields s) p = Inr fs'"
    by (simp add: live_path_def rebuild_succeeds_iff live_in_range)
  then show "\<exists>s'. withNodeFields s p v = Inr s'"
    by (auto simp: withNodeFields_rebuild)
next
  fix s p v s' assume "live_path s p" and "withNodeFields s p v = Inr s'"
  then show "nodeFields s' p = v" and "live_path s' p"
    by (auto simp: live_path_def withNodeFields_rebuild nodeFields_def intro: walk_rebuild live_rebuild)
next
  fix s p assume "live_path s p"
  then show "withNodeFields s p (nodeFields s p) = Inr s"
    by (simp add: live_path_def withNodeFields_rebuild nodeFields_def rebuild_walk)
next
  fix s p v s' w assume live: "live_path s p" and "withNodeFields s p v = Inr s'"
  then obtain fs where fs: "rebuild v (s_fields s) p = Inr fs" and s': "s' = s\<lparr>s_fields := fs\<rparr>"
    by (auto simp: withNodeFields_rebuild)
  have "rebuild w fs p = rebuild w (s_fields s) p"
    using live fs by (auto simp: live_path_def intro: rebuild_rebuild)
  then show "withNodeFields s' p w = withNodeFields s p w"
    by (simp add: withNodeFields_rebuild s' map_res_def split: sum.splits)
next
  fix s p v s' q assume "withNodeFields s p v = Inr s'" and "apart p q"
  then show "nodeFields s' q = nodeFields s q"
    by (auto simp: withNodeFields_rebuild nodeFields_def intro: walk_rebuild_apart)
qed

text \<open>The outcome of a rebuild at any path: it throws exactly when an index is out of range.\<close>

lemma withNodeFields_cases:
  "withNodeFields schema path new =
     (if \<not> in_range (s_fields schema) path then Inl TypeError
      else if live_path schema path
           then Inr (catch_res (withNodeFields schema path new) schema) else Inr schema)"
proof (cases "rebuild new (s_fields schema) path")
  case (Inl e)
  then have "\<not> in_range (s_fields schema) path"
    using rebuild_succeeds_iff [of new "s_fields schema" path] by auto
  then show ?thesis
    using rebuild_error [OF Inl] Inl by (simp add: withNodeFields_rebuild)
next
  case (Inr fs)
  then have "in_range (s_fields schema) path"
    using rebuild_succeeds_iff by blast
  then show ?thesis
    using Inr rebuild_leaf [of "s_fields schema" path new]
    by (auto simp: withNodeFields_rebuild live_path_def)
qed

lemma withNodeFields_error_iff:
  "withNodeFields schema path new = Inl e \<longleftrightarrow> \<not> in_range (s_fields schema) path \<and> e = TypeError"
  using withNodeFields_cases [of schema path new] by (metis Inl_Inr_False sum.inject(1))

lemma walk_fields_append: "walk_fields fs (p @ q) = walk_fields (walk_fields fs p) q"
proof (induction p arbitrary: fs)
  case (Cons i p)
  then show ?case by (simp add: walk_fields_Cons split: option.splits)
qed simp

lemma live_in_append: "live_in fs (p @ q) \<longleftrightarrow> live_in fs p \<and> live_in (walk_fields fs p) q"
proof (induction p arbitrary: fs)
  case (Cons i p)
  then show ?case by (auto simp: walk_fields_Cons live_in_Cons)
qed simp

section \<open>The canvas graph\<close>

record leaf_field =
  lf_index :: nat
  lf_name :: string
  lf_kind :: string
  lf_column :: "string option"
  lf_ty :: "scalar option"

record doc_node =
  n_id :: string
  n_path :: path
  n_parentId :: "string option"
  n_depth :: nat
  n_kind :: string
  n_table :: string
  n_primaryKey :: "string option"
  n_name :: "string option"
  n_leaves :: "leaf_field list"

record graph_edge =
  g_id :: string
  g_source :: string
  g_target :: string
  g_label :: string

record graph =
  gr_nodes :: "doc_node list"
  gr_edges :: "graph_edge list"

definition pathId :: "path \<Rightarrow> string" where
  "pathId path = (if path \<noteq> [] then ''root.'' @ join_with ''.'' (map show_nat path) else ''root'')"

fun nodeKind :: "field \<Rightarrow> string" where
  "nodeKind (Field _ _ (Group_s _)) = ''object''"
| "nodeKind (Field _ _ (Relation_s (Join_r j _))) = joinVerb (j_kind j)"
| "nodeKind _ = ''object''"

definition isContainerKind :: "string \<Rightarrow> bool" where
  "isContainerKind kind \<longleftrightarrow>
     kind = ''object'' \<or> kind = ''belongs_to'' \<or> kind = ''has_one'' \<or> kind = ''has_many'' \<or>
     kind = ''many_to_many''"

definition nodePrimaryKey :: "index_schema \<Rightarrow> path \<Rightarrow> field option \<Rightarrow> string option" where
  "nodePrimaryKey schema path field =
     (if path = [] then s_primary_key schema
      else case joinOf field of None \<Rightarrow> None | Some (j, _) \<Rightarrow> Some (j_primary_key j))"

fun leafOf :: "field \<Rightarrow> nat \<Rightarrow> leaf_field" where
  "leafOf f index =
     (case f_source f of
        Column_s c \<Rightarrow>
          (case col_ty c of
             Scalar t \<Rightarrow> \<lparr>lf_index = index, lf_name = f_field f, lf_kind = fieldKind f,
                          lf_column = Some (col_column c), lf_ty = Some t\<rparr>
           | _ \<Rightarrow> \<lparr>lf_index = index, lf_name = f_field f, lf_kind = fieldKind f,
                   lf_column = None, lf_ty = None\<rparr>)
      | _ \<Rightarrow> \<lparr>lf_index = index, lf_name = f_field f, lf_kind = fieldKind f,
              lf_column = None, lf_ty = None\<rparr>)"

definition node_leaves :: "field list \<Rightarrow> leaf_field list" where
  "node_leaves fs =
     filter (\<lambda>l. \<not> isContainerKind (lf_kind l)) (map (\<lambda>i. leafOf (fs ! i) i) [0..<length fs])"

definition mk_node :: "index_schema \<Rightarrow> path \<Rightarrow> string option \<Rightarrow> nat \<Rightarrow> doc_node" where
  "mk_node schema path parentId depth =
     (let field = fieldAtPath schema path in
      \<lparr>n_id = pathId path, n_path = path, n_parentId = parentId, n_depth = depth,
       n_kind = (case field of Some f \<Rightarrow> nodeKind f | None \<Rightarrow> ''root''),
       n_table = effectiveTable schema path, n_primaryKey = nodePrimaryKey schema path field,
       n_name = map_option f_field field, n_leaves = node_leaves (nodeFields schema path)\<rparr>)"

definition mk_edge :: "path \<Rightarrow> path \<Rightarrow> field \<Rightarrow> graph_edge" where
  "mk_edge path childPath child =
     \<lparr>g_id = pathId path @ ''->'' @ pathId childPath, g_source = pathId path,
      g_target = pathId childPath, g_label = nodeKind child\<rparr>"

lemma nodeFields_child:
  assumes "i < length (nodeFields schema path)"
  shows "nodeFields schema (path @ [i]) = child_list (nodeFields schema path ! i)"
  using assms by (simp add: nodeFields_def walk_fields_append walk_fields_Cons js_get_def)

lemma size_child_list:
  assumes "f \<in> set fs"
  shows "size_list size (child_list f) < size_list size fs"
proof -
  have "size_list size (child_list f) < Suc (size f)"
    by (cases f rule: childFields.cases) (auto simp: child_list_def)
  moreover from assms have "Suc (size f) \<le> size_list size fs"
    by (induction fs) auto
  ultimately show ?thesis by simp
qed

text \<open>
  \<open>visit\<close> pushes a node and then, per container child, the edge to it and what the child's
  visit pushes; here the pushes are the returned lists.
\<close>

function visit :: "index_schema \<Rightarrow> path \<Rightarrow> string option \<Rightarrow> nat \<Rightarrow> doc_node list \<times> graph_edge list" where
  "visit schema path parentId depth =
     (let fs = nodeFields schema path;
          kids = map (\<lambda>i. if is_container (fs ! i)
                          then let r = visit schema (path @ [i]) (Some (pathId path)) (Suc depth)
                               in (fst r, mk_edge path (path @ [i]) (fs ! i) # snd r)
                          else ([], [])) [0..<length fs]
      in (mk_node schema path parentId depth # concat (map fst kids), concat (map snd kids)))"
  by pat_completeness auto
termination
  by (relation "measure (\<lambda>(schema, path, _, _). size_list size (nodeFields schema path))")
     (auto simp: nodeFields_child intro!: size_child_list)

declare visit.simps [simp del]

definition projectGraph :: "index_schema \<Rightarrow> graph" where
  "projectGraph schema =
     (let r = visit schema [] None 0 in \<lparr>gr_nodes = fst r, gr_edges = snd r\<rparr>)"

text \<open>The container paths below a list of fields, in the order the projection visits them.\<close>

function container_paths :: "field list \<Rightarrow> path list" where
  "container_paths fs =
     [] # concat (map (\<lambda>i. if is_container (fs ! i)
                           then map (Cons i) (container_paths (child_list (fs ! i))) else [])
                  [0..<length fs])"
  by pat_completeness auto
termination
  by (relation "measure (size_list size)") (auto intro!: size_child_list)

declare container_paths.simps [simp del]

lemma set_container_paths: "set (container_paths fs) = {p. live_in fs p}"
proof (induction fs rule: container_paths.induct)
  case (1 fs)
  have "p \<in> set (container_paths fs) \<longleftrightarrow> live_in fs p" for p
  proof (cases p)
    case Nil
    then show ?thesis by (subst container_paths.simps) simp
  next
    case (Cons i q)
    have "p \<in> set (container_paths fs) \<longleftrightarrow>
        i < length fs \<and> is_container (fs ! i) \<and> q \<in> set (container_paths (child_list (fs ! i)))"
      by (subst container_paths.simps) (auto simp: Cons split: if_splits)
    also have "\<dots> \<longleftrightarrow> live_in fs p"
      using "1.IH" by (auto simp: Cons live_in_Cons js_get_def)
    finally show ?thesis .
  qed
  then show ?case by auto
qed

lemma distinct_concat_tagged:
  assumes "\<And>i. i \<in> set is \<Longrightarrow> distinct (f i)" and "distinct is"
  shows "distinct (concat (map (\<lambda>i. map (Cons i) (f i)) is))"
  using assms by (induction "is") (auto simp: distinct_map)

lemma distinct_container_paths: "distinct (container_paths fs)"
proof (induction fs rule: container_paths.induct)
  case (1 fs)
  let ?f = "\<lambda>i. if is_container (fs ! i) then container_paths (child_list (fs ! i)) else []"
  have eq: "container_paths fs = [] # concat (map (\<lambda>i. map (Cons i) (?f i)) [0..<length fs])"
    by (subst container_paths.simps) (auto intro!: arg_cong [where f = concat] map_cong)
  have "distinct (concat (map (\<lambda>i. map (Cons i) (?f i)) [0..<length fs]))"
    by (rule distinct_concat_tagged) (use "1.IH" in auto)
  then show ?case unfolding eq by auto
qed

lemma visit_paths:
  "map n_path (fst (visit schema path par d)) = map ((@) path) (container_paths (nodeFields schema path))"
proof (induction schema path par d rule: visit.induct)
  case (1 schema path par d)
  let ?fs = "nodeFields schema path"
  have kid: "map n_path (fst (visit schema (path @ [i]) (Some (pathId path)) (Suc d))) =
      map ((@) path) (map (Cons i) (container_paths (child_list (?fs ! i))))"
    if "i < length ?fs" and "is_container (?fs ! i)" for i
    using "1.IH" that by (simp add: nodeFields_child)
  show ?case
    by (subst visit.simps, subst container_paths.simps)
       (auto simp: Let_def mk_node_def map_concat kid intro!: arg_cong [where f = concat] map_cong)
qed

lemma visit_hd:
  "\<exists>rest. fst (visit schema path par d) = mk_node schema path par d # rest"
  by (subst visit.simps) (simp add: Let_def)

lemma n_simps [simp]:
  "n_id (mk_node schema path par d) = pathId path"
  "n_path (mk_node schema path par d) = path"
  "n_parentId (mk_node schema path par d) = par"
  "n_depth (mk_node schema path par d) = d"
  by (simp_all add: mk_node_def Let_def)

lemma g_simps [simp]:
  "g_source (mk_edge p q f) = pathId p" "g_target (mk_edge p q f) = pathId q"
  by (simp_all add: mk_edge_def)

text \<open>The edges are, in order, the parent links of the nodes after the first.\<close>

lemma visit_edges:
  "map (\<lambda>e. (Some (g_source e), g_target e)) (snd (visit schema path par d)) =
   map (\<lambda>n. (n_parentId n, n_id n)) (tl (fst (visit schema path par d)))"
proof (induction schema path par d rule: visit.induct)
  case (1 schema path par d)
  let ?fs = "nodeFields schema path"
  let ?v = "\<lambda>i. visit schema (path @ [i]) (Some (pathId path)) (Suc d)"
  have kid: "map (\<lambda>e. (Some (g_source e), g_target e)) (mk_edge path (path @ [i]) (?fs ! i) # snd (?v i)) =
      map (\<lambda>n. (n_parentId n, n_id n)) (fst (?v i))"
    if "i < length ?fs" and "is_container (?fs ! i)" for i
  proof -
    obtain rest where "fst (?v i) = mk_node schema (path @ [i]) (Some (pathId path)) (Suc d) # rest"
      using visit_hd by blast
    with "1.IH" [OF refl _ that(2)] that(1) show ?thesis by simp
  qed
  show ?case
    unfolding visit.simps [of schema path par d] Let_def
    by (auto simp: map_concat kid intro!: arg_cong [where f = concat] map_cong simp del: list.map(2))
qed

lemma visit_depth:
  "n \<in> set (fst (visit schema path par d)) \<Longrightarrow> n_depth n + length path = d + length (n_path n)"
proof (induction schema path par d rule: visit.induct)
  case (1 schema path par d)
  from "1.prems" consider "n = mk_node schema path par d"
    | i where "i < length (nodeFields schema path)" and "is_container (nodeFields schema path ! i)"
        and "n \<in> set (fst (visit schema (path @ [i]) (Some (pathId path)) (Suc d)))"
    unfolding visit.simps [of schema path par d] Let_def by (auto split: if_splits)
  then show ?case
  proof cases
    case 1
    then show ?thesis by simp
  next
    case 2
    then show ?thesis using "1.IH" [OF refl _ 2(2)] by fastforce
  qed
qed

lemma visit_parent:
  "n \<in> set (fst (visit schema path par d)) \<Longrightarrow> n_path n \<noteq> path \<Longrightarrow>
     n_parentId n = Some (pathId (butlast (n_path n)))"
proof (induction schema path par d rule: visit.induct)
  case (1 schema path par d)
  then obtain i where i: "i < length (nodeFields schema path)" "is_container (nodeFields schema path ! i)"
    and n: "n \<in> set (fst (visit schema (path @ [i]) (Some (pathId path)) (Suc d)))"
    unfolding visit.simps [of schema path par d] Let_def by (auto split: if_splits)
  show ?case
  proof (cases "n_path n = path @ [i]")
    case True
    obtain rest where rest: "fst (visit schema (path @ [i]) (Some (pathId path)) (Suc d)) =
        mk_node schema (path @ [i]) (Some (pathId path)) (Suc d) # rest"
      using visit_hd by blast
    have "distinct (map n_path (fst (visit schema (path @ [i]) (Some (pathId path)) (Suc d))))"
      unfolding visit_paths by (simp add: distinct_map distinct_container_paths inj_on_def)
    with rest n True have "n = mk_node schema (path @ [i]) (Some (pathId path)) (Suc d)"
      by (auto simp: image_iff)
    then show ?thesis by simp
  next
    case False
    then show ?thesis using "1.IH" [OF refl _ i(2) n] i(1) by simp
  qed
qed

lemma pathId_inject [simp]: "pathId p = pathId q \<longleftrightarrow> p = q"
proof
  have dot: "CHR ''.'' \<notin> set (show_nat n)" for n
    by (rule show_nat_no_char) (simp add: is_digit_def code_unit_def)
  have dec: "map show_nat p = split_char CHR ''.'' (drop 5 (pathId p))" if "p \<noteq> []" for p
    using that split_join_char [of "map show_nat p" "CHR ''.''"] dot by (simp add: pathId_def)
  assume eq: "pathId p = pathId q"
  show "p = q"
  proof (cases "p = [] \<or> q = []")
    case True
    with eq show ?thesis by (auto simp: pathId_def split: if_splits)
  next
    case False
    then have "map show_nat p = map show_nat q"
      using dec [of p] dec [of q] eq by simp
    moreover have "inj show_nat" by (simp add: inj_def)
    ultimately show ?thesis by (simp add: inj_map_eq_map)
  qed
qed simp

lemma graph_paths: "map n_path (gr_nodes (projectGraph schema)) = container_paths (s_fields schema)"
  by (simp add: projectGraph_def Let_def visit_paths nodeFields_def map_idI)

lemma graph_node_id: "n \<in> set (gr_nodes (projectGraph schema)) \<Longrightarrow> n_id n = pathId (n_path n)"
proof -
  have "n \<in> set (fst (visit schema path par d)) \<Longrightarrow> n_id n = pathId (n_path n)" for path par d
  proof (induction schema path par d rule: visit.induct)
    case (1 schema path par d)
    then show ?case
      unfolding visit.simps [of schema path par d] Let_def by (auto split: if_splits)
  qed
  then show "n \<in> set (gr_nodes (projectGraph schema)) \<Longrightarrow> n_id n = pathId (n_path n)"
    by (simp add: projectGraph_def Let_def)
qed

lemma graph_ids_distinct: "distinct (map n_id (gr_nodes (projectGraph schema)))"
proof -
  have "map n_id (gr_nodes (projectGraph schema)) =
      map pathId (map n_path (gr_nodes (projectGraph schema)))"
    using graph_node_id by simp
  then show ?thesis
    unfolding graph_paths by (simp add: distinct_map distinct_container_paths inj_on_def)
qed

lemma isContainerKind_fieldKind: "isContainerKind (fieldKind f) \<longleftrightarrow> is_container f"
proof (cases f rule: fieldKind.cases)
  case (1 n opts c)
  have "\<not> isContainerKind (scalar_name t)" for t
    by (cases t) (simp_all add: isContainerKind_def)
  then show ?thesis
    by (cases "col_ty c") (simp_all add: 1 is_container_def isContainerKind_def)
next
  case (5 n opts j fs)
  then show ?thesis by (cases "j_kind j") (simp_all add: is_container_def isContainerKind_def)
next
  case (6 n opts a)
  then show ?thesis by (cases "agg_op a") (simp_all add: is_container_def isContainerKind_def)
qed (simp_all add: is_container_def isContainerKind_def)

lemma leafOf_simps [simp]:
  "lf_index (leafOf f i) = i" "lf_name (leafOf f i) = f_field f" "lf_kind (leafOf f i) = fieldKind f"
  by (auto split: field_source.splits flusso_type.splits)

lemma node_leaves_indices:
  "map lf_index (node_leaves fs) = filter (\<lambda>i. \<not> is_container (fs ! i)) [0..<length fs]"
  by (simp add: node_leaves_def filter_map comp_def isContainerKind_fieldKind del: leafOf.simps)

end
