(* ===== verification/Edits.thy ===== *)
theory Edits
  imports Schema_Tree
begin

text \<open>
  \<^verbatim>\<open>model/edit.ts\<close>: the path-addressed edits every canvas and inspector action goes through.
  Each replaces the child fields of one node by a function of them, so the laws of
  \<^const>\<open>path_store\<close> give their effect, their frame and what undoes them. Then the fresh names
  of the edits that add a field.
\<close>

text \<open>\<open>withNodeFields(schema, path, f(nodeFields(schema, path)))\<close>, the shape of every edit.\<close>

definition edit_node :: "index_schema \<Rightarrow> path \<Rightarrow> (field list \<Rightarrow> field list) \<Rightarrow> index_schema res" where
  "edit_node schema path f = withNodeFields schema path (f (nodeFields schema path))"

lemmas edit_node_total = tree.edit_total [folded edit_node_def]
lemmas edit_node_fusion = tree.edit_fusion [folded edit_node_def]
lemmas edit_node_inverse = tree.edit_inverse [folded edit_node_def]
lemmas edit_node_id = tree.edit_id [folded edit_node_def]

definition scalar_column :: "field \<Rightarrow> string option" where
  "scalar_column f =
     (case f_source f of
        Column_s c \<Rightarrow> (case col_ty c of Scalar _ \<Rightarrow> Some (col_column c) | _ \<Rightarrow> None)
      | _ \<Rightarrow> None)"

definition column_field :: "string \<Rightarrow> flusso_type \<Rightarrow> bool \<Rightarrow> field" where
  "column_field column ty nullable = Field column None (Column_s (plain_column column ty nullable))"

definition toggleColumn ::
  "index_schema \<Rightarrow> path \<Rightarrow> string \<Rightarrow> bool \<Rightarrow> flusso_type \<Rightarrow> bool \<Rightarrow> index_schema res" where
  "toggleColumn schema path column on ty nullable =
     (if on then edit_node schema path (\<lambda>fs. fs @ [column_field column ty nullable])
      else edit_node schema path (filter (\<lambda>f. scalar_column f \<noteq> Some column)))"

definition addField :: "index_schema \<Rightarrow> path \<Rightarrow> field \<Rightarrow> index_schema res" where
  "addField schema path field = edit_node schema path (\<lambda>fs. fs @ [field])"

record column_spec =
  cp_name :: string
  cp_ty :: "flusso_type option"
  cp_nullable :: "bool option"

definition spec_field :: "column_spec \<Rightarrow> field" where
  "spec_field c =
     column_field (cp_name c) (case cp_ty c of None \<Rightarrow> Scalar Keyword_t | Some t \<Rightarrow> t)
       (case cp_nullable c of None \<Rightarrow> True | Some b \<Rightarrow> b)"

definition included_columns :: "field list \<Rightarrow> string list" where
  "included_columns fs = List.map_filter scalar_column fs"

definition includeColumns :: "index_schema \<Rightarrow> path \<Rightarrow> column_spec list \<Rightarrow> index_schema res" where
  "includeColumns schema path columns =
     edit_node schema path
       (\<lambda>fs. fs @ map spec_field (filter (\<lambda>c. cp_name c \<notin> set (included_columns fs)) columns))"

definition drops_field :: "string list \<Rightarrow> field \<Rightarrow> bool" where
  "drops_field names f \<longleftrightarrow>
     (case scalar_column f of Some col \<Rightarrow> col \<in> set names | None \<Rightarrow> False) \<or> f_field f \<in> set names"

definition removeFields :: "index_schema \<Rightarrow> path \<Rightarrow> string list \<Rightarrow> index_schema res" where
  "removeFields schema path names = edit_node schema path (filter (\<lambda>f. \<not> drops_field names f))"

definition clearColumns :: "index_schema \<Rightarrow> path \<Rightarrow> index_schema res" where
  "clearColumns schema path = edit_node schema path (filter (\<lambda>f. scalar_column f = None))"

text \<open>
  The naming loops, with the fuel that \<open>namer.fresh_from_enough\<close> shows to be enough; the
  \<open>base\<close> fallback is never used.
\<close>

definition uniqueName :: "string list \<Rightarrow> string \<Rightarrow> string" where
  "uniqueName existing base =
     (let cand = numbered (base @ ''_copy'') (base @ ''_copy'') in
      case fresh_from (Suc (length existing)) cand existing 0 of None \<Rightarrow> base | Some n \<Rightarrow> cand n)"

definition special_base :: "string \<Rightarrow> string" where
  "special_base kind = (if kind = ''object'' then ''group'' else kind)"

definition specialName :: "string list \<Rightarrow> string \<Rightarrow> string" where
  "specialName existing kind =
     (let cand = numbered (special_base kind) kind in
      case fresh_from (Suc (length existing)) cand existing 0 of None \<Rightarrow> kind | Some n \<Rightarrow> cand n)"

definition duplicateAt :: "index_schema \<Rightarrow> path \<Rightarrow> nat \<Rightarrow> index_schema res" where
  "duplicateAt schema path index =
     (let fs = nodeFields schema path in
      case js_get fs index of
        None \<Rightarrow> Inr schema
      | Some orig \<Rightarrow>
          (let copy = with_name orig (uniqueName (map f_field fs) (f_field orig))
           in withNodeFields schema path (insert_at (Suc index) copy fs)))"

definition duplicateNode :: "index_schema \<Rightarrow> path \<Rightarrow> index_schema res" where
  "duplicateNode schema path =
     (if path = [] then Inr schema else duplicateAt schema (butlast path) (last path))"

definition addSpecial :: "index_schema \<Rightarrow> path \<Rightarrow> string \<Rightarrow> index_schema res" where
  "addSpecial schema path kind =
     (let existing = map f_field (nodeFields schema path)
      in addField schema path (defaultField (specialName existing kind) kind ''''))"

definition setLeaf :: "index_schema \<Rightarrow> path \<Rightarrow> nat \<Rightarrow> field \<Rightarrow> index_schema res" where
  "setLeaf schema path i field =
     bind_res (js_store (nodeFields schema path) i field) (withNodeFields schema path)"

definition removeAt :: "index_schema \<Rightarrow> path \<Rightarrow> nat \<Rightarrow> index_schema res" where
  "removeAt schema path i = edit_node schema path (without_index i)"

definition removeNode :: "index_schema \<Rightarrow> path \<Rightarrow> index_schema res" where
  "removeNode schema path =
     (if path = [] then Inr schema else removeAt schema (butlast path) (last path))"

definition setNode :: "index_schema \<Rightarrow> path \<Rightarrow> field \<Rightarrow> index_schema res" where
  "setNode schema path field = setNodeField schema path field"

text \<open>A patch names the properties it sets: the outer \<^const>\<open>None\<close> leaves one alone.\<close>

record root_patch =
  rp_table :: "string option"
  rp_db_schema :: "string option"
  rp_primary_key :: "string option option"

definition setRootMeta :: "index_schema \<Rightarrow> root_patch \<Rightarrow> index_schema" where
  "setRootMeta schema patch =
     schema\<lparr>s_table := (case rp_table patch of None \<Rightarrow> s_table schema | Some t \<Rightarrow> t),
            s_db_schema := (case rp_db_schema patch of None \<Rightarrow> s_db_schema schema | Some d \<Rightarrow> d),
            s_primary_key := (case rp_primary_key patch of None \<Rightarrow> s_primary_key schema | Some k \<Rightarrow> k)\<rparr>"

section \<open>Fresh names\<close>

lemma uniqueName_cand: "namer (numbered (base @ ''_copy'') (base @ ''_copy''))"
  by unfold_locales (rule numbered_inject, simp)

lemma special_cand: "namer (numbered (special_base kind) kind)"
proof unfold_locales
  have "special_base kind \<noteq> kind @ show_nat n" for n
  proof (cases "kind = ''object''")
    case True
    then show ?thesis by (simp add: special_base_def)
  qed (simp add: special_base_def)
  then show "numbered (special_base kind) kind m = numbered (special_base kind) kind n \<longleftrightarrow> m = n" for m n
    by (rule numbered_inject)
qed

interpretation copy_namer: namer "numbered (base @ ''_copy'') (base @ ''_copy'')" for base
  by (rule uniqueName_cand)

interpretation special_namer: namer "numbered (special_base kind) kind" for kind
  by (rule special_cand)

lemma uniqueName_first:
  "\<exists>n. uniqueName existing base = numbered (base @ ''_copy'') (base @ ''_copy'') n \<and>
       uniqueName existing base \<notin> set existing \<and>
       (\<forall>i < n. numbered (base @ ''_copy'') (base @ ''_copy'') i \<in> set existing)"
  using copy_namer.fresh_name [of existing base 0] by (auto simp: uniqueName_def)

lemma specialName_first:
  "\<exists>n. specialName existing kind = numbered (special_base kind) kind n \<and>
       specialName existing kind \<notin> set existing \<and>
       (\<forall>i < n. numbered (special_base kind) kind i \<in> set existing)"
  using special_namer.fresh_name [of existing kind 0] by (auto simp: specialName_def)

lemma uniqueName_fresh: "uniqueName existing base \<notin> set existing"
  using uniqueName_first by blast

lemma specialName_fresh: "specialName existing kind \<notin> set existing"
  using specialName_first by blast

section \<open>What the edits do\<close>

lemma map_without_index: "map f (without_index i xs) = without_index i (map f xs)"
  by (simp add: without_index_take_drop take_map drop_map)

lemma distinct_insert_at:
  "distinct xs \<Longrightarrow> x \<notin> set xs \<Longrightarrow> distinct (insert_at i x xs)"
  unfolding insert_at_def
  by (metis append_take_drop_id distinct_append distinct.simps(2) in_set_takeD in_set_dropD
      disjoint_insert(2) list.simps(15) set_append Un_iff)

lemma map_insert_at: "map f (insert_at i x xs) = insert_at i (f x) (map f xs)"
  by (simp add: insert_at_def take_map drop_map)

text \<open>Field names stay pairwise different under the edits that make up a name.\<close>

lemma duplicateAt_distinct:
  assumes "live_path schema path" and "index < length (nodeFields schema path)"
    and "distinct (map f_field (nodeFields schema path))"
  shows "\<exists>s'. duplicateAt schema path index = Inr s' \<and>
    distinct (map f_field (nodeFields s' path)) \<and>
    without_index (Suc index) (nodeFields s' path) = nodeFields schema path"
proof -
  let ?fs = "nodeFields schema path"
  let ?copy = "with_name (?fs ! index) (uniqueName (map f_field ?fs) (f_field (?fs ! index)))"
  obtain s' where s': "withNodeFields schema path (insert_at (Suc index) ?copy ?fs) = Inr s'"
    using tree.replace_total assms(1) by blast
  then have get: "nodeFields s' path = insert_at (Suc index) ?copy ?fs"
    using tree.fetch_replace assms(1) by blast
  have "f_field ?copy \<notin> set (map f_field ?fs)"
    unfolding with_name_simps by (rule uniqueName_fresh)
  then have "distinct (map f_field (nodeFields s' path))"
    unfolding get map_insert_at by (rule distinct_insert_at [OF assms(3)])
  moreover have "without_index (Suc index) (nodeFields s' path) = ?fs"
    unfolding get using assms(2) by (simp add: without_index_insert_at)
  moreover have "duplicateAt schema path index = Inr s'"
    using assms(2) s' by (simp add: duplicateAt_def Let_def js_get_def)
  ultimately show ?thesis by blast
qed

lemma duplicate_then_remove:
  assumes "live_path schema path" and "index < length (nodeFields schema path)"
    and "duplicateAt schema path index = Inr s'"
  shows "removeAt s' path (Suc index) = Inr schema"
proof -
  let ?fs = "nodeFields schema path"
  define copy where "copy = with_name (?fs ! index) (uniqueName (map f_field ?fs) (f_field (?fs ! index)))"
  have "edit_node schema path (insert_at (Suc index) copy) = Inr s'"
    using assms(2,3) by (simp add: edit_node_def duplicateAt_def Let_def js_get_def copy_def)
  then show ?thesis
    unfolding removeAt_def using assms(1,2)
    by (intro edit_node_inverse [of schema path "insert_at (Suc index) copy"])
       (simp_all add: without_index_insert_at)
qed

lemma addSpecial_distinct:
  assumes "live_path schema path" and "distinct (map f_field (nodeFields schema path))"
  shows "\<exists>s'. addSpecial schema path kind = Inr s' \<and>
    distinct (map f_field (nodeFields s' path)) \<and>
    butlast (nodeFields s' path) = nodeFields schema path"
proof -
  let ?fs = "nodeFields schema path"
  let ?f = "defaultField (specialName (map f_field ?fs) kind) kind ''''"
  obtain s' where "addField schema path ?f = Inr s'" and "nodeFields s' path = ?fs @ [?f]"
    using edit_node_total [OF assms(1), of "\<lambda>fs. fs @ [?f]"] by (auto simp: addField_def)
  then show ?thesis
    using assms(2) specialName_fresh [of "map f_field ?fs" kind]
    by (auto simp: addSpecial_def Let_def defaultField_def)
qed

text \<open>Including a column and excluding it again.\<close>

lemma scalar_column_column_field [simp]:
  "scalar_column (column_field c ty b) = (case ty of Scalar _ \<Rightarrow> Some c | _ \<Rightarrow> None)"
  by (simp add: scalar_column_def column_field_def plain_column_def split: flusso_type.splits)

lemma included_columns_iff:
  "c \<in> set (included_columns fs) \<longleftrightarrow> (\<exists>f \<in> set fs. scalar_column f = Some c)"
  by (force simp: included_columns_def List.map_filter_def image_iff)

lemma included_columns_append [simp]:
  "included_columns (fs @ gs) = included_columns fs @ included_columns gs"
  by (simp add: included_columns_def List.map_filter_def)

lemma toggle_on_off:
  assumes "live_path schema path" and "column \<notin> set (included_columns (nodeFields schema path))"
    and "toggleColumn schema path column True (Scalar t) b = Inr s'"
  shows "toggleColumn s' path column False ty' b' = Inr schema"
proof -
  let ?add = "\<lambda>fs. fs @ [column_field column (Scalar t) b]"
  have "filter (\<lambda>f. scalar_column f \<noteq> Some column) (?add (nodeFields schema path)) = nodeFields schema path"
    using assms(2) by (simp add: included_columns_iff filter_id_conv)
  then show ?thesis
    using assms(1,3) by (simp add: toggleColumn_def edit_node_inverse [of schema path ?add])
qed

text \<open>Including all columns twice adds nothing the second time.\<close>

definition spec_scalar :: "column_spec \<Rightarrow> bool" where
  "spec_scalar c \<longleftrightarrow> (case cp_ty c of None \<Rightarrow> True | Some (Scalar _) \<Rightarrow> True | _ \<Rightarrow> False)"

lemma scalar_column_spec_field: "spec_scalar c \<Longrightarrow> scalar_column (spec_field c) = Some (cp_name c)"
  by (auto simp: spec_scalar_def spec_field_def split: option.splits flusso_type.splits)

lemma includeColumns_effect:
  assumes "live_path schema path" and "list_all spec_scalar columns"
  shows "\<exists>s'. includeColumns schema path columns = Inr s' \<and>
    set (included_columns (nodeFields s' path)) =
      set (included_columns (nodeFields schema path)) \<union> cp_name ` set columns"
proof -
  let ?fs = "nodeFields schema path"
  let ?new = "filter (\<lambda>c. cp_name c \<notin> set (included_columns ?fs)) columns"
  obtain s' where s': "includeColumns schema path columns = Inr s'"
    and get: "nodeFields s' path = ?fs @ map spec_field ?new"
    using edit_node_total [OF assms(1)] unfolding includeColumns_def by meson
  have "set (included_columns (map spec_field ?new)) = cp_name ` set ?new"
    using assms(2) scalar_column_spec_field
    by (auto simp: included_columns_iff list_all_iff image_iff)
  then have "set (included_columns (nodeFields s' path)) =
      set (included_columns ?fs) \<union> cp_name ` set columns"
    unfolding get by auto
  with s' show ?thesis by blast
qed

lemma includeColumns_twice:
  assumes "live_path schema path" and "list_all spec_scalar columns"
    and "includeColumns schema path columns = Inr s'"
  shows "includeColumns s' path columns = Inr s'"
proof -
  have "set (included_columns (nodeFields s' path)) \<supseteq> cp_name ` set columns"
    using includeColumns_effect [OF assms(1,2)] assms(3) by auto
  then have none: "filter (\<lambda>c. cp_name c \<notin> set (included_columns (nodeFields s' path))) columns = []"
    by (auto simp: filter_empty_conv)
  have "live_path s' path"
    using assms(1,3) by (simp add: includeColumns_def edit_node_def tree.live_replace)
  then show ?thesis
    unfolding includeColumns_def by (rule edit_node_id) (simp add: none)
qed

end
