(* ===== verification/Preview_Prune.thy ===== *)
theory Preview_Prune
  imports Schema_Tree
begin

text \<open>
  \<^verbatim>\<open>model/complete.ts\<close> and \<^verbatim>\<open>model/prune.ts\<close>: which joins and aggregates still miss a
  required key, and the pruning of a schema in progress for the strict preview endpoint. The
  specification is \<open>clean_schema\<close>: nothing incomplete is left anywhere in the tree. Pruning
  always reaches it, keeps a clean schema as it is, and only ever drops fields.
\<close>

section \<open>Completeness\<close>

definition through_incomplete :: "through \<Rightarrow> bool" where
  "through_incomplete th \<longleftrightarrow> th_table th = [] \<or> th_left_key th = [] \<or> th_right_key th = []"

fun keyIncomplete :: "aggregate_key \<Rightarrow> bool" where
  "keyIncomplete (Direct d) \<longleftrightarrow> d = []"
| "keyIncomplete (Through th) \<longleftrightarrow> through_incomplete th"

fun join_kind_incomplete :: "join_kind \<Rightarrow> bool" where
  "join_kind_incomplete (Belongs_to c) \<longleftrightarrow> c = []"
| "join_kind_incomplete (Has_one k) \<longleftrightarrow> k = []"
| "join_kind_incomplete (Has_many k) \<longleftrightarrow> k = []"
| "join_kind_incomplete (Many_to_many th) \<longleftrightarrow> through_incomplete th"

definition joinIncomplete :: "field option \<Rightarrow> bool" where
  "joinIncomplete field =
     (case joinOf field of
        None \<Rightarrow> False
      | Some (j, _) \<Rightarrow>
          if j_table j = [] \<or> j_primary_key j = [] then True else join_kind_incomplete (j_kind j))"

definition agg_incomplete :: "aggregate \<Rightarrow> bool" where
  "agg_incomplete a =
     (if agg_table a = [] \<or> keyIncomplete (agg_key a) then True
      else case agg_op a of
        Count_op \<Rightarrow> False
      | Ids_op _ \<Rightarrow> False
      | Avg_op c \<Rightarrow> c = []
      | Sum_op c \<Rightarrow> c = [] \<or> agg_value_type a = None
      | Min_op c \<Rightarrow> c = [] \<or> agg_value_type a = None
      | Max_op c \<Rightarrow> c = [] \<or> agg_value_type a = None)"

definition aggregateIncomplete :: "field option \<Rightarrow> bool" where
  "aggregateIncomplete field =
     (case field of
        Some (Field _ _ (Relation_s (Aggregate_r a))) \<Rightarrow> agg_incomplete a
      | _ \<Rightarrow> False)"

section \<open>Pruning\<close>

fun filterOk :: "filter \<Rightarrow> bool" where
  "filterOk (Raw r) \<longleftrightarrow> r \<noteq> []"
| "filterOk (Null_check c _) \<longleftrightarrow> c \<noteq> []"
| "filterOk (Value_op c _ _) \<longleftrightarrow> c \<noteq> []"

definition non_empty :: "'a list \<Rightarrow> 'a list option" where
  "non_empty xs = (if xs = [] then None else Some xs)"

definition prunedFilters :: "filter list option \<Rightarrow> filter list option" where
  "prunedFilters filters =
     non_empty (List.filter filterOk (case filters of None \<Rightarrow> [] | Some fs \<Rightarrow> fs))"

definition prunedThrough :: "through \<Rightarrow> through" where
  "prunedThrough th = th\<lparr>th_filters := prunedFilters (th_filters th)\<rparr>"

definition prunedAggregate :: "aggregate \<Rightarrow> aggregate" where
  "prunedAggregate agg =
     agg\<lparr>agg_key := (case agg_key agg of Through th \<Rightarrow> Through (prunedThrough th) | k \<Rightarrow> k),
         agg_filters := prunedFilters (agg_filters agg)\<rparr>"

definition prunedJoin :: "join \<Rightarrow> join" where
  "prunedJoin j =
     j\<lparr>j_kind := (case j_kind j of Many_to_many th \<Rightarrow> Many_to_many (prunedThrough th) | k \<Rightarrow> k),
       j_order_by := non_empty (List.filter (\<lambda>ob. ob_column ob \<noteq> [])
                                  (case j_order_by j of None \<Rightarrow> [] | Some obs \<Rightarrow> obs)),
       j_filters := prunedFilters (j_filters j)\<rparr>"

fun prunedField :: "field \<Rightarrow> field option" where
  "prunedField (Field n opts (Relation_s (Aggregate_r a))) =
     (if aggregateIncomplete (Some (Field n opts (Relation_s (Aggregate_r a)))) then None
      else Some (Field n opts (Relation_s (Aggregate_r (prunedAggregate a)))))"
| "prunedField (Field n opts (Relation_s (Join_r j fs))) =
     (if joinIncomplete (Some (Field n opts (Relation_s (Join_r j fs)))) then None
      else Some (Field n opts (Relation_s (Join_r (prunedJoin j) (somes (map prunedField fs))))))"
| "prunedField (Field n opts (Group_s fs)) =
     Some (Field n opts (Group_s (somes (map prunedField fs))))"
| "prunedField (Field n opts (Column_s c)) =
     (if col_column c = [] then None else Some (Field n opts (Column_s c)))"
| "prunedField (Field n opts (Geo_s g)) =
     (if geo_lat g = [] \<or> geo_lon g = [] then None else Some (Field n opts (Geo_s g)))"
| "prunedField f = Some f"

definition prunedSoftDelete :: "soft_delete option \<Rightarrow> soft_delete option" where
  "prunedSoftDelete sd =
     (case sd of
        Some (Sd_column c _) \<Rightarrow> if c = [] then None else sd
      | Some (Sd_field f _) \<Rightarrow> if f = [] then None else sd
      | None \<Rightarrow> None)"

definition prunedForPreview :: "index_schema \<Rightarrow> index_schema" where
  "prunedForPreview schema =
     schema\<lparr>s_fields := somes (map prunedField (s_fields schema)),
            s_soft_delete := prunedSoftDelete (s_soft_delete schema),
            s_filters := prunedFilters (s_filters schema)\<rparr>"

section \<open>Nothing incomplete is left\<close>

definition clean_filters :: "filter list option \<Rightarrow> bool" where
  "clean_filters fo \<longleftrightarrow> (case fo of None \<Rightarrow> True | Some fs \<Rightarrow> fs \<noteq> [] \<and> list_all filterOk fs)"

definition clean_through :: "through \<Rightarrow> bool" where
  "clean_through th \<longleftrightarrow> \<not> through_incomplete th \<and> clean_filters (th_filters th)"

definition clean_join :: "join \<Rightarrow> bool" where
  "clean_join j \<longleftrightarrow>
     j_table j \<noteq> [] \<and> j_primary_key j \<noteq> [] \<and> \<not> join_kind_incomplete (j_kind j) \<and>
     (case j_kind j of Many_to_many th \<Rightarrow> clean_through th | _ \<Rightarrow> True) \<and>
     clean_filters (j_filters j) \<and>
     (case j_order_by j of None \<Rightarrow> True | Some obs \<Rightarrow> obs \<noteq> [] \<and> list_all (\<lambda>ob. ob_column ob \<noteq> []) obs)"

definition clean_aggregate :: "aggregate \<Rightarrow> bool" where
  "clean_aggregate a \<longleftrightarrow>
     \<not> agg_incomplete a \<and> clean_filters (agg_filters a) \<and>
     (case agg_key a of Through th \<Rightarrow> clean_through th | _ \<Rightarrow> True)"

fun clean_field :: "field \<Rightarrow> bool" where
  "clean_field (Field _ _ (Column_s c)) \<longleftrightarrow> col_column c \<noteq> []"
| "clean_field (Field _ _ (Group_s fs)) \<longleftrightarrow> list_all clean_field fs"
| "clean_field (Field _ _ (Geo_s g)) \<longleftrightarrow> geo_lat g \<noteq> [] \<and> geo_lon g \<noteq> []"
| "clean_field (Field _ _ (Relation_s (Join_r j fs))) \<longleftrightarrow> clean_join j \<and> list_all clean_field fs"
| "clean_field (Field _ _ (Relation_s (Aggregate_r a))) \<longleftrightarrow> clean_aggregate a"
| "clean_field (Field _ _ (Constant_s _)) \<longleftrightarrow> True"

definition clean_schema :: "index_schema \<Rightarrow> bool" where
  "clean_schema schema \<longleftrightarrow>
     list_all clean_field (s_fields schema) \<and> clean_filters (s_filters schema) \<and>
     (case s_soft_delete schema of
        None \<Rightarrow> True | Some (Sd_column c _) \<Rightarrow> c \<noteq> [] | Some (Sd_field f _) \<Rightarrow> f \<noteq> [])"

lemma clean_prunedFilters: "clean_filters (prunedFilters fo)"
  by (auto simp: clean_filters_def prunedFilters_def non_empty_def list_all_iff)

lemma prunedFilters_clean: "clean_filters fo \<Longrightarrow> prunedFilters fo = fo"
  by (auto simp: clean_filters_def prunedFilters_def non_empty_def list_all_iff filter_id_conv
      split: option.splits)

lemma through_incomplete_pruned [simp]: "through_incomplete (prunedThrough th) = through_incomplete th"
  by (simp add: through_incomplete_def prunedThrough_def)

lemma clean_prunedThrough: "\<not> through_incomplete th \<Longrightarrow> clean_through (prunedThrough th)"
  by (simp add: clean_through_def) (simp add: prunedThrough_def clean_prunedFilters)

lemma prunedThrough_clean: "clean_through th \<Longrightarrow> prunedThrough th = th"
  by (simp add: clean_through_def prunedThrough_def prunedFilters_clean)

lemma joinIncomplete_join:
  "joinIncomplete (Some (Field n opts (Relation_s (Join_r j fs)))) \<longleftrightarrow>
     j_table j = [] \<or> j_primary_key j = [] \<or> join_kind_incomplete (j_kind j)"
  by (simp add: joinIncomplete_def)

lemma clean_prunedJoin:
  "j_table j \<noteq> [] \<Longrightarrow> j_primary_key j \<noteq> [] \<Longrightarrow> \<not> join_kind_incomplete (j_kind j) \<Longrightarrow>
   clean_join (prunedJoin j)"
  by (cases "j_kind j")
     (auto simp: clean_join_def prunedJoin_def clean_prunedFilters clean_prunedThrough non_empty_def
       list_all_iff)

lemma prunedJoin_clean: "clean_join j \<Longrightarrow> prunedJoin j = j"
  by (cases "j_kind j")
     (auto simp: clean_join_def prunedJoin_def prunedFilters_clean prunedThrough_clean non_empty_def
       list_all_iff filter_id_conv split: option.splits)

lemma agg_incomplete_pruned [simp]: "agg_incomplete (prunedAggregate a) = agg_incomplete a"
  by (cases "agg_key a"; cases "agg_op a") (simp_all add: agg_incomplete_def prunedAggregate_def)

lemma clean_prunedAggregate: "\<not> agg_incomplete a \<Longrightarrow> clean_aggregate (prunedAggregate a)"
proof -
  assume c: "\<not> agg_incomplete a"
  then have k: "\<not> keyIncomplete (agg_key a)" by (auto simp: agg_incomplete_def)
  with c show ?thesis
    unfolding clean_aggregate_def agg_incomplete_pruned
    by (cases "agg_key a") (auto simp: prunedAggregate_def clean_prunedFilters clean_prunedThrough)
qed

lemma prunedAggregate_clean: "clean_aggregate a \<Longrightarrow> prunedAggregate a = a"
  by (cases "agg_key a")
     (auto simp: clean_aggregate_def prunedAggregate_def prunedFilters_clean prunedThrough_clean)

lemma prunedField_clean: "prunedField f = Some g \<Longrightarrow> clean_field g"
proof (induction f arbitrary: g rule: prunedField.induct)
  case (1 n opts a)
  then show ?case
    by (auto simp: aggregateIncomplete_def clean_prunedAggregate split: if_splits)
next
  case (2 n opts j fs)
  then show ?case
    by (auto simp: joinIncomplete_join clean_prunedJoin list_all_iff image_iff split: if_splits)
next
  case (3 n opts fs)
  then show ?case by (auto simp: list_all_iff image_iff)
qed (auto split: if_splits)

lemma clean_field_pruned: "clean_field f \<Longrightarrow> prunedField f = Some f"
proof (induction f rule: clean_field.induct)
  case (2 n opts fs)
  then show ?case by (simp add: list_all_iff somes_map_id)
next
  case (4 n opts j fs)
  then have "somes (map prunedField fs) = fs" by (simp add: list_all_iff somes_map_id)
  with 4 show ?case
    by (simp add: joinIncomplete_join prunedJoin_clean) (simp add: clean_join_def)
next
  case (5 n opts a)
  then show ?case
    by (simp add: aggregateIncomplete_def prunedAggregate_clean) (simp add: clean_aggregate_def)
qed auto

lemma prunedField_name: "prunedField f = Some g \<Longrightarrow> f_field g = f_field f \<and> fieldKind g = fieldKind f"
  by (induction f rule: prunedField.induct)
     (auto simp: prunedJoin_def prunedAggregate_def split: if_splits join_kind.splits)

lemma clean_prunedForPreview: "clean_schema (prunedForPreview schema)"
  by (auto simp: clean_schema_def prunedForPreview_def clean_prunedFilters list_all_iff image_iff
      prunedSoftDelete_def dest!: sym [of "Some _"] prunedField_clean split: option.splits soft_delete.splits)

lemma prunedForPreview_clean: "clean_schema schema \<Longrightarrow> prunedForPreview schema = schema"
proof -
  assume c: "clean_schema schema"
  then have "somes (map prunedField (s_fields schema)) = s_fields schema"
    by (simp add: clean_schema_def list_all_iff clean_field_pruned somes_map_id)
  with c show ?thesis
    by (auto simp: prunedForPreview_def clean_schema_def prunedFilters_clean prunedSoftDelete_def
        split: option.splits soft_delete.splits)
qed

lemma pruned_names_subseq:
  "subseq (map f_field (s_fields (prunedForPreview schema))) (map f_field (s_fields schema))"
  by (simp add: prunedForPreview_def) (rule subseq_somes, simp add: prunedField_name)

end
