(* ===== verification/Theme.thy ===== *)
theory Theme
  imports Schema
begin

text \<open>
  \<^verbatim>\<open>theme.ts\<close>: the families of field types, the colour classes, and when choosing a type for
  a column is a drastic change.
\<close>

definition STRING :: "string list" where
  "STRING = [''text'', ''keyword'', ''identifier'', ''enum'']"

definition NUMBER :: "string list" where
  "NUMBER = [''short'', ''integer'', ''long'', ''float'', ''double'', ''decimal'', ''byte'',
             ''half_float'', ''scaled_float'']"

definition TEMPORAL :: "string list" where
  "TEMPORAL = [''date'', ''timestamp'']"

text \<open>
  \<open>label.replace(/<.*/, "").trim()\<close>: the first \<open><\<close> and what follows it on its line go.
\<close>

definition is_line_end :: "char \<Rightarrow> bool" where
  "is_line_end c \<longleftrightarrow> code_unit c = 10 \<or> code_unit c = 13"

definition base_label :: "string \<Rightarrow> string" where
  "base_label label =
     trim (takeWhile (\<lambda>c. c \<noteq> CHR ''<'') label @
           dropWhile (\<lambda>c. \<not> is_line_end c) (dropWhile (\<lambda>c. c \<noteq> CHR ''<'') label))"

definition typeClass :: "string \<Rightarrow> string" where
  "typeClass label =
     (let base = base_label label in
      if base \<in> set STRING then ''t-string''
      else if base \<in> set NUMBER then ''t-number''
      else if base \<in> set TEMPORAL then ''t-temporal''
      else if base = ''boolean'' then ''t-bool''
      else if base = ''uuid'' then ''t-uuid''
      else if base = ''geo_point'' \<or> base = ''geo'' then ''t-geo''
      else ''t-other'')"

definition FREE_SINK :: "string list" where
  "FREE_SINK = [''text'', ''keyword'', ''identifier'']"

definition STRINGISH :: "string list" where
  "STRINGISH = STRING @ [''uuid'']"

definition compatibleSources :: "string \<Rightarrow> string list option" where
  "compatibleSources target =
     (if target \<in> set FREE_SINK then None
      else if target = ''uuid'' \<or> target = ''enum'' then Some STRINGISH
      else if target \<in> set NUMBER then Some NUMBER
      else if target \<in> set TEMPORAL then Some TEMPORAL
      else if target = ''boolean'' then Some [''boolean'']
      else if target = ''geo_point'' \<or> target = ''geo'' then Some [''geo_point'', ''geo'']
      else if target = ''binary'' then Some [''binary'']
      else None)"

definition drasticTypeChange :: "string \<Rightarrow> string \<Rightarrow> bool" where
  "drasticTypeChange sourceType chosenType =
     (let src = base_label sourceType; tgt = base_label chosenType in
      if src = tgt then False
      else case compatibleSources tgt of None \<Rightarrow> False | Some ok \<Rightarrow> src \<notin> set ok)"

definition KIND_HUE :: "string jobj" where
  "KIND_HUE =
     [(''belongs_to'', ''k-belongs_to''), (''has_one'', ''k-has_one''), (''has_many'', ''k-has_many''),
      (''many_to_many'', ''k-many_to_many''), (''object'', ''k-object''), (''geo'', ''t-geo''),
      (''map'', ''t-temporal''), (''custom'', ''t-uuid''), (''constant'', ''t-string''),
      (''count'', ''t-number''), (''sum'', ''t-number''), (''avg'', ''t-number''),
      (''min'', ''t-number''), (''max'', ''t-number''), (''ids'', ''t-number'')]"

definition kindColorClass :: "string \<Rightarrow> string" where
  "kindColorClass kind = (case obj_get KIND_HUE kind of None \<Rightarrow> '''' | Some c \<Rightarrow> c)"

definition TYPE_FAMILIES :: "(string \<times> string) list" where
  "TYPE_FAMILIES =
     [(''string'', ''string''), (''number'', ''number''), (''temporal'', ''date''),
      (''bool'', ''boolean''), (''uuid'', ''uuid''), (''geo'', ''geo'')]"

definition edgeColor :: "string \<Rightarrow> string" where
  "edgeColor label =
     (if label = ''object'' then ''#94a3b8''
      else if label = ''belongs_to'' then ''#60a5fa''
      else if label = ''has_one'' then ''#38bdf8''
      else if label = ''has_many'' then ''#2dd4bf''
      else if label = ''many_to_many'' then ''#22c55e''
      else ''#8a93a3'')"

lemma drastic_refl [simp]: "\<not> drasticTypeChange ty ty"
  by (simp add: drasticTypeChange_def)

lemma base_label_scalar [simp]: "base_label (scalar_name t) = scalar_name t"
  by (cases t) (simp_all add: base_label_def trim_def is_space_def is_line_end_def code_unit_def)

text \<open>
  On the scalar types the relation is decided by the family: a change is drastic exactly when
  the target is not a free-form string and the source is outside the target's family.
\<close>

definition accepts :: "scalar \<Rightarrow> scalar \<Rightarrow> bool" where
  "accepts tgt src \<longleftrightarrow>
     (if tgt \<in> {Text_t, Keyword_t, Identifier_t, Json_t} then True
      else if tgt \<in> {Uuid_t, Enum_t} then src \<in> {Text_t, Keyword_t, Identifier_t, Enum_t, Uuid_t}
      else if tgt \<in> {Short_t, Integer_t, Long_t, Float_t, Double_t, Decimal_t}
           then src \<in> {Short_t, Integer_t, Long_t, Float_t, Double_t, Decimal_t}
      else if tgt \<in> {Date_t, Timestamp_t} then src \<in> {Date_t, Timestamp_t}
      else src = tgt)"

lemma drastic_scalar: "drasticTypeChange (scalar_name s) (scalar_name t) \<longleftrightarrow> \<not> accepts t s"
  unfolding drasticTypeChange_def base_label_scalar Let_def
  by (cases t; cases s; simp add: accepts_def compatibleSources_def FREE_SINK_def STRINGISH_def
      STRING_def NUMBER_def TEMPORAL_def)

end
