(* ===== verification/Issues.thy ===== *)
theory Issues
  imports Theme Schema_Tree
begin

text \<open>
  \<^verbatim>\<open>model/issues.ts\<close>: the catalog-only checks of a schema (a required field over a nullable
  column without a default, a drastically changed type), the count of the latter, and the bulk
  fix. The lemmas relate the three: the fix leaves nothing to count, the count is the number of
  warnings, and the fix changes nothing but types.
\<close>

definition sourceColOf :: "catalog_response \<Rightarrow> string \<Rightarrow> string \<Rightarrow> column_shape option" where
  "sourceColOf catalog table column =
     (case find (\<lambda>t. t_name t = table) (cat_tables catalog) of
        None \<Rightarrow> None
      | Some t \<Rightarrow> find (\<lambda>c. cs_name c = column) (t_columns t))"

text \<open>\<open>!catalog || catalog.error\<close> is the guard of all three operations.\<close>

definition catalog_usable :: "catalog_response option \<Rightarrow> catalog_response option" where
  "catalog_usable catalog =
     (case catalog of
        None \<Rightarrow> None
      | Some c \<Rightarrow> (case cat_error c of None \<Rightarrow> Some c | Some e \<Rightarrow> if e = [] then Some c else None))"

definition suggested_scalar :: "column_shape option \<Rightarrow> scalar option" where
  "suggested_scalar src =
     (case src of
        None \<Rightarrow> None
      | Some s \<Rightarrow> (case cs_suggested_type s of Some (Scalar t) \<Rightarrow> Some t | _ \<Rightarrow> None))"

definition columnMismatch :: "flusso_type \<Rightarrow> column_shape option \<Rightarrow> bool" where
  "columnMismatch ty src =
     (case ty of
        Scalar t \<Rightarrow>
          (case suggested_scalar src of
             None \<Rightarrow> False
           | Some st \<Rightarrow> drasticTypeChange (scalar_name st) (scalar_name t))
      | _ \<Rightarrow> False)"

definition ty_text :: "flusso_type \<Rightarrow> string" where
  "ty_text ty = (case ty of Scalar t \<Rightarrow> scalar_name t | Map_t _ \<Rightarrow> ''map'' | Custom_t _ _ \<Rightarrow> ''custom'')"

definition column_issues ::
  "catalog_response \<Rightarrow> string \<Rightarrow> translate \<Rightarrow> string \<Rightarrow> string \<Rightarrow> column \<Rightarrow> diagnostic list" where
  "column_issues catalog index t table name col =
     (let src = sourceColOf catalog table (col_column col) in
      (if \<not> col_nullable col \<and> (case src of Some s \<Rightarrow> cs_nullable s | None \<Rightarrow> False) \<and> col_default col = None
       then [\<lparr>dg_index = index, dg_field = name, dg_severity = ''error'',
              dg_message = t ''diag.requiredDefault'' [(''col'', JStr (col_column col))]\<rparr>]
       else []) @
      (if columnMismatch (col_ty col) src
       then [\<lparr>dg_index = index, dg_field = name, dg_severity = ''warning'',
              dg_message = t ''diag.typeMismatch''
                [(''ty'', JStr (ty_text (col_ty col))), (''col'', JStr (col_column col)),
                 (''src'', JStr (case src of Some s \<Rightarrow> cs_sql_type s | None \<Rightarrow> ''''))]\<rparr>]
       else []))"

fun walk_issues ::
  "catalog_response \<Rightarrow> string \<Rightarrow> translate \<Rightarrow> string \<Rightarrow> field \<Rightarrow> diagnostic list" where
  "walk_issues catalog index t table (Field n _ (Column_s col)) = column_issues catalog index t table n col"
| "walk_issues catalog index t table (Field _ _ (Group_s fs)) =
     concat (map (walk_issues catalog index t table) fs)"
| "walk_issues catalog index t table (Field _ _ (Relation_s (Join_r j fs))) =
     concat (map (walk_issues catalog index t (j_table j)) fs)"
| "walk_issues catalog index t table _ = []"

definition requiredDefaultIssues ::
  "index_schema \<Rightarrow> catalog_response option \<Rightarrow> string \<Rightarrow> translate \<Rightarrow> diagnostic list" where
  "requiredDefaultIssues schema catalog index t =
     (case catalog_usable catalog of
        None \<Rightarrow> []
      | Some c \<Rightarrow> concat (map (walk_issues c index t (s_table schema)) (s_fields schema)))"

fun walk_count :: "catalog_response \<Rightarrow> string \<Rightarrow> field \<Rightarrow> nat" where
  "walk_count catalog table (Field _ _ (Column_s col)) =
     (if columnMismatch (col_ty col) (sourceColOf catalog table (col_column col)) then 1 else 0)"
| "walk_count catalog table (Field _ _ (Group_s fs)) = sum_list (map (walk_count catalog table) fs)"
| "walk_count catalog table (Field _ _ (Relation_s (Join_r j fs))) =
     sum_list (map (walk_count catalog (j_table j)) fs)"
| "walk_count catalog table _ = 0"

definition countTypeMismatches :: "index_schema \<Rightarrow> catalog_response option \<Rightarrow> nat" where
  "countTypeMismatches schema catalog =
     (case catalog_usable catalog of
        None \<Rightarrow> 0
      | Some c \<Rightarrow> sum_list (map (walk_count c (s_table schema)) (s_fields schema)))"

definition fix_column :: "catalog_response \<Rightarrow> string \<Rightarrow> column \<Rightarrow> column" where
  "fix_column catalog table col =
     (let src = sourceColOf catalog table (col_column col) in
      if columnMismatch (col_ty col) src
      then (case suggested_scalar src of Some st \<Rightarrow> col\<lparr>col_ty := Scalar st\<rparr> | None \<Rightarrow> col)
      else col)"

fun fix_field :: "catalog_response \<Rightarrow> string \<Rightarrow> field \<Rightarrow> field" where
  "fix_field catalog table (Field n opts (Column_s col)) =
     Field n opts (Column_s (fix_column catalog table col))"
| "fix_field catalog table (Field n opts (Group_s fs)) =
     Field n opts (Group_s (map (fix_field catalog table) fs))"
| "fix_field catalog table (Field n opts (Relation_s (Join_r j fs))) =
     Field n opts (Relation_s (Join_r j (map (fix_field catalog (j_table j)) fs)))"
| "fix_field catalog table f = f"

definition fixAllTypes :: "index_schema \<Rightarrow> catalog_response option \<Rightarrow> index_schema" where
  "fixAllTypes schema catalog =
     (case catalog_usable catalog of
        None \<Rightarrow> schema
      | Some c \<Rightarrow> schema\<lparr>s_fields := map (fix_field c (s_table schema)) (s_fields schema)\<rparr>)"

section \<open>The three operations agree\<close>

lemma col_column_fix [simp]: "col_column (fix_column catalog table col) = col_column col"
  by (simp add: fix_column_def Let_def split: option.splits)

lemma fix_column_matches:
  "\<not> columnMismatch (col_ty (fix_column catalog table col)) (sourceColOf catalog table (col_column col))"
  by (auto simp: fix_column_def Let_def columnMismatch_def split: option.splits flusso_type.splits)

lemma walk_count_fix: "walk_count catalog table (fix_field catalog table f) = 0"
  by (induction catalog table f rule: fix_field.induct) (auto simp: fix_column_matches)

lemma fix_field_count_0: "walk_count catalog table f = 0 \<Longrightarrow> fix_field catalog table f = f"
  by (induction catalog table f rule: fix_field.induct)
     (auto simp: fix_column_def Let_def map_idI split: if_splits)

lemma countTypeMismatches_fix: "countTypeMismatches (fixAllTypes schema catalog) catalog = 0"
  by (auto simp: countTypeMismatches_def fixAllTypes_def walk_count_fix split: option.splits)

lemma fixAllTypes_none: "countTypeMismatches schema catalog = 0 \<Longrightarrow> fixAllTypes schema catalog = schema"
  by (auto simp: countTypeMismatches_def fixAllTypes_def fix_field_count_0 map_idI split: option.splits)

lemma walk_issues_warnings:
  "length (filter (\<lambda>d. dg_severity d = ''warning'') (walk_issues catalog index t table f)) =
   walk_count catalog table f"
  by (induction catalog index t table f rule: walk_issues.induct)
     (auto simp: column_issues_def Let_def filter_concat length_concat comp_def
       intro!: arg_cong [where f = sum_list])

lemma issues_warnings:
  "length (filter (\<lambda>d. dg_severity d = ''warning'') (requiredDefaultIssues schema catalog index t)) =
   countTypeMismatches schema catalog"
  by (simp add: requiredDefaultIssues_def countTypeMismatches_def filter_concat length_concat
      comp_def walk_issues_warnings split: option.split)

lemma walk_issues_index: "d \<in> set (walk_issues catalog index t table f) \<Longrightarrow> dg_index d = index"
  by (induction catalog index t table f rule: walk_issues.induct)
     (auto simp: column_issues_def Let_def split: if_splits)

text \<open>What is left after the fix are the same errors, field for field.\<close>

lemma walk_issues_errors_fix:
  "filter (\<lambda>d. dg_severity d = ''error'') (walk_issues catalog index t table (fix_field catalog table f)) =
   filter (\<lambda>d. dg_severity d = ''error'') (walk_issues catalog index t table f)"
proof (induction catalog table f rule: fix_field.induct)
  case (1 catalog table n opts col)
  have "col_nullable (fix_column catalog table col) = col_nullable col"
    and "col_default (fix_column catalog table col) = col_default col"
    by (simp_all add: fix_column_def Let_def split: option.splits)
  then show ?case by (simp add: column_issues_def Let_def)
qed (simp_all add: filter_concat comp_def cong: map_cong)

lemma walk_issues_no_warning_fix:
  "filter (\<lambda>d. dg_severity d = ''warning'') (walk_issues catalog index t table (fix_field catalog table f)) = []"
  using walk_issues_warnings [of catalog index t table "fix_field catalog table f"]
  by (simp add: walk_count_fix)

lemma issues_severity:
  "d \<in> set (walk_issues catalog index t table f) \<Longrightarrow> dg_severity d = ''error'' \<or> dg_severity d = ''warning''"
  by (induction catalog index t table f rule: walk_issues.induct)
     (auto simp: column_issues_def Let_def split: if_splits)

lemma filter_by_two:
  assumes "\<And>x. x \<in> set xs \<Longrightarrow> P x \<or> Q x" and "filter Q xs = []"
  shows "filter P xs = xs"
  using assms by (intro filter_True) (metis filter_empty_conv)

lemma walk_issues_fix:
  "walk_issues catalog index t table (fix_field catalog table f) =
   filter (\<lambda>d. dg_severity d = ''error'') (walk_issues catalog index t table f)"
proof -
  let ?xs = "walk_issues catalog index t table (fix_field catalog table f)"
  have "filter (\<lambda>d. dg_severity d = ''error'') ?xs = ?xs"
    by (rule filter_by_two [OF issues_severity walk_issues_no_warning_fix])
  then show ?thesis by (simp only: walk_issues_errors_fix)
qed

lemma issues_fix:
  "requiredDefaultIssues (fixAllTypes schema catalog) catalog index t =
   filter (\<lambda>d. dg_severity d = ''error'') (requiredDefaultIssues schema catalog index t)"
  by (simp add: requiredDefaultIssues_def fixAllTypes_def filter_concat comp_def walk_issues_fix
      split: option.split)

text \<open>The fix keeps the shape of the tree: names, containers and paths.\<close>

lemma fix_field_shape:
  "f_field (fix_field catalog table f) = f_field f" "is_container (fix_field catalog table f) = is_container f"
  "child_list (fix_field catalog table f) =
     map (fix_field catalog (join_table_or table f)) (child_list f)"
  by (cases f rule: childFields.cases; simp add: is_container_def child_list_def)+

lemma container_paths_fix: "container_paths (map (fix_field catalog table) fs) = container_paths fs"
proof (induction fs arbitrary: table rule: container_paths.induct)
  case (1 fs)
  have "container_paths (map (fix_field catalog table') (child_list (fs ! i))) =
      container_paths (child_list (fs ! i))"
    if "i < length fs" "is_container (fs ! i)" for i table'
    using "1.IH" that by simp
  then show ?case
    by (subst (1 2) container_paths.simps)
       (auto simp: fix_field_shape intro!: arg_cong [where f = concat] map_cong)
qed

end
