(* ===== verification/Line_Diff.thy ===== *)
theory Line_Diff
  imports Js_Prelude
begin

text \<open>
  The save review's line and word diff (\<open>model/diff.ts\<close>) and the row sequences its four
  layouts render (\<open>components/DiffView.tsx\<close>). The table of the two dynamic programs is filled
  by index, as the code does; the walk over it is shown to follow the longest common
  subsequence. Rows are shared between the unified and the split view and mutated in place,
  so the row list is a store and a pair holds positions in it.
\<close>

section \<open>Data\<close>

datatype row_type = Eq | Add | Del

record seg =
  sg_text :: string
  sg_changed :: bool

record mseg =
  ms_text :: string
  ms_kind :: row_type

record row =
  r_type :: row_type
  r_text :: string
  r_oldNo :: "nat option"
  r_newNo :: "nat option"
  r_seg :: "seg list option"

datatype diff_mode = Unified | Split | OldSide | NewSide

record pair =
  pr_left :: "nat option"
  pr_right :: "nat option"
  pr_changed :: bool
  pr_merged :: "mseg list option"

datatype block_kind = Rows | Gap

record 'a block =
  bl_kind :: block_kind
  bl_id :: nat
  bl_items :: "'a list"

record urow =
  u_change :: bool
  u_row :: "nat option"
  u_merged :: "mseg list option"
  u_oldNo :: "nat option"
  u_newNo :: "nat option"

section \<open>Lines and the table\<close>

definition newline :: char where
  "newline = CHR 0x0A"

definition splitLines :: "string \<Rightarrow> string list" where
  "splitLines text =
     (if text = '''' then []
      else split_char newline (if last text = newline then butlast text else text))"

text \<open>\<open>for (let i = n - 1; i >= 0; i--) s = f(i, s)\<close>\<close>

fun for_down :: "nat \<Rightarrow> (nat \<Rightarrow> 's \<Rightarrow> 's) \<Rightarrow> 's \<Rightarrow> 's" where
  "for_down 0 f s = s"
| "for_down (Suc i) f s = for_down i f (f i s)"

type_synonym dp = "nat list list"

definition dp_cell :: "'a list \<Rightarrow> 'a list \<Rightarrow> nat \<Rightarrow> nat \<Rightarrow> dp \<Rightarrow> dp" where
  "dp_cell a b i j dp =
     dp[i := (dp ! i)[j := (if a ! i = b ! j then dp ! Suc i ! Suc j + 1
                            else max (dp ! Suc i ! j) (dp ! i ! Suc j))]]"

definition dp_table :: "'a list \<Rightarrow> 'a list \<Rightarrow> dp" where
  "dp_table a b =
     for_down (length a) (\<lambda>i. for_down (length b) (dp_cell a b i))
       (replicate (length a + 1) (replicate (length b + 1) 0))"

section \<open>Line diff\<close>

abbreviation mk_row :: "row_type \<Rightarrow> string \<Rightarrow> nat option \<Rightarrow> nat option \<Rightarrow> row" where
  "mk_row t x o' n \<equiv> \<lparr>r_type = t, r_text = x, r_oldNo = o', r_newNo = n, r_seg = None\<rparr>"

function diff_loop :: "string list \<Rightarrow> string list \<Rightarrow> dp \<Rightarrow> nat \<Rightarrow> nat \<Rightarrow> nat \<Rightarrow> nat \<Rightarrow> row list" where
  "diff_loop a b dp i j oldNo newNo =
     (if i < length a \<and> j < length b then
        if a ! i = b ! j then
          mk_row Eq (a ! i) (Some oldNo) (Some newNo) # diff_loop a b dp (i + 1) (j + 1) (oldNo + 1) (newNo + 1)
        else if dp ! (i + 1) ! j \<ge> dp ! i ! (j + 1) then
          mk_row Del (a ! i) (Some oldNo) None # diff_loop a b dp (i + 1) j (oldNo + 1) newNo
        else
          mk_row Add (b ! j) None (Some newNo) # diff_loop a b dp i (j + 1) oldNo (newNo + 1)
      else if i < length a then
        mk_row Del (a ! i) (Some oldNo) None # diff_loop a b dp (i + 1) j (oldNo + 1) newNo
      else if j < length b then
        mk_row Add (b ! j) None (Some newNo) # diff_loop a b dp i (j + 1) oldNo (newNo + 1)
      else [])"
  by pat_completeness auto
termination
  by (relation "measure (\<lambda>(a, b, dp, i, j, o', n'). (length a - i) + (length b - j))") auto

declare diff_loop.simps [simp del]

definition diffLines :: "string \<Rightarrow> string \<Rightarrow> row list" where
  "diffLines current new =
     (let a = splitLines current; b = splitLines new in diff_loop a b (dp_table a b) 0 0 1 1)"

definition diffStats :: "string \<Rightarrow> string \<Rightarrow> nat \<times> nat" where
  "diffStats current new =
     (let rows = diffLines current new in
      (length (filter (\<lambda>r. r_type r = Add) rows), length (filter (\<lambda>r. r_type r = Del) rows)))"

section \<open>Pairs\<close>

text \<open>The run of changed rows from \<open>k\<close>: positions of the removes, of the adds, and its end.\<close>

function take_run :: "row list \<Rightarrow> nat \<Rightarrow> nat list \<Rightarrow> nat list \<Rightarrow> nat list \<times> nat list \<times> nat" where
  "take_run rows k dels adds =
     (if k < length rows \<and> r_type (rows ! k) \<noteq> Eq then
        (if r_type (rows ! k) = Del then take_run rows (k + 1) (dels @ [k]) adds
         else take_run rows (k + 1) dels (adds @ [k]))
      else (dels, adds, k))"
  by pat_completeness auto
termination
  by (relation "measure (\<lambda>(rows, k, dels, adds). length rows - k)") auto

declare take_run.simps [simp del]

lemma take_run_spec:
  "take_run rows k dels adds = (ds, as, k') \<Longrightarrow>
     k \<le> k' \<and> (k \<le> length rows \<longrightarrow> k' \<le> length rows) \<and>
     (\<forall>x. k \<le> x \<and> x < k' \<longrightarrow> r_type (rows ! x) \<noteq> Eq) \<and>
     (k' < length rows \<longrightarrow> r_type (rows ! k') = Eq) \<and>
     ds = dels @ filter (\<lambda>x. r_type (rows ! x) = Del) [k..<k'] \<and>
     as = adds @ filter (\<lambda>x. r_type (rows ! x) = Add) [k..<k']"
proof (induction rows k dels adds rule: take_run.induct)
  case (1 rows k dels adds)
  show ?case
  proof (cases "k < length rows \<and> r_type (rows ! k) \<noteq> Eq")
    case False
    with "1.prems" show ?thesis by (subst (asm) take_run.simps) auto
  next
    case True
    then consider "r_type (rows ! k) = Del" | "r_type (rows ! k) = Add"
      by (metis row_type.exhaust)
    then show ?thesis
    proof cases
      case 1
      with True "1.prems" have "take_run rows (k + 1) (dels @ [k]) adds = (ds, as, k')"
        by (subst (asm) take_run.simps) simp
      note IH = "1.IH" (1) [OF True 1 this, simplified]
      then have "[k..<k'] = k # [Suc k..<k']" by (simp add: upt_conv_Cons)
      moreover have "\<forall>x. k \<le> x \<and> x < k' \<longrightarrow> r_type (rows ! x) \<noteq> Eq"
        using IH True by (metis Suc_leI le_neq_implies_less)
      ultimately show ?thesis using IH True 1 by simp
    next
      case 2
      then have not_Del: "r_type (rows ! k) \<noteq> Del" by simp
      from 2 True "1.prems" have "take_run rows (k + 1) dels (adds @ [k]) = (ds, as, k')"
        by (subst (asm) take_run.simps) simp
      note IH = "1.IH" (2) [OF True not_Del this, simplified]
      then have "[k..<k'] = k # [Suc k..<k']" by (simp add: upt_conv_Cons)
      moreover have "\<forall>x. k \<le> x \<and> x < k' \<longrightarrow> r_type (rows ! x) \<noteq> Eq"
        using IH True by (metis Suc_leI le_neq_implies_less)
      ultimately show ?thesis using IH True 2 by simp
    qed
  qed
qed

lemma take_run_end: "take_run rows k dels adds = (ds, as, k') \<Longrightarrow> k \<le> k'"
  using take_run_spec by blast

lemma take_run_progress:
  "k < length rows \<Longrightarrow> r_type (rows ! k) \<noteq> Eq \<Longrightarrow> take_run rows k dels adds = (ds, as, k') \<Longrightarrow> k < k'"
  by (subst (asm) take_run.simps) (auto split: if_splits dest: take_run_end)

definition zip_run :: "nat list \<Rightarrow> nat list \<Rightarrow> pair list" where
  "zip_run dels adds =
     map (\<lambda>x. \<lparr>pr_left = js_get dels x, pr_right = js_get adds x, pr_changed = True, pr_merged = None\<rparr>)
       [0..<max (length dels) (length adds)]"

function pairs_from :: "row list \<Rightarrow> nat \<Rightarrow> pair list" where
  "pairs_from rows k =
     (if k < length rows then
        (if r_type (rows ! k) = Eq then
           \<lparr>pr_left = Some k, pr_right = Some k, pr_changed = False, pr_merged = None\<rparr> # pairs_from rows (k + 1)
         else (let (dels, adds, k') = take_run rows k [] [] in zip_run dels adds @ pairs_from rows k'))
      else [])"
  by pat_completeness auto
termination
  by (relation "measure (\<lambda>(rows, k). length rows - k)") (auto intro: diff_less_mono2 take_run_progress [OF _ _ sym])

declare pairs_from.simps [simp del]

definition buildPairs :: "row list \<Rightarrow> pair list" where
  "buildPairs rows = pairs_from rows 0"

section \<open>Word diff\<close>

datatype char_class = Space | WordChar | Punct

definition char_class :: "char \<Rightarrow> char_class" where
  "char_class c =
     (if is_space c then Space
      else if (65 \<le> code_unit c \<and> code_unit c \<le> 90) \<or> (97 \<le> code_unit c \<and> code_unit c \<le> 122)
        \<or> is_digit c \<or> c = CHR ''_'' then WordChar
      else Punct)"

function tokenize :: "string \<Rightarrow> string list" where
  "tokenize [] = []"
| "tokenize (c # s) =
     (c # takeWhile (\<lambda>x. char_class x = char_class c) s) # tokenize (dropWhile (\<lambda>x. char_class x = char_class c) s)"
  by pat_completeness auto
termination
  by (relation "measure length") (auto simp: le_imp_less_Suc length_dropWhile_le)

definition push_mseg :: "string \<Rightarrow> row_type \<Rightarrow> mseg list \<Rightarrow> mseg list" where
  "push_mseg text kind merged =
     (if merged \<noteq> [] \<and> ms_kind (last merged) = kind
      then butlast merged @ [(last merged)\<lparr>ms_text := ms_text (last merged) @ text\<rparr>]
      else merged @ [\<lparr>ms_text = text, ms_kind = kind\<rparr>])"

function token_loop :: "string list \<Rightarrow> string list \<Rightarrow> dp \<Rightarrow> nat \<Rightarrow> nat \<Rightarrow> mseg list \<Rightarrow> mseg list" where
  "token_loop a b dp i j merged =
     (if i < length a \<and> j < length b then
        if a ! i = b ! j then token_loop a b dp (i + 1) (j + 1) (push_mseg (a ! i) Eq merged)
        else if dp ! (i + 1) ! j \<ge> dp ! i ! (j + 1) then
          token_loop a b dp (i + 1) j (push_mseg (a ! i) Del merged)
        else token_loop a b dp i (j + 1) (push_mseg (b ! j) Add merged)
      else if i < length a then token_loop a b dp (i + 1) j (push_mseg (a ! i) Del merged)
      else if j < length b then token_loop a b dp i (j + 1) (push_mseg (b ! j) Add merged)
      else merged)"
  by pat_completeness auto
termination
  by (relation "measure (\<lambda>(a, b, dp, i, j, ms). (length a - i) + (length b - j))") auto

declare token_loop.simps [simp del]

definition tokenDiff :: "string \<Rightarrow> string \<Rightarrow> mseg list option" where
  "tokenDiff oldText newText =
     (let a = tokenize oldText; b = tokenize newText; dp = dp_table a b in
      if dp ! 0 ! 0 = 0 then None else Some (token_loop a b dp 0 0 []))"

definition push_seg :: "string \<Rightarrow> bool \<Rightarrow> seg list \<Rightarrow> seg list" where
  "push_seg text changed out =
     (if out \<noteq> [] \<and> sg_changed (last out) = changed
      then butlast out @ [(last out)\<lparr>sg_text := sg_text (last out) @ text\<rparr>]
      else out @ [\<lparr>sg_text = text, sg_changed = changed\<rparr>])"

definition sideSegs :: "mseg list \<Rightarrow> diff_mode \<Rightarrow> seg list" where
  "sideSegs merged side =
     foldl (\<lambda>out s. if side = OldSide \<and> ms_kind s = Add then out
                    else if side = NewSide \<and> ms_kind s = Del then out
                    else push_seg (ms_text s) (ms_kind s \<noteq> Eq) out) [] merged"

definition chars :: "mseg list \<Rightarrow> nat" where
  "chars ms = foldl (\<lambda>n s. n + length (ms_text s)) 0 ms"

definition similar :: "mseg list \<Rightarrow> bool" where
  "similar merged \<longleftrightarrow>
     (let total = chars merged; eq = chars (filter (\<lambda>s. ms_kind s = Eq) merged)
      in total > 0 \<and> eq * 2 \<ge> total)"

definition inlineable :: "mseg list \<Rightarrow> bool" where
  "inlineable merged \<longleftrightarrow>
     (let changed = filter (\<lambda>s. ms_kind s \<noteq> Eq) merged
      in \<not> (changed = [] \<or> length changed > 2) \<and> chars changed * 3 < chars merged)"

definition attach_pair :: "row list \<times> pair list \<Rightarrow> pair \<Rightarrow> row list \<times> pair list" where
  "attach_pair st p =
     (case st of (rows, done) \<Rightarrow>
        case (pr_changed p, pr_left p, pr_right p) of
          (True, Some l, Some r) \<Rightarrow>
            (case tokenDiff (r_text (rows ! l)) (r_text (rows ! r)) of
               Some merged \<Rightarrow>
                 if similar merged then
                   (let rows1 = rows[l := (rows ! l)\<lparr>r_seg := Some (sideSegs merged OldSide)\<rparr>];
                        rows2 = rows1[r := (rows1 ! r)\<lparr>r_seg := Some (sideSegs merged NewSide)\<rparr>]
                    in (rows2, done @ [p\<lparr>pr_merged := Some merged\<rparr>]))
                 else (rows, done @ [p])
             | None \<Rightarrow> (rows, done @ [p]))
        | _ \<Rightarrow> (rows, done @ [p]))"

definition attachWordDiff :: "row list \<Rightarrow> pair list \<Rightarrow> row list \<times> pair list" where
  "attachWordDiff rows pairs = foldl attach_pair (rows, []) pairs"

section \<open>Collapsing and the unified rows\<close>

definition CONTEXT :: nat where
  "CONTEXT = 3"

definition keep_around :: "nat \<Rightarrow> nat \<Rightarrow> bool list \<Rightarrow> bool list" where
  "keep_around len idx keep =
     foldl (\<lambda>keep k. keep[k := True]) keep [idx - CONTEXT..<Suc (min (len - 1) (idx + CONTEXT))]"

definition keep_flags :: "'a list \<Rightarrow> ('a \<Rightarrow> bool) \<Rightarrow> bool list" where
  "keep_flags items isChange =
     foldl (\<lambda>keep (t, idx). if isChange t then keep_around (length items) idx keep else keep)
       (replicate (length items) False) (zip items [0..<length items])"

fun run_end :: "bool list \<Rightarrow> bool \<Rightarrow> nat \<Rightarrow> nat" where
  "run_end [] visible idx = idx"
| "run_end (k # ks) visible idx = (if k = visible then run_end ks visible (idx + 1) else idx)"

lemma run_end_ge: "idx \<le> run_end ks visible idx"
  by (induction ks arbitrary: idx) (auto intro: le_trans [OF _ Suc_leD])

lemma run_end_progress:
  "idx < length keep \<Longrightarrow> idx < run_end (drop idx keep) (keep ! idx) idx"
  by (simp add: Cons_nth_drop_Suc [symmetric] Suc_le_lessD [OF run_end_ge] del: drop_Suc)

function blocks_from :: "'a list \<Rightarrow> bool list \<Rightarrow> nat \<Rightarrow> 'a block list" where
  "blocks_from items keep idx =
     (if idx < length keep then
        (let visible = keep ! idx; idx' = run_end (drop idx keep) visible idx in
         \<lparr>bl_kind = (if visible then Rows else Gap), bl_id = idx, bl_items = slice items idx idx'\<rparr>
           # blocks_from items keep idx')
      else [])"
  by pat_completeness auto
termination
  by (relation "measure (\<lambda>(items, keep, idx). length keep - idx)")
    (auto simp: run_end_progress intro: diff_less_mono2)

declare blocks_from.simps [simp del]

definition collapse :: "'a list \<Rightarrow> ('a \<Rightarrow> bool) \<Rightarrow> 'a block list" where
  "collapse items isChange = blocks_from items (keep_flags items isChange) 0"

function unify_from :: "row list \<Rightarrow> nat \<Rightarrow> urow list" where
  "unify_from rows k =
     (if k < length rows then
        (if r_type (rows ! k) = Eq then
           \<lparr>u_change = False, u_row = Some k, u_merged = None, u_oldNo = None, u_newNo = None\<rparr>
             # unify_from rows (k + 1)
         else
           (let (dels, adds, k') = take_run rows k [] [];
                lone = (if length dels = 1 \<and> length adds = 1
                        then tokenDiff (r_text (rows ! (dels ! 0))) (r_text (rows ! (adds ! 0))) else None)
            in (case lone of
                  Some merged \<Rightarrow>
                    if inlineable merged then
                      [\<lparr>u_change = True, u_row = None, u_merged = Some merged,
                        u_oldNo = r_oldNo (rows ! (dels ! 0)), u_newNo = r_newNo (rows ! (adds ! 0))\<rparr>]
                    else map (\<lambda>d. \<lparr>u_change = True, u_row = Some d, u_merged = None, u_oldNo = None, u_newNo = None\<rparr>) (dels @ adds)
                | None \<Rightarrow> map (\<lambda>d. \<lparr>u_change = True, u_row = Some d, u_merged = None, u_oldNo = None, u_newNo = None\<rparr>) (dels @ adds))
               @ unify_from rows k'))
      else [])"
  by pat_completeness auto
termination
  by (relation "measure (\<lambda>(rows, k). length rows - k)") (auto intro: diff_less_mono2 take_run_progress [OF _ _ sym])

declare unify_from.simps [simp del]

definition unifyRows :: "row list \<Rightarrow> urow list" where
  "unifyRows rows = unify_from rows 0"

definition rowVisible :: "row_type \<Rightarrow> diff_mode \<Rightarrow> bool" where
  "rowVisible type mode =
     (if mode = OldSide then type \<noteq> Add else if mode = NewSide then type \<noteq> Del else True)"

section \<open>The table holds the longest common subsequences\<close>

fun lcs_len :: "'a list \<Rightarrow> 'a list \<Rightarrow> nat" where
  "lcs_len [] ys = 0"
| "lcs_len (x # xs) [] = 0"
| "lcs_len (x # xs) (y # ys) =
     (if x = y then lcs_len xs ys + 1 else max (lcs_len xs (y # ys)) (lcs_len (x # xs) ys))"

lemma lcs_len_Nil2 [simp]: "lcs_len xs [] = 0"
  by (cases xs) simp_all

lemma lcs_len_upper: "subseq zs xs \<Longrightarrow> subseq zs ys \<Longrightarrow> length zs \<le> lcs_len xs ys"
proof (induction xs ys arbitrary: zs rule: lcs_len.induct)
  case (3 x xs y ys)
  show ?case
  proof (cases zs)
    case Nil
    then show ?thesis by simp
  next
    case (Cons z zs')
    show ?thesis
    proof (cases "x = y")
      case True
      with "3.prems" Cons have "subseq zs' xs" and "subseq zs' ys"
        by (auto split: if_splits dest: subseq_Cons')
      with "3.IH" (1) [OF True] True Cons show ?thesis by simp
    next
      case False
      with "3.prems" Cons have "subseq zs xs \<or> subseq zs ys"
        by (auto split: if_splits)
      with "3.IH" (2,3) [OF False] "3.prems" False show ?thesis
        by (auto simp: le_max_iff_disj)
    qed
  qed
qed (auto simp: list_emb_Nil2)

lemma lcs_len_attained: "\<exists>zs. subseq zs xs \<and> subseq zs ys \<and> length zs = lcs_len xs ys"
proof (induction xs ys rule: lcs_len.induct)
  case (3 x xs y ys)
  show ?case
  proof (cases "x = y")
    case True
    with "3.IH" (1) obtain zs where "subseq zs xs \<and> subseq zs ys \<and> length zs = lcs_len xs ys" by blast
    with True have "subseq (x # zs) (x # xs) \<and> subseq (x # zs) (y # ys) \<and>
      length (x # zs) = lcs_len (x # xs) (y # ys)" by simp
    then show ?thesis by blast
  next
    case False
    with "3.IH" (2,3) show ?thesis
      by (metis lcs_len.simps(3) list_emb_Cons max_def)
  qed
qed auto

lemma for_down_inv:
  assumes "P n s" and "\<And>i s. i < n \<Longrightarrow> P (Suc i) s \<Longrightarrow> P i (f i s)"
  shows "P 0 (for_down n f s)"
  using assms by (induction n arbitrary: s) auto

text \<open>The table after the rows above \<open>i\<close> and the cells right of \<open>j\<close> in row \<open>i\<close> are filled.\<close>

definition dp_shape :: "'a list \<Rightarrow> 'a list \<Rightarrow> dp \<Rightarrow> bool" where
  "dp_shape a b dp \<longleftrightarrow> length dp = Suc (length a) \<and> (\<forall>r < length dp. length (dp ! r) = Suc (length b))"

definition dp_filled :: "'a list \<Rightarrow> 'a list \<Rightarrow> nat \<Rightarrow> nat \<Rightarrow> dp \<Rightarrow> bool" where
  "dp_filled a b i j dp \<longleftrightarrow> dp_shape a b dp \<and>
     (\<forall>r c. r \<le> length a \<and> c \<le> length b \<and> (i < r \<or> r = i \<and> j \<le> c) \<longrightarrow>
        dp ! r ! c = lcs_len (drop r a) (drop c b)) \<and>
     (\<forall>r c. r \<le> i \<and> r \<le> length a \<and> c = length b \<longrightarrow> dp ! r ! c = 0)"

lemma dp_cell_filled:
  assumes "i < length a" and "j < length b" and "dp_filled a b i (Suc j) dp"
  shows "dp_filled a b i j (dp_cell a b i j dp)"
proof -
  have shape: "dp_shape a b dp" using assms(3) by (simp add: dp_filled_def)
  have "lcs_len (drop i a) (drop j b) =
      (if a ! i = b ! j then dp ! Suc i ! Suc j + 1 else max (dp ! Suc i ! j) (dp ! i ! Suc j))"
    using assms by (simp add: dp_filled_def Cons_nth_drop_Suc [symmetric] del: drop_Suc)
  then show ?thesis
    using assms shape unfolding dp_filled_def dp_cell_def
    by (auto simp: dp_shape_def nth_list_update less_Suc_eq_le le_Suc_eq split: if_splits)
qed

lemma dp_row_filled:
  assumes "i < length a" and "dp_filled a b (Suc i) 0 dp"
  shows "dp_filled a b i 0 (for_down (length b) (dp_cell a b i) dp)"
proof (rule for_down_inv [where P = "dp_filled a b i"])
  have "Suc i < r \<or> r = Suc i \<longleftrightarrow> i < r" for r by auto
  with assms show "dp_filled a b i (length b) dp"
    by (auto simp: dp_filled_def)
next
  fix j dp
  assume "j < length b" "dp_filled a b i (Suc j) dp"
  then show "dp_filled a b i j (dp_cell a b i j dp)"
    by (rule dp_cell_filled [OF assms(1)])
qed

lemma dp_table_filled: "dp_filled a b 0 0 (dp_table a b)"
  unfolding dp_table_def
proof (rule for_down_inv [where P = "\<lambda>i. dp_filled a b i 0"])
  show "dp_filled a b (length a) 0 (replicate (length a + 1) (replicate (length b + 1) 0))"
    by (auto simp: dp_filled_def dp_shape_def simp del: replicate.simps)
qed (rule dp_row_filled)

lemma dp_table_nth:
  "i \<le> length a \<Longrightarrow> j \<le> length b \<Longrightarrow> dp_table a b ! i ! j = lcs_len (drop i a) (drop j b)"
  using dp_table_filled [of a b] by (auto simp: dp_filled_def)

section \<open>What the line diff guarantees\<close>

definition old_rows :: "row list \<Rightarrow> row list" where
  "old_rows rows = filter (\<lambda>r. r_type r \<noteq> Add) rows"

definition new_rows :: "row list \<Rightarrow> row list" where
  "new_rows rows = filter (\<lambda>r. r_type r \<noteq> Del) rows"

definition eq_rows :: "row list \<Rightarrow> row list" where
  "eq_rows rows = filter (\<lambda>r. r_type r = Eq) rows"

lemmas side_rows = old_rows_def new_rows_def eq_rows_def

text \<open>
  Each line of the old file appears once, in order and with its number, and so does each line
  of the new file; this does not depend on what the table holds.
\<close>

lemma upt_numbers: "i < n \<Longrightarrow> [q..<q + (n - i)] = q # [Suc q..<Suc q + (n - Suc i)]"
  using upt_conv_Cons [of q "q + (n - i)"] by (simp add: Suc_diff_Suc del: upt_Suc)

lemma diff_loop_sides:
  assumes "i \<le> length a" and "j \<le> length b"
  shows "map r_text (old_rows (diff_loop a b dp i j p q)) = drop i a \<and>
    map r_text (new_rows (diff_loop a b dp i j p q)) = drop j b \<and>
    map r_oldNo (old_rows (diff_loop a b dp i j p q)) = map Some [p..<p + (length a - i)] \<and>
    map r_newNo (new_rows (diff_loop a b dp i j p q)) = map Some [q..<q + (length b - j)]"
  using assms
proof (induction a b dp i j p q rule: diff_loop.induct)
  case (1 a b dp i j p q)
  let ?D = "diff_loop a b dp"
  consider (Eq) "i < length a" "j < length b" "a ! i = b ! j"
    | (Del) "i < length a" "?D i j p q = mk_row Del (a ! i) (Some p) None # ?D (i + 1) j (p + 1) q"
        "j < length b \<Longrightarrow> a ! i \<noteq> b ! j" "j < length b \<Longrightarrow> dp ! (i + 1) ! j \<ge> dp ! i ! (j + 1)"
    | (Add) "j < length b" "?D i j p q = mk_row Add (b ! j) None (Some q) # ?D i (j + 1) p (q + 1)"
        "i < length a \<Longrightarrow> a ! i \<noteq> b ! j" "i < length a \<Longrightarrow> \<not> dp ! (i + 1) ! j \<ge> dp ! i ! (j + 1)"
    | (Done) "\<not> i < length a" "\<not> j < length b"
    by (cases "i < length a"; cases "j < length b"; cases "a ! i = b ! j";
        cases "dp ! (i + 1) ! j \<ge> dp ! i ! (j + 1)") (auto simp: diff_loop.simps [of a b dp i j])
  then show ?case
  proof cases
    case Eq
    then have step: "?D i j p q =
      mk_row Eq (a ! i) (Some p) (Some q) # ?D (i + 1) (j + 1) (p + 1) (q + 1)"
      by (subst diff_loop.simps) simp
    from "1.IH" (1) Eq have IH: "map r_text (old_rows (?D (i + 1) (j + 1) (p + 1) (q + 1))) = drop (i + 1) a \<and>
      map r_text (new_rows (?D (i + 1) (j + 1) (p + 1) (q + 1))) = drop (j + 1) b \<and>
      map r_oldNo (old_rows (?D (i + 1) (j + 1) (p + 1) (q + 1))) = map Some [p + 1..<p + 1 + (length a - (i + 1))] \<and>
      map r_newNo (new_rows (?D (i + 1) (j + 1) (p + 1) (q + 1))) = map Some [q + 1..<q + 1 + (length b - (j + 1))]"
      by simp
    show ?thesis
      unfolding step upt_numbers [OF Eq(1)] upt_numbers [OF Eq(2)]
      using IH Eq by (simp add: side_rows Cons_nth_drop_Suc [symmetric] del: drop_Suc upt_Suc)
  next
    case Del
    have "map r_text (old_rows (?D (i + 1) j (p + 1) q)) = drop (i + 1) a \<and>
      map r_text (new_rows (?D (i + 1) j (p + 1) q)) = drop j b \<and>
      map r_oldNo (old_rows (?D (i + 1) j (p + 1) q)) = map Some [p + 1..<p + 1 + (length a - (i + 1))] \<and>
      map r_newNo (new_rows (?D (i + 1) j (p + 1) q)) = map Some [q..<q + (length b - j)]"
      using "1.IH" (2,4) Del "1.prems" by (cases "j < length b") auto
    then show ?thesis
      unfolding Del(2) upt_numbers [OF Del(1)] using Del(1)
      by (simp add: side_rows Cons_nth_drop_Suc del: drop_Suc upt_Suc)
  next
    case Add
    have "map r_text (old_rows (?D i (j + 1) p (q + 1))) = drop i a \<and>
      map r_text (new_rows (?D i (j + 1) p (q + 1))) = drop (j + 1) b \<and>
      map r_oldNo (old_rows (?D i (j + 1) p (q + 1))) = map Some [p..<p + (length a - i)] \<and>
      map r_newNo (new_rows (?D i (j + 1) p (q + 1))) = map Some [q + 1..<q + 1 + (length b - (j + 1))]"
      using "1.IH" (3,5) Add "1.prems" by (cases "i < length a") auto
    then show ?thesis
      unfolding Add(2) upt_numbers [OF Add(1)] using Add(1)
      by (simp add: side_rows Cons_nth_drop_Suc del: drop_Suc upt_Suc)
  next
    case Done
    with "1.prems" show ?thesis
      by (subst (1 2 3 4) diff_loop.simps) (simp add: side_rows)
  qed
qed

lemma diff_loop_eq_count:
  assumes "i \<le> length a" and "j \<le> length b"
    and "\<And>r c. r \<le> length a \<Longrightarrow> c \<le> length b \<Longrightarrow> dp ! r ! c = lcs_len (drop r a) (drop c b)"
  shows "length (eq_rows (diff_loop a b dp i j p q)) = lcs_len (drop i a) (drop j b)"
  using assms
proof (induction a b dp i j p q rule: diff_loop.induct)
  case (1 a b dp i j p q)
  show ?case
  proof (cases "i < length a \<and> j < length b")
    case True
    then have dr: "drop i a = a ! i # drop (Suc i) a" "drop j b = b ! j # drop (Suc j) b"
      by (simp_all add: Cons_nth_drop_Suc)
    have dp: "dp ! Suc i ! j = lcs_len (drop (Suc i) a) (drop j b)"
      "dp ! i ! Suc j = lcs_len (drop i a) (drop (Suc j) b)"
      using "1.prems"(3) [of "Suc i" j] "1.prems"(3) [of i "Suc j"] True by simp_all
    show ?thesis
      using "1.IH" (1,2,3) True "1.prems" dp
      by (subst diff_loop.simps) (auto simp: side_rows dr)
  next
    case False
    with "1.IH" (4,5) "1.prems" show ?thesis
      by (subst diff_loop.simps) (auto simp: side_rows)
  qed
qed

lemma length_sides:
  "length (old_rows rows) = length (eq_rows rows) + length (filter (\<lambda>r. r_type r = Del) rows)"
  "length (new_rows rows) = length (eq_rows rows) + length (filter (\<lambda>r. r_type r = Add) rows)"
  by (induction rows) (auto simp: side_rows, (metis row_type.exhaust)+)

lemma diffLines_old: "map r_text (old_rows (diffLines c n)) = splitLines c"
  and diffLines_new: "map r_text (new_rows (diffLines c n)) = splitLines n"
  and diffLines_oldNo: "map r_oldNo (old_rows (diffLines c n)) = map Some [1..<Suc (length (splitLines c))]"
  and diffLines_newNo: "map r_newNo (new_rows (diffLines c n)) = map Some [1..<Suc (length (splitLines n))]"
  using diff_loop_sides [of 0 "splitLines c" 0 "splitLines n" "dp_table (splitLines c) (splitLines n)" 1 1]
  by (simp_all add: diffLines_def Let_def)

lemma diffLines_lcs: "length (eq_rows (diffLines c n)) = lcs_len (splitLines c) (splitLines n)"
  using diff_loop_eq_count [of 0 "splitLines c" 0 "splitLines n" "dp_table (splitLines c) (splitLines n)"]
  by (simp add: diffLines_def Let_def dp_table_nth)

lemma subseq_filter_map: "subseq (map f (filter P xs)) (map f xs)"
  by (rule subseq_map) simp

lemma eq_rows_common:
  "subseq (map r_text (eq_rows rows)) (map r_text (old_rows rows))"
  "subseq (map r_text (eq_rows rows)) (map r_text (new_rows rows))"
proof -
  have "eq_rows rows = filter (\<lambda>r. r_type r = Eq) (old_rows rows)"
    "eq_rows rows = filter (\<lambda>r. r_type r = Eq) (new_rows rows)"
    by (auto simp: side_rows intro: filter_cong)
  then show "subseq (map r_text (eq_rows rows)) (map r_text (old_rows rows))"
    "subseq (map r_text (eq_rows rows)) (map r_text (new_rows rows))"
    by (metis subseq_filter_map)+
qed

text \<open>
  The alignment is optimal: any row list that shows the two files has at least as many
  removes and adds.
\<close>

lemma diffLines_minimal:
  assumes "map r_text (old_rows rows) = splitLines c" and "map r_text (new_rows rows) = splitLines n"
  shows "fst (diffStats c n) \<le> length (filter (\<lambda>r. r_type r = Add) rows) \<and>
    snd (diffStats c n) \<le> length (filter (\<lambda>r. r_type r = Del) rows)"
proof -
  have "length (eq_rows rows) \<le> lcs_len (splitLines c) (splitLines n)"
    using lcs_len_upper eq_rows_common [of rows] assms by (metis length_map)
  moreover have "length (old_rows rows) = length (old_rows (diffLines c n))"
    "length (new_rows rows) = length (new_rows (diffLines c n))"
    using assms diffLines_old [of c n] diffLines_new [of c n] by (metis length_map)+
  ultimately show ?thesis
    using length_sides [of rows] length_sides [of "diffLines c n"] diffLines_lcs [of c n]
    by (simp add: diffStats_def Let_def)
qed

lemma diffStats_counts:
  "fst (diffStats c n) + lcs_len (splitLines c) (splitLines n) = length (splitLines n) \<and>
   snd (diffStats c n) + lcs_len (splitLines c) (splitLines n) = length (splitLines c)"
  using length_sides [of "diffLines c n"] diffLines_lcs [of c n]
    arg_cong [OF diffLines_old [of c n], of length] arg_cong [OF diffLines_new [of c n], of length]
  by (simp add: diffStats_def Let_def)

lemma lcs_len_le: "lcs_len xs ys \<le> length xs \<and> lcs_len xs ys \<le> length ys"
  by (metis lcs_len_attained list_emb_length)

lemma lcs_len_full: "lcs_len xs ys = length xs \<Longrightarrow> length xs = length ys \<Longrightarrow> xs = ys"
  by (metis lcs_len_attained subseq_same_length)

lemma lcs_len_refl [simp]: "lcs_len xs xs = length xs"
  by (induction xs) simp_all

lemma diffStats_zero_iff: "diffStats c n = (0, 0) \<longleftrightarrow> splitLines c = splitLines n"
proof
  assume "diffStats c n = (0, 0)"
  then show "splitLines c = splitLines n"
    using diffStats_counts [of c n] by (auto intro: lcs_len_full)
next
  assume "splitLines c = splitLines n"
  then show "diffStats c n = (0, 0)"
    using diffStats_counts [of c n] by (simp add: prod_eq_iff)
qed

lemma splitLines_join:
  "join_with [newline] (splitLines text) =
     (if text \<noteq> '''' \<and> last text = newline then butlast text else text)"
  by (simp add: splitLines_def)

lemma splitLines_newline: "splitLines (text @ [newline]) = split_char newline text"
  by (simp add: splitLines_def)

text \<open>Two files that both end with a newline, as generated files do, are told apart.\<close>

lemma diffStats_zero_text:
  "diffStats (c @ [newline]) (n @ [newline]) = (0, 0) \<longleftrightarrow> c = n"
  unfolding diffStats_zero_iff splitLines_newline by (metis join_split_char)

lemma diffStats_final_newline: "diffStats ''x'' (''x'' @ [newline]) = (0, 0)"
  by (simp add: diffStats_zero_iff splitLines_def newline_def)

section \<open>Pairs: each row on its side, once, in order\<close>

abbreviation lefts :: "pair list \<Rightarrow> nat list" where
  "lefts ps \<equiv> somes (map pr_left ps)"

abbreviation rights :: "pair list \<Rightarrow> nat list" where
  "rights ps \<equiv> somes (map pr_right ps)"

lemma somes_js_get: "length xs \<le> n \<Longrightarrow> somes (map (js_get xs) [0..<n]) = xs"
proof (induction n arbitrary: xs)
  case (Suc n)
  show ?case
  proof (cases xs)
    case Nil
    then show ?thesis by (simp del: upt_Suc add: somes_map_None)
  next
    case (Cons x ys)
    have "map (js_get xs) [0..<Suc n] = Some x # map (js_get ys) [0..<n]"
      using Cons by (simp add: map_upt_Suc del: upt_Suc)
    with Suc Cons show ?thesis by simp
  qed
qed simp

lemma zip_run_sides: "lefts (zip_run ds as) = ds" "rights (zip_run ds as) = as"
  by (simp_all add: zip_run_def comp_def somes_js_get del: upt_Suc)

lemma pairs_from_end: "\<not> k < length rows \<Longrightarrow> pairs_from rows k = []"
  by (subst pairs_from.simps) simp

lemma pairs_from_eq:
  "k < length rows \<Longrightarrow> r_type (rows ! k) = Eq \<Longrightarrow> pairs_from rows k =
     \<lparr>pr_left = Some k, pr_right = Some k, pr_changed = False, pr_merged = None\<rparr> # pairs_from rows (k + 1)"
  by (subst pairs_from.simps) simp

lemma pairs_from_run:
  "k < length rows \<Longrightarrow> r_type (rows ! k) \<noteq> Eq \<Longrightarrow> take_run rows k [] [] = (ds, as, k') \<Longrightarrow>
     pairs_from rows k = zip_run ds as @ pairs_from rows k'"
  by (subst pairs_from.simps) simp

lemma pairs_from_sides:
  "k \<le> length rows \<Longrightarrow>
     lefts (pairs_from rows k) = filter (\<lambda>x. r_type (rows ! x) \<noteq> Add) [k..<length rows] \<and>
     rights (pairs_from rows k) = filter (\<lambda>x. r_type (rows ! x) \<noteq> Del) [k..<length rows]"
proof (induction rows k rule: pairs_from.induct)
  case (1 rows k)
  show ?case
  proof (cases "k < length rows")
    case False
    with "1.prems" show ?thesis by (simp add: pairs_from_end)
  next
    case True
    show ?thesis
    proof (cases "r_type (rows ! k) = Eq")
      case eq: True
      with "1.IH" (1) True show ?thesis
        by (simp add: pairs_from_eq upt_conv_Cons [of k] del: upt_Suc)
    next
      case neq: False
      obtain ds as k' where run: "take_run rows k [] [] = (ds, as, k')" by (metis prod_cases3)
      note spec = take_run_spec [OF run]
      have split: "[k..<length rows] = [k..<k'] @ [k'..<length rows]"
        using spec True upt_add_eq_append [of k k' "length rows - k'"] by simp
      have types: "(r_type (rows ! x) \<noteq> Add) = (r_type (rows ! x) = Del)"
        "(r_type (rows ! x) \<noteq> Del) = (r_type (rows ! x) = Add)" if "x \<in> set [k..<k']" for x
        using spec that by (cases "r_type (rows ! x)"; simp)+
      have "filter (\<lambda>x. r_type (rows ! x) \<noteq> Add) [k..<k'] = ds"
        "filter (\<lambda>x. r_type (rows ! x) \<noteq> Del) [k..<k'] = as"
        using spec filter_cong [of "[k..<k']" "[k..<k']", OF refl types(1)]
          filter_cong [of "[k..<k']" "[k..<k']", OF refl types(2)] by (simp_all del: set_upt)
      moreover have "k' \<le> length rows" using spec True by simp
      ultimately show ?thesis
        using "1.IH" (2) [OF True neq run [symmetric] refl refl]
        unfolding pairs_from_run [OF True neq run] split by (simp add: zip_run_sides)
    qed
  qed
qed

lemma map_nth_filter: "map ((!) rows) (filter (\<lambda>x. P (rows ! x)) [0..<length rows]) = filter P rows"
  by (metis (no_types) filter_map map_nth comp_def filter_cong)

lemma buildPairs_left: "map ((!) rows) (lefts (buildPairs rows)) = old_rows rows"
  and buildPairs_right: "map ((!) rows) (rights (buildPairs rows)) = new_rows rows"
  using pairs_from_sides [of 0 rows]
    map_nth_filter [of rows "\<lambda>r. r_type r \<noteq> Add"] map_nth_filter [of rows "\<lambda>r. r_type r \<noteq> Del"]
  by (simp_all add: buildPairs_def side_rows)

definition pair_ok :: "row list \<Rightarrow> pair \<Rightarrow> bool" where
  "pair_ok rows p \<longleftrightarrow>
     (if pr_changed p
      then (\<forall>l. pr_left p = Some l \<longrightarrow> l < length rows \<and> r_type (rows ! l) = Del) \<and>
           (\<forall>r. pr_right p = Some r \<longrightarrow> r < length rows \<and> r_type (rows ! r) = Add)
      else \<exists>x. pr_left p = Some x \<and> pr_right p = Some x \<and> x < length rows \<and> r_type (rows ! x) = Eq) \<and>
     \<not> (pr_left p = None \<and> pr_right p = None) \<and> pr_merged p = None"

lemma zip_run_ok:
  assumes "\<forall>x \<in> set ds. x < length rows \<and> r_type (rows ! x) = Del"
    and "\<forall>x \<in> set as. x < length rows \<and> r_type (rows ! x) = Add"
  shows "\<forall>p \<in> set (zip_run ds as). pair_ok rows p"
proof
  fix p
  assume "p \<in> set (zip_run ds as)"
  then obtain x where "x < max (length ds) (length as)" and
    p: "p = \<lparr>pr_left = js_get ds x, pr_right = js_get as x, pr_changed = True, pr_merged = None\<rparr>"
    by (auto simp: zip_run_def)
  then have "\<not> (js_get ds x = None \<and> js_get as x = None)" by (auto simp: js_get_eq_None)
  moreover have "l < length rows \<and> r_type (rows ! l) = Del" if "js_get ds x = Some l" for l
    using that assms(1) by (blast dest: js_get_in_set)
  moreover have "r < length rows \<and> r_type (rows ! r) = Add" if "js_get as x = Some r" for r
    using that assms(2) by (blast dest: js_get_in_set)
  ultimately show "pair_ok rows p" by (simp add: p pair_ok_def)
qed

lemma pairs_from_ok: "k \<le> length rows \<Longrightarrow> \<forall>p \<in> set (pairs_from rows k). pair_ok rows p"
proof (induction rows k rule: pairs_from.induct)
  case (1 rows k)
  show ?case
  proof (cases "k < length rows")
    case False
    then show ?thesis by (subst pairs_from.simps) simp
  next
    case True
    show ?thesis
    proof (cases "r_type (rows ! k) = Eq")
      case eq: True
      with "1.IH" (1) True show ?thesis
        by (subst pairs_from.simps) (simp add: pair_ok_def)
    next
      case neq: False
      obtain ds as k' where run: "take_run rows k [] [] = (ds, as, k')" by (metis prod_cases3)
      note spec = take_run_spec [OF run]
      have "\<forall>x \<in> set ds. x < length rows \<and> r_type (rows ! x) = Del"
        "\<forall>x \<in> set as. x < length rows \<and> r_type (rows ! x) = Add"
        using spec True by auto
      then have "\<forall>p \<in> set (zip_run ds as). pair_ok rows p" by (rule zip_run_ok)
      moreover have "k' \<le> length rows" using spec True by simp
      ultimately show ?thesis
        using "1.IH" (2) [OF True neq run [symmetric] refl refl]
        unfolding pairs_from_run [OF True neq run] by auto
    qed
  qed
qed

lemma buildPairs_ok: "\<forall>p \<in> set (buildPairs rows). pair_ok rows p"
  unfolding buildPairs_def by (rule pairs_from_ok) simp

section \<open>The word diff reconstructs both lines\<close>

lemma concat_tokenize [simp]: "concat (tokenize s) = s"
  by (induction s rule: tokenize.induct) simp_all

lemma tokenize_runs:
  "t \<in> set (tokenize s) \<Longrightarrow> t \<noteq> [] \<and> (\<forall>c \<in> set t. char_class c = char_class (hd t))"
proof (induction s rule: tokenize.induct)
  case (2 c s)
  from "2.prems" consider "t = c # takeWhile (\<lambda>x. char_class x = char_class c) s"
    | "t \<in> set (tokenize (dropWhile (\<lambda>x. char_class x = char_class c) s))" by auto
  then show ?case
  proof cases
    case 1
    then show ?thesis by (auto dest: set_takeWhileD)
  next
    case 2
    then show ?thesis by (rule "2.IH")
  qed
qed simp

lemma tokenize_maximal:
  "Suc i < length (tokenize s) \<Longrightarrow>
     char_class (hd (tokenize s ! i)) \<noteq> char_class (hd (tokenize s ! Suc i))"
proof (induction s arbitrary: i rule: tokenize.induct)
  case (2 c s)
  let ?rest = "dropWhile (\<lambda>x. char_class x = char_class c) s"
  show ?case
  proof (cases i)
    case 0
    with "2.prems" obtain d r where r: "?rest = d # r" by (cases ?rest) auto
    then have "char_class d \<noteq> char_class c" by (simp add: dropWhile_eq_Cons_conv)
    with 0 r show ?thesis by simp
  next
    case (Suc k)
    with 2 show ?thesis by simp
  qed
qed simp

definition old_text :: "mseg list \<Rightarrow> string" where
  "old_text ms = concat (map ms_text (filter (\<lambda>s. ms_kind s \<noteq> Add) ms))"

definition new_text :: "mseg list \<Rightarrow> string" where
  "new_text ms = concat (map ms_text (filter (\<lambda>s. ms_kind s \<noteq> Del) ms))"

lemmas side_text = old_text_def new_text_def

lemma push_mseg_text:
  "old_text (push_mseg t k ms) = old_text ms @ (if k = Add then [] else t)"
  "new_text (push_mseg t k ms) = new_text ms @ (if k = Del then [] else t)"
  by (cases ms rule: rev_cases; simp add: push_mseg_def side_text)+

lemma token_loop_text:
  assumes "i \<le> length a" and "j \<le> length b"
  shows "old_text (token_loop a b dp i j ms) = old_text ms @ concat (drop i a) \<and>
    new_text (token_loop a b dp i j ms) = new_text ms @ concat (drop j b)"
  using assms
proof (induction a b dp i j ms rule: token_loop.induct)
  case (1 a b dp i j ms)
  have dr: "i < length a \<Longrightarrow> drop i a = a ! i # drop (Suc i) a"
    "j < length b \<Longrightarrow> drop j b = b ! j # drop (Suc j) b"
    by (simp_all add: Cons_nth_drop_Suc)
  show ?case
    using "1.IH" "1.prems" dr
    by (subst (1 2) token_loop.simps) (auto simp: push_mseg_text)
qed

lemma tokenDiff_text: "tokenDiff x y = Some ms \<Longrightarrow> old_text ms = x \<and> new_text ms = y"
  using token_loop_text [of 0 "tokenize x" 0 "tokenize y" "dp_table (tokenize x) (tokenize y)" "[]"]
  by (auto simp: tokenDiff_def Let_def side_text split: if_splits)

lemma subseq_subset: "subseq xs ys \<Longrightarrow> set xs \<subseteq> set ys"
  by (induction rule: list_emb.induct) auto

lemma lcs_len_pos: "lcs_len xs ys = 0 \<longleftrightarrow> set xs \<inter> set ys = {}"
proof
  assume z: "lcs_len xs ys = 0"
  have "t \<in> set xs \<Longrightarrow> t \<in> set ys \<Longrightarrow> False" for t
    using lcs_len_upper [of "[t]" xs ys] z by (simp add: subseq_singleton_left)
  then show "set xs \<inter> set ys = {}" by blast
next
  assume disj: "set xs \<inter> set ys = {}"
  obtain zs where "subseq zs xs" "subseq zs ys" "length zs = lcs_len xs ys"
    using lcs_len_attained by blast
  then show "lcs_len xs ys = 0"
    using disj subseq_subset [of zs xs] subseq_subset [of zs ys] by (cases zs) auto
qed

lemma tokenDiff_None_iff: "tokenDiff x y = None \<longleftrightarrow> set (tokenize x) \<inter> set (tokenize y) = {}"
  by (simp add: tokenDiff_def Let_def dp_table_nth lcs_len_pos)

text \<open>Neighbouring segments differ in kind: the merged stream has no split runs.\<close>

definition runs_merged :: "('a \<Rightarrow> 'k) \<Rightarrow> 'a list \<Rightarrow> bool" where
  "runs_merged f xs \<longleftrightarrow> (\<forall>i. Suc i < length xs \<longrightarrow> f (xs ! i) \<noteq> f (xs ! Suc i))"

lemma runs_merged_snoc:
  "runs_merged f (xs @ [y]) \<longleftrightarrow> runs_merged f xs \<and> (xs \<noteq> [] \<longrightarrow> f (last xs) \<noteq> f y)"
  by (cases xs rule: rev_cases) (auto simp: runs_merged_def nth_append less_Suc_eq)

lemma runs_merged_Nil [simp]: "runs_merged f []"
  by (simp add: runs_merged_def)

lemma runs_merged_single [simp]: "runs_merged f [x]"
  by (simp add: runs_merged_def)

lemma runs_merged_replace_last:
  "runs_merged f xs \<Longrightarrow> xs \<noteq> [] \<Longrightarrow> f y = f (last xs) \<Longrightarrow> runs_merged f (butlast xs @ [y])"
  by (cases xs rule: rev_cases) (simp_all add: runs_merged_snoc)

lemma push_mseg_merged: "runs_merged ms_kind ms \<Longrightarrow> runs_merged ms_kind (push_mseg t k ms)"
  by (auto simp: push_mseg_def intro!: runs_merged_replace_last) (simp add: runs_merged_snoc)

lemma token_loop_merged: "runs_merged ms_kind ms \<Longrightarrow> runs_merged ms_kind (token_loop a b dp i j ms)"
proof (induction a b dp i j ms rule: token_loop.induct)
  case (1 a b dp i j ms)
  then show ?case by (subst token_loop.simps) (simp add: push_mseg_merged)
qed

lemma tokenDiff_merged: "tokenDiff x y = Some ms \<Longrightarrow> runs_merged ms_kind ms"
  using token_loop_merged [of "[]"] by (auto simp: tokenDiff_def Let_def split: if_splits)

section \<open>Attaching the word diff\<close>

definition seg_text :: "seg list \<Rightarrow> string" where
  "seg_text ss = concat (map sg_text ss)"

lemma push_seg_text: "seg_text (push_seg t c ss) = seg_text ss @ t"
  by (cases ss rule: rev_cases) (simp_all add: push_seg_def seg_text_def)

lemma sideSegs_old: "seg_text (sideSegs ms OldSide) = old_text ms"
  unfolding sideSegs_def
  by (induction ms rule: rev_induct) (simp_all add: push_seg_text side_text, simp add: seg_text_def)

lemma sideSegs_new: "seg_text (sideSegs ms NewSide) = new_text ms"
  unfolding sideSegs_def
  by (induction ms rule: rev_induct) (simp_all add: push_seg_text side_text, simp add: seg_text_def)

definition segs_ok :: "row list \<Rightarrow> bool" where
  "segs_ok rows \<longleftrightarrow> (\<forall>r \<in> set rows. \<forall>ss. r_seg r = Some ss \<longrightarrow> seg_text ss = r_text r)"

definition bare_rows :: "row list \<Rightarrow> row list" where
  "bare_rows rows = map (\<lambda>r. r\<lparr>r_seg := None\<rparr>) rows"

definition bare_pairs :: "pair list \<Rightarrow> pair list" where
  "bare_pairs ps = map (\<lambda>p. p\<lparr>pr_merged := None\<rparr>) ps"

lemma bare_rows_nth:
  "bare_rows rows = bare_rows rows0 \<Longrightarrow> x < length rows \<Longrightarrow>
     r_text (rows ! x) = r_text (rows0 ! x) \<and> r_type (rows ! x) = r_type (rows0 ! x)"
proof -
  assume a: "bare_rows rows = bare_rows rows0" and x: "x < length rows"
  then have "length rows = length rows0" by (metis bare_rows_def length_map)
  with a x have "(rows ! x)\<lparr>r_seg := None\<rparr> = (rows0 ! x)\<lparr>r_seg := None\<rparr>"
    by (metis bare_rows_def nth_map)
  then show ?thesis by (metis row.select_convs(1,2) row.surjective row.update_convs(5))
qed

lemma bare_rows_set_seg: "bare_rows (rows[x := (rows ! x)\<lparr>r_seg := s\<rparr>]) = bare_rows rows"
proof (cases "x < length rows")
  case True
  then show ?thesis
    by (intro nth_equalityI) (auto simp: bare_rows_def nth_list_update)
qed (simp add: list_update_beyond)

lemma segs_ok_set_seg:
  "segs_ok rows \<Longrightarrow> seg_text ss = r_text (rows ! x) \<Longrightarrow>
     segs_ok (rows[x := (rows ! x)\<lparr>r_seg := Some ss\<rparr>])"
  by (cases "x < length rows") (auto simp: segs_ok_def dest!: set_update_subset_insert [THEN subsetD])

definition with_segs :: "row list \<Rightarrow> nat \<Rightarrow> nat \<Rightarrow> mseg list \<Rightarrow> row list" where
  "with_segs rows l r merged =
     (let rows1 = rows[l := (rows ! l)\<lparr>r_seg := Some (sideSegs merged OldSide)\<rparr>]
      in rows1[r := (rows1 ! r)\<lparr>r_seg := Some (sideSegs merged NewSide)\<rparr>])"

lemma attach_pair_cases:
  obtains "attach_pair (rows, done) p = (rows, done @ [p])"
  | l r merged where "pr_left p = Some l" "pr_right p = Some r"
      "tokenDiff (r_text (rows ! l)) (r_text (rows ! r)) = Some merged"
      "attach_pair (rows, done) p = (with_segs rows l r merged, done @ [p\<lparr>pr_merged := Some merged\<rparr>])"
proof (cases "pr_changed p \<and> pr_left p \<noteq> None \<and> pr_right p \<noteq> None")
  case False
  then have "attach_pair (rows, done) p = (rows, done @ [p])"
    by (cases "pr_changed p"; cases "pr_left p"; cases "pr_right p") (simp_all add: attach_pair_def)
  then show thesis by (rule that)
next
  case True
  then obtain l r where p: "pr_changed p" "pr_left p = Some l" "pr_right p = Some r" by blast
  show thesis
  proof (cases "tokenDiff (r_text (rows ! l)) (r_text (rows ! r))")
    case None
    with p that show thesis by (simp add: attach_pair_def)
  next
    case (Some merged)
    with p that show thesis
      by (cases "similar merged") (simp_all add: attach_pair_def with_segs_def Let_def)
  qed
qed

lemma attach_pair_inv:
  assumes "attach_pair (rows, done) p = (rows', done')" and "segs_ok rows"
  shows "segs_ok rows' \<and> bare_rows rows' = bare_rows rows \<and> bare_pairs done' = bare_pairs (done @ [p])"
proof (rule attach_pair_cases [of rows "done" p])
  assume "attach_pair (rows, done) p = (rows, done @ [p])"
  with assms show ?thesis by simp
next
  fix l r merged
  assume td: "tokenDiff (r_text (rows ! l)) (r_text (rows ! r)) = Some merged"
    and at: "attach_pair (rows, done) p = (with_segs rows l r merged, done @ [p\<lparr>pr_merged := Some merged\<rparr>])"
  have rows': "rows' = with_segs rows l r merged" and done': "done' = done @ [p\<lparr>pr_merged := Some merged\<rparr>]"
    using assms(1) at by simp_all
  let ?rows1 = "rows[l := (rows ! l)\<lparr>r_seg := Some (sideSegs merged OldSide)\<rparr>]"
  have ok1: "segs_ok ?rows1"
    using tokenDiff_text [OF td] by (intro segs_ok_set_seg assms(2)) (simp add: sideSegs_old)
  have "r_text (?rows1 ! r) = r_text (rows ! r)"
    by (cases "l = r"; cases "l < length rows") (simp_all add: list_update_beyond)
  then have "segs_ok rows'"
    unfolding rows' with_segs_def Let_def
    using tokenDiff_text [OF td] by (intro segs_ok_set_seg ok1) (simp add: sideSegs_new)
  moreover have "bare_rows rows' = bare_rows rows"
    by (simp add: rows' with_segs_def Let_def bare_rows_set_seg)
  ultimately show ?thesis by (simp add: done' bare_pairs_def)
qed

lemma attachWordDiff_inv:
  assumes "attachWordDiff rows ps = (rows', ps')" and "segs_ok rows"
  shows "segs_ok rows' \<and> bare_rows rows' = bare_rows rows \<and> bare_pairs ps' = bare_pairs ps"
proof -
  have "foldl attach_pair (rows, done) ps = (rows', ps') \<Longrightarrow>
    segs_ok rows' \<and> bare_rows rows' = bare_rows rows \<and> bare_pairs ps' = bare_pairs (done @ ps)" for "done"
    using assms(2)
  proof (induction ps arbitrary: rows "done")
    case (Cons p ps)
    obtain rows1 done1 where s: "attach_pair (rows, done) p = (rows1, done1)" by fastforce
    note inv = attach_pair_inv [OF s Cons.prems(2)]
    have "foldl attach_pair (rows1, done1) ps = (rows', ps')" using Cons.prems(1) s by simp
    with Cons.IH [of rows1 done1] inv show ?case by (simp add: bare_pairs_def)
  qed simp
  from this [of "[]"] assms(1) show ?thesis by (simp add: attachWordDiff_def)
qed

lemma diff_loop_no_seg: "\<forall>r \<in> set (diff_loop a b dp i j p q). r_seg r = None"
proof (induction a b dp i j p q rule: diff_loop.induct)
  case (1 a b dp i j p q)
  then show ?case by (subst diff_loop.simps) auto
qed

lemma diffLines_segs_ok: "segs_ok (diffLines c n)"
  using diff_loop_no_seg by (fastforce simp: segs_ok_def diffLines_def Let_def)

section \<open>Collapsing keeps every change and its context\<close>

lemma foldl_keep:
  "length (foldl (\<lambda>keep k. keep[k := True]) keep ks) = length keep \<and>
   (x < length keep \<longrightarrow> foldl (\<lambda>keep k. keep[k := True]) keep ks ! x = (x \<in> set ks \<or> keep ! x))"
proof (induction ks arbitrary: keep)
  case (Cons k ks)
  from Cons.IH [of "keep[k := True]"] show ?case by (cases "k = x") (auto simp: nth_list_update)
qed simp

lemma keep_around_nth:
  "length (keep_around len idx keep) = length keep \<and>
   (x < length keep \<and> length keep = len \<longrightarrow>
      keep_around len idx keep ! x = (idx \<le> x + CONTEXT \<and> x \<le> idx + CONTEXT \<or> keep ! x))"
proof -
  have "x \<in> set [idx - CONTEXT..<Suc (min (len - 1) (idx + CONTEXT))] \<longleftrightarrow>
      idx \<le> x + CONTEXT \<and> x \<le> idx + CONTEXT" if "x < len"
    using that by (auto simp del: upt_Suc)
  then show ?thesis
    using foldl_keep [of keep "[idx - CONTEXT..<Suc (min (len - 1) (idx + CONTEXT))]" x]
    unfolding keep_around_def by metis
qed

lemma foldl_keep_around:
  "length keep = len \<Longrightarrow>
     length (foldl (\<lambda>keep (t, idx). if f t then keep_around len idx keep else keep) keep ps) = len \<and>
     (x < len \<longrightarrow> foldl (\<lambda>keep (t, idx). if f t then keep_around len idx keep else keep) keep ps ! x =
       (keep ! x \<or> (\<exists>(t, idx) \<in> set ps. f t \<and> idx \<le> x + CONTEXT \<and> x \<le> idx + CONTEXT)))"
proof (induction ps arbitrary: keep)
  case (Cons p ps)
  obtain t idx where p: "p = (t, idx)" by fastforce
  let ?keep = "if f t then keep_around len idx keep else keep"
  have "length ?keep = len" using Cons.prems keep_around_nth by auto
  moreover have "x < len \<longrightarrow> ?keep ! x = (keep ! x \<or> f t \<and> idx \<le> x + CONTEXT \<and> x \<le> idx + CONTEXT)"
    using Cons.prems keep_around_nth by auto
  ultimately show ?case using Cons.IH [of ?keep] by (auto simp: p)
qed simp

lemma keep_flags_nth:
  "length (keep_flags items f) = length items \<and>
   (x < length items \<longrightarrow> keep_flags items f ! x =
      (\<exists>idx < length items. f (items ! idx) \<and> idx \<le> x + CONTEXT \<and> x \<le> idx + CONTEXT))"
proof -
  have "(\<exists>(t, idx) \<in> set (zip items [0..<length items]). f t \<and> idx \<le> x + CONTEXT \<and> x \<le> idx + CONTEXT)
    \<longleftrightarrow> (\<exists>idx < length items. f (items ! idx) \<and> idx \<le> x + CONTEXT \<and> x \<le> idx + CONTEXT)"
    by (force simp: set_zip)
  then show ?thesis
    using foldl_keep_around [of "replicate (length items) False" "length items" f "zip items [0..<length items]" x]
    unfolding keep_flags_def by simp
qed

lemma run_end_takeWhile: "run_end ks v idx = idx + length (takeWhile (\<lambda>k. k = v) ks)"
  by (induction ks arbitrary: idx) auto

lemma run_end_spec:
  assumes "idx \<le> length keep"
  shows "run_end (drop idx keep) v idx \<le> length keep \<and>
    (\<forall>k. idx \<le> k \<and> k < run_end (drop idx keep) v idx \<longrightarrow> keep ! k = v)"
proof -
  let ?t = "takeWhile (\<lambda>k. k = v) (drop idx keep)"
  have "length ?t \<le> length keep - idx" by (metis length_drop length_takeWhile_le)
  moreover have "keep ! k = v" if "idx \<le> k" "k < idx + length ?t" for k
  proof -
    have "?t ! (k - idx) \<in> set ?t" using that by (intro nth_mem) simp
    then have "?t ! (k - idx) = v" by (rule set_takeWhileD [THEN conjunct2])
    moreover have "?t ! (k - idx) = drop idx keep ! (k - idx)" using that by (intro takeWhile_nth) simp
    ultimately show ?thesis using that assms by simp
  qed
  ultimately show ?thesis using assms by (auto simp: run_end_takeWhile)
qed

lemma slice_drop: "i \<le> j \<Longrightarrow> slice xs i j @ drop j xs = drop i xs"
  unfolding slice_def by (metis append_take_drop_id drop_drop le_add_diff_inverse2)

lemma slice_nth: "i \<le> j \<Longrightarrow> j \<le> length xs \<Longrightarrow> k < length (slice xs i j) \<Longrightarrow> slice xs i j ! k = xs ! (i + k) \<and> i + k < j"
  by (auto simp: slice_def)

definition block_ok :: "'a list \<Rightarrow> bool list \<Rightarrow> 'a block \<Rightarrow> bool" where
  "block_ok items keep b \<longleftrightarrow> bl_items b \<noteq> [] \<and>
     (\<forall>k < length (bl_items b). bl_id b + k < length items \<and> bl_items b ! k = items ! (bl_id b + k) \<and>
        keep ! (bl_id b + k) = (bl_kind b = Rows))"

lemma blocks_from_end: "\<not> idx < length keep \<Longrightarrow> blocks_from items keep idx = []"
  by (subst blocks_from.simps) simp

lemma blocks_from_step:
  "idx < length keep \<Longrightarrow> run_end (drop idx keep) (keep ! idx) idx = idx' \<Longrightarrow>
     blocks_from items keep idx =
       \<lparr>bl_kind = (if keep ! idx then Rows else Gap), bl_id = idx, bl_items = slice items idx idx'\<rparr>
         # blocks_from items keep idx'"
  by (subst blocks_from.simps) (simp add: Let_def)

lemma blocks_from_spec:
  assumes "length keep = length items" and "idx \<le> length items"
  shows "concat (map bl_items (blocks_from items keep idx)) = drop idx items \<and>
    (\<forall>b \<in> set (blocks_from items keep idx). block_ok items keep b)"
  using assms
proof (induction items keep idx rule: blocks_from.induct)
  case (1 items keep idx)
  show ?case
  proof (cases "idx < length keep")
    case False
    with "1.prems" show ?thesis by (simp add: blocks_from_end)
  next
    case True
    define idx' where "idx' = run_end (drop idx keep) (keep ! idx) idx"
    have r: "idx < idx'" "idx' \<le> length items" "\<forall>k. idx \<le> k \<and> k < idx' \<longrightarrow> keep ! k = keep ! idx"
      unfolding idx'_def using run_end_progress [OF True] run_end_spec [of idx keep "keep ! idx"] True "1.prems"(1)
      by (metis less_imp_le)+
    have IH: "concat (map bl_items (blocks_from items keep idx')) = drop idx' items \<and>
      (\<forall>b \<in> set (blocks_from items keep idx'). block_ok items keep b)"
      using "1.IH" [OF True refl idx'_def] "1.prems" r by simp
    have "block_ok items keep \<lparr>bl_kind = (if keep ! idx then Rows else Gap), bl_id = idx, bl_items = slice items idx idx'\<rparr>"
    proof -
      have len: "length (slice items idx idx') = idx' - idx"
        using r(2) by (simp only: slice_def length_take length_drop)
      have "slice items idx idx' ! k = items ! (idx + k) \<and> idx + k < length items \<and>
          keep ! (idx + k) = keep ! idx" if "k < length (slice items idx idx')" for k
        using slice_nth [OF less_imp_le [OF r(1)] r(2) that] r(2) r(3) [rule_format, of "idx + k"]
        by (metis le_add1 less_le_trans)
      moreover have "slice items idx idx' \<noteq> []" using len r(1) by fastforce
      ultimately show ?thesis by (simp add: block_ok_def)
    qed
    with IH show ?thesis
      by (simp add: blocks_from_step [OF True idx'_def [symmetric]] slice_drop [OF less_imp_le [OF r(1)]])
  qed
qed

lemma blocks_from_alternate: "runs_merged bl_kind (blocks_from items keep idx) \<and>
   (\<forall>b bs. blocks_from items keep idx = b # bs \<longrightarrow> idx < length keep \<and> (bl_kind b = Rows) = keep ! idx)"
proof (induction items keep idx rule: blocks_from.induct)
  case (1 items keep idx)
  show ?case
  proof (cases "idx < length keep")
    case False
    then show ?thesis by (simp add: blocks_from_end)
  next
    case True
    define idx' where "idx' = run_end (drop idx keep) (keep ! idx) idx"
    let ?b = "\<lparr>bl_kind = (if keep ! idx then Rows else Gap), bl_id = idx, bl_items = slice items idx idx'\<rparr>"
    note IH = "1.IH" [OF True refl idx'_def]
    have stop: "idx' < length keep \<Longrightarrow> keep ! idx' \<noteq> keep ! idx"
      unfolding idx'_def run_end_takeWhile
      using nth_length_takeWhile [of "\<lambda>k. k = keep ! idx" "drop idx keep"] True
      by (metis add_less_cancel_left le_add_diff_inverse length_drop less_imp_le nth_drop)
    have "runs_merged bl_kind (?b # blocks_from items keep idx')"
    proof (cases "blocks_from items keep idx'")
      case (Cons b bs)
      with IH stop have "bl_kind ?b \<noteq> bl_kind b" by (auto split: if_splits)
      with IH Cons show ?thesis by (auto simp: runs_merged_def nth_Cons split: nat.splits)
    qed simp
    then show ?thesis using True by (simp add: blocks_from_step [OF True idx'_def [symmetric]])
  qed
qed

lemma collapse_concat: "concat (map bl_items (collapse items f)) = items"
  using blocks_from_spec [of "keep_flags items f" items 0] keep_flags_nth [of items f]
  by (simp add: collapse_def)

lemma collapse_block_ok: "b \<in> set (collapse items f) \<Longrightarrow> block_ok items (keep_flags items f) b"
  using blocks_from_spec [of "keep_flags items f" items 0] keep_flags_nth [of items f]
  by (simp add: collapse_def)

text \<open>A gap holds exactly the items more than \<open>CONTEXT\<close> away from every change.\<close>

lemma collapse_kind:
  assumes "b \<in> set (collapse items f)" and "k < length (bl_items b)"
  shows "bl_kind b = Rows \<longleftrightarrow>
    (\<exists>idx < length items. f (items ! idx) \<and> idx \<le> bl_id b + k + CONTEXT \<and> bl_id b + k \<le> idx + CONTEXT)"
  using collapse_block_ok [OF assms(1)] assms(2) keep_flags_nth [of items f "bl_id b + k"]
  by (simp add: block_ok_def)

lemma collapse_gap_unchanged:
  assumes "b \<in> set (collapse items f)" and "bl_kind b = Gap"
  shows "\<forall>t \<in> set (bl_items b). \<not> f t"
proof
  fix t
  assume "t \<in> set (bl_items b)"
  then obtain k where k: "k < length (bl_items b)" "bl_items b ! k = t" by (metis in_set_conv_nth)
  then have "bl_id b + k < length items" "items ! (bl_id b + k) = t"
    using collapse_block_ok [OF assms(1)] by (auto simp: block_ok_def)
  with collapse_kind [OF assms(1) k(1)] assms(2) show "\<not> f t" by (metis block_kind.distinct(1) le_add1)
qed

lemma collapse_alternate: "runs_merged bl_kind (collapse items f)"
  using blocks_from_alternate by (auto simp: collapse_def)

section \<open>Unified rows show both files\<close>

definition urow_old :: "row list \<Rightarrow> urow \<Rightarrow> (nat option \<times> string) list" where
  "urow_old rows u = (case (u_merged u, u_row u) of
      (Some m, _) \<Rightarrow> [(u_oldNo u, old_text m)]
    | (None, Some x) \<Rightarrow> if r_type (rows ! x) = Add then [] else [(r_oldNo (rows ! x), r_text (rows ! x))]
    | (None, None) \<Rightarrow> [])"

definition urow_new :: "row list \<Rightarrow> urow \<Rightarrow> (nat option \<times> string) list" where
  "urow_new rows u = (case (u_merged u, u_row u) of
      (Some m, _) \<Rightarrow> [(u_newNo u, new_text m)]
    | (None, Some x) \<Rightarrow> if r_type (rows ! x) = Del then [] else [(r_newNo (rows ! x), r_text (rows ! x))]
    | (None, None) \<Rightarrow> [])"

lemma unify_from_end: "\<not> k < length rows \<Longrightarrow> unify_from rows k = []"
  by (subst unify_from.simps) simp

lemma unify_from_eq:
  "k < length rows \<Longrightarrow> r_type (rows ! k) = Eq \<Longrightarrow> unify_from rows k =
     \<lparr>u_change = False, u_row = Some k, u_merged = None, u_oldNo = None, u_newNo = None\<rparr> # unify_from rows (k + 1)"
  by (subst unify_from.simps) simp

lemma unify_from_run:
  assumes "k < length rows" and "r_type (rows ! k) \<noteq> Eq" and "take_run rows k [] [] = (ds, as, k')"
  obtains "unify_from rows k =
      map (\<lambda>d. \<lparr>u_change = True, u_row = Some d, u_merged = None, u_oldNo = None, u_newNo = None\<rparr>) (ds @ as) @ unify_from rows k'"
  | d a m where "ds = [d]" "as = [a]" "tokenDiff (r_text (rows ! d)) (r_text (rows ! a)) = Some m" "inlineable m"
      "unify_from rows k = \<lparr>u_change = True, u_row = None, u_merged = Some m,
         u_oldNo = r_oldNo (rows ! d), u_newNo = r_newNo (rows ! a)\<rparr> # unify_from rows k'"
proof -
  note unfold = unify_from.simps [of rows k]
  show thesis
  proof (cases "length ds = 1 \<and> length as = 1")
    case False
    with assms unfold that(1) show thesis by (auto simp: Let_def)
  next
    case True
    then obtain d a where da: "ds = [d]" "as = [a]" by (auto simp: length_Suc_conv)
    show thesis
    proof (cases "tokenDiff (r_text (rows ! d)) (r_text (rows ! a))")
      case None
      with da assms unfold that(1) show thesis by simp
    next
      case (Some m)
      with da assms unfold that show thesis by (cases "inlineable m") simp_all
    qed
  qed
qed

lemma concat_map_filter:
  "concat (map (\<lambda>x. if P x then [] else [g x]) xs) = map g (filter (\<lambda>x. \<not> P x) xs)"
  by (induction xs) auto

lemma unify_from_sides:
  "k \<le> length rows \<Longrightarrow>
     concat (map (urow_old rows) (unify_from rows k)) =
       map (\<lambda>x. (r_oldNo (rows ! x), r_text (rows ! x))) (lefts (pairs_from rows k)) \<and>
     concat (map (urow_new rows) (unify_from rows k)) =
       map (\<lambda>x. (r_newNo (rows ! x), r_text (rows ! x))) (rights (pairs_from rows k))"
proof (induction rows k rule: pairs_from.induct)
  case (1 rows k)
  show ?case
  proof (cases "k < length rows")
    case False
    with "1.prems" show ?thesis by (simp add: pairs_from_end unify_from_end)
  next
    case True
    show ?thesis
    proof (cases "r_type (rows ! k) = Eq")
      case eq: True
      with "1.IH" (1) True show ?thesis
        by (simp add: pairs_from_eq unify_from_eq urow_old_def urow_new_def)
    next
      case neq: False
      obtain ds as k' where run: "take_run rows k [] [] = (ds, as, k')" by (metis prod_cases3)
      note spec = take_run_spec [OF run]
      have types: "\<forall>x \<in> set ds. r_type (rows ! x) = Del" "\<forall>x \<in> set as. r_type (rows ! x) = Add"
        using spec by auto
      have "k' \<le> length rows" using spec True by simp
      note IH = "1.IH" (2) [OF True neq run [symmetric] refl refl this]
      note ps = pairs_from_run [OF True neq run] zip_run_sides
      show ?thesis
      proof (rule unify_from_run [OF True neq run])
        let ?u = "\<lambda>d. \<lparr>u_change = True, u_row = Some d, u_merged = None, u_oldNo = None, u_newNo = None\<rparr>"
        assume u: "unify_from rows k = map ?u (ds @ as) @ unify_from rows k'"
        have "filter (\<lambda>x. r_type (rows ! x) \<noteq> Add) ds = ds" "filter (\<lambda>x. r_type (rows ! x) \<noteq> Add) as = []"
          "filter (\<lambda>x. r_type (rows ! x) \<noteq> Del) ds = []" "filter (\<lambda>x. r_type (rows ! x) \<noteq> Del) as = as"
          using types by (auto simp: filter_id_conv filter_empty_conv)
        then show ?thesis
          using IH unfolding u ps
          by (simp add: comp_def urow_old_def urow_new_def concat_map_filter ps)
      next
        fix d a m
        assume "ds = [d]" "as = [a]" and td: "tokenDiff (r_text (rows ! d)) (r_text (rows ! a)) = Some m"
          and u: "unify_from rows k = \<lparr>u_change = True, u_row = None, u_merged = Some m,
            u_oldNo = r_oldNo (rows ! d), u_newNo = r_newNo (rows ! a)\<rparr> # unify_from rows k'"
        then show ?thesis
          using IH tokenDiff_text [OF td] ps by (simp add: urow_old_def urow_new_def)
      qed
    qed
  qed
qed

lemma unifyRows_old:
  "concat (map (urow_old rows) (unifyRows rows)) = map (\<lambda>r. (r_oldNo r, r_text r)) (old_rows rows)"
  and unifyRows_new:
  "concat (map (urow_new rows) (unifyRows rows)) = map (\<lambda>r. (r_newNo r, r_text r)) (new_rows rows)"
  using unify_from_sides [of 0 rows] arg_cong [OF buildPairs_left [of rows], of "map (\<lambda>r. (r_oldNo r, r_text r))"]
    arg_cong [OF buildPairs_right [of rows], of "map (\<lambda>r. (r_newNo r, r_text r))"]
  by (simp_all add: unifyRows_def buildPairs_def comp_def)

section \<open>The four layouts\<close>

text \<open>What a layout renders, top to bottom: an expander, an inline row, a row, a split cell.\<close>

datatype shown =
    GapBar nat nat
  | InlineRow "mseg list" "nat option" "nat option"
  | DiffRow row
  | SideCell "row option"

definition show_block :: "nat list \<Rightarrow> ('a list \<Rightarrow> shown list) \<Rightarrow> 'a block \<Rightarrow> shown list" where
  "show_block expanded render block =
     (if bl_kind block = Gap \<and> bl_id block \<notin> set expanded
      then [GapBar (bl_id block) (length (bl_items block))] else render (bl_items block))"

definition show_urow :: "row list \<Rightarrow> urow \<Rightarrow> shown list" where
  "show_urow rows u =
     (case u_merged u of
        Some m \<Rightarrow> [InlineRow m (u_oldNo u) (u_newNo u)]
      | None \<Rightarrow> (case u_row u of Some x \<Rightarrow> [DiffRow (rows ! x)] | None \<Rightarrow> []))"

definition unifiedBody :: "row list \<Rightarrow> nat list \<Rightarrow> shown list" where
  "unifiedBody rows expanded =
     concat (map (show_block expanded (\<lambda>us. concat (map (show_urow rows) us)))
       (collapse (unifyRows rows) u_change))"

definition singleSide :: "row list \<Rightarrow> diff_mode \<Rightarrow> nat list \<Rightarrow> shown list" where
  "singleSide rows mode expanded =
     concat (map (show_block expanded (\<lambda>rs. map DiffRow (filter (\<lambda>r. rowVisible (r_type r) mode) rs)))
       (collapse rows (\<lambda>r. r_type r \<noteq> Eq)))"

definition splitColumn :: "row list \<Rightarrow> pair list \<Rightarrow> diff_mode \<Rightarrow> nat list \<Rightarrow> shown list" where
  "splitColumn rows pairs side expanded =
     concat (map (show_block expanded
        (map (\<lambda>p. SideCell (map_option ((!) rows) (if side = OldSide then pr_left p else pr_right p)))))
       (collapse pairs pr_changed))"

definition DiffView :: "string \<Rightarrow> string \<Rightarrow> diff_mode \<Rightarrow> nat list \<Rightarrow> shown list list" where
  "DiffView current new mode expanded =
     (let rows0 = diffLines current new;
          (rows, pairs) = attachWordDiff rows0 (buildPairs rows0) in
      if mode = Split then [splitColumn rows pairs OldSide expanded, splitColumn rows pairs NewSide expanded]
      else if mode = Unified then [unifiedBody rows expanded]
      else [singleSide rows mode expanded])"

text \<open>The two columns of the split view stay aligned whatever is expanded.\<close>

definition same_slot :: "shown \<Rightarrow> shown \<Rightarrow> bool" where
  "same_slot x y \<longleftrightarrow> x = y \<or> (\<exists>a b. x = SideCell a \<and> y = SideCell b)"

lemma splitColumn_aligned:
  "list_all2 same_slot (splitColumn rows pairs OldSide expanded) (splitColumn rows pairs NewSide expanded)"
proof -
  have "list_all2 same_slot
      (concat (map (show_block expanded (map (\<lambda>p. SideCell (f p)))) bs))
      (concat (map (show_block expanded (map (\<lambda>p. SideCell (g p)))) bs))"
    for f g :: "pair \<Rightarrow> row option" and bs
    by (induction bs)
      (auto intro!: list_all2_appendI simp: show_block_def same_slot_def list_all2_map1 list_all2_map2 list.rel_refl)
  then show ?thesis unfolding splitColumn_def by simp
qed

lemma rowVisible_sides:
  "filter (\<lambda>r. rowVisible (r_type r) OldSide) rs = old_rows rs"
  "filter (\<lambda>r. rowVisible (r_type r) NewSide) rs = new_rows rs"
  by (simp_all add: rowVisible_def side_rows)

lemma singleSide_expanded:
  assumes "\<forall>b \<in> set (collapse rows (\<lambda>r. r_type r \<noteq> Eq)). bl_id b \<in> set expanded"
  shows "singleSide rows mode expanded = map DiffRow (filter (\<lambda>r. rowVisible (r_type r) mode) rows)"
proof -
  have "(\<forall>b \<in> set bs. bl_id b \<in> set expanded) \<Longrightarrow>
    concat (map (show_block expanded (\<lambda>rs. map DiffRow (filter P rs))) bs) =
      map DiffRow (filter P (concat (map bl_items bs)))" for P and bs :: "row block list"
    by (induction bs) (simp_all add: show_block_def)
  from this [OF assms] show ?thesis unfolding singleSide_def by (simp add: collapse_concat)
qed

end
