(* ===== verification/Ui_Store.thy ===== *)
theory Ui_Store
  imports Js_Value Schema
begin

text \<open>
  \<^verbatim>\<open>store/ui.ts\<close>: the chrome toggles, the transient feedback and the in-flight flags, with the
  three preferences that are kept in \<open>localStorage\<close>. A toast's kind is a datatype; a stored
  theme is taken as it is, whatever its text.
\<close>

datatype toast_kind = Ok_toast | Error_toast | Info_toast

record toast =
  to_kind :: toast_kind
  to_text :: string

record ui_state =
  ui_theme :: string
  ui_leftOpen :: bool
  ui_drawer :: bool
  ui_error :: string
  ui_toast :: "toast option"
  ui_saving :: bool
  ui_validating :: bool
  ui_rawMode :: bool
  ui_rawText :: string
  ui_vimMode :: bool
  ui_autoFormat :: bool
  ui_diffs :: "op_diff list option"
  ui_browseCatalog :: bool

definition initialTheme :: "storage \<Rightarrow> string" where
  "initialTheme st =
     (case get_item st ''flusso-design.theme'' of
        Inr (Some (Text t)) \<Rightarrow> if t = [] then ''dark'' else t
      | _ \<Rightarrow> ''dark'')"

definition flag_set :: "storage \<Rightarrow> string \<Rightarrow> bool" where
  "flag_set st key = (case get_item st key of Inr v \<Rightarrow> v = Some (Text ''1'') | Inl _ \<Rightarrow> False)"

definition initialVim :: "storage \<Rightarrow> bool" where
  "initialVim st = flag_set st ''flusso-design.vim''"

definition initialAutoFormat :: "storage \<Rightarrow> bool" where
  "initialAutoFormat st = flag_set st ''flusso-design.autoformat''"

definition init_ui :: "storage \<Rightarrow> ui_state" where
  "init_ui st =
     \<lparr>ui_theme = initialTheme st, ui_leftOpen = True, ui_drawer = False, ui_error = '''',
      ui_toast = None, ui_saving = False, ui_validating = False, ui_rawMode = False, ui_rawText = '''',
      ui_vimMode = initialVim st, ui_autoFormat = initialAutoFormat st, ui_diffs = None,
      ui_browseCatalog = False\<rparr>"

definition toggleTheme :: "ui_state \<Rightarrow> ui_state" where
  "toggleTheme s = s\<lparr>ui_theme := (if ui_theme s = ''dark'' then ''light'' else ''dark'')\<rparr>"

definition toggleLeft :: "ui_state \<Rightarrow> ui_state" where
  "toggleLeft s = s\<lparr>ui_leftOpen := \<not> ui_leftOpen s\<rparr>"

definition setDrawer :: "bool \<Rightarrow> ui_state \<Rightarrow> ui_state" where
  "setDrawer b s = s\<lparr>ui_drawer := b\<rparr>"

definition toggleDrawer :: "ui_state \<Rightarrow> ui_state" where
  "toggleDrawer s = s\<lparr>ui_drawer := \<not> ui_drawer s\<rparr>"

definition setError :: "string \<Rightarrow> ui_state \<Rightarrow> ui_state" where
  "setError e s = s\<lparr>ui_error := e\<rparr>"

definition setToast :: "toast option \<Rightarrow> ui_state \<Rightarrow> ui_state" where
  "setToast t s = s\<lparr>ui_toast := t\<rparr>"

definition setSaving :: "bool \<Rightarrow> ui_state \<Rightarrow> ui_state" where
  "setSaving b s = s\<lparr>ui_saving := b\<rparr>"

definition setValidating :: "bool \<Rightarrow> ui_state \<Rightarrow> ui_state" where
  "setValidating b s = s\<lparr>ui_validating := b\<rparr>"

definition setRawMode :: "bool \<Rightarrow> ui_state \<Rightarrow> ui_state" where
  "setRawMode b s = s\<lparr>ui_rawMode := b\<rparr>"

definition setRawText :: "string \<Rightarrow> ui_state \<Rightarrow> ui_state" where
  "setRawText t s = s\<lparr>ui_rawText := t\<rparr>"

definition setDiffs :: "op_diff list option \<Rightarrow> ui_state \<Rightarrow> ui_state" where
  "setDiffs d s = s\<lparr>ui_diffs := d\<rparr>"

definition setBrowseCatalog :: "bool \<Rightarrow> ui_state \<Rightarrow> ui_state" where
  "setBrowseCatalog b s = s\<lparr>ui_browseCatalog := b\<rparr>"

definition flag_text :: "bool \<Rightarrow> stored" where
  "flag_text b = Text (if b then ''1'' else ''0'')"

definition toggleVim :: "ui_state \<Rightarrow> storage \<Rightarrow> ui_state \<times> storage" where
  "toggleVim s st =
     (let vimMode = \<not> ui_vimMode s
      in (s\<lparr>ui_vimMode := vimMode\<rparr>, try_set_item st ''flusso-design.vim'' (flag_text vimMode)))"

definition toggleAutoFormat :: "ui_state \<Rightarrow> storage \<Rightarrow> ui_state \<times> storage" where
  "toggleAutoFormat s st =
     (let autoFormat = \<not> ui_autoFormat s
      in (s\<lparr>ui_autoFormat := autoFormat\<rparr>, try_set_item st ''flusso-design.autoformat'' (flag_text autoFormat)))"

text \<open>The effect of \<^verbatim>\<open>App.tsx\<close> that persists the theme after every change.\<close>

definition persist_theme :: "ui_state \<Rightarrow> storage \<Rightarrow> storage" where
  "persist_theme s st = try_set_item st ''flusso-design.theme'' (Text (ui_theme s))"

section \<open>The preferences survive a reload\<close>

lemma flag_set_write [simp]: "st_usable st \<Longrightarrow> flag_set (try_set_item st k (flag_text b)) k = b"
  by (simp add: flag_set_def ls.read_write flag_text_def)

lemma flag_set_other [simp]: "k' \<noteq> k \<Longrightarrow> flag_set (try_set_item st k v) k' = flag_set st k'"
  by (simp add: flag_set_def ls.read_other)

lemma toggleVim_reload:
  "st_usable st \<Longrightarrow> toggleVim s st = (s', st') \<Longrightarrow>
     initialVim st' = ui_vimMode s' \<and> initialAutoFormat st' = initialAutoFormat st"
  by (auto simp: toggleVim_def initialVim_def initialAutoFormat_def Let_def)

lemma toggleAutoFormat_reload:
  "st_usable st \<Longrightarrow> toggleAutoFormat s st = (s', st') \<Longrightarrow>
     initialAutoFormat st' = ui_autoFormat s' \<and> initialVim st' = initialVim st"
  by (auto simp: toggleAutoFormat_def initialVim_def initialAutoFormat_def Let_def)

lemma theme_reload:
  "st_usable st \<Longrightarrow> initialTheme (persist_theme (toggleTheme s) st) = ui_theme (toggleTheme s)"
  by (simp add: initialTheme_def persist_theme_def ls.read_write toggleTheme_def)

lemma toggleTheme_twice:
  "ui_theme s \<in> {''dark'', ''light''} \<Longrightarrow> toggleTheme (toggleTheme s) = s"
  by (auto simp: toggleTheme_def)

text \<open>A storage that cannot be written leaves the toggle working and the storage alone.\<close>

lemma toggleVim_unwritable:
  "\<not> st_writable st \<Longrightarrow> toggleVim s st = (s\<lparr>ui_vimMode := \<not> ui_vimMode s\<rparr>, st)"
  by (simp add: toggleVim_def Let_def try_set_item_unwritable)

end
