(* ===== verification/Design_Store.thy ===== *)
theory Design_Store
  imports Edits
begin

text \<open>
  \<^verbatim>\<open>store/design.ts\<close>: the edited document and what is scoped to it. Every action of the store
  is a function from the state (and the browser storage, where the collapsed set is persisted)
  to the state; \<open>crypto.randomUUID\<close> is the parameter \<open>newId\<close>, the \<open>i\<close>-th call in an action
  giving \<open>newId i\<close>. The undo history is the third-party \<open>zundo\<close> and not modelled. The saved
  snapshot is the parsed document, \<^const>\<open>None\<close> for the empty string it starts as.
\<close>

record doc =
  doc_config :: config_toml
  doc_schemas :: "index_schema jobj"

datatype selection =
    Root_sel
  | Node_sel path
  | Field_sel path nat
  | Columns_sel path "string list"

record design_state =
  ds_project :: "project option"
  ds_catalog :: "catalog_response option"
  ds_doc :: "doc option"
  ds_saved :: "doc option"
  ds_active :: string
  ds_selection :: "selection option"
  ds_collapsed :: "string list"
  ds_preview :: "preview_response option"
  ds_diagnostics :: "diagnostic list option"
  ds_focus :: "(string \<times> string) option"

definition init_design :: design_state where
  "init_design =
     \<lparr>ds_project = None, ds_catalog = None, ds_doc = None, ds_saved = None, ds_active = ''config'',
      ds_selection = None, ds_collapsed = [], ds_preview = None, ds_diagnostics = None, ds_focus = None\<rparr>"

definition emptySchema :: "string \<Rightarrow> string option \<Rightarrow> index_schema" where
  "emptySchema table pk =
     \<lparr>s_version = 1, s_table = table, s_db_schema = ''public'', s_primary_key = pk, s_doc_id = None,
      s_soft_delete = None, s_filters = None, s_fields = []\<rparr>"

definition collapseKey :: "string \<Rightarrow> string" where
  "collapseKey index = ''flusso-design.collapsed.'' @ index"

definition ids_value :: "string list \<Rightarrow> js" where
  "ids_value ids = JArr (map JStr ids)"

definition persistCollapsed :: "string \<Rightarrow> string list \<Rightarrow> storage \<Rightarrow> storage" where
  "persistCollapsed index ids st = try_set_item st (collapseKey index) (json_stringify (ids_value ids))"

definition entries_of :: "config_toml \<Rightarrow> index_entry list" where
  "entries_of config = (case cfg_index config of None \<Rightarrow> [] | Some es \<Rightarrow> es)"

definition names_of :: "config_toml \<Rightarrow> string list" where
  "names_of config = map e_name (entries_of config)"

lemma entries_of_update [simp]: "entries_of (c\<lparr>cfg_index := Some es\<rparr>) = es"
  by (simp add: entries_of_def)

lemma names_of_update [simp]: "names_of (c\<lparr>cfg_index := Some es\<rparr>) = map e_name es"
  by (simp add: names_of_def)

section \<open>Loading, editing and the configuration\<close>

definition setCatalog :: "catalog_response option \<Rightarrow> design_state \<Rightarrow> design_state" where
  "setCatalog c s = s\<lparr>ds_catalog := c\<rparr>"
definition setSaved :: "doc option \<Rightarrow> design_state \<Rightarrow> design_state" where
  "setSaved d s = s\<lparr>ds_saved := d\<rparr>"
definition setPreview :: "preview_response option \<Rightarrow> design_state \<Rightarrow> design_state" where
  "setPreview p s = s\<lparr>ds_preview := p\<rparr>"
definition setDiagnostics :: "diagnostic list option \<Rightarrow> design_state \<Rightarrow> design_state" where
  "setDiagnostics d s = s\<lparr>ds_diagnostics := d\<rparr>"
definition setActive :: "string \<Rightarrow> design_state \<Rightarrow> design_state" where
  "setActive a s = s\<lparr>ds_active := a\<rparr>"
definition setSelection :: "selection option \<Rightarrow> design_state \<Rightarrow> design_state" where
  "setSelection x s = s\<lparr>ds_selection := x\<rparr>"

definition project_schemas :: "project \<Rightarrow> index_schema jobj" where
  "project_schemas p =
     obj_of (somes (map (\<lambda>idx. map_option (Pair (if_name idx)) (if_schema idx)) (p_indexes p)))"

definition stamp_ids :: "(nat \<Rightarrow> string) \<Rightarrow> index_entry list \<Rightarrow> index_entry list" where
  "stamp_ids newId es = map (\<lambda>(e, i). e\<lparr>e_id := Some (newId i)\<rparr>) (zip es [0..<length es])"

definition loadProject :: "(nat \<Rightarrow> string) \<Rightarrow> project \<Rightarrow> bool \<Rightarrow> design_state \<Rightarrow> design_state" where
  "loadProject newId p resetActive s =
     (let config = (p_config p)\<lparr>cfg_index := Some (stamp_ids newId (entries_of (p_config p)))\<rparr>;
          d = \<lparr>doc_config = config, doc_schemas = project_schemas p\<rparr>
      in s\<lparr>ds_project := Some p, ds_doc := Some d, ds_saved := Some d,
           ds_active := (if resetActive
                         then (case p_indexes p of [] \<Rightarrow> ''config'' | idx # _ \<Rightarrow> if_name idx)
                         else ds_active s)\<rparr>)"

text \<open>An edit that throws leaves the state as it was and the error reaches the caller.\<close>

definition apply_edit :: "(index_schema \<Rightarrow> index_schema res) \<Rightarrow> design_state \<Rightarrow> design_state res" where
  "apply_edit fn s =
     (if ds_active s = ''config'' then Inr s
      else case ds_doc s of
        None \<Rightarrow> Inr s
      | Some d \<Rightarrow>
          map_res
            (\<lambda>x. s\<lparr>ds_doc := Some (d\<lparr>doc_schemas := obj_put (doc_schemas d) (ds_active s) x\<rparr>)\<rparr>)
            (fn (case obj_get (doc_schemas d) (ds_active s) of
                   None \<Rightarrow> emptySchema '''' None | Some x \<Rightarrow> x)))"

definition renames_of :: "index_entry list \<Rightarrow> index_entry list \<Rightarrow> (string \<times> string) list" where
  "renames_of oldIdx newIdx =
     foldl (\<lambda>m (o1, n1). if e_name o1 \<noteq> e_name n1 then map_set m (e_name o1) (e_name n1) else m)
       [] (zip oldIdx newIdx)"

definition removed_names ::
  "index_entry list \<Rightarrow> index_entry list \<Rightarrow> (string \<times> string) list \<Rightarrow> string list" where
  "removed_names oldIdx newIdx renames =
     map e_name (filter (\<lambda>o1. e_name o1 \<notin> set (map e_name newIdx) \<and> map_of renames (e_name o1) = None) oldIdx)"

definition rekey_schema :: "index_schema jobj \<Rightarrow> string \<times> string \<Rightarrow> index_schema jobj" where
  "rekey_schema schemas r =
     (case obj_get schemas (fst r) of
        None \<Rightarrow> schemas
      | Some x \<Rightarrow> obj_delete (obj_put schemas (snd r) x) (fst r))"

definition with_id :: "(nat \<Rightarrow> string) \<Rightarrow> nat \<Rightarrow> index_entry \<Rightarrow> index_entry" where
  "with_id newId i e =
     (case e_id e of Some x \<Rightarrow> if x \<noteq> [] then e else e\<lparr>e_id := Some (newId i)\<rparr>
                   | None \<Rightarrow> e\<lparr>e_id := Some (newId i)\<rparr>)"

definition default_path :: "string \<Rightarrow> string" where
  "default_path name = name @ ''.schema.yml''"

definition follow_rename ::
  "(string \<times> string) list \<Rightarrow> index_entry option \<Rightarrow> index_entry \<Rightarrow> index_entry" where
  "follow_rename renames old e =
     (case old of
        None \<Rightarrow> e
      | Some o1 \<Rightarrow>
          if map_of renames (e_name o1) = Some (e_name e) \<and> e_schema e = default_path (e_name o1)
          then e\<lparr>e_schema := default_path (e_name e)\<rparr> else e)"

definition setConfig :: "(nat \<Rightarrow> string) \<Rightarrow> config_toml \<Rightarrow> design_state \<Rightarrow> design_state" where
  "setConfig newId new s =
     (case ds_doc s of
        None \<Rightarrow> s
      | Some d \<Rightarrow>
          (let oldIdx = entries_of (doc_config d);
               newIdx = entries_of new;
               renames = renames_of oldIdx newIdx;
               removed = removed_names oldIdx newIdx renames;
               schemas = foldl obj_delete (foldl rekey_schema (doc_schemas d) renames) removed;
               index = map (\<lambda>i. follow_rename renames (js_get oldIdx i) (with_id newId i (newIdx ! i)))
                         [0..<length newIdx];
               active2 = (case map_of renames (ds_active s) of
                            Some b \<Rightarrow> b
                          | None \<Rightarrow> if ds_active s \<in> set removed then ''config'' else ds_active s)
           in s\<lparr>ds_doc := Some \<lparr>doc_config = new\<lparr>cfg_index := Some index\<rparr>, doc_schemas = schemas\<rparr>,
                ds_active := active2\<rparr>))"

definition openIndex :: "string \<Rightarrow> design_state \<Rightarrow> design_state" where
  "openIndex name s = s\<lparr>ds_active := name, ds_selection := None, ds_diagnostics := None\<rparr>"

definition table_pk :: "catalog_response option \<Rightarrow> string \<Rightarrow> string option" where
  "table_pk catalog table =
     (case catalog of
        None \<Rightarrow> None
      | Some c \<Rightarrow> (case find (\<lambda>t. t_name t = table) (cat_tables c) of
                    None \<Rightarrow> None | Some t \<Rightarrow> js_get (t_primary_key t) 0))"

definition createIndex :: "string \<Rightarrow> string \<Rightarrow> string \<Rightarrow> string \<Rightarrow> design_state \<Rightarrow> design_state" where
  "createIndex newId name table schemaPath s =
     (case ds_doc s of
        None \<Rightarrow> s
      | Some d \<Rightarrow>
          (let path = (if trim schemaPath \<noteq> [] then trim schemaPath else default_path name);
               entry = \<lparr>e_name = name, e_schema = path, e_enabled = True, e_on_error = None,
                        e_id = Some newId\<rparr>
           in s\<lparr>ds_doc := Some
                  \<lparr>doc_config = (doc_config d)\<lparr>cfg_index := Some (entries_of (doc_config d) @ [entry])\<rparr>,
                   doc_schemas = obj_put (doc_schemas d) name (emptySchema table (table_pk (ds_catalog s) table))\<rparr>,
                ds_active := name, ds_selection := Some Root_sel, ds_diagnostics := None\<rparr>))"

definition dupIndex :: "string \<Rightarrow> nat \<Rightarrow> design_state \<Rightarrow> design_state" where
  "dupIndex newId i s =
     (case ds_doc s of
        None \<Rightarrow> s
      | Some d \<Rightarrow>
          (let entries = entries_of (doc_config d) in
           case js_get entries i of
             None \<Rightarrow> s
           | Some src \<Rightarrow>
               (let name = uniqueName (map e_name entries) (e_name src);
                    entry = \<lparr>e_name = name, e_schema = default_path name, e_enabled = e_enabled src,
                             e_on_error = None, e_id = Some newId\<rparr>
                in s\<lparr>ds_doc := Some
                       \<lparr>doc_config = (doc_config d)\<lparr>cfg_index := Some (insert_at (Suc i) entry entries)\<rparr>,
                        doc_schemas =
                          (case obj_get (doc_schemas d) (e_name src) of
                             None \<Rightarrow> doc_schemas d | Some x \<Rightarrow> obj_put (doc_schemas d) name x)\<rparr>,
                     ds_active := name, ds_selection := Some Root_sel, ds_diagnostics := None\<rparr>)))"

definition revertChanges :: "design_state \<Rightarrow> design_state" where
  "revertChanges s =
     (case ds_saved s of
        None \<Rightarrow> s
      | Some d \<Rightarrow>
          (let active2 =
             (if ds_active s = ''config'' \<or> ds_active s \<in> set (names_of (doc_config d)) then ds_active s
              else case names_of (doc_config d) of [] \<Rightarrow> ''config'' | n # _ \<Rightarrow> n)
           in s\<lparr>ds_doc := Some d, ds_selection := None, ds_active := active2\<rparr>))"

section \<open>The collapsed nodes\<close>

text \<open>
  The parsed value is used unchecked: \<open>filter\<close> on anything but an array throws, and an array
  of non-strings is outside the model.
\<close>

definition js_string :: "js \<Rightarrow> string res" where
  "js_string v = (case v of JStr x \<Rightarrow> Inr x | _ \<Rightarrow> Inl Unrepresentable)"

definition string_array :: "js \<Rightarrow> string list res" where
  "string_array v = (case v of JArr xs \<Rightarrow> mapM_res js_string xs | _ \<Rightarrow> Inl TypeError)"

definition new_set :: "js \<Rightarrow> string list res" where
  "new_set v =
     (case v of
        JArr xs \<Rightarrow> map_res js_set (mapM_res js_string xs)
      | JNull \<Rightarrow> Inr []
      | JStr x \<Rightarrow> Inr (js_set (map (\<lambda>c. [c]) x))
      | _ \<Rightarrow> Inl TypeError)"

definition live_ids :: "index_schema \<Rightarrow> string list" where
  "live_ids schema = map n_id (gr_nodes (projectGraph schema))"

definition read_ids :: "string \<Rightarrow> storage \<Rightarrow> js res" where
  "read_ids index st =
     bind_res (get_item st (collapseKey index))
       (\<lambda>v. case v of None \<Rightarrow> Inr (JArr []) | Some x \<Rightarrow> json_parse x)"

definition loadCollapsed :: "string \<Rightarrow> design_state \<Rightarrow> storage \<Rightarrow> (design_state \<times> storage) res" where
  "loadCollapsed index s st =
     (if index = ''config'' then Inr (s, st)
      else case read_ids index st of
        Inl _ \<Rightarrow> Inr (s\<lparr>ds_collapsed := []\<rparr>, st)
      | Inr v \<Rightarrow>
          (case (case ds_doc s of None \<Rightarrow> None | Some d \<Rightarrow> obj_get (doc_schemas d) index) of
             None \<Rightarrow> map_res (\<lambda>ids. (s\<lparr>ds_collapsed := ids\<rparr>, st)) (new_set v)
           | Some schema \<Rightarrow>
               map_res
                 (\<lambda>ids. let pruned = js_set (filter (\<lambda>i. i \<in> set (live_ids schema)) ids)
                        in (s\<lparr>ds_collapsed := pruned\<rparr>,
                            if length pruned \<noteq> length ids then persistCollapsed index pruned st else st))
                 (string_array v)))"

definition toggleCollapsed :: "string \<Rightarrow> design_state \<Rightarrow> storage \<Rightarrow> design_state \<times> storage" where
  "toggleCollapsed i s st =
     (let new = (if i \<in> set (ds_collapsed s) then set_delete i (ds_collapsed s)
                 else set_add i (ds_collapsed s))
      in (s\<lparr>ds_collapsed := new\<rparr>, persistCollapsed (ds_active s) new st))"

definition collapseAll :: "design_state \<Rightarrow> storage \<Rightarrow> design_state \<times> storage" where
  "collapseAll s st =
     (case (case ds_doc s of None \<Rightarrow> None | Some d \<Rightarrow> obj_get (doc_schemas d) (ds_active s)) of
        None \<Rightarrow> (s, st)
      | Some schema \<Rightarrow>
          (let new = js_set (live_ids schema)
           in (s\<lparr>ds_collapsed := new\<rparr>, persistCollapsed (ds_active s) new st)))"

definition expandAll :: "design_state \<Rightarrow> storage \<Rightarrow> design_state \<times> storage" where
  "expandAll s st = (s\<lparr>ds_collapsed := []\<rparr>, persistCollapsed (ds_active s) [] st)"

definition pruneCollapsed :: "string list \<Rightarrow> design_state \<Rightarrow> storage \<Rightarrow> design_state \<times> storage" where
  "pruneCollapsed liveIds s st =
     (if ds_active s = ''config'' then (s, st)
      else
        (let pruned = js_set (filter (\<lambda>i. i \<in> set liveIds) (ds_collapsed s))
         in if length pruned = length (ds_collapsed s) then (s, st)
            else (s\<lparr>ds_collapsed := pruned\<rparr>, persistCollapsed (ds_active s) pruned st)))"

definition requestFocus :: "string \<Rightarrow> string \<Rightarrow> design_state \<Rightarrow> design_state" where
  "requestFocus index nodeId s = s\<lparr>ds_focus := Some (index, nodeId)\<rparr>"

definition clearFocus :: "design_state \<Rightarrow> design_state" where
  "clearFocus s = s\<lparr>ds_focus := None\<rparr>"

section \<open>The configuration edit\<close>

lemma rekey_schema_eq: "rekey_schema = obj.rekey"
  by (intro ext) (auto simp: rekey_schema_def obj.rekey_def split: option.splits)

lemma renames_of_distinct:
  assumes "distinct (map fst ps)"
  shows "foldl (\<lambda>m (a, b). if a \<noteq> b then map_set m a b else m) [] ps = filter (\<lambda>(a, b). a \<noteq> b) ps"
  using assms
proof (induction ps rule: rev_induct)
  case (snoc p ps)
  obtain a b where p: "p = (a, b)" by (cases p)
  have "a \<notin> set (map fst (filter (\<lambda>(a, b). a \<noteq> b) ps))"
    using snoc.prems by (force simp: p)
  then show ?case using snoc by (simp add: p map_set_new)
qed simp

lemma renames_of_names:
  "renames_of oldIdx newIdx =
     foldl (\<lambda>m (a, b). if a \<noteq> b then map_set m a b else m) [] (zip (map e_name oldIdx) (map e_name newIdx))"
  unfolding renames_of_def
  by (simp add: zip_map_map foldl_map case_prod_unfold cong: if_cong)

lemma renames_of_filter:
  assumes "distinct (map e_name oldIdx)"
  shows "renames_of oldIdx newIdx =
    filter (\<lambda>(a, b). a \<noteq> b) (zip (map e_name oldIdx) (map e_name newIdx))"
  unfolding renames_of_names
  by (rule renames_of_distinct) (simp add: map_fst_zip_take assms distinct_take del: map_map flip: take_map)

lemma map_of_renames:
  "map_of (renames_of oldIdx newIdx) a = Some b \<Longrightarrow> (a, b) \<in> set (zip (map e_name oldIdx) (map e_name newIdx))"
proof -
  have "map_of (foldl (\<lambda>m (a, b). if a \<noteq> b then map_set m a b else m) [] ps) a = Some b \<Longrightarrow> (a, b) \<in> set ps"
    for ps :: "(string \<times> string) list"
    by (induction ps rule: rev_induct) (auto simp: map_of_map_set split: if_splits)
  then show "map_of (renames_of oldIdx newIdx) a = Some b \<Longrightarrow> ?thesis"
    by (simp add: renames_of_names)
qed

lemma follow_rename_name [simp]: "e_name (follow_rename renames old e) = e_name e"
  by (simp add: follow_rename_def split: option.splits)

lemma with_id_name [simp]: "e_name (with_id newId i e) = e_name e" "e_schema (with_id newId i e) = e_schema e"
  by (simp_all add: with_id_def split: option.splits)

lemma setConfig_doc:
  assumes "ds_doc s = Some d"
  shows "\<exists>d'. ds_doc (setConfig newId new s) = Some d' \<and>
    names_of (doc_config d') = names_of new \<and>
    doc_schemas d' =
      (let renames = renames_of (entries_of (doc_config d)) (entries_of new)
       in foldl obj_delete (foldl rekey_schema (doc_schemas d) renames)
            (removed_names (entries_of (doc_config d)) (entries_of new) renames))"
  using assms
  by (auto simp: setConfig_def Let_def names_of_def entries_of_def [of "_\<lparr>cfg_index := _\<rparr>"] intro!: nth_equalityI)

lemma setConfig_active:
  "ds_doc s = Some d \<Longrightarrow> ds_active (setConfig newId new s) =
     (let renames = renames_of (entries_of (doc_config d)) (entries_of new) in
      case map_of renames (ds_active s) of
        Some b \<Rightarrow> b
      | None \<Rightarrow> if ds_active s \<in> set (removed_names (entries_of (doc_config d)) (entries_of new) renames)
                then ''config'' else ds_active s)"
  by (simp add: setConfig_def Let_def)

text \<open>
  A batch of in-place renames: the rows keep their positions, the names stay pairwise
  different, and no row takes a name that another row had before.
\<close>

definition inplace_rename :: "string list \<Rightarrow> string list \<Rightarrow> bool" where
  "inplace_rename olds news \<longleftrightarrow>
     length olds = length news \<and> distinct olds \<and> distinct news \<and>
     list_all (\<lambda>(a, b). a = b \<or> b \<notin> set olds) (zip olds news)"

lemma setConfig_rename_gen:
  assumes d: "ds_doc s = Some d"
    and ren: "inplace_rename (names_of (doc_config d)) (names_of new)"
    and keys: "set (obj_keys (doc_schemas d)) \<subseteq> set (names_of (doc_config d))"
    and i: "i < length (names_of new)"
  shows "\<exists>d'. ds_doc (setConfig newId new s) = Some d' \<and>
    obj_get (doc_schemas d') (names_of new ! i) = obj_get (doc_schemas d) (names_of (doc_config d) ! i)"
proof -
  let ?olds = "names_of (doc_config d)" and ?news = "names_of new"
  let ?zs = "zip ?olds ?news"
  define rs where "rs = filter (\<lambda>(a, b). a \<noteq> b) ?zs"
  have len: "length ?olds = length ?news" and dold: "distinct ?olds" and dnew: "distinct ?news"
    and sep: "\<And>a b. (a, b) \<in> set ?zs \<Longrightarrow> a = b \<or> b \<notin> set ?olds"
    using ren by (auto simp: inplace_rename_def list_all_iff)
  have rs: "renames_of (entries_of (doc_config d)) (entries_of new) = rs"
    using dold by (simp add: rs_def renames_of_filter names_of_def)
  have dfst: "distinct (map fst rs)" and dsnd: "distinct (map snd rs)"
    unfolding rs_def using dold dnew len by (simp_all add: distinct_map_filter)
  have olds: "set (map fst rs) \<subseteq> set ?olds"
    by (auto simp: rs_def dest: set_zip_leftD)
  have disj: "set (map fst rs) \<inter> set (map snd rs) = {}"
  proof -
    have "b \<notin> set ?olds" if "(a, b) \<in> set rs" for a b
      using sep [of a b] that by (simp add: rs_def)
    then have "set (map snd rs) \<inter> set ?olds = {}" by auto
    with olds show ?thesis by blast
  qed
  have nth: "(?olds ! j, ?news ! j) \<in> set ?zs" if "j < length ?news" for j
    using that len by (auto simp: set_zip)
  have "removed_names (entries_of (doc_config d)) (entries_of new) rs = []"
  proof -
    have "map_of rs (?olds ! j) \<noteq> None" if "j < length ?news" "?olds ! j \<notin> set ?news" for j
    proof -
      have "?olds ! j \<noteq> ?news ! j" using that by auto
      with nth [OF that(1)] have "(?olds ! j, ?news ! j) \<in> set rs" by (simp add: rs_def)
      then show ?thesis using dfst by simp
    qed
    then have "a \<in> set ?news \<or> map_of rs a \<noteq> None" if "a \<in> set ?olds" for a
      using that len by (metis in_set_conv_nth)
    then show ?thesis
      by (force simp: removed_names_def filter_empty_conv names_of_def)
  qed
  then obtain d' where d': "ds_doc (setConfig newId new s) = Some d'"
    and sch: "doc_schemas d' = foldl obj.rekey (doc_schemas d) rs"
    using setConfig_doc [OF d, of newId new] rs by (auto simp: Let_def rekey_schema_eq)
  have lk: "obj_get (doc_schemas d') k =
    (if k \<in> set (map fst rs) then None
     else case map_of (map prod.swap rs) k of
       None \<Rightarrow> obj_get (doc_schemas d) k
     | Some a \<Rightarrow> (case obj_get (doc_schemas d) a of None \<Rightarrow> obj_get (doc_schemas d) k | Some v \<Rightarrow> Some v))" for k
    unfolding sch by (rule obj.lookup_rekey_all [OF dfst dsnd disj])
  have swap_iff: "map_of (map prod.swap rs) b = Some a \<longleftrightarrow> (a, b) \<in> set rs" for a b
  proof -
    have "map fst (map prod.swap rs) = map snd rs" by simp
    with dsnd have "distinct (map fst (map prod.swap rs))" by (simp only:)
    then show ?thesis by (auto simp: map_of_eq_Some_iff)
  qed
  let ?a = "?olds ! i" and ?b = "?news ! i"
  have iz: "(?a, ?b) \<in> set ?zs" by (rule nth [OF i])
  have "obj_get (doc_schemas d') ?b = obj_get (doc_schemas d) ?a"
  proof (cases "?a = ?b")
    case True
    have "(x, ?b) \<notin> set rs" for x
    proof
      assume x: "(x, ?b) \<in> set rs"
      then have "x \<noteq> ?b" and "?b \<notin> set ?olds" using sep by (auto simp: rs_def)
      then show False using True i len by (metis nth_mem)
    qed
    moreover have "?b \<notin> set (map fst rs)"
    proof
      assume "?b \<in> set (map fst rs)"
      then obtain y where y: "(?b, y) \<in> set rs" by auto
      then have "(?b, y) \<in> set ?zs" and "y \<noteq> ?b" by (auto simp: rs_def)
      moreover have "map_of ?zs ?b = Some z" if "(?b, z) \<in> set ?zs" for z
        using that dold len by (auto intro: map_of_is_SomeI)
      ultimately show False using iz True by (metis option.inject)
    qed
    ultimately show ?thesis
      using True swap_iff [of ?b] by (auto simp: lk split: option.splits)
  next
    case False
    then have "(?a, ?b) \<in> set rs" using iz by (simp add: rs_def)
    then have "map_of (map prod.swap rs) ?b = Some ?a" by (simp add: swap_iff)
    moreover have bo: "?b \<notin> set ?olds" using sep [OF iz] False by blast
    moreover have "?b \<notin> set (map fst rs)" using bo olds by blast
    moreover have "obj_get (doc_schemas d) ?b = None"
      using bo keys has_key_iff [of "doc_schemas d" ?b] by (auto simp: has_key_def)
    ultimately show ?thesis by (simp add: lk split: option.split)
  qed
  with d' show ?thesis by blast
qed

text \<open>When the rows that remain keep their positions, only removed names lose their schema.\<close>

lemma setConfig_aligned:
  assumes d: "ds_doc s = Some d"
    and al: "list_all (\<lambda>(a, b). a = b) (zip (names_of (doc_config d)) (names_of new))"
  shows "\<exists>d'. ds_doc (setConfig newId new s) = Some d' \<and>
    (\<forall>k. obj_get (doc_schemas d') k =
      (if k \<in> set (names_of (doc_config d)) - set (names_of new) then None
       else obj_get (doc_schemas d) k))"
proof -
  have "renames_of (entries_of (doc_config d)) (entries_of new) = []"
  proof -
    have "foldl (\<lambda>m (a, b). if a \<noteq> b then map_set m a b else m) [] ps = []"
      if "list_all (\<lambda>(a, b). a = b) ps" for ps :: "(string \<times> string) list"
      using that by (induction ps) (auto split: prod.splits)
    then show ?thesis using al by (simp add: renames_of_names names_of_def)
  qed
  moreover have "set (removed_names (entries_of (doc_config d)) (entries_of new) []) =
      set (names_of (doc_config d)) - set (names_of new)"
    by (auto simp: removed_names_def names_of_def)
  ultimately show ?thesis
    using setConfig_doc [OF d, of newId new] by (auto simp: Let_def obj.lookup_del_all)
qed

text \<open>
  Removing the first of two rows shifts the second one up, which the positional comparison
  takes for a rename of the first: the remaining name gets the schema of the removed one.
\<close>

lemma setConfig_remove_first:
  assumes d: "ds_doc s = Some d" and names: "names_of (doc_config d) = [a, b]" "names_of new = [b]"
    and ab: "a \<noteq> b" and sa: "obj_get (doc_schemas d) a = Some x"
  shows "\<exists>d'. ds_doc (setConfig newId new s) = Some d' \<and> names_of (doc_config d') = [b] \<and>
    obj_get (doc_schemas d') b = Some x"
proof -
  have rs: "renames_of (entries_of (doc_config d)) (entries_of new) = [(a, b)]"
    using names ab by (simp add: renames_of_names flip: names_of_def) (simp add: map_set_def)
  have "removed_names (entries_of (doc_config d)) (entries_of new) [(a, b)] = []"
    using names by (auto simp: removed_names_def names_of_def filter_empty_conv)
  then show ?thesis
    using setConfig_doc [OF d, of newId new] names sa ab
    by (auto simp: rs Let_def rekey_schema_def obj_laws)
qed

section \<open>The active index stays valid\<close>

definition active_ok :: "design_state \<Rightarrow> bool" where
  "active_ok s \<longleftrightarrow>
     (case ds_doc s of
        None \<Rightarrow> True
      | Some d \<Rightarrow> ds_active s = ''config'' \<or> ds_active s \<in> set (names_of (doc_config d)))"

definition project_consistent :: "project \<Rightarrow> bool" where
  "project_consistent p \<longleftrightarrow> set (map if_name (p_indexes p)) \<subseteq> set (names_of (p_config p))"

text \<open>
  The actions as the application takes them: an index is opened only when the configuration
  lists it, a project is loaded with its active index reset.
\<close>

inductive store_step :: "design_state \<Rightarrow> design_state \<Rightarrow> bool" where
  load: "project_consistent p \<Longrightarrow> store_step s (loadProject newId p True s)"
| edit: "apply_edit fn s = Inr s' \<Longrightarrow> store_step s s'"
| config: "store_step s (setConfig newId new s)"
| open_index: "ds_doc s = Some d \<Longrightarrow> name \<in> set (names_of (doc_config d)) \<Longrightarrow>
     store_step s (openIndex name s)"
| deployment: "store_step s (setActive ''config'' s)"
| create: "store_step s (createIndex i name table schemaPath s)"
| dup: "store_step s (dupIndex i k s)"
| revert: "store_step s (revertChanges s)"
| saved: "store_step s (setSaved d s)"
| select: "store_step s (setSelection x s)"
| toggle: "store_step s (fst (toggleCollapsed i s st))"
| collapse_all: "store_step s (fst (collapseAll s st))"
| expand_all: "store_step s (fst (expandAll s st))"
| prune: "store_step s (fst (pruneCollapsed ids s st))"
| load_collapsed: "loadCollapsed index s st = Inr (s', st') \<Longrightarrow> store_step s s'"

inductive store_reachable :: "design_state \<Rightarrow> bool" where
  init: "store_reachable init_design"
| step: "store_reachable s \<Longrightarrow> store_step s s' \<Longrightarrow> store_reachable s'"

lemma map_e_name_stamp [simp]: "map e_name (stamp_ids newId es) = map e_name es"
  by (auto simp: stamp_ids_def case_prod_unfold intro!: nth_equalityI)

lemma e_name_stamp [simp]: "e_name ` set (stamp_ids newId es) = e_name ` set es"
  using map_e_name_stamp [of newId es] by (metis list.set_map)

lemma loadProject_active_ok: "project_consistent p \<Longrightarrow> active_ok (loadProject newId p True s)"
  by (auto simp: active_ok_def loadProject_def Let_def names_of_def project_consistent_def
      split: list.split)

lemma setConfig_active_ok: "active_ok s \<Longrightarrow> active_ok (setConfig newId new s)"
proof (cases "ds_doc s")
  case None
  then show "active_ok s \<Longrightarrow> ?thesis" by (simp add: setConfig_def)
next
  case (Some d)
  assume ok: "active_ok s"
  let ?rs = "renames_of (entries_of (doc_config d)) (entries_of new)"
  obtain d' where d': "ds_doc (setConfig newId new s) = Some d'" "names_of (doc_config d') = names_of new"
    using setConfig_doc [OF Some] by blast
  show ?thesis
  proof (cases "map_of ?rs (ds_active s)")
    case (Some b)
    then have "b \<in> set (names_of new)"
      using map_of_renames [OF Some] by (auto simp: names_of_def dest: set_zip_rightD)
    with Some d' setConfig_active [OF \<open>ds_doc s = Some d\<close>, of newId new] show ?thesis
      by (simp add: active_ok_def)
  next
    case None
    with ok \<open>ds_doc s = Some d\<close>
    have "ds_active s = ''config'' \<or> ds_active s \<in> set (names_of new) \<or>
      ds_active s \<in> set (removed_names (entries_of (doc_config d)) (entries_of new) ?rs)"
      by (force simp: active_ok_def removed_names_def names_of_def)
    with None d' setConfig_active [OF \<open>ds_doc s = Some d\<close>, of newId new] show ?thesis
      by (auto simp: active_ok_def)
  qed
qed

lemma createIndex_active_ok: "active_ok s \<Longrightarrow> active_ok (createIndex i name table p s)"
  by (simp add: active_ok_def createIndex_def Let_def split: option.splits)

lemma set_insert_at [simp]: "set (insert_at i x xs) = insert x (set xs)"
  unfolding insert_at_def by (metis Un_insert_right append_take_drop_id list.simps(15) set_append)

lemma dupIndex_active_ok: "active_ok s \<Longrightarrow> active_ok (dupIndex i k s)"
  by (auto simp: active_ok_def dupIndex_def Let_def split: option.splits)

lemma revertChanges_active_ok: "active_ok s \<Longrightarrow> active_ok (revertChanges s)"
  by (auto simp: active_ok_def revertChanges_def Let_def split: option.splits list.splits)

lemma apply_edit_active_ok: "apply_edit fn s = Inr s' \<Longrightarrow> active_ok s \<Longrightarrow> active_ok s'"
  by (auto simp: active_ok_def apply_edit_def split: if_splits option.splits)

lemma collapse_active_ok:
  "active_ok (fst (toggleCollapsed i s st)) = active_ok s" "active_ok (fst (collapseAll s st)) = active_ok s"
  "active_ok (fst (expandAll s st)) = active_ok s" "active_ok (fst (pruneCollapsed ids s st)) = active_ok s"
  by (auto simp: active_ok_def toggleCollapsed_def collapseAll_def expandAll_def pruneCollapsed_def
      Let_def split: option.splits)

lemma loadCollapsed_active_ok:
  "loadCollapsed index s st = Inr (s', st') \<Longrightarrow> active_ok s' = active_ok s"
  by (auto simp: active_ok_def loadCollapsed_def Let_def split: if_splits sum.splits option.splits)

lemma store_step_active_ok: "store_step s s' \<Longrightarrow> active_ok s \<Longrightarrow> active_ok s'"
proof (induction rule: store_step.induct)
  case (load p s newId)
  then show ?case by (simp add: loadProject_active_ok)
next
  case (edit fn s s')
  then show ?case by (rule apply_edit_active_ok)
next
  case (open_index s d name)
  then show ?case by (simp add: active_ok_def openIndex_def)
next
  case (deployment s)
  then show ?case by (simp add: active_ok_def setActive_def split: option.split)
next
  case (load_collapsed index s st s' st')
  then show ?case by (simp add: loadCollapsed_active_ok)
qed (simp_all add: setConfig_active_ok createIndex_active_ok dupIndex_active_ok revertChanges_active_ok
    collapse_active_ok, simp_all add: active_ok_def setSaved_def setSelection_def split: option.splits)

lemma store_reachable_active_ok: "store_reachable s \<Longrightarrow> active_ok s"
proof (induction rule: store_reachable.induct)
  case init
  show ?case by (simp add: active_ok_def init_design_def)
next
  case (step s s')
  then show ?case by (blast intro: store_step_active_ok)
qed

section \<open>Create, duplicate, revert, edit\<close>

lemma createIndex_existing:
  assumes "ds_doc s = Some d"
  shows "\<exists>d'. ds_doc (createIndex i name table p s) = Some d' \<and>
    names_of (doc_config d') = names_of (doc_config d) @ [name] \<and>
    obj_get (doc_schemas d') name = Some (emptySchema table (table_pk (ds_catalog s) table)) \<and>
    (\<forall>k. k \<noteq> name \<longrightarrow> obj_get (doc_schemas d') k = obj_get (doc_schemas d) k)"
  using assms by (simp add: createIndex_def Let_def obj_laws names_of_def entries_of_def [of "_\<lparr>cfg_index := _\<rparr>"])

lemma dupIndex_copies:
  assumes d: "ds_doc s = Some d" and i: "i < length (names_of (doc_config d))"
    and keys: "set (obj_keys (doc_schemas d)) \<subseteq> set (names_of (doc_config d))"
    and dist: "distinct (names_of (doc_config d))"
  shows "\<exists>d' name. ds_doc (dupIndex newId i s) = Some d' \<and> ds_active (dupIndex newId i s) = name \<and>
    name \<notin> set (names_of (doc_config d)) \<and>
    names_of (doc_config d') = insert_at (Suc i) name (names_of (doc_config d)) \<and>
    distinct (names_of (doc_config d')) \<and>
    obj_get (doc_schemas d') name = obj_get (doc_schemas d) (names_of (doc_config d) ! i) \<and>
    (\<forall>k \<in> set (names_of (doc_config d)). obj_get (doc_schemas d') k = obj_get (doc_schemas d) k)"
proof -
  let ?es = "entries_of (doc_config d)"
  let ?name = "uniqueName (map e_name ?es) (e_name (?es ! i))"
  have fresh: "?name \<notin> set (names_of (doc_config d))"
    unfolding names_of_def by (rule uniqueName_fresh)
  moreover have "obj_get (doc_schemas d) ?name = None"
    using fresh keys has_key_iff [of "doc_schemas d" ?name] by (auto simp: has_key_def)
  moreover have "distinct (insert_at (Suc i) ?name (names_of (doc_config d)))"
    using dist fresh by (rule distinct_insert_at)
  ultimately show ?thesis
    using d i
    by (auto simp: dupIndex_def Let_def js_get_def obj_laws names_of_def
        entries_of_def [of "_\<lparr>cfg_index := _\<rparr>"] map_insert_at image_iff split: option.splits)
qed

lemma revertChanges_doc: "ds_saved s = Some d \<Longrightarrow> ds_doc (revertChanges s) = ds_saved (revertChanges s)"
  by (simp add: revertChanges_def Let_def)

lemma revertChanges_idem: "revertChanges (revertChanges s) = revertChanges s"
  by (auto simp: revertChanges_def Let_def split: option.splits list.splits)

lemma apply_edit_frame:
  assumes "apply_edit fn s = Inr s'" and "ds_doc s = Some d" and "ds_active s \<noteq> ''config''"
  shows "\<exists>d' x. ds_doc s' = Some d' \<and> doc_config d' = doc_config d \<and>
    fn (case obj_get (doc_schemas d) (ds_active s) of None \<Rightarrow> emptySchema '''' None | Some y \<Rightarrow> y) = Inr x \<and>
    obj_get (doc_schemas d') (ds_active s) = Some x \<and>
    (\<forall>k. k \<noteq> ds_active s \<longrightarrow> obj_get (doc_schemas d') k = obj_get (doc_schemas d) k) \<and>
    s'\<lparr>ds_doc := ds_doc s\<rparr> = s"
  using assms by (auto simp: apply_edit_def obj_laws)

section \<open>The collapsed set survives a reload\<close>

lemma json_norm_ids [simp]: "json_norm (ids_value ids) = ids_value ids"
  by (simp add: ids_value_def comp_def)

lemma string_array_ids [simp]: "string_array (ids_value ids) = Inr ids"
proof -
  have "mapM_res js_string (map JStr ids) = Inr ids"
    by (induction ids) (simp_all add: js_string_def)
  then show ?thesis by (simp add: string_array_def ids_value_def)
qed

lemma read_persisted:
  "st_usable st \<Longrightarrow> read_ids index (persistCollapsed index ids st) = Inr (ids_value ids)"
  by (simp add: read_ids_def persistCollapsed_def ls.read_write json_stringify_def json_parse_def)

lemma load_persisted:
  assumes "st_usable st" and "index \<noteq> ''config''" and "ds_doc s = Some d"
    and "obj_get (doc_schemas d) index = Some schema"
    and "distinct ids" and "set ids \<subseteq> set (live_ids schema)"
  shows "loadCollapsed index s (persistCollapsed index ids st) =
    Inr (s\<lparr>ds_collapsed := ids\<rparr>, persistCollapsed index ids st)"
proof -
  have "filter (\<lambda>i. i \<in> set (live_ids schema)) ids = ids"
    using assms(6) by (auto simp: filter_id_conv)
  then show ?thesis
    using assms by (simp add: loadCollapsed_def read_persisted js_set_distinct Let_def)
qed

lemma toggle_reload:
  assumes "st_usable st" and "ds_active s \<noteq> ''config''" and "ds_doc s = Some d"
    and "obj_get (doc_schemas d) (ds_active s) = Some schema"
    and "distinct (ds_collapsed s)" and "set (ds_collapsed s) \<subseteq> set (live_ids schema)"
    and "i \<in> set (live_ids schema)" and "toggleCollapsed i s st = (s', st')"
  shows "loadCollapsed (ds_active s) s st' = Inr (s', st') \<and>
    (i \<in> set (ds_collapsed s') \<longleftrightarrow> i \<notin> set (ds_collapsed s))"
proof -
  define new where "new = (if i \<in> set (ds_collapsed s) then set_delete i (ds_collapsed s)
      else set_add i (ds_collapsed s))"
  have st': "st' = persistCollapsed (ds_active s) new st" and s': "s' = s\<lparr>ds_collapsed := new\<rparr>"
    using assms(8) by (simp_all add: toggleCollapsed_def new_def Let_def)
  have "distinct new" and "set new \<subseteq> set (live_ids schema)"
    using assms(5,6,7) by (auto simp: new_def)
  then show ?thesis
    unfolding st' s' using assms(1-4) by (simp add: load_persisted) (simp add: new_def)
qed

lemma pruneCollapsed_live:
  assumes "pruneCollapsed ids s st = (s', st')" and "ds_active s \<noteq> ''config''"
    and "distinct (ds_collapsed s)"
  shows "ds_collapsed s' = filter (\<lambda>i. i \<in> set ids) (ds_collapsed s)"
proof -
  have "length (filter (\<lambda>i. i \<in> set ids) (ds_collapsed s)) = length (ds_collapsed s) \<Longrightarrow>
      filter (\<lambda>i. i \<in> set ids) (ds_collapsed s) = ds_collapsed s"
    by (metis length_filter_less less_irrefl filter_True)
  then show ?thesis
    using assms by (auto simp: pruneCollapsed_def Let_def js_set_distinct split: if_splits)
qed

end
