(* ===== verification/Save_Review.thy ===== *)
theory Save_Review
  imports Design_Store Ui_Store
begin

text \<open>
  Saving (\<^verbatim>\<open>App.tsx\<close>: \<open>dirty\<close>, \<open>indexDirty\<close>, \<open>configDirty\<close>, \<open>buildOps\<close>, \<open>suffixOf\<close>,
  \<open>diffFor\<close>, \<open>save\<close>, \<open>performSave\<close>, \<open>reset\<close>) against the server's two routes
  (\<^verbatim>\<open>apps/design/src/api.rs\<close>: \<open>plan\<close>, \<open>save_project\<close>). The disk is a map from resolved paths
  to file contents; the code generators \<open>render\<close> and \<open>render_config\<close> and the containment check
  \<open>warn\<close> are parameters. Directories, temporary files and I/O failures are left out.
\<close>

section \<open>The planned operations\<close>

record planned =
  pl_op :: file_op
  pl_name :: string
  pl_removed :: bool

definition dirty :: "doc option \<Rightarrow> doc option \<Rightarrow> bool" where
  "dirty d saved \<longleftrightarrow> d \<noteq> None \<and> d \<noteq> saved"

definition indexDirty :: "doc option \<Rightarrow> doc option \<Rightarrow> string \<Rightarrow> bool" where
  "indexDirty d saved name =
     (case (d, saved) of
        (Some d, Some sd) \<Rightarrow> obj_get (doc_schemas d) name \<noteq> obj_get (doc_schemas sd) name
      | _ \<Rightarrow> False)"

definition configDirty :: "doc option \<Rightarrow> doc option \<Rightarrow> bool" where
  "configDirty d saved =
     (case d of None \<Rightarrow> False
      | Some d \<Rightarrow> (case saved of None \<Rightarrow> True | Some sd \<Rightarrow> doc_config d \<noteq> doc_config sd))"

definition truthy :: "string option \<Rightarrow> bool" where
  "truthy x \<longleftrightarrow> x \<noteq> None \<and> x \<noteq> Some []"

definition prev_entries :: "doc option \<Rightarrow> index_entry list" where
  "prev_entries saved = (case saved of None \<Rightarrow> [] | Some sd \<Rightarrow> entries_of (doc_config sd))"

text \<open>\<open>new Map(prev.filter((e) => e.id).map((e) => [e.id, e]))\<close>: the last entry of an id wins.\<close>

definition prev_by_id :: "index_entry list \<Rightarrow> string option \<Rightarrow> index_entry option" where
  "prev_by_id prev i = find (\<lambda>e. e_id e = i) (rev (filter (\<lambda>e. truthy (e_id e)) prev))"

definition mk_op :: "op_kind \<Rightarrow> string \<Rightarrow> string option \<Rightarrow> index_schema option \<Rightarrow> file_op" where
  "mk_op k path from schema =
     \<lparr>op_kind = k, op_path = path, op_from = from, op_schema = schema, op_raw = None\<rparr>"

definition plan_entry :: "doc \<Rightarrow> doc option \<Rightarrow> index_entry \<Rightarrow> planned list" where
  "plan_entry d saved e =
     (case obj_get (doc_schemas d) (e_name e) of
        None \<Rightarrow> []
      | Some schema \<Rightarrow>
          (case (if truthy (e_id e) then prev_by_id (prev_entries saved) (e_id e) else None) of
             None \<Rightarrow> [\<lparr>pl_op = mk_op Upsert (e_schema e) None (Some schema), pl_name = e_name e, pl_removed = False\<rparr>]
           | Some was \<Rightarrow>
               if e_schema was \<noteq> e_schema e then
                 [\<lparr>pl_op = mk_op Move (e_schema e) (Some (e_schema was)) (Some schema), pl_name = e_name e, pl_removed = False\<rparr>]
               else if indexDirty (Some d) saved (e_name e) then
                 [\<lparr>pl_op = mk_op Upsert (e_schema e) None (Some schema), pl_name = e_name e, pl_removed = False\<rparr>]
               else []))"

definition plan_removed :: "doc \<Rightarrow> index_entry \<Rightarrow> planned list" where
  "plan_removed d p =
     (if truthy (e_id p) \<and> e_id p \<notin> set (filter truthy (map e_id (entries_of (doc_config d))))
      then [\<lparr>pl_op = mk_op Delete (e_schema p) None None, pl_name = e_name p, pl_removed = True\<rparr>] else [])"

definition buildOps :: "doc option \<Rightarrow> doc option \<Rightarrow> planned list" where
  "buildOps d saved =
     (case d of
        None \<Rightarrow> []
      | Some d \<Rightarrow> concat (map (plan_entry d saved) (entries_of (doc_config d))) @
                  concat (map (plan_removed d) (prev_entries saved)))"

definition suffixOf :: "string \<Rightarrow> string \<Rightarrow> bool" where
  "suffixOf path rel \<longleftrightarrow> path = rel \<or> ends_with (''/'' @ rel) path"

definition diffFor :: "op_diff list \<Rightarrow> planned \<Rightarrow> op_diff option" where
  "diffFor ds p =
     find (\<lambda>d. if op_kind (pl_op p) = Delete then d_op d = D_delete \<and> suffixOf (d_path d) (op_path (pl_op p))
               else if d_op d = D_delete then False else suffixOf (d_path d) (op_path (pl_op p))) ds"

section \<open>Save and its review\<close>

record app =
  ap_design :: design_state
  ap_ui :: ui_state

abbreviation app_doc :: "app \<Rightarrow> doc option" where
  "app_doc a \<equiv> ds_doc (ap_design a)"

abbreviation app_saved :: "app \<Rightarrow> doc option" where
  "app_saved a \<equiv> ds_saved (ap_design a)"

definition on_ui :: "(ui_state \<Rightarrow> ui_state) \<Rightarrow> app \<Rightarrow> app" where
  "on_ui f a = a\<lparr>ap_ui := f (ap_ui a)\<rparr>"

definition on_design :: "(design_state \<Rightarrow> design_state) \<Rightarrow> app \<Rightarrow> app" where
  "on_design f a = a\<lparr>ap_design := f (ap_design a)\<rparr>"

definition toast_with :: "toast_kind \<Rightarrow> string \<Rightarrow> app \<Rightarrow> app" where
  "toast_with k x = on_ui (setToast (Some \<lparr>to_kind = k, to_text = x\<rparr>))"

definition errText :: "js_error \<Rightarrow> string" where
  "errText e =
     (case e of Thrown m \<Rightarrow> m | TypeError \<Rightarrow> ''TypeError'' | UriError \<Rightarrow> ''URIError''
      | SyntaxError \<Rightarrow> ''SyntaxError'' | StorageError \<Rightarrow> ''SecurityError'' | _ \<Rightarrow> '''')"

text \<open>
  A config diff is hidden when the config model did not change. An asynchronous handler is one
  step here: its state up to the reply is only the in-flight flag, which it clears at the end.
\<close>

definition shown_diffs :: "bool \<Rightarrow> op_diff list \<Rightarrow> op_diff list" where
  "shown_diffs cfgDirty ds =
     (case ds of [] \<Rightarrow> ds | d # rest \<Rightarrow> if cfgDirty then ds else d\<lparr>d_changed := False\<rparr> # rest)"

definition save :: "translate \<Rightarrow> (request \<Rightarrow> op_diff list res) \<Rightarrow> app \<Rightarrow> app" where
  "save t api a =
     (case app_doc a of
        None \<Rightarrow> a
      | Some d \<Rightarrow>
          if ui_saving (ap_ui a) then a
          else
            (let a1 = (case api (api_diff (doc_config d) (map pl_op (buildOps (app_doc a) (app_saved a)))) of
                Inl e \<Rightarrow> toast_with Error_toast (t ''toast.diffFailed'' [(''err'', JStr (errText e))]) a
              | Inr result \<Rightarrow>
                  (let shown = shown_diffs (configDirty (app_doc a) (app_saved a)) result in
                   if list_ex d_changed shown then on_ui (setDiffs (Some shown)) a
                   else toast_with Ok_toast (t ''toast.alreadyUpToDate'' []) a))
             in on_ui (setSaving False) a1))"

definition skip_set :: "doc option \<Rightarrow> doc option \<Rightarrow> op_diff list \<Rightarrow> string list \<Rightarrow> string list" where
  "skip_set d saved rds skipPaths =
     (let skip = js_set skipPaths in
      if \<not> configDirty d saved \<and> (\<exists>x. js_get rds 0 = Some x \<and> d_path x \<noteq> [])
      then set_add (d_path (hd rds)) skip else skip)"

definition applied :: "op_diff list \<Rightarrow> string list \<Rightarrow> planned \<Rightarrow> bool" where
  "applied rds skip p =
     (case diffFor rds p of None \<Rightarrow> False | Some x \<Rightarrow> d_changed x \<and> d_path x \<notin> set skip)"

definition config_skipped :: "doc option \<Rightarrow> doc option \<Rightarrow> op_diff list \<Rightarrow> string list \<Rightarrow> bool" where
  "config_skipped d saved rds skip \<longleftrightarrow>
     configDirty d saved \<and> (\<exists>x. js_get rds 0 = Some x \<and> d_path x \<noteq> [] \<and> d_path x \<in> set skip)"

definition any_skipped :: "doc option \<Rightarrow> doc option \<Rightarrow> op_diff list \<Rightarrow> string list \<Rightarrow> bool" where
  "any_skipped d saved rds skip \<longleftrightarrow>
     config_skipped d saved rds skip \<or>
     (\<exists>p \<in> set (buildOps d saved).
        case diffFor rds p of None \<Rightarrow> False | Some x \<Rightarrow> d_changed x \<and> d_path x \<in> set skip)"

definition fold_applied :: "doc \<Rightarrow> op_diff list \<Rightarrow> string list \<Rightarrow> index_schema jobj \<Rightarrow> planned \<Rightarrow> index_schema jobj" where
  "fold_applied d rds skip schemas p =
     (if \<not> applied rds skip p then schemas
      else if pl_removed p then obj_delete schemas (pl_name p)
      else (case obj_get (doc_schemas d) (pl_name p) of
              None \<Rightarrow> obj_delete schemas (pl_name p) | Some x \<Rightarrow> obj_put schemas (pl_name p) x))"

definition next_saved :: "doc \<Rightarrow> doc option \<Rightarrow> op_diff list \<Rightarrow> string list \<Rightarrow> doc" where
  "next_saved d saved rds skip =
     (if \<not> any_skipped (Some d) saved rds skip then d
      else
        (let prev = (case saved of None \<Rightarrow> d | Some sd \<Rightarrow> sd);
             folded = foldl (fold_applied d rds skip) (doc_schemas prev) (buildOps (Some d) saved);
             nextConfig = (if config_skipped (Some d) saved rds skip then doc_config prev else doc_config d);
             live = names_of nextConfig
         in \<lparr>doc_config = nextConfig,
             doc_schemas = foldl (\<lambda>o1 name. if name \<in> set live then o1 else obj_delete o1 name) folded (obj_keys folded)\<rparr>))"

definition performSave :: "translate \<Rightarrow> (request \<Rightarrow> save_result res) \<Rightarrow> string list \<Rightarrow> app \<Rightarrow> app" where
  "performSave t api skipPaths a =
     (case (app_doc a, ui_diffs (ap_ui a)) of
        (Some d, Some rds) \<Rightarrow>
          (let saved = app_saved a;
               skip = skip_set (Some d) saved rds skipPaths;
               a1 = (case api (api_save (doc_config d) (map pl_op (buildOps (Some d) saved)) skip) of
                  Inl e \<Rightarrow> toast_with Error_toast (t ''toast.saveFailed'' [(''err'', JStr (errText e))]) a
                | Inr res \<Rightarrow>
                    (let n = length (sr_written res) + length (sr_moved res) + length (sr_deleted res) in
                     toast_with Ok_toast (t ''toast.saved'' [(''n'', JNum (Fin (of_nat n)))])
                       (on_ui (setDiffs None)
                         (on_design (setSaved (Some (next_saved d saved rds skip))) a))))
           in on_ui (setSaving False) a1)
      | _ \<Rightarrow> a)"

text \<open>The second component says whether the code buffer is re-seeded (\<open>setRawFor("")\<close>).\<close>

definition reset :: "app \<Rightarrow> app \<times> bool" where
  "reset a = (on_design revertChanges a, ui_rawMode (ap_ui a))"

section \<open>The server\<close>

type_synonym disk = "string \<rightharpoonup> string"

definition parent_dir :: "string \<Rightarrow> string" where
  "parent_dir p =
     (case last_index_of_char CHR ''/'' p of None \<Rightarrow> '''' | Some i \<Rightarrow> if i = 0 then ''/'' else take i p)"

definition resolve :: "string \<Rightarrow> string \<Rightarrow> string" where
  "resolve base path =
     (if starts_with ''/'' path \<or> base = '''' then path
      else if ends_with ''/'' base then base @ path else base @ ''/'' @ path)"

definition read_or_empty :: "disk \<Rightarrow> string \<Rightarrow> string" where
  "read_or_empty disk p = (case disk p of None \<Rightarrow> '''' | Some x \<Rightarrow> x)"

definition write_diff :: "(string \<Rightarrow> string option) \<Rightarrow> disk \<Rightarrow> string \<Rightarrow> string \<Rightarrow> op_diff" where
  "write_diff warn disk dest text =
     \<lparr>d_op = D_write, d_path = dest, d_from = None, d_current = read_or_empty disk dest, d_next = text,
      d_changed = (read_or_empty disk dest \<noteq> text), d_warning = warn dest\<rparr>"

definition render_op :: "(index_schema \<Rightarrow> string res) \<Rightarrow> file_op \<Rightarrow> string res" where
  "render_op render op =
     (case op_raw op of
        Some raw \<Rightarrow> Inr raw
      | None \<Rightarrow> (case op_schema op of
                   None \<Rightarrow> Inl (Thrown ''upsert/move op needs a schema or raw content'')
                 | Some x \<Rightarrow> render x))"

definition plan_op ::
  "(index_schema \<Rightarrow> string res) \<Rightarrow> (string \<Rightarrow> string option) \<Rightarrow> disk \<Rightarrow> string \<Rightarrow> file_op \<Rightarrow> op_diff list res" where
  "plan_op render warn disk base op =
     (case op_kind op of
        Upsert \<Rightarrow> map_res (\<lambda>text. [write_diff warn disk (resolve base (op_path op)) text]) (render_op render op)
      | Move \<Rightarrow>
          (case op_from op of
             None \<Rightarrow> Inl (Thrown ''move op needs a `from` path'')
           | Some f \<Rightarrow>
               (let from = resolve base f; dest = resolve base (op_path op) in
                map_res
                  (\<lambda>text. if disk from \<noteq> None
                     then [\<lparr>d_op = D_move, d_path = dest, d_from = Some from, d_current = read_or_empty disk from,
                            d_next = text, d_changed = True, d_warning = warn dest\<rparr>]
                     else [write_diff warn disk dest text])
                  (render_op render op)))
      | Delete \<Rightarrow>
          (let target = resolve base (op_path op) in
           if disk target = None then Inr []
           else Inr [\<lparr>d_op = D_delete, d_path = target, d_from = None, d_current = read_or_empty disk target,
                      d_next = '''', d_changed = True, d_warning = None\<rparr>]))"

record server =
  sv_render :: "index_schema \<Rightarrow> string res"
  sv_render_config :: "config_toml \<Rightarrow> string res"
  sv_warn :: "string \<Rightarrow> string option"
  sv_config_path :: string

definition plan :: "server \<Rightarrow> disk \<Rightarrow> config_toml \<Rightarrow> file_op list \<Rightarrow> op_diff list res" where
  "plan sv disk config ops =
     bind_res (sv_render_config sv config)
       (\<lambda>text. map_res (\<lambda>ds. (write_diff (\<lambda>_. None) disk (sv_config_path sv) text) # concat ds)
          (mapM_res (plan_op (sv_render sv) (sv_warn sv) disk (parent_dir (sv_config_path sv))) ops))"

definition staged :: "op_diff list \<Rightarrow> (string \<times> string) list" where
  "staged ds = map (\<lambda>d. (d_path d, d_next d)) (filter (\<lambda>d. d_op d \<noteq> D_delete) ds)"

definition removals :: "op_diff list \<Rightarrow> string list" where
  "removals ds =
     concat (map (\<lambda>d. case d_op d of
                        D_move \<Rightarrow> (case d_from d of None \<Rightarrow> [] | Some f \<Rightarrow> [f])
                      | D_delete \<Rightarrow> [d_path d]
                      | D_write \<Rightarrow> []) ds)"

definition commit :: "disk \<Rightarrow> op_diff list \<Rightarrow> disk" where
  "commit disk ds =
     foldl (\<lambda>m p. m(p := None)) (foldl (\<lambda>m (p, x). m(p \<mapsto> x)) disk (staged ds)) (removals ds)"

definition save_reply :: "op_diff list \<Rightarrow> save_result" where
  "save_reply ds =
     \<lparr>sr_written = map d_path (filter (\<lambda>d. d_op d = D_write) ds),
      sr_moved = concat (map (\<lambda>d. case d_from d of None \<Rightarrow> [] | Some f \<Rightarrow> [\<lparr>mv_from = f, mv_to = d_path d\<rparr>])
                   (filter (\<lambda>d. d_op d = D_move) ds)),
      sr_deleted = map d_path (filter (\<lambda>d. d_op d = D_delete) ds),
      sr_pruned = []\<rparr>"

definition save_project ::
  "server \<Rightarrow> disk \<Rightarrow> config_toml \<Rightarrow> file_op list \<Rightarrow> string list \<Rightarrow> (disk \<times> save_result) res" where
  "save_project sv disk config ops skip =
     map_res
       (\<lambda>ds. let active = filter (\<lambda>d. d_changed d \<and> d_path d \<notin> set skip) ds
             in (commit disk active, save_reply active))
       (plan sv disk config ops)"

text \<open>What the two routes answer to a request of the client, and the disk after it.\<close>

definition diff_route :: "server \<Rightarrow> disk \<Rightarrow> request \<Rightarrow> op_diff list res" where
  "diff_route sv disk rq =
     (case rq of Post_diff c ops \<Rightarrow> plan sv disk c ops | _ \<Rightarrow> Inl (Thrown ''404''))"

definition save_route :: "server \<Rightarrow> disk \<Rightarrow> request \<Rightarrow> save_result res" where
  "save_route sv disk rq =
     (case rq of Post_save c ops skip \<Rightarrow> map_res snd (save_project sv disk c ops skip) | _ \<Rightarrow> Inl (Thrown ''404''))"

definition disk_after :: "server \<Rightarrow> disk \<Rightarrow> request \<Rightarrow> disk" where
  "disk_after sv disk rq =
     (case rq of
        Post_save c ops skip \<Rightarrow>
          (case save_project sv disk c ops skip of Inl _ \<Rightarrow> disk | Inr r \<Rightarrow> fst r)
      | _ \<Rightarrow> disk)"

section \<open>A save leaves the disk in step with the document\<close>

definition at_path :: "server \<Rightarrow> index_entry \<Rightarrow> string" where
  "at_path sv e = resolve (parent_dir (sv_config_path sv)) (e_schema e)"

text \<open>Every index that has a schema is on disk, rendered, at its path.\<close>

definition in_sync :: "server \<Rightarrow> disk \<Rightarrow> doc \<Rightarrow> bool" where
  "in_sync sv disk d \<longleftrightarrow>
     (\<forall>e \<in> set (entries_of (doc_config d)). \<forall>s. obj_get (doc_schemas d) (e_name e) = Some s \<longrightarrow>
        (\<exists>x. sv_render sv s = Inr x \<and> disk (at_path sv e) = Some x))"

text \<open>
  What a save needs: every entry has its id, no two share an id or a file, the configuration
  is none of the files, and no entry takes over the path or the name that another one has in
  the snapshot.
\<close>

definition takes_over :: "server \<Rightarrow> index_entry \<Rightarrow> index_entry \<Rightarrow> bool" where
  "takes_over sv e p \<longleftrightarrow>
     (at_path sv e = at_path sv p \<and> \<not> (e_id e = e_id p \<and> e_schema e = e_schema p)) \<or>
     (e_name e = e_name p \<and> e_id e \<noteq> e_id p)"

definition saveable :: "server \<Rightarrow> doc \<Rightarrow> doc \<Rightarrow> bool" where
  "saveable sv sd d \<longleftrightarrow>
     (let cur = entries_of (doc_config d); prev = entries_of (doc_config sd) in
      distinct (map (at_path sv) cur) \<and> distinct (map e_id cur) \<and> distinct (map e_id prev) \<and>
      list_all (\<lambda>e. truthy (e_id e)) cur \<and> list_all (\<lambda>e. truthy (e_id e)) prev \<and>
      sv_config_path sv \<notin> set (map (at_path sv) (cur @ prev)) \<and>
      list_all (\<lambda>e. list_all (\<lambda>p. \<not> takes_over sv e p) prev) cur \<and>
      list_all (\<lambda>k. k \<in> set (names_of (doc_config sd))) (obj_keys (doc_schemas sd)))"

lemma saveable_facts:
  assumes "saveable sv sd d"
  shows "inj_on (at_path sv) (set (entries_of (doc_config d)))"
    and "inj_on e_id (set (entries_of (doc_config d)))"
    and "inj_on e_id (set (entries_of (doc_config sd)))"
    and "\<And>e. e \<in> set (entries_of (doc_config d)) \<Longrightarrow> truthy (e_id e) \<and> at_path sv e \<noteq> sv_config_path sv"
    and "\<And>p. p \<in> set (entries_of (doc_config sd)) \<Longrightarrow> truthy (e_id p) \<and> at_path sv p \<noteq> sv_config_path sv"
    and "\<And>e p. e \<in> set (entries_of (doc_config d)) \<Longrightarrow> p \<in> set (entries_of (doc_config sd)) \<Longrightarrow> \<not> takes_over sv e p"
    and "\<And>k. has_key (doc_schemas sd) k \<Longrightarrow> \<exists>p \<in> set (entries_of (doc_config sd)). e_name p = k"
  using assms by (auto simp: saveable_def Let_def distinct_map list_all_iff has_key_iff names_of_def image_iff)

lemma prev_by_id_mem:
  "prev_by_id prev i = Some p \<Longrightarrow> p \<in> set prev \<and> e_id p = i"
  by (auto simp: prev_by_id_def find_Some_iff in_set_conv_nth) (metis (no_types, lifting) filter_is_subset in_set_conv_nth length_rev nth_mem set_rev subsetD)

lemma prev_by_id_None:
  "prev_by_id prev i = None \<Longrightarrow> p \<in> set prev \<Longrightarrow> truthy (e_id p) \<Longrightarrow> e_id p \<noteq> i"
  by (auto simp: prev_by_id_def find_None_iff)

lemma foldl_remove: "foldl (\<lambda>m p. m(p := None)) m ps p = (if p \<in> set ps then None else m p)"
  by (induction ps arbitrary: m) auto

lemma foldl_write:
  "foldl (\<lambda>m (p, x). m(p \<mapsto> x)) m ws p = (case map_of (rev ws) p of Some x \<Rightarrow> Some x | None \<Rightarrow> m p)"
  by (induction ws arbitrary: m) (auto simp: map_add_def split: option.splits)

lemma commit_at:
  assumes "p \<notin> set (removals ds)" and "\<And>y. (p, y) \<in> set (staged ds) \<Longrightarrow> y = x"
    and "(\<exists>y. (p, y) \<in> set (staged ds)) \<or> disk p = Some x"
  shows "commit disk ds p = Some x"
proof (cases "map_of (rev (staged ds)) p")
  case None
  then have "(p, y) \<notin> set (staged ds)" for y by (metis map_of_eq_None_iff set_rev weak_map_of_SomeI option.distinct(1))
  with None assms show ?thesis by (simp add: commit_def foldl_remove foldl_write)
next
  case (Some y)
  then have "(p, y) \<in> set (staged ds)" by (metis map_of_SomeD set_rev)
  with Some assms show ?thesis by (simp add: commit_def foldl_remove foldl_write)
qed

text \<open>The diffs of a plan, one origin at a time.\<close>

lemma plan_members:
  assumes "plan sv disk config ops = Inr ds" and "x \<in> set ds"
  shows "(\<exists>text. x = write_diff (\<lambda>_. None) disk (sv_config_path sv) text) \<or>
    (\<exists>op \<in> set ops. \<exists>xs. plan_op (sv_render sv) (sv_warn sv) disk (parent_dir (sv_config_path sv)) op = Inr xs \<and> x \<in> set xs)"
  using assms by (fastforce simp: plan_def dest: mapM_res_members)

lemma plan_covers:
  assumes "plan sv disk config ops = Inr ds" and "op \<in> set ops"
  obtains xs where "plan_op (sv_render sv) (sv_warn sv) disk (parent_dir (sv_config_path sv)) op = Inr xs"
    and "set xs \<subseteq> set ds"
  using assms by (auto simp: plan_def dest!: mapM_res_members) fastforce

lemma buildOps_members:
  assumes "p \<in> set (buildOps (Some d) (Some sd))"
  shows "(\<exists>e \<in> set (entries_of (doc_config d)). p \<in> set (plan_entry d (Some sd) e)) \<or>
    (\<exists>q \<in> set (entries_of (doc_config sd)). p \<in> set (plan_removed d q))"
  using assms by (auto simp: buildOps_def prev_entries_def)

abbreviation op_diffs :: "server \<Rightarrow> disk \<Rightarrow> planned \<Rightarrow> op_diff list res" where
  "op_diffs sv disk p \<equiv>
     plan_op (sv_render sv) (sv_warn sv) disk (parent_dir (sv_config_path sv)) (pl_op p)"

lemma removals_single [simp]:
  "removals [x] = (case d_op x of D_move \<Rightarrow> (case d_from x of None \<Rightarrow> [] | Some f \<Rightarrow> [f])
     | D_delete \<Rightarrow> [d_path x] | D_write \<Rightarrow> [])"
  by (simp add: removals_def)

lemma removals_mem: "f \<in> set (removals ds) \<Longrightarrow> \<exists>x \<in> set ds. f \<in> set (removals [x])"
  by (simp add: removals_def)

lemma plan_entry_diff:
  assumes "p \<in> set (plan_entry d (Some sd) e)" and "op_diffs sv disk p = Inr xs"
  obtains s x where "obj_get (doc_schemas d) (e_name e) = Some s" and "xs = [x]"
    and "d_path x = at_path sv e" and "d_op x \<noteq> D_delete" and "sv_render sv s = Inr (d_next x)"
    and "d_changed x \<or> read_or_empty disk (at_path sv e) = d_next x"
    and "\<And>f. f \<in> set (removals [x]) \<Longrightarrow>
      \<exists>q \<in> set (entries_of (doc_config sd)). f = at_path sv q \<and> e_id q = e_id e \<and> e_schema q \<noteq> e_schema e"
proof -
  obtain s where s: "obj_get (doc_schemas d) (e_name e) = Some s"
    using assms(1) by (cases "obj_get (doc_schemas d) (e_name e)") (auto simp: plan_entry_def)
  consider (up) "pl_op p = mk_op Upsert (e_schema e) None (Some s)"
    | (mv) was where "pl_op p = mk_op Move (e_schema e) (Some (e_schema was)) (Some s)"
        "was \<in> set (entries_of (doc_config sd))" "e_id was = e_id e" "e_schema was \<noteq> e_schema e"
    using assms(1) s by (auto simp: plan_entry_def prev_entries_def dest!: prev_by_id_mem
        split: option.splits if_splits)
  then show thesis
  proof cases
    case up
    then obtain content where "sv_render sv s = Inr content" and "xs = [write_diff (sv_warn sv) disk (at_path sv e) content]"
      using assms(2) by (auto simp: plan_op_def mk_op_def render_op_def at_path_def)
    with s show thesis by (intro that [of s "write_diff (sv_warn sv) disk (at_path sv e) content"])
      (auto simp: write_diff_def)
  next
    case mv
    then obtain content where content: "sv_render sv s = Inr content"
      and xs: "xs = (if disk (at_path sv was) \<noteq> None
         then [\<lparr>d_op = D_move, d_path = at_path sv e, d_from = Some (at_path sv was),
                d_current = read_or_empty disk (at_path sv was), d_next = content, d_changed = True,
                d_warning = sv_warn sv (at_path sv e)\<rparr>]
         else [write_diff (sv_warn sv) disk (at_path sv e) content])"
      using assms(2) by (auto simp: plan_op_def mk_op_def render_op_def at_path_def Let_def)
    show thesis
    proof (cases "disk (at_path sv was) = None")
      case True
      with xs content s show thesis by (intro that [of s "hd xs"]) (auto simp: write_diff_def)
    next
      case False
      with xs content s mv show thesis by (intro that [of s "hd xs"]) auto
    qed
  qed
qed

lemma plan_entry_removal:
  assumes "p \<in> set (plan_entry d (Some sd) e)" and "op_diffs sv disk p = Inr xs" and "x \<in> set xs"
    and "f \<in> set (removals [x])"
  shows "\<exists>q \<in> set (entries_of (doc_config sd)). f = at_path sv q \<and> e_id q = e_id e \<and> e_schema q \<noteq> e_schema e"
  by (rule plan_entry_diff [OF assms(1,2)]) (use assms(3,4) in \<open>simp only: list.set singleton_iff\<close>)

lemma plan_removed_diff:
  assumes "p \<in> set (plan_removed d q)" and "op_diffs sv disk p = Inr xs" and "x \<in> set xs"
  shows "d_op x = D_delete \<and> d_path x = at_path sv q \<and>
    (\<forall>e \<in> set (entries_of (doc_config d)). truthy (e_id e) \<longrightarrow> e_id e \<noteq> e_id q)"
  using assms
  by (auto simp: plan_removed_def plan_op_def mk_op_def Let_def at_path_def split: if_splits)
    (metis image_eqI)

text \<open>An entry nothing is planned for is unchanged, so its file already holds its schema.\<close>

lemma unplanned_in_sync:
  assumes sync: "in_sync sv disk sd" and ok: "saveable sv sd d"
    and e: "e \<in> set (entries_of (doc_config d))" "obj_get (doc_schemas d) (e_name e) = Some s"
    and none: "plan_entry d (Some sd) e = []"
  shows "\<exists>x. sv_render sv s = Inr x \<and> disk (at_path sv e) = Some x"
proof -
  note F = saveable_facts [OF ok]
  have "truthy (e_id e)" using F(4) e(1) by blast
  then obtain was where was: "prev_by_id (entries_of (doc_config sd)) (e_id e) = Some was"
    and same: "e_schema was = e_schema e" "\<not> indexDirty (Some d) (Some sd) (e_name e)"
    using none e(2) by (auto simp: plan_entry_def prev_entries_def split: option.splits if_splits)
  have saved: "obj_get (doc_schemas sd) (e_name e) = Some s"
    using same(2) e(2) by (simp add: indexDirty_def)
  then obtain q where q: "q \<in> set (entries_of (doc_config sd))" "e_name q = e_name e"
    using F(7) [of "e_name e"] by (auto simp: has_key_def)
  have "e_id e = e_id q" using F(6) [OF e(1) q(1)] q(2) by (simp add: takes_over_def)
  then have "q = was"
    using prev_by_id_mem [OF was] q(1) F(3) by (metis inj_onD)
  with same(1) have "at_path sv q = at_path sv e" by (simp add: at_path_def)
  moreover have "\<exists>x. sv_render sv s = Inr x \<and> disk (at_path sv q) = Some x"
    using sync q saved by (auto simp: in_sync_def)
  ultimately show ?thesis by simp
qed

lemma save_project_in_sync:
  assumes sync: "in_sync sv disk sd" and ok: "saveable sv sd d"
    and render: "\<And>s. sv_render sv s \<noteq> Inr ''''"
    and run: "save_project sv disk config (map pl_op (buildOps (Some d) (Some sd))) skip = Inr (disk', r)"
    and skip: "set skip \<subseteq> {sv_config_path sv}"
  shows "in_sync sv disk' d"
  unfolding in_sync_def
proof (intro ballI allI impI)
  fix e s
  assume e: "e \<in> set (entries_of (doc_config d))" and s: "obj_get (doc_schemas d) (e_name e) = Some s"
  note F = saveable_facts [OF ok]
  let ?ops = "buildOps (Some d) (Some sd)"
  obtain ds where pl: "plan sv disk config (map pl_op ?ops) = Inr ds"
    and disk': "disk' = commit disk (filter (\<lambda>d. d_changed d \<and> d_path d \<notin> set skip) ds)"
    using run by (auto simp: save_project_def Let_def)
  let ?act = "filter (\<lambda>d. d_changed d \<and> d_path d \<notin> set skip) ds"
  have origin: "(\<exists>content. x = write_diff (\<lambda>_. None) disk (sv_config_path sv) content) \<or>
      (\<exists>e' \<in> set (entries_of (doc_config d)). \<exists>p \<in> set (plan_entry d (Some sd) e'). \<exists>xs.
         op_diffs sv disk p = Inr xs \<and> x \<in> set xs) \<or>
      (\<exists>q \<in> set (entries_of (doc_config sd)). \<exists>p \<in> set (plan_removed d q). \<exists>xs.
         op_diffs sv disk p = Inr xs \<and> x \<in> set xs)" if "x \<in> set ds" for x
    using plan_members [OF pl that] buildOps_members by fastforce
  have kept: "at_path sv e \<notin> set (removals ?act)"
  proof
    assume "at_path sv e \<in> set (removals ?act)"
    from removals_mem [OF this] obtain x where x: "x \<in> set ds" "at_path sv e \<in> set (removals [x])"
      by auto
    from origin [OF x(1)] show False
    proof (elim disjE exE bexE conjE)
      fix content
      assume "x = write_diff (\<lambda>_. None) disk (sv_config_path sv) content"
      with x(2) show False by (simp add: write_diff_def)
    next
      fix e' p xs
      assume a: "e' \<in> set (entries_of (doc_config d))" "p \<in> set (plan_entry d (Some sd) e')"
        "op_diffs sv disk p = Inr xs" "x \<in> set xs"
      then obtain q where q: "q \<in> set (entries_of (doc_config sd))" "at_path sv e = at_path sv q"
        "e_id q = e_id e'" "e_schema q \<noteq> e_schema e'"
        using plan_entry_removal [OF a(2,3,4) x(2)] by blast
      then have "e_id e = e_id q \<and> e_schema e = e_schema q"
        using F(6) [OF e q(1)] by (simp add: takes_over_def)
      with q F(2) a(1) e show False by (metis inj_onD)
    next
      fix q p xs
      assume a: "q \<in> set (entries_of (doc_config sd))" "p \<in> set (plan_removed d q)"
        "op_diffs sv disk p = Inr xs" "x \<in> set xs"
      then have "d_op x = D_delete" "d_path x = at_path sv q" "e_id e \<noteq> e_id q"
        using plan_removed_diff [OF a(2,3,4)] e F(4) [OF e] by auto
      with x(2) F(6) [OF e a(1)] show False by (simp add: takes_over_def)
    qed
  qed
  have from_e: "sv_render sv s = Inr y" if staged_e: "(at_path sv e, y) \<in> set (staged ?act)" for y
  proof -
    obtain x where x: "x \<in> set ds" "d_op x \<noteq> D_delete" "d_path x = at_path sv e" "d_next x = y"
      using staged_e by (auto simp: staged_def)
    from origin [OF x(1)] show ?thesis
    proof (elim disjE exE bexE conjE)
      fix content
      assume "x = write_diff (\<lambda>_. None) disk (sv_config_path sv) content"
      with x(3) F(4) [OF e] show ?thesis by (simp add: write_diff_def)
    next
      fix e' p xs
      assume a: "e' \<in> set (entries_of (doc_config d))" "p \<in> set (plan_entry d (Some sd) e')"
        "op_diffs sv disk p = Inr xs" "x \<in> set xs"
      show ?thesis
      proof (rule plan_entry_diff [OF a(2,3)])
        fix s' x'
        assume b: "obj_get (doc_schemas d) (e_name e') = Some s'" "xs = [x']" "d_path x' = at_path sv e'"
          "sv_render sv s' = Inr (d_next x')"
        then have "e' = e" using a(1,4) e x(3) F(1) by (auto dest: inj_onD)
        with b a(4) s x(4) show ?thesis by simp
      qed
    next
      fix q p xs
      assume "p \<in> set (plan_removed d q)" "op_diffs sv disk p = Inr xs" "x \<in> set xs"
      with x(2) plan_removed_diff show ?thesis by blast
    qed
  qed
  have "\<exists>x. sv_render sv s = Inr x \<and>
      ((\<exists>y. (at_path sv e, y) \<in> set (staged ?act)) \<or> disk (at_path sv e) = Some x)"
  proof (cases "plan_entry d (Some sd) e")
    case Nil
    with unplanned_in_sync [OF sync ok e s] show ?thesis by blast
  next
    case (Cons p ps)
    then have p: "p \<in> set (plan_entry d (Some sd) e)" by simp
    then have "pl_op p \<in> set (map pl_op ?ops)" using e by (auto simp: buildOps_def)
    then obtain xs where xs: "op_diffs sv disk p = Inr xs" "set xs \<subseteq> set ds"
      by (rule plan_covers [OF pl])
    show ?thesis
    proof (rule plan_entry_diff [OF p xs(1)])
      fix s' x
      assume b: "obj_get (doc_schemas d) (e_name e) = Some s'" "xs = [x]" "d_path x = at_path sv e"
        "d_op x \<noteq> D_delete" "sv_render sv s' = Inr (d_next x)"
        "d_changed x \<or> read_or_empty disk (at_path sv e) = d_next x"
      have "d_path x \<notin> set skip" using b(3) F(4) [OF e] skip by auto
      moreover have "x \<in> set ds" using b(2) xs(2) by simp
      ultimately have "d_changed x \<Longrightarrow> (at_path sv e, d_next x) \<in> set (staged ?act)"
        using b(3,4) by (force simp: staged_def)
      moreover have "\<not> d_changed x \<Longrightarrow> disk (at_path sv e) = Some (d_next x)"
        using b(5,6) render [of s'] by (auto simp: read_or_empty_def split: option.splits)
      ultimately show ?thesis using b(1,5) s by fastforce
    qed
  qed
  then obtain x where x: "sv_render sv s = Inr x"
    and cover: "(\<exists>y. (at_path sv e, y) \<in> set (staged ?act)) \<or> disk (at_path sv e) = Some x" by blast
  have "commit disk ?act (at_path sv e) = Some x"
    by (rule commit_at [where x = x]) (use kept cover from_e x in auto)
  with x disk' show "\<exists>x. sv_render sv s = Inr x \<and> disk' (at_path sv e) = Some x" by blast
qed

section \<open>From the review to a clean document\<close>

text \<open>
  Every shown diff but the first belongs to a schema file, so a configuration that did not
  change is the only thing the review can skip on its own.
\<close>

lemma plan_tail_paths:
  assumes ok: "saveable sv sd d" and pl: "plan sv disk config (map pl_op (buildOps (Some d) (Some sd))) = Inr (x0 # ds)"
    and x: "x \<in> set ds"
  shows "d_path x \<noteq> sv_config_path sv"
proof -
  note F = saveable_facts [OF ok]
  obtain xss where xss: "mapM_res (plan_op (sv_render sv) (sv_warn sv) disk (parent_dir (sv_config_path sv)))
      (map pl_op (buildOps (Some d) (Some sd))) = Inr xss" "ds = concat xss"
    using pl by (auto simp: plan_def)
  then obtain xs where xs: "xs \<in> set xss" "x \<in> set xs" using x by auto
  obtain p where p: "p \<in> set (buildOps (Some d) (Some sd))" "op_diffs sv disk p = Inr xs"
    using mapM_res_members [OF xss(1)] xs(1) by auto
  from buildOps_members [OF p(1)] show ?thesis
  proof (elim disjE bexE)
    fix e
    assume "e \<in> set (entries_of (doc_config d))" "p \<in> set (plan_entry d (Some sd) e)"
    with F(4) p(2) xs(2) show ?thesis by (metis plan_entry_diff singletonD list.simps(15) list.set(1))
  next
    fix q
    assume "q \<in> set (entries_of (doc_config sd))" "p \<in> set (plan_removed d q)"
    with F(5) p(2) xs(2) plan_removed_diff show ?thesis by metis
  qed
qed

lemma plan_head:
  "plan sv disk config ops = Inr ds \<Longrightarrow> \<exists>x0 rest. ds = x0 # rest \<and> d_path x0 = sv_config_path sv"
  by (auto simp: plan_def write_diff_def)

lemma nothing_skipped:
  assumes ok: "saveable sv sd d"
    and pl: "plan sv disk config (map pl_op (buildOps (Some d) (Some sd))) = Inr ds"
    and rds: "rds = shown_diffs (configDirty (Some d) (Some sd)) ds"
  shows "\<not> any_skipped (Some d) (Some sd) rds (skip_set (Some d) (Some sd) rds []) \<and>
    set (skip_set (Some d) (Some sd) rds []) \<subseteq> {sv_config_path sv}"
proof -
  obtain x0 rest where ds: "ds = x0 # rest" "d_path x0 = sv_config_path sv"
    using plan_head [OF pl] by blast
  show ?thesis
  proof (cases "configDirty (Some d) (Some sd)")
    case True
    then have "skip_set (Some d) (Some sd) rds [] = []" by (simp add: skip_set_def js_set_def)
    then show ?thesis by (auto simp: any_skipped_def config_skipped_def split: option.splits)
  next
    case False
    then have r: "rds = x0\<lparr>d_changed := False\<rparr> # rest" by (simp add: rds ds shown_diffs_def)
    have s: "set (skip_set (Some d) (Some sd) rds []) \<subseteq> {sv_config_path sv}"
      by (auto simp: skip_set_def r ds js_set_def Let_def split: if_splits)
    have "\<not> (d_changed x \<and> d_path x \<in> set (skip_set (Some d) (Some sd) rds []))" if "x \<in> set rds" for x
      using that s plan_tail_paths [OF ok pl [unfolded ds(1)]] by (auto simp: r)
    moreover have "diffFor rds p = Some x \<Longrightarrow> x \<in> set rds" for p x
      by (auto simp: diffFor_def find_Some_iff)
    ultimately have "\<not> any_skipped (Some d) (Some sd) rds (skip_set (Some d) (Some sd) rds [])"
      using False by (fastforce simp: any_skipped_def config_skipped_def split: option.splits)
    with s show ?thesis by blast
  qed
qed

lemma save_opens_review:
  assumes "app_doc a = Some d" and "\<not> ui_saving (ap_ui a)" and "ui_diffs (ap_ui a) = None"
    and "ui_diffs (ap_ui (save t (diff_route sv disk) a)) = Some rds"
  shows "\<exists>ds. plan sv disk (stripIds (doc_config d)) (map pl_op (buildOps (Some d) (app_saved a))) = Inr ds \<and>
    rds = shown_diffs (configDirty (Some d) (app_saved a)) ds \<and>
    save t (diff_route sv disk) a = on_ui (setSaving False) (on_ui (setDiffs (Some rds)) a)"
  using assms
  by (auto simp: save_def Let_def diff_route_def api_diff_def toast_with_def on_ui_def setSaving_def setToast_def
      setDiffs_def split: sum.splits if_splits)

lemma save_then_perform:
  assumes doc: "app_doc a = Some d" and saved: "app_saved a = Some sd"
    and idle: "\<not> ui_saving (ap_ui a)" "ui_diffs (ap_ui a) = None"
    and sync: "in_sync sv disk sd" and ok: "saveable sv sd d" and render: "\<And>s. sv_render sv s \<noteq> Inr ''''"
    and review: "ui_diffs (ap_ui (save t (diff_route sv disk) a)) = Some rds"
  shows "let a' = performSave t (save_route sv disk) [] (save t (diff_route sv disk) a);
      skip = skip_set (Some d) (Some sd) rds [] in
    app_doc a' = Some d \<and> app_saved a' = Some d \<and> ui_diffs (ap_ui a') = None \<and>
    in_sync sv (disk_after sv disk (api_save (doc_config d) (map pl_op (buildOps (Some d) (Some sd))) skip)) d"
proof -
  let ?ops = "map pl_op (buildOps (Some d) (Some sd))"
  obtain ds where pl: "plan sv disk (stripIds (doc_config d)) ?ops = Inr ds"
    and rds: "rds = shown_diffs (configDirty (Some d) (Some sd)) ds"
    and a1: "save t (diff_route sv disk) a = on_ui (setSaving False) (on_ui (setDiffs (Some rds)) a)"
    using save_opens_review [OF doc idle review] saved by auto
  let ?skip = "skip_set (Some d) (Some sd) rds []"
  note ns = nothing_skipped [OF ok pl rds]
  let ?act = "filter (\<lambda>d. d_changed d \<and> d_path d \<notin> set ?skip) ds"
  have run: "save_project sv disk (stripIds (doc_config d)) ?ops ?skip = Inr (commit disk ?act, save_reply ?act)"
    using pl by (simp add: save_project_def Let_def)
  then have "in_sync sv (commit disk ?act) d"
    using save_project_in_sync [OF sync ok render run] ns by blast
  then have "in_sync sv (disk_after sv disk (api_save (doc_config d) ?ops ?skip)) d"
    by (simp add: disk_after_def api_save_def run)
  moreover have "next_saved d (Some sd) rds ?skip = d" using ns by (simp add: next_saved_def)
  ultimately show ?thesis
    by (simp add: a1 performSave_def doc saved on_ui_def on_design_def setDiffs_def setSaving_def setSaved_def
        Ui_Store.setToast_def toast_with_def save_route_def api_save_def run Let_def)
qed

lemma performSave_failure:
  assumes "api (api_save (doc_config d) (map pl_op (buildOps (Some d) (app_saved a))) (skip_set (Some d) (app_saved a) rds skip)) = Inl e"
    and "app_doc a = Some d" and "ui_diffs (ap_ui a) = Some rds"
  shows "ap_design (performSave t api skip a) = ap_design a \<and>
    ui_diffs (ap_ui (performSave t api skip a)) = Some rds \<and> \<not> ui_saving (ap_ui (performSave t api skip a))"
  using assms by (simp add: performSave_def Let_def toast_with_def on_ui_def setToast_def setSaving_def)

section \<open>Where the save loses files\<close>

text \<open>
  The server removes deleted files and move sources after it has written the others, so a
  file that one operation writes and another one removes is gone, although the client's
  snapshot then counts it as saved.
\<close>

lemma removed_last:
  assumes "save_project sv disk config ops skip = Inr (disk', r)"
    and "op \<in> set ops" and "plan_op (sv_render sv) (sv_warn sv) disk (parent_dir (sv_config_path sv)) op = Inr xs"
    and "x \<in> set xs" and "d_changed x" and "d_path x \<notin> set skip" and "f \<in> set (removals [x])"
  shows "disk' f = None"
proof -
  obtain ds where pl: "plan sv disk config ops = Inr ds"
    and disk': "disk' = commit disk (filter (\<lambda>d. d_changed d \<and> d_path d \<notin> set skip) ds)"
    using assms(1) by (auto simp: save_project_def Let_def)
  have "x \<in> set ds" using plan_covers [OF pl assms(2)] assms(3,4) by (metis Inr_inject subsetD)
  with assms(5,6,7) have "f \<in> set (removals (filter (\<lambda>d. d_changed d \<and> d_path d \<notin> set skip) ds))"
    by (fastforce simp: removals_def)
  then show ?thesis by (simp add: disk' commit_def foldl_remove)
qed

lemma recreated_index_lost:
  assumes "save_project sv disk config (map pl_op (buildOps (Some d) (Some sd))) skip = Inr (disk', r)"
    and q: "q \<in> set (entries_of (doc_config sd))" "truthy (e_id q)"
      "\<forall>e \<in> set (entries_of (doc_config d)). e_id e \<noteq> e_id q"
    and "disk (at_path sv q) \<noteq> None" and "at_path sv q \<notin> set skip"
    and e: "e \<in> set (entries_of (doc_config d))" "at_path sv e = at_path sv q"
  shows "disk' (at_path sv e) = None"
proof -
  let ?p = "\<lparr>pl_op = mk_op Delete (e_schema q) None None, pl_name = e_name q, pl_removed = True\<rparr>"
  let ?x = "\<lparr>d_op = D_delete, d_path = at_path sv q, d_from = None, d_current = read_or_empty disk (at_path sv q),
    d_next = '''', d_changed = True, d_warning = None\<rparr>"
  have "?p \<in> set (plan_removed d q)" using q by (auto simp: plan_removed_def)
  then have "pl_op ?p \<in> set (map pl_op (buildOps (Some d) (Some sd)))"
    using q(1) by (force simp: buildOps_def prev_entries_def)
  moreover have "plan_op (sv_render sv) (sv_warn sv) disk (parent_dir (sv_config_path sv)) (pl_op ?p) = Inr [?x]"
    using assms(5) by (simp add: plan_op_def mk_op_def at_path_def Let_def)
  ultimately have "disk' (at_path sv q) = None"
    by (rule removed_last [OF assms(1)]) (use assms(6) in auto)
  with e(2) show ?thesis by simp
qed

lemma moved_over_lost:
  assumes "save_project sv disk config (map pl_op (buildOps (Some d) (Some sd))) skip = Inr (disk', r)"
    and m: "m \<in> set (entries_of (doc_config d))" "truthy (e_id m)" "obj_get (doc_schemas d) (e_name m) = Some s"
      "prev_by_id (entries_of (doc_config sd)) (e_id m) = Some was" "e_schema was \<noteq> e_schema m"
    and "disk (at_path sv was) \<noteq> None" and "at_path sv m \<notin> set skip"
    and e: "at_path sv e = at_path sv was"
  shows "disk' (at_path sv e) = None"
proof -
  let ?p = "\<lparr>pl_op = mk_op Move (e_schema m) (Some (e_schema was)) (Some s), pl_name = e_name m, pl_removed = False\<rparr>"
  have "plan_entry d (Some sd) m = [?p]" using m by (simp add: plan_entry_def prev_entries_def)
  then have op: "pl_op ?p \<in> set (map pl_op (buildOps (Some d) (Some sd)))"
    using m(1) by (force simp: buildOps_def)
  obtain ds where pl: "plan sv disk config (map pl_op (buildOps (Some d) (Some sd))) = Inr ds"
    using assms(1) by (auto simp: save_project_def Let_def)
  obtain xs where xs: "op_diffs sv disk ?p = Inr xs" by (rule plan_covers [OF pl op])
  then obtain content where "sv_render sv s = Inr content" and
    xs': "xs = [\<lparr>d_op = D_move, d_path = at_path sv m, d_from = Some (at_path sv was),
      d_current = read_or_empty disk (at_path sv was), d_next = content, d_changed = True,
      d_warning = sv_warn sv (at_path sv m)\<rparr>]"
    using assms(7) by (auto simp: plan_op_def mk_op_def render_op_def at_path_def Let_def)
  have "disk' (at_path sv was) = None"
    by (rule removed_last [OF assms(1) op xs, of "hd xs"]) (use assms(8) in \<open>simp_all add: xs'\<close>)
  with e show ?thesis by simp
qed

text \<open>
  The snapshot takes over the whole configuration, so an index whose move was unchecked in the
  review is at its new path there, and with an unchanged schema nothing is planned for it again.
\<close>

lemma foldl_fold_applied:
  assumes "\<forall>p \<in> set ps. pl_name p = name \<longrightarrow> \<not> pl_removed p"
    and "obj_get (doc_schemas d) name = Some s" and "obj_get o1 name = Some s"
  shows "obj_get (foldl (fold_applied d rds skip) o1 ps) name = Some s"
  using assms
proof (induction ps arbitrary: o1)
  case (Cons p ps)
  have "obj_get (fold_applied d rds skip o1 p) name = Some s"
    using Cons.prems by (auto simp: fold_applied_def obj_laws split: option.splits)
  with Cons show ?case by simp
qed simp

lemma foldl_delete_dead:
  "name \<in> live \<Longrightarrow>
     obj_get (foldl (\<lambda>o1 n. if n \<in> live then o1 else obj_delete o1 n) o1 ns) name = obj_get o1 name"
  by (induction ns arbitrary: o1) (auto simp: obj_laws)

lemma skipped_move_forgotten:
  assumes e: "e \<in> set (entries_of (doc_config d))" "truthy (e_id e)"
    and ids: "distinct (map e_id (entries_of (doc_config d)))"
    and same: "obj_get (doc_schemas d) (e_name e) = Some s" "obj_get (doc_schemas sd) (e_name e) = Some s"
    and keep: "\<not> config_skipped (Some d) (Some sd) rds skip"
    and name: "\<forall>p \<in> set (buildOps (Some d) (Some sd)). pl_name p = e_name e \<longrightarrow> \<not> pl_removed p"
  shows "plan_entry d (Some (next_saved d (Some sd) rds skip)) e = []"
proof -
  let ?n = "next_saved d (Some sd) rds skip"
  have cfg: "doc_config ?n = doc_config d" using keep by (simp add: next_saved_def Let_def)
  have sch: "obj_get (doc_schemas ?n) (e_name e) = Some s"
  proof (cases "any_skipped (Some d) (Some sd) rds skip")
    case False
    then show ?thesis using same by (simp add: next_saved_def)
  next
    case True
    then show ?thesis
      using keep e(1) foldl_fold_applied [OF name same]
      by (simp add: next_saved_def Let_def foldl_delete_dead names_of_def)
  qed
  obtain was where was: "prev_by_id (entries_of (doc_config d)) (e_id e) = Some was"
    using prev_by_id_None [OF _ e] by fastforce
  then have "was = e"
    using prev_by_id_mem e(1) ids by (metis distinct_map inj_onD)
  with was cfg sch same(1) e(2) show ?thesis
    by (simp add: plan_entry_def prev_entries_def indexDirty_def)
qed

text \<open>
  Renaming an index and renaming it back moves its schema to the end of the record, which the
  JSON comparison of \<open>dirty\<close> sees and nothing else does: no operation is planned.
\<close>

lemma rename_back_reorders:
  "foldl rekey_schema [(''a'', x), (''b'', y)] [(''a'', ''c'')] = [(''b'', y), (''c'', x)] \<and>
   foldl rekey_schema [(''b'', y), (''c'', x)] [(''c'', ''a'')] = [(''b'', y), (''a'', x)]"
  by (simp add: rekey_schema_def obj_get_def obj_put_def obj_delete_def has_key_def is_index_key_def
      is_digit_def code_unit_def)

lemma reordered_plans_nothing:
  assumes cfg: "doc_config d = doc_config sd" and sch: "\<And>k. obj_get (doc_schemas d) k = obj_get (doc_schemas sd) k"
    and ids: "distinct (map e_id (entries_of (doc_config d)))" "\<forall>e \<in> set (entries_of (doc_config d)). truthy (e_id e)"
  shows "buildOps (Some d) (Some sd) = []"
proof -
  have "plan_entry d (Some sd) e = []" if e: "e \<in> set (entries_of (doc_config d))" for e
  proof -
    obtain was where was: "prev_by_id (entries_of (doc_config d)) (e_id e) = Some was"
      using prev_by_id_None [OF _ e] ids(2) e by fastforce
    then have "was = e" using prev_by_id_mem e ids(1) by (metis distinct_map inj_onD)
    with was show ?thesis using cfg ids(2) e
      by (auto simp: plan_entry_def prev_entries_def indexDirty_def sch split: option.splits)
  qed
  moreover have "plan_removed d q = []" if "q \<in> set (entries_of (doc_config sd))" for q
    using that cfg ids(2) by (auto simp: plan_removed_def)
  ultimately show ?thesis by (simp add: buildOps_def prev_entries_def)
qed

lemma save_nothing_stays_dirty:
  assumes "app_doc a = Some d" and "\<not> ui_saving (ap_ui a)"
    and "api (api_diff (doc_config d) (map pl_op (buildOps (Some d) (app_saved a)))) = Inr ds"
    and "\<not> list_ex d_changed (shown_diffs (configDirty (Some d) (app_saved a)) ds)"
  shows "app_saved (save t api a) = app_saved a \<and> app_doc (save t api a) = Some d"
  using assms by (simp add: save_def Let_def toast_with_def on_ui_def)

end
