(* ===== verification/Recents.thy ===== *)
theory Recents
  imports Js_Value
begin

text \<open>
  What the palette remembers between sessions: the last picks (\<^verbatim>\<open>model/recent.ts\<close>) and the
  frecency counters (\<^verbatim>\<open>model/frecency.ts\<close>). Both live in \<open>localStorage\<close> as JSON; times are
  milliseconds, the clock is the argument \<open>now\<close>. A stored pick is reduced to its two
  properties. A stored frecency table whose entries are not numbers is outside the model.
\<close>

section \<open>Recent picks\<close>

record pick =
  pk_id :: string
  pk_title :: string

definition recent_KEY :: string where
  "recent_KEY = ''flusso-design.search.recent''"

definition recent_CAP :: nat where
  "recent_CAP = 3"

definition pick_value :: "pick \<Rightarrow> js" where
  "pick_value p = JObj [(''id'', JStr (pk_id p)), (''title'', JStr (pk_title p))]"

definition as_pick :: "js \<Rightarrow> pick option" where
  "as_pick v =
     (case v of
        JObj es \<Rightarrow>
          (case (obj_get es ''id'', obj_get es ''title'') of
             (Some (JStr i), Some (JStr t)) \<Rightarrow> Some \<lparr>pk_id = i, pk_title = t\<rparr>
           | _ \<Rightarrow> None)
      | _ \<Rightarrow> None)"

text \<open>
  A \<open>null\<close>, an object or a number has no \<open>filter\<close>: the call throws and the \<open>catch\<close> answers.
  An array that holds \<open>null\<close> or strings is filtered down to the picks in it.
\<close>

definition parse_picks :: "storage \<Rightarrow> pick list res" where
  "parse_picks st =
     bind_res (get_item st recent_KEY)
       (\<lambda>v. bind_res (case v of None \<Rightarrow> Inr (JArr []) | Some x \<Rightarrow> json_parse x)
          (\<lambda>parsed. case parsed of
               JArr xs \<Rightarrow> Inr (take recent_CAP (somes (map as_pick xs)))
             | _ \<Rightarrow> Inl TypeError))"

definition recentPicks :: "storage \<Rightarrow> pick list" where
  "recentPicks st = catch_res (parse_picks st) []"

definition store_picks :: "pick list \<Rightarrow> storage \<Rightarrow> storage" where
  "store_picks ps st = try_set_item st recent_KEY (json_stringify (JArr (map pick_value ps)))"

definition recordPickRecent :: "pick \<Rightarrow> storage \<Rightarrow> storage" where
  "recordPickRecent p st =
     (if pk_id p = '''' then st
      else store_picks (take recent_CAP (p # filter (\<lambda>x. pk_id x \<noteq> pk_id p) (recentPicks st))) st)"

definition removeRecent :: "string \<Rightarrow> storage \<Rightarrow> storage" where
  "removeRecent i st = store_picks (filter (\<lambda>p. pk_id p \<noteq> i) (recentPicks st)) st"

definition clearRecent :: "storage \<Rightarrow> storage" where
  "clearRecent st = try_remove_item st recent_KEY"

lemma as_pick_value [simp]: "as_pick (pick_value p) = Some p"
  by (simp add: as_pick_def pick_value_def obj_get_def)

lemma json_norm_pick [simp]: "json_norm (pick_value p) = pick_value p"
  by (simp add: pick_value_def json_absent_def)

lemma read_store_picks:
  "st_usable st \<Longrightarrow> recentPicks (store_picks ps st) = take recent_CAP ps"
  by (simp add: recentPicks_def parse_picks_def store_picks_def ls.read_write json_stringify_def
      json_parse_def comp_def)

lemma length_recentPicks: "length (recentPicks st) \<le> recent_CAP"
proof -
  have "length ps \<le> recent_CAP" if "parse_picks st = Inr ps" for ps
  proof -
    from that obtain v where
      "(case v of JArr xs \<Rightarrow> Inr (take recent_CAP (somes (map as_pick xs))) | _ \<Rightarrow> Inl TypeError) = Inr ps"
      by (auto simp: parse_picks_def)
    then show ?thesis by (cases v) auto
  qed
  then show ?thesis by (cases "parse_picks st") (simp_all add: recentPicks_def)
qed

lemma recentPicks_record:
  assumes "st_usable st" and "pk_id p \<noteq> ''''"
  shows "recentPicks (recordPickRecent p st) =
    take recent_CAP (p # filter (\<lambda>x. pk_id x \<noteq> pk_id p) (recentPicks st))"
  using assms by (simp add: recordPickRecent_def read_store_picks)

lemma recentPicks_distinct:
  assumes "st_usable st" and "distinct (map pk_id (recentPicks st))"
  shows "distinct (map pk_id (recentPicks (recordPickRecent p st)))"
proof (cases "pk_id p = ''''")
  case True
  with assms show ?thesis by (simp add: recordPickRecent_def)
next
  case False
  have "distinct (map pk_id (p # filter (\<lambda>x. pk_id x \<noteq> pk_id p) (recentPicks st)))"
    using assms(2) by (auto simp: distinct_map intro: inj_on_subset)
  then show ?thesis
    using recentPicks_record [OF assms(1) False] by (metis distinct_take take_map)
qed

lemma recentPicks_remove:
  assumes "st_usable st"
  shows "recentPicks (removeRecent i st) = filter (\<lambda>p. pk_id p \<noteq> i) (recentPicks st)"
proof -
  have "length (filter (\<lambda>p. pk_id p \<noteq> i) (recentPicks st)) \<le> recent_CAP"
    using length_recentPicks [of st] length_filter_le le_trans by blast
  then show ?thesis using assms by (simp add: removeRecent_def read_store_picks)
qed

lemma recentPicks_clear: "st_readable st \<Longrightarrow> recentPicks (clearRecent st) = []"
  by (simp add: clearRecent_def try_remove_item_def remove_item_def recentPicks_def parse_picks_def get_item_def)

section \<open>Frecency\<close>

record freq =
  fq_n :: rat
  fq_last :: rat

type_synonym freq_store = "freq jobj"

definition frecency_KEY :: string where
  "frecency_KEY = ''flusso-design.search.frecency''"

definition frecency_CAP :: nat where
  "frecency_CAP = 200"

definition freq_value :: "freq \<Rightarrow> js" where
  "freq_value e = JObj [(''n'', JNum (Fin (fq_n e))), (''last'', JNum (Fin (fq_last e)))]"

definition as_freq :: "string \<times> js \<Rightarrow> (string \<times> freq) res" where
  "as_freq e =
     (case snd e of
        JObj es \<Rightarrow>
          (case (obj_get es ''n'', obj_get es ''last'') of
             (Some (JNum (Fin n)), Some (JNum (Fin l))) \<Rightarrow> Inr (fst e, \<lparr>fq_n = n, fq_last = l\<rparr>)
           | _ \<Rightarrow> Inl Unrepresentable)
      | _ \<Rightarrow> Inl Unrepresentable)"

text \<open>
  The parsed value is trusted to be an object; a stored \<open>null\<close> makes the first use of the
  table throw, outside the \<open>catch\<close> of \<open>read\<close>.
\<close>

definition as_store :: "js \<Rightarrow> freq_store res" where
  "as_store v = (case v of JObj es \<Rightarrow> mapM_res as_freq es | JNull \<Rightarrow> Inl TypeError | _ \<Rightarrow> Inl Unrepresentable)"

definition read_frecency :: "storage \<Rightarrow> freq_store res" where
  "read_frecency st =
     as_store
       (catch_res
         (bind_res (get_item st frecency_KEY)
           (\<lambda>v. case v of None \<Rightarrow> Inr (JObj []) | Some x \<Rightarrow> json_parse x))
         (JObj []))"

definition recency :: "rat \<Rightarrow> rat" where
  "recency ageMs =
     (let hours = ageMs / 3600000 in
      if hours < 1 then 4 else if hours < 24 then 2 else if hours < 24 * 7 then 1 else 2 / 5)"

definition score :: "rat \<Rightarrow> freq \<Rightarrow> rat" where
  "score now e = fq_n e * recency (now - fq_last e)"

definition scoresAt :: "freq_store \<Rightarrow> rat \<Rightarrow> rat jobj" where
  "scoresAt store now = obj_of (map (\<lambda>(i, e). (i, score now e)) store)"

definition frecencyScores :: "rat \<Rightarrow> storage \<Rightarrow> rat jobj res" where
  "frecencyScores now st = map_res (\<lambda>store. scoresAt store now) (read_frecency st)"

definition bump :: "rat \<Rightarrow> string \<Rightarrow> freq_store \<Rightarrow> freq_store" where
  "bump now i store =
     (let prev = (case obj_get store i of None \<Rightarrow> \<lparr>fq_n = 0, fq_last = 0\<rparr> | Some e \<Rightarrow> e)
      in obj_put store i \<lparr>fq_n = fq_n prev + 1, fq_last = now\<rparr>)"

definition score_of :: "rat jobj \<Rightarrow> string \<Rightarrow> rat" where
  "score_of scores k = (case obj_get scores k of None \<Rightarrow> 0 | Some x \<Rightarrow> x)"

definition evicted :: "rat \<Rightarrow> freq_store \<Rightarrow> string list" where
  "evicted now store =
     (let ids = obj_keys store in
      if length ids > frecency_CAP
      then take (length ids - frecency_CAP) (sort_key (score_of (scoresAt store now)) ids) else [])"

definition store_value :: "freq_store \<Rightarrow> js" where
  "store_value store = JObj (map (\<lambda>(i, e). (i, freq_value e)) store)"

definition recordPick :: "rat \<Rightarrow> string \<Rightarrow> storage \<Rightarrow> storage res" where
  "recordPick now i st =
     map_res
       (\<lambda>store0. let store = bump now i store0
                 in try_set_item st frecency_KEY
                      (json_stringify (store_value (foldl obj_delete store (evicted now store)))))
       (read_frecency st)"

subsection \<open>The table is bounded and keeps the best\<close>

lemma obj_keys_delete: "obj_keys (obj_delete ob k) = filter (\<lambda>j. j \<noteq> k) (obj_keys ob)"
  by (induction ob) (auto simp: obj_keys_def obj_delete_def)

lemma obj_keys_delete_all: "obj_keys (foldl obj_delete ob ks) = filter (\<lambda>j. j \<notin> set ks) (obj_keys ob)"
  by (induction ks arbitrary: ob) (auto simp: obj_keys_delete intro: filter_cong)

lemma length_filter_notin:
  assumes "distinct xs" and "distinct ks" and "set ks \<subseteq> set xs"
  shows "length (filter (\<lambda>j. j \<notin> set ks) xs) = length xs - length ks"
proof -
  have "card (set (filter (\<lambda>j. j \<notin> set ks) xs)) = length (filter (\<lambda>j. j \<notin> set ks) xs)"
    using assms(1) by (intro distinct_card distinct_filter)
  moreover have "set (filter (\<lambda>j. j \<notin> set ks) xs) = set xs - set ks" by auto
  ultimately show ?thesis using assms by (simp add: card_Diff_subset distinct_card)
qed

lemma bump_get:
  "obj_get (bump now i store) i =
     Some \<lparr>fq_n = (case obj_get store i of None \<Rightarrow> 0 | Some e \<Rightarrow> fq_n e) + 1, fq_last = now\<rparr>"
  "j \<noteq> i \<Longrightarrow> obj_get (bump now i store) j = obj_get store j"
  by (simp_all add: bump_def obj_laws Let_def split: option.split)

lemma bump_wf: "obj_wf store \<Longrightarrow> obj_wf (bump now i store)"
  by (simp add: bump_def Let_def obj.wf_put)

lemma evicted_subset: "obj_wf store \<Longrightarrow> distinct (evicted now store) \<and> set (evicted now store) \<subseteq> set (obj_keys store)"
  by (auto simp: evicted_def Let_def obj_wf_def dest: in_set_takeD)

lemma length_evicted: "length (evicted now store) = length (obj_keys store) - frecency_CAP"
  by (simp add: evicted_def Let_def)

lemma kept_bounded:
  assumes "obj_wf store"
  shows "length (obj_keys (foldl obj_delete store (evicted now store))) \<le> frecency_CAP"
proof -
  have "length (obj_keys (foldl obj_delete store (evicted now store))) =
      length (obj_keys store) - (length (obj_keys store) - frecency_CAP)"
    using length_filter_notin [of "obj_keys store" "evicted now store"] evicted_subset [OF assms] assms
    by (simp add: obj_keys_delete_all length_evicted obj_wf_def)
  then show ?thesis by simp
qed

lemma score_of_scoresAt:
  assumes "obj_wf store"
  shows "score_of (scoresAt store now) k = (case obj_get store k of None \<Rightarrow> 0 | Some e \<Rightarrow> score now e)"
proof -
  have "distinct (map fst (map (\<lambda>(i, e). (i, score now e)) store))"
    using assms by (simp add: obj_wf_def obj_keys_def comp_def case_prod_unfold)
  then have "obj_get (scoresAt store now) k = map_of (map (\<lambda>(i, e). (i, score now e)) store) k"
    unfolding scoresAt_def obj_get_of
    by (metis (no_types, lifting) distinct_rev map_of_inject_set rev_map set_rev)
  also have "\<dots> = map_option (score now) (obj_get store k)"
    by (simp add: obj_get_def map_of_map)
  finally show ?thesis by (simp add: score_of_def split: option.splits)
qed

lemma sorted_take_drop:
  assumes "sorted (map f xs)" and "x \<in> set (take n xs)" and "y \<in> set (drop n xs)"
  shows "f x \<le> f y"
proof -
  have "sorted (map f (take n xs @ drop n xs))" using assms(1) by simp
  with assms(2,3) show ?thesis by (simp only: map_append sorted_append) auto
qed

lemma evicts_least:
  assumes "obj_wf store" and x: "x \<in> set (evicted now store)"
    and y: "y \<in> set (obj_keys store)" "y \<notin> set (evicted now store)"
  shows "score_of (scoresAt store now) x \<le> score_of (scoresAt store now) y"
proof -
  let ?ids = "sort_key (score_of (scoresAt store now)) (obj_keys store)"
  let ?n = "length (obj_keys store) - frecency_CAP"
  have ev: "evicted now store = take ?n ?ids"
    using x by (auto simp: evicted_def Let_def split: if_splits)
  have "y \<in> set (take ?n ?ids @ drop ?n ?ids)" using y(1) by simp
  then have "y \<in> set (drop ?n ?ids)" using y(2) ev by (simp only: set_append) blast
  then show ?thesis
    using sorted_take_drop [of "score_of (scoresAt store now)" ?ids x ?n y] x ev by simp
qed

subsection \<open>Reading back\<close>

lemma json_norm_store [simp]: "json_norm (store_value store) = store_value store"
proof -
  have "filter (\<lambda>(k, v). \<not> json_absent v) (map (\<lambda>(i, e). (i, freq_value e)) store) =
      map (\<lambda>(i, e). (i, freq_value e)) store"
    by (auto simp: filter_id_conv json_absent_def freq_value_def)
  moreover have "json_norm (freq_value e) = freq_value e" for e
    by (simp add: freq_value_def json_absent_def)
  ultimately show ?thesis by (simp add: store_value_def comp_def case_prod_unfold)
qed

lemma as_store_value [simp]: "as_store (store_value store) = Inr store"
proof -
  have "mapM_res as_freq (map (\<lambda>(i, e). (i, freq_value e)) store) = Inr store"
    by (induction store) (auto simp: as_freq_def freq_value_def obj_get_def)
  then show ?thesis by (simp add: as_store_def store_value_def)
qed

lemma read_recordPick:
  assumes "st_usable st" and "read_frecency st = Inr store0" and "recordPick now i st = Inr st'"
  shows "read_frecency st' = Inr (foldl obj_delete (bump now i store0) (evicted now (bump now i store0)))"
  using assms by (auto simp: recordPick_def Let_def read_frecency_def [of "try_set_item _ _ _"] ls.read_write
      json_stringify_def json_parse_def)

lemma recordPick_counts:
  assumes "st_usable st" and "read_frecency st = Inr store0" and "obj_wf store0"
    and "recordPick now i st = Inr st'" and "length (obj_keys (bump now i store0)) \<le> frecency_CAP"
  shows "read_frecency st' = Inr (bump now i store0)"
  using read_recordPick [OF assms(1,2,4)] assms(5) by (simp add: evicted_def Let_def)

lemma frecencyScores_null:
  "st_readable st \<Longrightarrow> st_items st frecency_KEY = Some (Json JNull) \<Longrightarrow> frecencyScores now st = Inl TypeError"
  by (simp add: frecencyScores_def read_frecency_def get_item_def json_parse_def as_store_def)

lemma recency_antimono: "x \<le> y \<Longrightarrow> recency y \<le> recency x"
  by (auto simp: recency_def Let_def)

end
