(* ===== verification/I18n.thy ===== *)
theory I18n
  imports Js_Value
begin

text \<open>
  The translator of \<^verbatim>\<open>i18n.tsx\<close>: a small ICU MessageFormat evaluator and the catalog lookup.
  \<open>format\<close> and \<open>formatArg\<close> call each other on the arms of a plural or select; the recursion
  has fuel here and \<open>format_enough\<close> shows that one more than the number of opening braces is
  enough. What the code takes from the runtime is in the record \<open>intl\<close>: the plural rules, the
  decimal text of a number that is no integer, and the number a text reads as.
\<close>

record intl =
  il_plural :: "string \<Rightarrow> js_num \<Rightarrow> string"
  il_decimal :: "rat \<Rightarrow> string"
  il_number :: "string \<Rightarrow> js_num"

type_synonym vars = "js jobj"

definition num_text :: "intl \<Rightarrow> js_num \<Rightarrow> string" where
  "num_text il n =
     (case n of
        Fin q \<Rightarrow> if is_integer_num n then show_int \<lfloor>q\<rfloor> else il_decimal il q
      | NaN \<Rightarrow> ''NaN''
      | Infinite neg \<Rightarrow> if neg then ''-Infinity'' else ''Infinity'')"

text \<open>\<open>String(v)\<close> and \<open>Number(v)\<close> on what \<open>Vars\<close> holds, strings and numbers, or \<open>undefined\<close>.\<close>

definition js_text :: "intl \<Rightarrow> js option \<Rightarrow> string" where
  "js_text il v =
     (case v of
        None \<Rightarrow> ''undefined''
      | Some (JStr s) \<Rightarrow> s
      | Some (JNum n) \<Rightarrow> num_text il n
      | Some (JBool b) \<Rightarrow> if b then ''true'' else ''false''
      | Some JNull \<Rightarrow> ''null''
      | Some _ \<Rightarrow> ''undefined'')"

definition js_number :: "intl \<Rightarrow> js option \<Rightarrow> js_num" where
  "js_number il v =
     (case v of
        Some (JNum n) \<Rightarrow> n
      | Some (JStr s) \<Rightarrow> il_number il s
      | Some JNull \<Rightarrow> Fin 0
      | Some (JBool b) \<Rightarrow> Fin (if b then 1 else 0)
      | _ \<Rightarrow> NaN)"

section \<open>Braces and arms\<close>

fun match_from :: "string \<Rightarrow> int \<Rightarrow> nat \<Rightarrow> nat" where
  "match_from [] depth i = i"
| "match_from (c # s) depth i =
     (if c = CHR ''{'' then match_from s (depth + 1) (i + 1)
      else if c = CHR ''}'' then (if depth - 1 = 0 then i else match_from s (depth - 1) (i + 1))
      else match_from s depth (i + 1))"

definition matchBrace :: "string \<Rightarrow> nat \<Rightarrow> nat" where
  "matchBrace txt open_at = match_from (drop open_at txt) 0 open_at"

definition skip_while :: "(char \<Rightarrow> bool) \<Rightarrow> string \<Rightarrow> nat \<Rightarrow> nat" where
  "skip_while P s i = i + length (takeWhile P (drop i s))"

record arm =
  arm_key :: string
  arm_message :: string

lemma match_from_ge: "i \<le> match_from s depth i"
  by (induction s depth i rule: match_from.induct) (auto intro: Suc_leD)

lemma match_from_le: "match_from s depth i \<le> i + length s"
  by (induction s depth i rule: match_from.induct) auto

lemma matchBrace_ge: "open_at \<le> matchBrace txt open_at"
  by (simp add: matchBrace_def match_from_ge)

lemma matchBrace_gt: "js_get txt i = Some CHR ''{'' \<Longrightarrow> i < matchBrace txt i"
proof -
  assume "js_get txt i = Some CHR ''{''"
  then have "drop i txt = CHR ''{'' # drop (Suc i) txt"
    by (metis Cons_nth_drop_Suc js_get_eq_Some)
  then have "matchBrace txt i = match_from (drop (Suc i) txt) 1 (Suc i)" by (simp add: matchBrace_def)
  with match_from_ge [of "Suc i" "drop (Suc i) txt" 1] show ?thesis by simp
qed

lemma skip_while_ge: "i \<le> skip_while P s i"
  by (simp add: skip_while_def)

function arms_from :: "string \<Rightarrow> nat \<Rightarrow> arm list" where
  "arms_from body i =
     (if i < length body then
        (let i1 = skip_while is_space body i;
             i2 = skip_while (\<lambda>c. c \<noteq> CHR ''{'' \<and> \<not> is_space c) body i1;
             i3 = skip_while is_space body i2 in
         if js_get body i3 \<noteq> Some CHR ''{'' then []
         else (let close_at = matchBrace body i3 in
               \<lparr>arm_key = slice body i1 i2, arm_message = slice body (i3 + 1) close_at\<rparr>
                 # arms_from body (close_at + 1)))
      else [])"
  by pat_completeness auto
termination
proof (relation "measure (\<lambda>(body, i). length body - i)", goal_cases)
  case (2 body i i1 i2 i3 c)
  have "i \<le> i3" using 2 skip_while_ge by (metis le_trans)
  moreover have "i3 \<le> c" using 2 matchBrace_ge by simp
  ultimately show ?case using 2(1) by simp
qed simp

declare arms_from.simps [simp del]

definition parseArms :: "string \<Rightarrow> arm list" where
  "parseArms body = arms_from body 0"

section \<open>Formatting\<close>

definition find_arm :: "string \<Rightarrow> arm list \<Rightarrow> arm option" where
  "find_arm k arms = find (\<lambda>a. arm_key a = k) arms"

definition or_else :: "'a option \<Rightarrow> 'a option \<Rightarrow> 'a option" where
  "or_else x y = (case x of None \<Rightarrow> y | Some _ \<Rightarrow> x)"

definition replace_hash :: "string \<Rightarrow> string \<Rightarrow> string" where
  "replace_hash by_what s = concat (map (\<lambda>c. if c = CHR ''#'' then by_what else [c]) s)"

text \<open>
  \<open>rec\<close> is \<open>format\<close> on the remaining fuel. A missing second comma makes \<open>c2\<close> be \<open>-1\<close>: the
  kind is then cut one character short and the arms are read from the whole body.
\<close>

definition formatArg ::
  "(string \<Rightarrow> string option) \<Rightarrow> intl \<Rightarrow> string \<Rightarrow> vars \<Rightarrow> string \<Rightarrow> string option" where
  "formatArg rec il inner vs lang =
     (case index_of '','' inner of
        None \<Rightarrow>
          (let name = trim inner in
           Some (if has_key vs name then js_text il (obj_get vs name) else ''{'' @ name @ ''}''))
      | Some c1 \<Rightarrow>
          (let name = trim (slice inner 0 c1);
               c2 = index_of_from '','' inner (c1 + 1);
               kind = trim (slice inner (c1 + 1) (case c2 of Some j \<Rightarrow> j | None \<Rightarrow> length inner - 1));
               arms = parseArms (case c2 of Some j \<Rightarrow> drop (j + 1) inner | None \<Rightarrow> inner);
               value = obj_get vs name in
           if kind = ''plural'' then
             (let n = js_number il value in
              case or_else (find_arm (''='' @ num_text il n) arms)
                     (or_else (find_arm (il_plural il lang n) arms) (find_arm ''other'' arms)) of
                Some a \<Rightarrow> rec (replace_hash (num_text il n) (arm_message a))
              | None \<Rightarrow> Some '''')
           else if kind = ''select'' then
             (case or_else (find_arm (js_text il value) arms) (find_arm ''other'' arms) of
                Some a \<Rightarrow> rec (arm_message a)
              | None \<Rightarrow> Some '''')
           else Some ''''))"

definition app_opt :: "string \<Rightarrow> string option \<Rightarrow> string option" where
  "app_opt x r = map_option ((@) x) r"

lemma index_of_from_ge: "index_of_from p s from = Some e \<Longrightarrow> min from (length s) \<le> e"
  by (auto simp: index_of_from_def)

function format_loop ::
  "(string \<Rightarrow> string option) \<Rightarrow> intl \<Rightarrow> vars \<Rightarrow> string \<Rightarrow> string \<Rightarrow> nat \<Rightarrow> string option" where
  "format_loop rec il vs lang message i =
     (if i < length message then
        (let ch = message ! i in
         if ch = CHR 0x27 then
           (if js_get message (i + 1) = Some CHR 0x27
            then app_opt [CHR 0x27] (format_loop rec il vs lang message (i + 2))
            else (case index_of_from [CHR 0x27] message (i + 1) of
                    None \<Rightarrow> Some (drop (i + 1) message)
                  | Some e \<Rightarrow> app_opt (slice message (i + 1) e)
                      (format_loop rec il vs lang message (e + 1))))
         else if ch = CHR ''{'' then
           (let close_at = matchBrace message i in
            case formatArg rec il (slice message (i + 1) close_at) vs lang of
              None \<Rightarrow> None
            | Some x \<Rightarrow> app_opt x (format_loop rec il vs lang message (close_at + 1)))
         else app_opt [ch] (format_loop rec il vs lang message (i + 1)))
      else Some '''')"
  by pat_completeness auto
termination
  by (relation "measure (\<lambda>(rec, il, vs, lang, message, i). length message - i)")
    (auto intro!: diff_less_mono2 simp: less_Suc_eq_le matchBrace_ge dest: index_of_from_ge)

declare format_loop.simps [simp del]

primrec format :: "nat \<Rightarrow> intl \<Rightarrow> vars \<Rightarrow> string \<Rightarrow> string \<Rightarrow> string option" where
  "format 0 il vs lang message = None"
| "format (Suc fuel) il vs lang message =
     format_loop (format fuel il vs lang) il vs lang message 0"

definition braces :: "string \<Rightarrow> nat" where
  "braces s = length (filter (\<lambda>c. c = CHR ''{'') s)"

definition format_message :: "intl \<Rightarrow> vars \<Rightarrow> string \<Rightarrow> string \<Rightarrow> string option" where
  "format_message il vs lang message = format (Suc (braces message)) il vs lang message"

section \<open>Languages and catalogs\<close>

definition LANGS :: "string jobj" where
  "LANGS = [(''en'', ''English''), (''it'', ''Italiano'')]"

definition lang_KEY :: string where
  "lang_KEY = ''flusso-design.lang''"

definition initialLang :: "storage \<Rightarrow> string" where
  "initialLang st =
     (case get_item st lang_KEY of
        Inr (Some (Text s)) \<Rightarrow> if s \<noteq> [] \<and> has_key LANGS s then s else ''en''
      | _ \<Rightarrow> ''en'')"

definition setLang :: "string \<Rightarrow> storage \<Rightarrow> string \<times> storage" where
  "setLang new st = (new, try_set_item st lang_KEY (Text new))"

type_synonym catalogs = "string jobj jobj"

definition message_of :: "catalogs \<Rightarrow> string \<Rightarrow> string \<Rightarrow> string" where
  "message_of cats lang key =
     (case (case obj_get cats lang of None \<Rightarrow> None | Some c \<Rightarrow> obj_get c key) of
        Some m \<Rightarrow> m
      | None \<Rightarrow>
          (case (case obj_get cats ''en'' of None \<Rightarrow> None | Some c \<Rightarrow> obj_get c key) of
             Some m \<Rightarrow> m | None \<Rightarrow> key))"

definition t_of :: "intl \<Rightarrow> catalogs \<Rightarrow> string \<Rightarrow> string \<Rightarrow> vars \<Rightarrow> string option" where
  "t_of il cats lang key vs = format_message il vs lang (message_of cats lang key)"

section \<open>The evaluator always answers\<close>

lemma braces_append [simp]: "braces (xs @ ys) = braces xs + braces ys"
  by (simp add: braces_def)

lemma braces_take_le: "braces (take n s) \<le> braces s"
  using braces_append [of "take n s" "drop n s"] by simp

lemma braces_drop_le: "braces (drop n s) \<le> braces s"
  using braces_append [of "take n s" "drop n s"] by simp

lemma braces_slice_le: "braces (slice s i j) \<le> braces s"
  unfolding slice_def by (rule le_trans [OF braces_take_le braces_drop_le])

lemma braces_slice_less:
  assumes "js_get s i = Some CHR ''{''" and "i < j"
  shows "braces (slice s j k) < braces s"
proof -
  have i: "i < length s" "s ! i = CHR ''{''" using assms(1) by (auto simp: js_get_eq_Some)
  have "drop i s = CHR ''{'' # drop (Suc i) s" using i by (metis Cons_nth_drop_Suc)
  then have "braces (drop (Suc i) s) < braces (drop i s)" by (simp add: braces_def)
  moreover have "braces (slice s j k) \<le> braces (drop (Suc i) s)"
  proof -
    have "slice s j k = slice (drop (Suc i) s) (j - Suc i) (k - Suc i)"
      using assms(2) by (auto simp: slice_def)
    then show ?thesis by (simp add: braces_slice_le)
  qed
  ultimately show ?thesis using braces_drop_le [of i s] by simp
qed

lemma arms_from_braces: "a \<in> set (arms_from body i) \<Longrightarrow> braces (arm_message a) \<le> braces body"
proof (induction body i rule: arms_from.induct)
  case (1 body i)
  show ?case
    using "1.prems" "1.IH"
    by (subst (asm) arms_from.simps) (auto simp: Let_def braces_slice_le split: if_splits)
qed

lemma find_arm_mem: "find_arm k arms = Some a \<Longrightarrow> a \<in> set arms"
  by (auto simp: find_arm_def find_Some_iff)

lemma or_else_Some: "or_else x y = Some a \<longleftrightarrow> x = Some a \<or> (x = None \<and> y = Some a)"
  by (cases x) (auto simp: or_else_def)

lemma braces_replace_hash: "CHR ''{'' \<notin> set by_what \<Longrightarrow> braces (replace_hash by_what s) = braces s"
proof -
  assume "CHR ''{'' \<notin> set by_what"
  then have "filter (\<lambda>c. c = CHR ''{'') by_what = []" by (auto simp: filter_empty_conv)
  then show ?thesis
    by (induction s) (simp_all add: replace_hash_def braces_def filter_concat comp_def)
qed

definition intl_ok :: "intl \<Rightarrow> bool" where
  "intl_ok il \<longleftrightarrow> (\<forall>q. CHR ''{'' \<notin> set (il_decimal il q))"

lemma brace_no_digit: "\<not> is_digit CHR ''{''"
  by (simp add: is_digit_def code_unit_def)

lemma num_text_no_brace: "intl_ok il \<Longrightarrow> CHR ''{'' \<notin> set (num_text il n)"
  using show_nat_no_char [OF brace_no_digit]
  by (auto simp: num_text_def intl_ok_def show_int_def split: js_num.splits)

lemma if_not_None: "(b \<Longrightarrow> x \<noteq> None) \<Longrightarrow> (\<not> b \<Longrightarrow> y \<noteq> None) \<Longrightarrow> (if b then x else y) \<noteq> None"
  by simp

lemma formatArg_answers:
  assumes "intl_ok il" and rec: "\<And>m. braces m \<le> braces inner \<Longrightarrow> rec m \<noteq> None"
  shows "formatArg rec il inner vs lang \<noteq> None"
proof -
  have arms: "rec (arm_message a) \<noteq> None" "rec (replace_hash (num_text il n) (arm_message a)) \<noteq> None"
    if "a \<in> set (parseArms body)" and "braces body \<le> braces inner" for a body n
    using that arms_from_braces [of a body 0] num_text_no_brace [OF assms(1)]
    by (intro rec; simp add: parseArms_def braces_replace_hash del: not_None_eq)+
  show ?thesis
  proof (cases "index_of '','' inner")
    case None
    then show ?thesis by (simp add: formatArg_def Let_def)
  next
    case (Some c1)
    let ?body = "case index_of_from '','' inner (c1 + 1) of Some j \<Rightarrow> drop (j + 1) inner | None \<Rightarrow> inner"
    have body: "braces ?body \<le> braces inner" by (simp add: braces_drop_le split: option.split)
    have plural: "(case y of Some a \<Rightarrow> rec (replace_hash (num_text il n) (arm_message a)) | None \<Rightarrow> Some '''') \<noteq> None"
      and select: "(case y of Some a \<Rightarrow> rec (arm_message a) | None \<Rightarrow> Some '''') \<noteq> None"
      if "\<And>a. y = Some a \<Longrightarrow> a \<in> set (parseArms ?body)" for y n
      using arms [OF that body] by (cases y; simp del: not_None_eq)+
    have mem: "or_else (find_arm k1 (parseArms ?body)) y = Some a \<Longrightarrow>
        (\<And>a. y = Some a \<Longrightarrow> a \<in> set (parseArms ?body)) \<Longrightarrow> a \<in> set (parseArms ?body)" for k1 y a
      by (auto simp: or_else_Some dest: find_arm_mem)
    have p: "or_else (find_arm k1 (parseArms ?body)) (or_else (find_arm k2 (parseArms ?body)) (find_arm k3 (parseArms ?body))) = Some a \<Longrightarrow>
        a \<in> set (parseArms ?body)" for k1 k2 k3 a
      by (erule mem, erule mem, rule find_arm_mem)
    have q: "or_else (find_arm k1 (parseArms ?body)) (find_arm k2 (parseArms ?body)) = Some a \<Longrightarrow>
        a \<in> set (parseArms ?body)" for k1 k2 a
      by (erule mem, rule find_arm_mem)
    show ?thesis
      unfolding formatArg_def Let_def Some option.case
      by (intro if_not_None plural [OF p] select [OF q] option.distinct(2))
  qed
qed

lemma app_opt_None [simp]: "app_opt x r = None \<longleftrightarrow> r = None"
  by (simp add: app_opt_def)

lemma format_step:
  assumes "i < length message"
  shows "message ! i = CHR 0x27 \<Longrightarrow> js_get message (i + 1) = Some CHR 0x27 \<Longrightarrow>
      format_loop rec il vs lang message i = app_opt [CHR 0x27] (format_loop rec il vs lang message (i + 2))"
    and "message ! i = CHR 0x27 \<Longrightarrow> js_get message (i + 1) \<noteq> Some CHR 0x27 \<Longrightarrow>
      index_of_from [CHR 0x27] message (i + 1) = None \<Longrightarrow>
      format_loop rec il vs lang message i = Some (drop (i + 1) message)"
    and "message ! i = CHR 0x27 \<Longrightarrow> js_get message (i + 1) \<noteq> Some CHR 0x27 \<Longrightarrow>
      index_of_from [CHR 0x27] message (i + 1) = Some e \<Longrightarrow>
      format_loop rec il vs lang message i =
        app_opt (slice message (i + 1) e) (format_loop rec il vs lang message (e + 1))"
    and "message ! i = CHR ''{'' \<Longrightarrow>
      format_loop rec il vs lang message i =
        (case formatArg rec il (slice message (i + 1) (matchBrace message i)) vs lang of
           None \<Rightarrow> None
         | Some x \<Rightarrow> app_opt x (format_loop rec il vs lang message (matchBrace message i + 1)))"
    and "message ! i \<noteq> CHR 0x27 \<Longrightarrow> message ! i \<noteq> CHR ''{'' \<Longrightarrow>
      format_loop rec il vs lang message i = app_opt [message ! i] (format_loop rec il vs lang message (i + 1))"
  using assms by (subst format_loop.simps; simp add: Let_def)+

lemma format_cases:
  obtains "message ! i = CHR 0x27" "js_get message (i + 1) = Some CHR 0x27"
  | "message ! i = CHR 0x27" "js_get message (i + 1) \<noteq> Some CHR 0x27" "index_of_from [CHR 0x27] message (i + 1) = None"
  | e where "message ! i = CHR 0x27" "js_get message (i + 1) \<noteq> Some CHR 0x27"
      "index_of_from [CHR 0x27] message (i + 1) = Some e"
  | "message ! i = CHR ''{''"
  | "message ! i \<noteq> CHR 0x27" "message ! i \<noteq> CHR ''{''"
  by (metis not_None_eq)

lemma format_loop_answers:
  assumes "intl_ok il" and rec: "\<And>m. braces m < braces message \<Longrightarrow> rec m \<noteq> None"
  shows "format_loop rec il vs lang message i \<noteq> None"
proof (induction "length message - i" arbitrary: i rule: less_induct)
  case less
  show ?case
  proof (cases "i < length message")
    case False
    then show ?thesis by (subst format_loop.simps) simp
  next
    case True
    have IH: "format_loop rec il vs lang message j \<noteq> None" if "i < j" for j
      using less that True by simp
    have arg: "formatArg rec il (slice message (i + 1) k) vs lang \<noteq> None" if "message ! i = CHR ''{''" for k
      using formatArg_answers [OF assms(1)] rec braces_slice_less [of message i "i + 1" k] that True
      by (metis js_get_def le_less_trans less_add_one)
    have close: "i < matchBrace message i + 1" using matchBrace_ge [of i message] by simp
    have quote: "i < Suc e" if "index_of_from [CHR 0x27] message (Suc i) = Some e" for e
      using index_of_from_ge [OF that] True by simp
    show ?thesis
    proof (rule format_cases [of message i])
      assume br: "message ! i = CHR ''{''"
      with arg obtain x where "formatArg rec il (slice message (i + 1) (matchBrace message i)) vs lang = Some x" by blast
      with IH [OF close] show ?thesis unfolding format_step(4) [OF True br] by (simp del: not_None_eq)
    qed (simp_all add: format_step [OF True] IH quote del: not_None_eq)
  qed
qed

lemma format_answers: "intl_ok il \<Longrightarrow> braces message < fuel \<Longrightarrow> format fuel il vs lang message \<noteq> None"
proof (induction fuel arbitrary: message)
  case (Suc fuel)
  show ?case
    unfolding format.simps
  proof (rule format_loop_answers [OF Suc.prems(1)])
    fix m
    assume "braces m < braces message"
    then show "format fuel il vs lang m \<noteq> None" using Suc.prems by (intro Suc.IH) simp_all
  qed
qed simp

lemma format_message_answers: "intl_ok il \<Longrightarrow> \<exists>x. format_message il vs lang message = Some x"
  using format_answers [of il message "Suc (braces message)"] by (auto simp: format_message_def)

text \<open>More fuel gives the same text.\<close>

lemma call_form:
  "(\<exists>c. \<forall>r. (if P then (case A of Some a \<Rightarrow> r (f a) | None \<Rightarrow> Some '''')
      else if Q then (case B of Some a \<Rightarrow> r (g a) | None \<Rightarrow> Some '''') else Some '''') = c) \<or>
   (\<exists>m. \<forall>r. (if P then (case A of Some a \<Rightarrow> r (f a) | None \<Rightarrow> Some '''')
      else if Q then (case B of Some a \<Rightarrow> r (g a) | None \<Rightarrow> Some '''') else Some '''') = r m)"
  by (cases P; cases Q; cases A; cases B) auto

lemma formatArg_form:
  "(\<exists>c. \<forall>r. formatArg r il inner vs lang = c) \<or> (\<exists>m. \<forall>r. formatArg r il inner vs lang = r m)"
proof (cases "index_of '','' inner")
  case (Some c1)
  show ?thesis unfolding formatArg_def Let_def Some option.case by (rule call_form)
qed (simp add: formatArg_def Let_def)

lemma formatArg_mono:
  assumes "formatArg r1 il inner vs lang = Some x" and "\<And>m y. r1 m = Some y \<Longrightarrow> r2 m = Some y"
  shows "formatArg r2 il inner vs lang = Some x"
  using assms formatArg_form [of il inner vs lang] by metis

lemma app_opt_Some: "app_opt x r = Some y \<longleftrightarrow> (\<exists>z. r = Some z \<and> y = x @ z)"
  by (auto simp: app_opt_def)

lemma format_loop_mono:
  assumes mono: "\<And>m y. r1 m = Some y \<Longrightarrow> r2 m = Some y"
  shows "format_loop r1 il vs lang message i = Some x \<Longrightarrow> format_loop r2 il vs lang message i = Some x"
proof (induction "length message - i" arbitrary: i x rule: less_induct)
  case less
  show ?case
  proof (cases "i < length message")
    case False
    with less.prems show ?thesis by (subst (asm) format_loop.simps, subst format_loop.simps) simp
  next
    case True
    have IH: "format_loop r1 il vs lang message j = Some y \<Longrightarrow> format_loop r2 il vs lang message j = Some y"
      if "i < j" for j y using less.hyps that True by simp
    have close: "i < matchBrace message i + 1" using matchBrace_ge [of i message] by simp
    have quote: "i < Suc e" if "index_of_from [CHR 0x27] message (Suc i) = Some e" for e
      using index_of_from_ge [OF that] True by simp
    note arg = formatArg_mono [where ?r1.0 = r1 and ?r2.0 = r2, OF _ mono]
    show ?thesis
    proof (rule format_cases [of message i])
      assume br: "message ! i = CHR ''{''"
      from less.prems obtain y z where "formatArg r1 il (slice message (i + 1) (matchBrace message i)) vs lang = Some y"
        "format_loop r1 il vs lang message (matchBrace message i + 1) = Some z" "x = y @ z"
        unfolding format_step(4) [OF True br] by (auto simp: app_opt_Some split: option.splits)
      then show ?thesis
        unfolding format_step(4) [OF True br] using arg IH [OF close] by (simp add: app_opt_Some)
    qed (use less.prems in \<open>auto simp: format_step [OF True] app_opt_Some IH quote\<close>)
  qed
qed

lemma format_more_fuel: "format fuel il vs lang message = Some x \<Longrightarrow> format (Suc fuel) il vs lang message = Some x"
proof (induction fuel arbitrary: message x)
  case (Suc fuel)
  then show ?case
    using format_loop_mono [of "format fuel il vs lang" "format (Suc fuel) il vs lang" il vs lang message 0 x]
    by simp
qed simp

section \<open>What a message renders to\<close>

definition special :: "char \<Rightarrow> bool" where
  "special c \<longleftrightarrow> c = CHR 0x27 \<or> c = CHR ''{''"

text \<open>\<open>render\<close> from the loop's point of view: the text at \<open>i\<close> is the given suffix.\<close>

lemma app_opt_app: "app_opt x (app_opt y r) = app_opt (x @ y) r"
  by (cases r) (simp_all add: app_opt_def)

lemma format_loop_plain:
  assumes "\<forall>c \<in> set u. \<not> special c"
  shows "format_loop rec il vs lang (pre @ u @ s) (length pre) =
    app_opt u (format_loop rec il vs lang (pre @ u @ s) (length pre + length u))"
  using assms
proof (induction u arbitrary: pre)
  case Nil
  show ?case by (cases "format_loop rec il vs lang (pre @ [] @ s) (length pre)") (simp_all add: app_opt_def)
next
  case (Cons c u)
  have "format_loop rec il vs lang (pre @ (c # u) @ s) (length pre) =
      app_opt [c] (format_loop rec il vs lang (pre @ (c # u) @ s) (length pre + 1))"
    using Cons.prems by (subst format_step(5)) (simp_all add: special_def nth_append)
  also have "format_loop rec il vs lang (pre @ (c # u) @ s) (length pre + 1) =
      app_opt u (format_loop rec il vs lang (pre @ (c # u) @ s) (length pre + length (c # u)))"
    using Cons.IH [of "pre @ [c]"] Cons.prems by simp
  finally show ?case by (simp add: app_opt_app)
qed

lemma format_loop_end: "format_loop rec il vs lang message (length message) = Some ''''"
  by (subst format_loop.simps) simp

lemma format_plain:
  assumes "\<forall>c \<in> set message. \<not> special c"
  shows "format_message il vs lang message = Some message"
  using format_loop_plain [OF assms, of _ il vs lang "[]" "[]"] format_loop_end [of _ il vs lang message]
  by (simp add: format_message_def app_opt_def)

lemma match_from_simple:
  "\<forall>c \<in> set u. c \<noteq> CHR ''{'' \<and> c \<noteq> CHR ''}'' \<Longrightarrow> match_from (u @ CHR ''}'' # s) 1 i = i + length u"
  by (induction u arbitrary: i) auto

lemma index_of_absent: "c \<notin> set s \<Longrightarrow> index_of [c] s = None"
  by (induction s) (auto simp: starts_with_def)

text \<open>A bare argument between two plain texts.\<close>

lemma format_argument:
  assumes pre: "\<forall>c \<in> set pre. \<not> special c" and post: "\<forall>c \<in> set post. \<not> special c"
    and name: "\<forall>c \<in> set name. c \<noteq> CHR ''{'' \<and> c \<noteq> CHR ''}'' \<and> c \<noteq> CHR '',''"
    and trimmed: "trim name = name"
  shows "format_message il vs lang (pre @ ''{'' @ name @ ''}'' @ post) =
    Some (pre @ (if has_key vs name then js_text il (obj_get vs name) else ''{'' @ name @ ''}'') @ post)"
proof -
  let ?m = "pre @ ''{'' @ name @ ''}'' @ post"
  let ?L = "\<lambda>rec. format_loop rec il vs lang ?m"
  have lt: "length pre < length ?m" and br: "?m ! length pre = CHR ''{''" by simp_all
  have close: "matchBrace ?m (length pre) = length pre + 1 + length name"
    using match_from_simple [of name post "length pre + 1"] name by (simp add: matchBrace_def)
  have inner: "slice ?m (length pre + 1) (length pre + 1 + length name) = name"
    by (simp add: slice_def)
  have comma: "CHR '','' \<notin> set name" using name by blast
  have arg: "formatArg rec il name vs lang =
      Some (if has_key vs name then js_text il (obj_get vs name) else ''{'' @ name @ ''}'')" for rec
    by (simp add: formatArg_def Let_def index_of_absent [OF comma] trimmed)
  have step: "?L rec (length pre) =
      app_opt (if has_key vs name then js_text il (obj_get vs name) else ''{'' @ name @ ''}'')
        (?L rec (length pre + 1 + length name + 1))" for rec
    unfolding format_step(4) [OF lt br] close inner arg by simp
  have tail: "?L rec (length pre + 1 + length name + 1) = Some post" for rec
    using format_loop_plain [OF post, of rec il vs lang "pre @ ''{'' @ name @ ''}''" "[]"]
      format_loop_end [of rec il vs lang ?m] by (simp add: app_opt_def add.assoc)
  show ?thesis
    using format_loop_plain [OF pre, of _ il vs lang "[]" "''{'' @ name @ ''}'' @ post"] step tail
    by (simp add: format_message_def app_opt_def)
qed

lemma setLang_reload:
  "st_usable st \<Longrightarrow> has_key LANGS lang \<Longrightarrow> setLang lang st = (l, st') \<Longrightarrow> l = lang \<and> initialLang st' = lang"
  by (auto simp: setLang_def initialLang_def ls.read_write LANGS_def has_key_def obj_get_def split: if_splits)

lemma initialLang_known: "has_key LANGS (initialLang st)"
  by (auto simp: initialLang_def LANGS_def has_key_def obj_get_def split: sum.splits option.splits stored.splits)

lemma message_of_fallback:
  "\<not> (\<exists>c. obj_get cats lang = Some c \<and> has_key c key) \<Longrightarrow> message_of cats lang key = message_of cats ''en'' key"
  by (auto simp: message_of_def has_key_def split: option.splits)

definition plain_intl :: intl where
  "plain_intl =
     \<lparr>il_plural = (\<lambda>lang n. if n = Fin 1 then ''one'' else ''other''), il_decimal = (\<lambda>q. ''''),
      il_number = (\<lambda>s. Fin (of_nat (read_nat s)))\<rparr>"

lemma plural_example:
  "format_message plain_intl [(''n'', JNum (Fin 2))] ''en'' ''{n, plural, one {# file} other {# files}} saved'' =
     Some ''2 files saved''"
  by code_simp

end
