(* ===== verification/Router.thy ===== *)
theory Router
  imports Js_Prelude
begin

text \<open>
  \<^verbatim>\<open>router.ts\<close>: the path of what the main area shows. \<open>encodeURIComponent\<close> and
  \<open>decodeURIComponent\<close> are those of the standard on the modelled code units (a unit from 128
  is two UTF-8 bytes); an escape that decodes to anything beyond them is \<open>Unrepresentable\<close>,
  a malformed one throws.
\<close>

datatype route =
    Deployment
  | Tables
  | Index (r_name: string) (r_code: bool)

section \<open>URI components\<close>

definition unreserved :: "char \<Rightarrow> bool" where
  "unreserved c \<longleftrightarrow>
     (65 \<le> code_unit c \<and> code_unit c \<le> 90) \<or> (97 \<le> code_unit c \<and> code_unit c \<le> 122) \<or> is_digit c \<or>
     c \<in> set ''-_.!~*()'' \<or> c = CHR 0x27"

definition hex_digit :: "nat \<Rightarrow> char" where
  "hex_digit d = (if d < 10 then char_of (48 + d) else char_of (55 + d))"

definition hex_value :: "char \<Rightarrow> nat option" where
  "hex_value c =
     (let n = code_unit c in
      if 48 \<le> n \<and> n \<le> 57 then Some (n - 48)
      else if 65 \<le> n \<and> n \<le> 70 then Some (n - 55)
      else if 97 \<le> n \<and> n \<le> 102 then Some (n - 87) else None)"

definition percent :: "nat \<Rightarrow> string" where
  "percent b = [CHR ''%'', hex_digit (b div 16), hex_digit (b mod 16)]"

definition encode_char :: "char \<Rightarrow> string" where
  "encode_char c =
     (let n = code_unit c in
      if unreserved c then [c]
      else if n < 128 then percent n
      else percent (192 + n div 64) @ percent (128 + n mod 64))"

definition encodeURIComponent :: "string \<Rightarrow> string" where
  "encodeURIComponent s = concat (map encode_char s)"

fun read_escape :: "string \<Rightarrow> (nat \<times> string) option" where
  "read_escape (p # a # b # s) =
     (if p = CHR ''%'' then
        (case (hex_value a, hex_value b) of (Some x, Some y) \<Rightarrow> Some (16 * x + y, s) | _ \<Rightarrow> None)
      else None)"
| "read_escape _ = None"

lemma read_escape_shorter: "read_escape s = Some (b, s') \<Longrightarrow> length s' < length s"
  by (induction s rule: read_escape.induct) (auto split: option.splits if_splits)

text \<open>
  A first byte from 194 to 223 takes one continuation byte; longer sequences are code points
  outside the model, every other first byte is malformed.
\<close>

function decodeURIComponent :: "string \<Rightarrow> string res" where
  "decodeURIComponent [] = Inr []"
| "decodeURIComponent (c # s) =
     (if c \<noteq> CHR ''%'' then map_res (Cons c) (decodeURIComponent s)
      else case read_escape (c # s) of
        None \<Rightarrow> Inl UriError
      | Some (b, s1) \<Rightarrow>
          if b < 128 then map_res (Cons (char_of b)) (decodeURIComponent s1)
          else if 194 \<le> b \<and> b < 224 then
            (case read_escape s1 of
               None \<Rightarrow> Inl UriError
             | Some (b2, s2) \<Rightarrow>
                 if b2 < 128 \<or> 192 \<le> b2 then Inl UriError
                 else if 64 * (b - 192) + (b2 - 128) < 256
                 then map_res (Cons (char_of (64 * (b - 192) + (b2 - 128)))) (decodeURIComponent s2)
                 else Inl Unrepresentable)
          else if 224 \<le> b \<and> b < 245 then Inl Unrepresentable
          else Inl UriError)"
  by pat_completeness auto
termination
  by (relation "measure length") (auto dest!: read_escape_shorter)

section \<open>Routes\<close>

definition parseRoute :: "string \<Rightarrow> route option res" where
  "parseRoute pathname =
     map_res
       (\<lambda>parts.
          if js_get parts 0 = Some ''deployment'' then Some Deployment
          else if js_get parts 0 = Some ''tables'' then Some Tables
          else if js_get parts 0 = Some ''index'' then
            (case js_get parts 1 of
               Some name \<Rightarrow> if name \<noteq> '''' then Some (Index name (js_get parts 2 = Some ''code'')) else None
             | None \<Rightarrow> None)
          else None)
       (mapM_res decodeURIComponent
          (filter (\<lambda>p. p \<noteq> '''') (split_char CHR ''/'' (dropWhile (\<lambda>c. c = CHR ''/'') pathname))))"

definition formatRoute :: "route \<Rightarrow> string" where
  "formatRoute route =
     (case route of
        Deployment \<Rightarrow> ''/deployment''
      | Tables \<Rightarrow> ''/tables''
      | Index name code \<Rightarrow> ''/index/'' @ encodeURIComponent name @ (if code then ''/code'' else ''''))"

section \<open>Decoding undoes encoding\<close>

lemma code_unit_less [simp]: "code_unit c < 256"
  by (simp add: code_unit_def)

lemma char_of_code_unit [simp]: "char_of (code_unit c) = c"
  by (simp add: code_unit_def)

lemma code_unit_char_of: "n < 256 \<Longrightarrow> code_unit (char_of n) = n"
  by (simp add: code_unit_def)

lemma hex_value_digit: "d < 16 \<Longrightarrow> hex_value (hex_digit d) = Some d"
  by (auto simp: hex_digit_def hex_value_def code_unit_char_of Let_def)

lemma read_escape_percent: "b < 256 \<Longrightarrow> read_escape (percent b @ s) = Some (b, s)"
  by (simp add: percent_def hex_value_digit)

lemma percent_not_unreserved: "\<not> unreserved CHR ''%''"
  by (simp add: unreserved_def is_digit_def code_unit_def)

lemma decode_percent:
  "b < 256 \<Longrightarrow> decodeURIComponent (percent b @ s) =
     (if b < 128 then map_res (Cons (char_of b)) (decodeURIComponent s)
      else if 194 \<le> b \<and> b < 224 then
        (case read_escape s of
           None \<Rightarrow> Inl UriError
         | Some (b2, s2) \<Rightarrow>
             if b2 < 128 \<or> 192 \<le> b2 then Inl UriError
             else if 64 * (b - 192) + (b2 - 128) < 256
             then map_res (Cons (char_of (64 * (b - 192) + (b2 - 128)))) (decodeURIComponent s2)
             else Inl Unrepresentable)
      else if 224 \<le> b \<and> b < 245 then Inl Unrepresentable else Inl UriError)"
  using read_escape_percent [of b s] by (simp add: percent_def)

lemma decode_encode_char: "decodeURIComponent (encode_char c @ s) = map_res (Cons c) (decodeURIComponent s)"
proof -
  consider "unreserved c" | "\<not> unreserved c" "code_unit c < 128" | "\<not> unreserved c" "128 \<le> code_unit c"
    by linarith
  then show ?thesis
  proof cases
    case 1
    with percent_not_unreserved have "c \<noteq> CHR ''%''" by metis
    with 1 show ?thesis by (simp add: encode_char_def Let_def)
  next
    case 2
    then show ?thesis by (simp add: encode_char_def Let_def decode_percent)
  next
    case 3
    let ?n = "code_unit c"
    have n: "?n < 256" by simp
    have "?n div 64 < 4" using n less_mult_imp_div_less [of ?n 4 64] by simp
    then have hi: "194 \<le> 192 + ?n div 64" "192 + ?n div 64 < 224" using 3(2) by auto
    have lo: "128 \<le> 128 + ?n mod 64" "128 + ?n mod 64 < 192" by auto
    have "64 * (192 + ?n div 64 - 192) + (128 + ?n mod 64 - 128) = ?n" by simp
    moreover have "?n mod 64 < 64" by simp
    ultimately show ?thesis using hi lo
      using 3 mod_less_divisor [of 64 ?n]
      by (auto simp: encode_char_def Let_def decode_percent read_escape_percent simp del: mod_less_divisor)
  qed
qed

lemma decode_encode: "decodeURIComponent (encodeURIComponent s) = Inr s"
  by (induction s) (simp_all add: encodeURIComponent_def decode_encode_char)

lemma slash_not_encoded: "CHR ''/'' \<notin> set (encodeURIComponent s)"
proof -
  have hex: "hex_digit d \<noteq> CHR ''/''" if "d < 16" for d
  proof -
    have "code_unit (hex_digit d) \<noteq> 47" using that by (simp add: hex_digit_def code_unit_char_of)
    moreover have "code_unit CHR ''/'' = 47" by (simp add: code_unit_def)
    ultimately show ?thesis by metis
  qed
  have p: "CHR ''/'' \<notin> set (percent b)" if "b < 256" for b
    using that hex [of "b div 16"] hex [of "b mod 16"] less_mult_imp_div_less [of b 16 16]
    by (auto simp: percent_def)
  have "\<not> unreserved CHR ''/''" by (simp add: unreserved_def is_digit_def code_unit_def)
  then have "CHR ''/'' \<notin> set (encode_char c)" for c
    using p [of "code_unit c"] p [of "192 + code_unit c div 64"] p [of "128 + code_unit c mod 64"]
      code_unit_less [of c] less_mult_imp_div_less [of "code_unit c" 4 64]
    by (auto simp: encode_char_def Let_def)
  then show ?thesis by (simp add: encodeURIComponent_def)
qed

lemma encode_nonempty: "s \<noteq> [] \<Longrightarrow> encodeURIComponent s \<noteq> []"
  by (cases s) (auto simp: encodeURIComponent_def encode_char_def percent_def Let_def)

lemma decode_word: "CHR ''%'' \<notin> set s \<Longrightarrow> decodeURIComponent s = Inr s"
  by (induction s) auto

lemma parse_format_index:
  assumes "name \<noteq> ''''"
  shows "parseRoute (formatRoute (Index name code)) = Inr (Some (Index name code))"
proof -
  let ?e = "encodeURIComponent name"
  have "split_char CHR ''/'' (''index/'' @ ?e) = [''index'', ?e]"
    using split_char_append [of "CHR ''/''" "''index''" ?e] split_char_no_sep [OF slash_not_encoded [of name]]
    by simp
  moreover have "split_char CHR ''/'' (''index/'' @ ?e @ ''/code'') = [''index'', ?e, ''code'']"
    using split_char_append [of "CHR ''/''" "''index''" "?e @ ''/code''"]
      split_char_append [of "CHR ''/''" ?e "''code''"] slash_not_encoded [of name]
    by simp
  moreover have "decodeURIComponent ''index'' = Inr ''index''" "decodeURIComponent ''code'' = Inr ''code''"
    by (simp_all add: decode_word)
  ultimately show ?thesis
    using assms encode_nonempty [OF assms]
    by (cases code) (simp_all add: parseRoute_def formatRoute_def decode_encode js_get_def)
qed

lemma parse_format_views:
  "parseRoute (formatRoute Deployment) = Inr (Some Deployment)"
  "parseRoute (formatRoute Tables) = Inr (Some Tables)"
  by (simp_all add: parseRoute_def formatRoute_def)

lemma formatRoute_inject:
  "(\<forall>n c. r1 = Index n c \<longrightarrow> n \<noteq> '''') \<Longrightarrow> (\<forall>n c. r2 = Index n c \<longrightarrow> n \<noteq> '''') \<Longrightarrow>
     formatRoute r1 = formatRoute r2 \<Longrightarrow> r1 = r2"
proof -
  assume a: "\<forall>n c. r1 = Index n c \<longrightarrow> n \<noteq> ''''" "\<forall>n c. r2 = Index n c \<longrightarrow> n \<noteq> ''''"
    and eq: "formatRoute r1 = formatRoute r2"
  have "parseRoute (formatRoute r) = Inr (Some r)" if "\<forall>n c. r = Index n c \<longrightarrow> n \<noteq> ''''" for r
    using that parse_format_index parse_format_views by (cases r) auto
  with a eq show "r1 = r2" by (metis Inr_inject option.inject)
qed

text \<open>A hand-edited path with a stray percent sign makes the parser throw.\<close>

lemma parseRoute_malformed: "parseRoute ''/index/50%'' = Inl UriError"
  by (simp add: parseRoute_def)

end
