(* ===== verification/Layout.thy ===== *)
theory Layout
  imports Schema_Tree Js_Value
begin

text \<open>
  \<^verbatim>\<open>model/layout.ts\<close>: the tidy tree layout of the canvas and what is remembered per index
  (dragged positions, viewport, minimap). Coordinates are rationals, a node's height estimate
  is the function \<open>h\<close>. \<open>place\<close> recurses over the children map, which is any map for the code;
  it has fuel here, one more than the greatest depth, which \<open>layout_answers\<close> shows to be enough
  on a projected schema.
\<close>

type_synonym point = "rat \<times> rat"
type_synonym positions = "point jobj"

definition COL_W :: rat where "COL_W = 360"
definition GAP :: rat where "GAP = 28"

definition parent_key :: "doc_node \<Rightarrow> string" where
  "parent_key n = (case n_parentId n of None \<Rightarrow> '''' | Some p \<Rightarrow> p)"

definition group_by_parent :: "doc_node list \<Rightarrow> (string \<times> doc_node list) list" where
  "group_by_parent nodes =
     foldl (\<lambda>m n. map_set m (parent_key n)
                    ((case map_of m (parent_key n) of None \<Rightarrow> [] | Some ns \<Rightarrow> ns) @ [n])) [] nodes"

definition kids_of :: "(string \<times> doc_node list) list \<Rightarrow> doc_node \<Rightarrow> doc_node list" where
  "kids_of byParent n = (case map_of byParent (n_id n) of None \<Rightarrow> [] | Some ns \<Rightarrow> ns)"

primrec place ::
  "nat \<Rightarrow> (doc_node \<Rightarrow> doc_node list) \<Rightarrow> (doc_node \<Rightarrow> rat) \<Rightarrow> doc_node \<Rightarrow> rat \<Rightarrow> positions \<Rightarrow> (rat \<times> positions) option" where
  "place 0 kids h node top_y pos = None"
| "place (Suc fuel) kids h node top_y pos =
     (let x = of_nat (n_depth node) * COL_W; ownH = h node in
      if kids node = [] then Some (ownH, obj_put pos (n_id node) (x, top_y))
      else case foldl (\<lambda>st k. case st of
                   None \<Rightarrow> None
                 | Some (cursor, p) \<Rightarrow>
                     (case place fuel kids h k cursor p of
                        None \<Rightarrow> None
                      | Some (band, p') \<Rightarrow> Some (cursor + (band + GAP), p')))
               (Some (top_y, pos)) (kids node) of
          None \<Rightarrow> None
        | Some (cursor, p) \<Rightarrow>
            (let childrenSpan = cursor - GAP - top_y; band = max childrenSpan ownH
             in Some (band, obj_put p (n_id node) (x, top_y + (band - ownH) / 2))))"

definition max_depth :: "doc_node list \<Rightarrow> nat" where
  "max_depth nodes = foldl (\<lambda>d n. max d (n_depth n)) 0 nodes"

definition autoLayout :: "doc_node list \<Rightarrow> (doc_node \<Rightarrow> rat) \<Rightarrow> positions option" where
  "autoLayout nodes h =
     (case find (\<lambda>n. n_parentId n = None) nodes of
        None \<Rightarrow> Some []
      | Some root_node \<Rightarrow>
          map_option snd (place (Suc (max_depth nodes)) (kids_of (group_by_parent nodes)) h root_node 0 []))"

section \<open>What is remembered\<close>

definition layout_key :: "string \<Rightarrow> string" where
  "layout_key index = ''flusso-design.layout.'' @ index"

definition vpKey :: "string \<Rightarrow> string" where
  "vpKey index = ''flusso-design.viewport.'' @ index"

definition mapKey :: "string \<Rightarrow> string" where
  "mapKey index = ''flusso-design.minimap.'' @ index"

definition point_value :: "rat \<Rightarrow> rat \<Rightarrow> js" where
  "point_value x y = JObj [(''x'', JNum (Fin x)), (''y'', JNum (Fin y))]"

text \<open>The parsed JSON is used unchecked, so the overrides are a JavaScript value.\<close>

definition loadOverrides :: "string \<Rightarrow> storage \<Rightarrow> js" where
  "loadOverrides index st =
     catch_res
       (bind_res (get_item st (layout_key index))
          (\<lambda>v. case v of None \<Rightarrow> Inr (JObj []) | Some x \<Rightarrow> json_parse x))
       (JObj [])"

definition clearOverrides :: "string \<Rightarrow> storage \<Rightarrow> storage" where
  "clearOverrides index st = try_remove_item st (layout_key index)"

definition saveOverride :: "string \<Rightarrow> string \<Rightarrow> rat \<Rightarrow> rat \<Rightarrow> storage \<Rightarrow> storage res" where
  "saveOverride index i x y st =
     (case loadOverrides index st of
        JObj es \<Rightarrow> Inr (try_set_item st (layout_key index) (json_stringify (JObj (obj_put es i (point_value x y)))))
      | JNull \<Rightarrow> Inl TypeError
      | _ \<Rightarrow> Inl Unrepresentable)"

record viewport =
  vp_x :: rat
  vp_y :: rat
  vp_zoom :: rat

definition vp_value :: "viewport \<Rightarrow> js" where
  "vp_value vp = JObj [(''x'', JNum (Fin (vp_x vp))), (''y'', JNum (Fin (vp_y vp))), (''zoom'', JNum (Fin (vp_zoom vp)))]"

definition saveViewport :: "string \<Rightarrow> viewport \<Rightarrow> storage \<Rightarrow> storage" where
  "saveViewport index vp st = try_set_item st (vpKey index) (json_stringify (vp_value vp))"

definition loadViewport :: "string \<Rightarrow> storage \<Rightarrow> js" where
  "loadViewport index st =
     catch_res
       (bind_res (get_item st (vpKey index))
          (\<lambda>v. case v of None \<Rightarrow> Inr JNull | Some x \<Rightarrow> if x = Text '''' then Inr JNull else json_parse x))
       JNull"

definition loadMinimap :: "string \<Rightarrow> storage \<Rightarrow> bool" where
  "loadMinimap index st = catch_res (map_res (\<lambda>v. v = Some (Text ''1'')) (get_item st (mapKey index))) False"

definition saveMinimap :: "string \<Rightarrow> bool \<Rightarrow> storage \<Rightarrow> storage" where
  "saveMinimap index shown st = try_set_item st (mapKey index) (Text (if shown then ''1'' else ''0''))"

lemma minimap_roundtrip: "st_usable st \<Longrightarrow> loadMinimap index (saveMinimap index shown st) = shown"
  by (simp add: loadMinimap_def saveMinimap_def ls.read_write)

lemma viewport_roundtrip: "st_usable st \<Longrightarrow> loadViewport index (saveViewport index vp st) = vp_value vp"
  by (simp add: loadViewport_def saveViewport_def ls.read_write json_stringify_def json_parse_def vp_value_def
      json_absent_def)

lemma layout_keys_apart:
  "layout_key i \<noteq> vpKey j" "layout_key i \<noteq> mapKey j" "vpKey i \<noteq> mapKey j"
  "layout_key i = layout_key j \<longleftrightarrow> i = j" "vpKey i = vpKey j \<longleftrightarrow> i = j" "mapKey i = mapKey j \<longleftrightarrow> i = j"
  by (simp_all add: layout_key_def vpKey_def mapKey_def)

text \<open>What a stored table of overrides is after normalisation: the finite points in it.\<close>

lemma override_saved:
  assumes "st_usable st" and "loadOverrides index st = JObj es" and "saveOverride index i x y st = Inr st'"
    and norm: "json_norm (JObj es) = JObj es"
  shows "\<exists>es'. loadOverrides index st' = JObj es' \<and> obj_get es' i = Some (point_value x y) \<and>
    (\<forall>k. k \<noteq> i \<longrightarrow> obj_get es' k = obj_get es k)"
proof -
  have id: "json_norm (JObj (obj_put es i (point_value x y))) = JObj (obj_put es i (point_value x y))"
  proof -
    have keep: "filter (\<lambda>(k, v). \<not> json_absent v) es = es" and vals: "\<forall>(k, v) \<in> set es. json_norm v = v"
    proof -
      from norm have eq: "map (\<lambda>(k, v). (k, json_norm v)) (filter (\<lambda>(k, v). \<not> json_absent v) es) = es" by simp
      then have "length (filter (\<lambda>(k, v). \<not> json_absent v) es) = length es" by (metis length_map)
      then show keep: "filter (\<lambda>(k, v). \<not> json_absent v) es = es"
        by (metis filter_True length_filter_less less_irrefl)
      with eq have "map (\<lambda>(k, v). (k, json_norm v)) es = map id es" by simp
      then have "\<forall>e \<in> set es. (case e of (k, v) \<Rightarrow> (k, json_norm v)) = id e" by (rule map_eq_conv [THEN iffD1])
      then show "\<forall>(k, v) \<in> set es. json_norm v = v" by fastforce
    qed
    have mem: "e \<in> set (obj_put es i (point_value x y)) \<Longrightarrow> e = (i, point_value x y) \<or> e \<in> set es" for e
      by (auto simp: obj_put_def split: if_splits dest: set_takeWhileD set_dropWhileD)
    have new: "json_norm (point_value x y) = point_value x y" "\<not> json_absent (point_value x y)"
      by (simp_all add: point_value_def json_absent_def)
    have "json_norm (snd e) = snd e \<and> \<not> json_absent (snd e)" if "e \<in> set (obj_put es i (point_value x y))" for e
      using mem [OF that] new vals keep by (fastforce simp: filter_id_conv)
    then have "\<forall>(k, v) \<in> set (obj_put es i (point_value x y)). json_norm v = v \<and> \<not> json_absent v"
      by fastforce
    then have "filter (\<lambda>(k, v). \<not> json_absent v) (obj_put es i (point_value x y)) = obj_put es i (point_value x y)"
      "map (\<lambda>(k, v). (k, json_norm v)) (obj_put es i (point_value x y)) = obj_put es i (point_value x y)"
      by (auto simp: filter_id_conv intro!: map_idI)
    then show ?thesis by simp
  qed
  show ?thesis
    using assms(1-3) id
    by (auto simp: saveOverride_def loadOverrides_def [of index "try_set_item _ _ _"] ls.read_write json_stringify_def
        json_parse_def obj_laws)
qed

section \<open>No two nodes of a column overlap\<close>

lemma group_by_parent_get:
  "map_of (group_by_parent nodes) k =
     (let ns = filter (\<lambda>n. parent_key n = k) nodes in if ns = [] then None else Some ns)"
proof (induction nodes rule: rev_induct)
  case Nil
  then show ?case by (simp add: group_by_parent_def)
next
  case (snoc n nodes)
  have "map_of (group_by_parent (nodes @ [n])) k =
      (if k = parent_key n
       then Some ((case map_of (group_by_parent nodes) (parent_key n) of None \<Rightarrow> [] | Some ns \<Rightarrow> ns) @ [n])
       else map_of (group_by_parent nodes) k)"
    by (simp add: group_by_parent_def map_of_map_set)
  with snoc show ?case by (auto simp: Let_def split: if_splits)
qed

lemma kids_of_group: "kids_of (group_by_parent nodes) n = filter (\<lambda>m. parent_key m = n_id n) nodes"
  by (simp add: kids_of_def group_by_parent_get Let_def)

text \<open>The subtree \<open>place\<close> walks with the given fuel.\<close>

primrec subtree :: "nat \<Rightarrow> (doc_node \<Rightarrow> doc_node list) \<Rightarrow> doc_node \<Rightarrow> doc_node list" where
  "subtree 0 kids node = []"
| "subtree (Suc fuel) kids node = node # concat (map (subtree fuel kids) (kids node))"

definition y_of :: "positions \<Rightarrow> doc_node \<Rightarrow> rat" where
  "y_of pos n = (case obj_get pos (n_id n) of None \<Rightarrow> 0 | Some (x, y) \<Rightarrow> y)"

definition placed_in :: "(doc_node \<Rightarrow> rat) \<Rightarrow> positions \<Rightarrow> rat \<Rightarrow> rat \<Rightarrow> doc_node \<Rightarrow> bool" where
  "placed_in h pos a b n \<longleftrightarrow>
     obj_get pos (n_id n) = Some (of_nat (n_depth n) * COL_W, y_of pos n) \<and> a \<le> y_of pos n \<and> y_of pos n + h n \<le> b"

definition clear_of :: "(doc_node \<Rightarrow> rat) \<Rightarrow> positions \<Rightarrow> doc_node \<Rightarrow> doc_node \<Rightarrow> bool" where
  "clear_of h pos m n \<longleftrightarrow> y_of pos m + h m + GAP \<le> y_of pos n \<or> y_of pos n + h n + GAP \<le> y_of pos m"

definition laid_out :: "(doc_node \<Rightarrow> rat) \<Rightarrow> positions \<Rightarrow> rat \<Rightarrow> rat \<Rightarrow> doc_node list \<Rightarrow> bool" where
  "laid_out h pos a b ns \<longleftrightarrow>
     (\<forall>n \<in> set ns. placed_in h pos a b n) \<and>
     (\<forall>m \<in> set ns. \<forall>n \<in> set ns. n_id m \<noteq> n_id n \<and> n_depth m = n_depth n \<longrightarrow> clear_of h pos m n)"

lemma y_of_cong: "obj_get pos' (n_id n) = obj_get pos (n_id n) \<Longrightarrow> y_of pos' n = y_of pos n"
  by (simp add: y_of_def)

lemma laid_out_cong:
  assumes "\<And>n. n \<in> set ns \<Longrightarrow> obj_get pos' (n_id n) = obj_get pos (n_id n)" and "laid_out h pos a b ns"
  shows "laid_out h pos' a b ns"
  using assms y_of_cong [of pos' _ pos] by (simp add: laid_out_def placed_in_def clear_of_def)

lemma laid_out_widen: "laid_out h pos a b ns \<Longrightarrow> a' \<le> a \<Longrightarrow> b \<le> b' \<Longrightarrow> laid_out h pos a' b' ns"
  by (auto simp: laid_out_def placed_in_def intro: order_trans)

text \<open>Two stacked bands with a gap between them.\<close>

lemma laid_out_append:
  assumes "laid_out h pos a b ns" and "laid_out h pos c d ms" and "b + GAP \<le> c" and "a \<le> b" and "c \<le> d"
  shows "laid_out h pos a d (ns @ ms)"
proof -
  have "clear_of h pos m n" if "m \<in> set ns" "n \<in> set ms" for m n
    using that assms by (fastforce simp: laid_out_def placed_in_def clear_of_def)
  moreover have "clear_of h pos n m = clear_of h pos m n" for m n by (auto simp: clear_of_def)
  moreover have "b \<le> d" "a \<le> c" using assms(3-5) by (simp_all add: GAP_def)
  ultimately show ?thesis
    using laid_out_widen [OF assms(1), of a d] laid_out_widen [OF assms(2), of a d]
    by (auto simp: laid_out_def)
qed

definition tree_on :: "doc_node set \<Rightarrow> (doc_node \<Rightarrow> doc_node list) \<Rightarrow> bool" where
  "tree_on N kids \<longleftrightarrow> (\<forall>m \<in> N. \<forall>k \<in> set (kids m). k \<in> N \<and> n_depth k = Suc (n_depth m))"

lemma subtree_below:
  "tree_on N kids \<Longrightarrow> node \<in> N \<Longrightarrow> n \<in> set (subtree fuel kids node) \<Longrightarrow>
     n \<in> N \<and> (n = node \<or> n_depth node < n_depth n)"
proof (induction fuel arbitrary: node)
  case (Suc fuel)
  then consider "n = node" | k where "k \<in> set (kids node)" "n \<in> set (subtree fuel kids k)" by auto
  then show ?case
  proof cases
    case 1
    with Suc.prems show ?thesis by simp
  next
    case 2
    with Suc.prems have "k \<in> N" "n_depth k = Suc (n_depth node)" by (auto simp: tree_on_def)
    with Suc.IH [OF Suc.prems(1) _ 2(2)] show ?thesis by auto
  qed
qed simp

abbreviation place_kids ::
  "nat \<Rightarrow> (doc_node \<Rightarrow> doc_node list) \<Rightarrow> (doc_node \<Rightarrow> rat) \<Rightarrow> (rat \<times> positions) option \<Rightarrow> doc_node list \<Rightarrow> (rat \<times> positions) option" where
  "place_kids fuel kids h \<equiv>
     foldl (\<lambda>st k. case st of
                   None \<Rightarrow> None
                 | Some (cursor, p) \<Rightarrow>
                     (case place fuel kids h k cursor p of
                        None \<Rightarrow> None
                      | Some (band, p') \<Rightarrow> Some (cursor + (band + GAP), p')))"

definition placed_ok ::
  "(doc_node \<Rightarrow> rat) \<Rightarrow> positions \<Rightarrow> positions \<Rightarrow> rat \<Rightarrow> rat \<Rightarrow> doc_node list \<Rightarrow> bool" where
  "placed_ok h pos pos' a b ns \<longleftrightarrow>
     laid_out h pos' a b ns \<and> (\<forall>k. k \<notin> n_id ` set ns \<longrightarrow> obj_get pos' k = obj_get pos k)"

lemma placed_ok_append:
  assumes "placed_ok h pos p a b ns" and "placed_ok h p p' c d ms"
    and "n_id ` set ns \<inter> n_id ` set ms = {}" and "b + GAP \<le> c" and "a \<le> b" and "c \<le> d"
  shows "placed_ok h pos p' a d (ns @ ms)"
proof -
  have "obj_get p' (n_id n) = obj_get p (n_id n)" if "n \<in> set ns" for n
  proof -
    have "n_id n \<notin> n_id ` set ms" using assms(3) that by blast
    with assms(2) show ?thesis unfolding placed_ok_def by blast
  qed
  then have "laid_out h p' a b ns"
    using assms(1) laid_out_cong [of ns p' p h a b] by (simp add: placed_ok_def)
  then have "laid_out h p' a d (ns @ ms)"
    using assms(2) laid_out_append [OF _ _ assms(4-6)] by (simp add: placed_ok_def)
  moreover have "obj_get p' k = obj_get pos k" if "k \<notin> n_id ` set (ns @ ms)" for k
  proof -
    have "k \<notin> n_id ` set ns" "k \<notin> n_id ` set ms" using that by auto
    with assms(1,2) show ?thesis unfolding placed_ok_def by metis
  qed
  ultimately show ?thesis unfolding placed_ok_def by blast
qed

lemma place_kids_ok:
  assumes place: "\<And>k cursor p band p'. k \<in> set ks \<Longrightarrow> place fuel kids h k cursor p = Some (band, p') \<Longrightarrow>
      0 \<le> band \<and> placed_ok h p p' cursor (cursor + band) (subtree fuel kids k)"
    and "distinct (map n_id (concat (map (subtree fuel kids) ks)))" and "ks \<noteq> []"
    and "place_kids fuel kids h (Some (top_y, pos)) ks = Some (cursor, p)"
  shows "top_y + GAP \<le> cursor \<and> placed_ok h pos p top_y (cursor - GAP) (concat (map (subtree fuel kids) ks))"
  using assms
proof (induction ks arbitrary: cursor p rule: rev_induct)
  case (snoc k ks)
  let ?st = "place_kids fuel kids h (Some (top_y, pos)) ks"
  from snoc.prems(4) obtain c0 p0 where st: "?st = Some (c0, p0)" by (cases ?st) auto
  with snoc.prems(4) obtain band where k: "place fuel kids h k c0 p0 = Some (band, p)" and cursor: "cursor = c0 + (band + GAP)"
    by (auto split: option.splits)
  note new = snoc.prems(1) [OF _ k, simplified]
  show ?case
  proof (cases "ks = []")
    case True
    with st cursor new show ?thesis by simp
  next
    case False
    have dist: "distinct (map n_id (concat (map (subtree fuel kids) ks)))"
      using snoc.prems(2) by simp
    have old: "top_y + GAP \<le> c0 \<and> placed_ok h pos p0 top_y (c0 - GAP) (concat (map (subtree fuel kids) ks))"
      by (rule snoc.IH [OF _ dist False st], rule snoc.prems(1)) simp_all
    have disj: "n_id ` set (concat (map (subtree fuel kids) ks)) \<inter> n_id ` set (subtree fuel kids k) = {}"
      using snoc.prems(2) by (simp add: image_Union [symmetric])
    have "placed_ok h pos p top_y (c0 + band) (concat (map (subtree fuel kids) ks) @ subtree fuel kids k)"
      by (rule placed_ok_append [of h pos p0 top_y "c0 - GAP" _ p c0]) (use old new disj in simp_all)
    with old new cursor show ?thesis by (simp add: GAP_def)
  qed
qed simp

lemma place_ok:
  assumes tree: "tree_on N kids" and h: "\<And>n. 0 \<le> h n"
  shows "node \<in> N \<Longrightarrow> distinct (map n_id (subtree fuel kids node)) \<Longrightarrow>
    place fuel kids h node top_y pos = Some (band, pos') \<Longrightarrow>
      0 \<le> band \<and> placed_ok h pos pos' top_y (top_y + band) (subtree fuel kids node)"
proof (induction fuel arbitrary: node top_y pos band pos')
  case (Suc fuel)
  let ?x = "of_nat (n_depth node) * COL_W"
  show ?case
  proof (cases "kids node = []")
    case True
    with Suc.prems h show ?thesis
      by (auto simp: placed_ok_def laid_out_def placed_in_def y_of_def obj_laws)
  next
    case False
    let ?ns = "concat (map (subtree fuel kids) (kids node))"
    from Suc.prems(3) False obtain cursor p where
      kids: "place_kids fuel kids h (Some (top_y, pos)) (kids node) = Some (cursor, p)"
      and band: "band = max (cursor - GAP - top_y) (h node)"
      and pos': "pos' = obj_put p (n_id node) (?x, top_y + (band - h node) / 2)"
      by (auto simp: Let_def split: option.splits)
    have dist: "distinct (map n_id ?ns)" and new: "n_id node \<notin> n_id ` set ?ns"
      using Suc.prems(2) by (simp_all add: image_Union)
    have IH: "0 \<le> b \<and> placed_ok h q q' c (c + b) (subtree fuel kids k)"
      if "k \<in> set (kids node)" "place fuel kids h k c q = Some (b, q')" for k c q b q'
    proof (rule Suc.IH [OF _ _ that(2)])
      show "k \<in> N" using tree Suc.prems(1) that(1) by (auto simp: tree_on_def)
      show "distinct (map n_id (subtree fuel kids k))"
        using dist that(1) by (simp add: map_concat distinct_concat_iff)
    qed
    note K = place_kids_ok [OF IH dist False kids]
    have b0: "0 \<le> band" "cursor - GAP \<le> top_y + band" "h node \<le> band"
      using h [of node] by (simp_all add: band)
    have "laid_out h p top_y (top_y + band) ?ns"
      using K laid_out_widen [OF _ order_refl b0(2), of h p] unfolding placed_ok_def by blast
    then have below: "laid_out h pos' top_y (top_y + band) ?ns"
    proof (rule laid_out_cong [rotated])
      fix n
      assume "n \<in> set ?ns"
      then have "n_id n \<noteq> n_id node" using new by (metis imageI)
      then show "obj_get pos' (n_id n) = obj_get p (n_id n)" by (simp add: pos' obj_laws)
    qed
    have own: "placed_in h pos' top_y (top_y + band) node"
      using b0 by (simp add: placed_in_def y_of_def pos' obj_laws field_simps)
    have deeper: "n_depth n \<noteq> n_depth node" if "n \<in> set ?ns" for n
    proof -
      from that obtain k where k: "k \<in> set (kids node)" "n \<in> set (subtree fuel kids k)" by auto
      then have "k \<in> N" "n_depth k = Suc (n_depth node)" using tree Suc.prems(1) by (auto simp: tree_on_def)
      with subtree_below [OF tree _ k(2)] show ?thesis by auto
    qed
    have "laid_out h pos' top_y (top_y + band) (node # ?ns)"
      using below own deeper by (simp add: laid_out_def) (metis deeper)
    moreover have "obj_get pos' k = obj_get pos k" if "k \<notin> n_id ` set (node # ?ns)" for k
      using that K by (simp add: pos' obj_laws placed_ok_def)
    ultimately show ?thesis using b0(1) by (simp add: placed_ok_def)
  qed
qed simp

section \<open>The projected schema is laid out\<close>

lemma place_answers:
  assumes tree: "tree_on N kids" and bound: "\<And>m. m \<in> N \<Longrightarrow> n_depth m \<le> d"
  shows "node \<in> N \<Longrightarrow> d < n_depth node + fuel \<Longrightarrow> place fuel kids h node top_y pos \<noteq> None"
proof (induction fuel arbitrary: node top_y pos)
  case 0
  with bound show ?case by fastforce
next
  case (Suc fuel)
  have kid: "place fuel kids h k c p \<noteq> None" if "k \<in> set (kids node)" for k c p
    using that tree Suc.prems by (intro Suc.IH) (auto simp: tree_on_def)
  have "set ks \<subseteq> set (kids node) \<Longrightarrow> place_kids fuel kids h (Some st) ks \<noteq> None" for ks st
  proof (induction ks arbitrary: st rule: rev_induct)
    case (snoc k ks)
    then obtain c p where "place_kids fuel kids h (Some st) ks = Some (c, p)" by fastforce
    moreover obtain b p' where "place fuel kids h k c p = Some (b, p')" using kid [of k c p] snoc.prems by fastforce
    ultimately show ?case by simp
  qed simp
  then obtain c p where "place_kids fuel kids h (Some (top_y, pos)) (kids node) = Some (c, p)" by fastforce
  then show ?case by (simp add: Let_def)
qed

lemma max_depth_ge: "n \<in> set nodes \<Longrightarrow> n_depth n \<le> max_depth nodes"
proof -
  have "d \<le> foldl (\<lambda>d n. max d (n_depth n)) d nodes \<and>
      (n \<in> set nodes \<longrightarrow> n_depth n \<le> foldl (\<lambda>d n. max d (n_depth n)) d nodes)" for d
  proof (induction nodes arbitrary: d)
    case (Cons a nodes)
    from Cons [of "max d (n_depth a)"] show ?case by auto
  qed simp
  then show "n \<in> set nodes \<Longrightarrow> ?thesis" by (simp add: max_depth_def)
qed

lemma graph_facts:
  assumes "n \<in> set (gr_nodes (projectGraph schema))"
  shows "n_depth n = length (n_path n)" and "n_path n \<noteq> [] \<Longrightarrow> n_parentId n = Some (pathId (butlast (n_path n)))"
    and "n_path n = [] \<Longrightarrow> n_parentId n = None"
proof -
  obtain rest where rest: "gr_nodes (projectGraph schema) = mk_node schema [] None 0 # rest"
    using visit_hd [of schema "[]" None 0] by (auto simp: projectGraph_def Let_def)
  show "n_depth n = length (n_path n)"
    using assms visit_depth [of n schema "[]" None 0] by (simp add: projectGraph_def Let_def)
  show "n_path n \<noteq> [] \<Longrightarrow> n_parentId n = Some (pathId (butlast (n_path n)))"
    using assms visit_parent [of n schema "[]" None 0] by (simp add: projectGraph_def Let_def)
  assume "n_path n = []"
  moreover have "distinct (map n_path (gr_nodes (projectGraph schema)))"
    unfolding graph_paths by (rule distinct_container_paths)
  ultimately have "n = mk_node schema [] None 0" using assms rest by (auto simp: image_iff)
  then show "n_parentId n = None" by simp
qed

lemma graph_node_unique:
  "m \<in> set (gr_nodes (projectGraph schema)) \<Longrightarrow> n \<in> set (gr_nodes (projectGraph schema)) \<Longrightarrow>
     n_id m = n_id n \<Longrightarrow> m = n"
  using graph_ids_distinct [of schema] by (auto simp: distinct_map dest: inj_onD)

lemma graph_root:
  obtains r where "find (\<lambda>n. n_parentId n = None) (gr_nodes (projectGraph schema)) = Some r"
    and "r \<in> set (gr_nodes (projectGraph schema))" and "n_path r = []"
proof -
  obtain rest where rest: "gr_nodes (projectGraph schema) = mk_node schema [] None 0 # rest"
    using visit_hd [of schema "[]" None 0] by (auto simp: projectGraph_def Let_def)
  show thesis by (rule that [of "mk_node schema [] None 0"]) (simp_all add: rest)
qed

definition graph_kids :: "index_schema \<Rightarrow> doc_node \<Rightarrow> doc_node list" where
  "graph_kids schema = kids_of (group_by_parent (gr_nodes (projectGraph schema)))"

lemma pathId_nonempty [simp]: "pathId p \<noteq> ''''" "'''' \<noteq> pathId p"
  by (simp_all add: pathId_def)

lemma graph_kids_iff:
  assumes "n \<in> set (gr_nodes (projectGraph schema))"
  shows "k \<in> set (graph_kids schema n) \<longleftrightarrow>
    k \<in> set (gr_nodes (projectGraph schema)) \<and> n_path k \<noteq> [] \<and> butlast (n_path k) = n_path n"
proof -
  have "n_id n \<noteq> ''''" using graph_node_id [OF assms] by simp
  then show ?thesis
    using graph_facts [of k schema] graph_node_id [OF assms]
    by (cases "n_path k = []") (auto simp: graph_kids_def kids_of_group parent_key_def)
qed

lemma graph_tree: "tree_on (set (gr_nodes (projectGraph schema))) (graph_kids schema)"
  unfolding tree_on_def
proof (intro ballI)
  fix m k
  assume m: "m \<in> set (gr_nodes (projectGraph schema))" and "k \<in> set (graph_kids schema m)"
  then have k: "k \<in> set (gr_nodes (projectGraph schema))" "n_path k \<noteq> []" "butlast (n_path k) = n_path m"
    using graph_kids_iff [OF m] by blast+
  have "length (n_path k) = Suc (length (n_path m))"
    using k(2,3) by (cases "n_path k" rule: rev_cases) auto
  then show "k \<in> set (gr_nodes (projectGraph schema)) \<and> n_depth k = Suc (n_depth m)"
    using k(1) m graph_facts(1) by simp
qed

lemma distinct_graph_kids: "distinct (graph_kids schema n)"
  using graph_ids_distinct [of schema] by (simp add: graph_kids_def kids_of_group distinct_map)

lemma subtree_prefix:
  "node \<in> set (gr_nodes (projectGraph schema)) \<Longrightarrow> n \<in> set (subtree fuel (graph_kids schema) node) \<Longrightarrow>
     n \<in> set (gr_nodes (projectGraph schema)) \<and> prefix (n_path node) (n_path n)"
proof (induction fuel arbitrary: node)
  case (Suc fuel)
  from Suc.prems(2) consider "n = node"
    | k where "k \<in> set (graph_kids schema node)" "n \<in> set (subtree fuel (graph_kids schema) k)" by auto
  then show ?case
  proof cases
    case 1
    with Suc.prems show ?thesis by simp
  next
    case 2
    with Suc.prems(1) have k: "k \<in> set (gr_nodes (projectGraph schema))" "butlast (n_path k) = n_path node"
      using graph_kids_iff by blast+
    have "prefix (n_path node) (n_path k)" using k(2) by (metis prefixeq_butlast)
    with Suc.IH [OF k(1) 2(2)] show ?thesis by (auto intro: prefix_order.trans)
  qed
qed simp

lemma distinct_subtree:
  "node \<in> set (gr_nodes (projectGraph schema)) \<Longrightarrow> distinct (subtree fuel (graph_kids schema) node)"
proof (induction fuel arbitrary: node)
  case (Suc fuel)
  let ?S = "subtree fuel (graph_kids schema)"
  have kid: "k \<in> set (gr_nodes (projectGraph schema))" "n_path k \<noteq> []" "butlast (n_path k) = n_path node"
    if "k \<in> set (graph_kids schema node)" for k
    using that graph_kids_iff [OF Suc.prems] by blast+
  have disj: "set (?S k) \<inter> set (?S k') = {}"
    if kk: "k \<in> set (graph_kids schema node)" "k' \<in> set (graph_kids schema node)" "k \<noteq> k'" for k k'
  proof (rule ccontr)
    assume "set (?S k) \<inter> set (?S k') \<noteq> {}"
    then obtain n where n: "n \<in> set (?S k)" "n \<in> set (?S k')" by blast
    have "prefix (n_path k) (n_path n)" "prefix (n_path k') (n_path n)"
      using subtree_prefix [OF kid(1) [OF kk(1)] n(1)] subtree_prefix [OF kid(1) [OF kk(2)] n(2)] by blast+
    moreover have "length (n_path k) = length (n_path k')"
      using kid(2,3) kk by (metis append_butlast_last_id length_append_singleton)
    ultimately have "n_path k = n_path k'" by (metis prefix_length_prefix prefix_order.antisym order_refl)
    with graph_node_unique graph_node_id kid(1) kk show False by metis
  qed
  have own: "node \<notin> set (?S k)" if "k \<in> set (graph_kids schema node)" for k
  proof
    assume "node \<in> set (?S k)"
    then have "prefix (n_path k) (n_path node)" using subtree_prefix kid(1) [OF that] by blast
    then show False using kid(2,3) [OF that] by (metis append_butlast_last_id prefix_def same_append_eq append_assoc append_Nil2 list.distinct(1) append_is_Nil_conv)
  qed
  have "distinct (concat (map ?S (graph_kids schema node)))"
  proof -
    have "distinct ks \<Longrightarrow> set ks \<subseteq> set (graph_kids schema node) \<Longrightarrow> distinct (concat (map ?S ks))" for ks
      using Suc.IH kid(1) disj by (induction ks) (auto, blast)
    then show ?thesis using distinct_graph_kids by blast
  qed
  then show ?case using own by auto
qed simp

lemma subtree_covers:
  assumes "r \<in> set (gr_nodes (projectGraph schema))" and "n_path r = []"
    and "n \<in> set (gr_nodes (projectGraph schema))" and "length (n_path n) < fuel"
  shows "n \<in> set (subtree fuel (graph_kids schema) r)"
proof -
  have "m \<in> set (gr_nodes (projectGraph schema)) \<Longrightarrow> n \<in> set (gr_nodes (projectGraph schema)) \<Longrightarrow>
    n_path n = n_path m @ q \<Longrightarrow> length q < fuel \<Longrightarrow> n \<in> set (subtree fuel (graph_kids schema) m)" for m q fuel
  proof (induction q arbitrary: m fuel)
    case Nil
    then have "n = m" using graph_node_unique graph_node_id by (metis append_Nil2)
    with Nil show ?case by (cases fuel) auto
  next
    case (Cons i q)
    obtain f where f: "fuel = Suc f" using Cons.prems(4) by (cases fuel) auto
    have "live_in (s_fields schema) (n_path n)"
      using Cons.prems(2) graph_paths [of schema] set_container_paths [of "s_fields schema"]
      by (metis image_eqI list.set_map mem_Collect_eq)
    then have "live_in (s_fields schema) (n_path m @ [i])"
      unfolding Cons.prems(3) using live_in_append [of "s_fields schema" "n_path m @ [i]" q] by simp
    then have "n_path m @ [i] \<in> set (map n_path (gr_nodes (projectGraph schema)))"
      unfolding graph_paths set_container_paths by simp
    then obtain k where k: "k \<in> set (gr_nodes (projectGraph schema))" "n_path k = n_path m @ [i]" by auto
    have "k \<in> set (graph_kids schema m)" using graph_kids_iff [OF Cons.prems(1)] k by simp
    moreover have "n \<in> set (subtree f (graph_kids schema) k)"
      using Cons.IH [OF k(1) Cons.prems(2), of f] Cons.prems(3,4) k(2) f by simp
    ultimately show ?case by (auto simp: f)
  qed
  with assms show ?thesis by simp
qed

lemma layout_answers:
  assumes h: "\<And>n. 0 \<le> h n"
  shows "\<exists>pos. autoLayout (gr_nodes (projectGraph schema)) h = Some pos \<and>
    (\<forall>n \<in> set (gr_nodes (projectGraph schema)).
       \<exists>y. obj_get pos (n_id n) = Some (of_nat (n_depth n) * COL_W, y) \<and> 0 \<le> y) \<and>
    (\<forall>m \<in> set (gr_nodes (projectGraph schema)). \<forall>n \<in> set (gr_nodes (projectGraph schema)).
       m \<noteq> n \<and> n_depth m = n_depth n \<longrightarrow> clear_of h pos m n)"
proof -
  let ?nodes = "gr_nodes (projectGraph schema)"
  let ?fuel = "Suc (max_depth ?nodes)"
  obtain r where root: "find (\<lambda>n. n_parentId n = None) ?nodes = Some r" "r \<in> set ?nodes" "n_path r = []"
    by (rule graph_root)
  have "max_depth ?nodes < n_depth r + ?fuel" by simp
  from place_answers [OF graph_tree max_depth_ge root(2) this]
  obtain band pos where pl: "place ?fuel (graph_kids schema) h r 0 [] = Some (band, pos)" by fastforce
  have "inj_on n_id (set (subtree ?fuel (graph_kids schema) r))"
    using subtree_prefix [OF root(2)] graph_node_unique by (blast intro: inj_onI)
  then have "distinct (map n_id (subtree ?fuel (graph_kids schema) r))"
    unfolding distinct_map using distinct_subtree [OF root(2)] by blast
  from place_ok [OF graph_tree h root(2) this pl]
  have ok: "laid_out h pos 0 band (subtree ?fuel (graph_kids schema) r)" by (simp add: placed_ok_def)
  have all: "n \<in> set (subtree ?fuel (graph_kids schema) r)" if "n \<in> set ?nodes" for n
    using subtree_covers [OF root(2,3) that, of ?fuel] max_depth_ge [OF that] graph_facts(1) [OF that] by simp
  have "autoLayout ?nodes h = Some pos"
    using root(1) pl by (simp add: autoLayout_def graph_kids_def)
  moreover have "\<exists>y. obj_get pos (n_id n) = Some (of_nat (n_depth n) * COL_W, y) \<and> 0 \<le> y" if "n \<in> set ?nodes" for n
    using ok all [OF that] by (auto simp: laid_out_def placed_in_def)
  moreover have "clear_of h pos m n" if "m \<in> set ?nodes" "n \<in> set ?nodes" "m \<noteq> n" "n_depth m = n_depth n" for m n
  proof -
    have "n_id m \<noteq> n_id n" using that graph_node_unique by blast
    with ok all that show ?thesis unfolding laid_out_def by blast
  qed
  ultimately show ?thesis by blast
qed

end
