(* ===== verification/Relations.thy ===== *)
theory Relations
  imports Preview_Prune
begin

text \<open>
  \<^verbatim>\<open>model/relations.ts\<close>: the relations a node's table can pull in, read off the catalog's
  foreign keys and junctions. A suggestion's \<open>build\<close> is the field it builds. The tooltip's
  prose holds an arrow outside the modelled code units, so it is kept as the values it shows.
  A foreign key without a column has an \<open>undefined\<close> first column; the catalog never lists
  one, and the model reads it as the empty name.
\<close>

datatype verb = Belongs_to_v | Has_one_v | Has_many_v | Many_to_many_v

datatype detail =
    Outgoing string string string bool
  | Incoming string string
  | Via string

record suggestion =
  su_key :: string
  su_target :: string
  su_detail :: detail
  su_verb :: verb
  su_build :: field

definition pkOf :: "table_shape option \<Rightarrow> string" where
  "pkOf t = (case t of None \<Rightarrow> ''id'' | Some t \<Rightarrow> (case js_get (t_primary_key t) 0 of None \<Rightarrow> ''id'' | Some k \<Rightarrow> k))"

definition find_table :: "catalog_response \<Rightarrow> string \<Rightarrow> table_shape option" where
  "find_table catalog name = find (\<lambda>t. t_name t = name) (cat_tables catalog)"

definition col0 :: "foreign_key \<Rightarrow> string" where
  "col0 fk = (case js_get (fk_columns fk) 0 of None \<Rightarrow> '''' | Some c \<Rightarrow> c)"

definition ref0 :: "foreign_key \<Rightarrow> string \<Rightarrow> string" where
  "ref0 fk d = (case js_get (fk_references_columns fk) 0 of None \<Rightarrow> d | Some c \<Rightarrow> c)"

definition join_field :: "string \<Rightarrow> join_kind \<Rightarrow> string \<Rightarrow> bool \<Rightarrow> field" where
  "join_field target kind pk nullable =
     Field target None
       (Relation_s (Join_r \<lparr>j_table = target, j_kind = kind, j_primary_key = pk, j_nullable = nullable,
                           j_filters = None, j_order_by = None, j_limit = None\<rparr> []))"

definition fk_nullable :: "table_shape \<Rightarrow> foreign_key \<Rightarrow> bool" where
  "fk_nullable self fk =
     (case find (\<lambda>c. cs_name c = col0 fk) (t_columns self) of None \<Rightarrow> False | Some c \<Rightarrow> cs_nullable c)"

definition belongs_to_suggestion :: "catalog_response \<Rightarrow> table_shape \<Rightarrow> foreign_key \<Rightarrow> suggestion" where
  "belongs_to_suggestion catalog self fk =
     (let target = fk_references_table fk; nullable = fk_nullable self fk in
      \<lparr>su_key = ''bt:'' @ target @ '':'' @ col0 fk, su_target = target,
       su_detail = Outgoing (col0 fk) target (ref0 fk ''id'') nullable, su_verb = Belongs_to_v,
       su_build = join_field target (Belongs_to (col0 fk)) (ref0 fk (pkOf (find_table catalog target))) nullable\<rparr>)"

definition has_many_suggestion :: "table_shape \<Rightarrow> foreign_key \<Rightarrow> suggestion" where
  "has_many_suggestion t fk =
     \<lparr>su_key = ''hm:'' @ t_name t @ '':'' @ col0 fk, su_target = t_name t,
      su_detail = Incoming (t_name t) (col0 fk), su_verb = Has_many_v,
      su_build = join_field (t_name t) (Has_many (col0 fk)) (pkOf (Some t)) False\<rparr>"

definition junction_suggestion :: "catalog_response \<Rightarrow> string \<Rightarrow> junction \<Rightarrow> suggestion option" where
  "junction_suggestion catalog fromTable j =
     (let sides = [jn_left j, jn_right j] in
      case (find (\<lambda>s. fk_references_table s = fromTable) sides, find (\<lambda>s. fk_references_table s \<noteq> fromTable) sides) of
        (Some ours, Some other) \<Rightarrow>
          (let target = fk_references_table other in
           Some \<lparr>su_key = ''mm:'' @ jn_table j @ '':'' @ target, su_target = target,
                 su_detail = Via (jn_table j), su_verb = Many_to_many_v,
                 su_build = join_field target
                   (Many_to_many \<lparr>th_table = jn_table j, th_left_key = col0 ours, th_right_key = col0 other,
                                  th_filters = None\<rparr>)
                   (pkOf (find_table catalog target)) False\<rparr>)
      | _ \<Rightarrow> None)"

definition suggestRelations :: "catalog_response \<Rightarrow> string \<Rightarrow> suggestion list" where
  "suggestRelations catalog fromTable =
     (case find_table catalog fromTable of
        None \<Rightarrow> []
      | Some self \<Rightarrow> map (belongs_to_suggestion catalog self) (t_foreign_keys self)) @
     concat (map (\<lambda>t. map (has_many_suggestion t)
                        (List.filter (\<lambda>fk. fk_references_table fk = fromTable) (t_foreign_keys t)))
               (cat_tables catalog)) @
     somes (map (junction_suggestion catalog fromTable) (cat_junctions catalog))"

section \<open>Every suggestion is a complete, empty join of its verb\<close>

fun verb_of :: "join_kind \<Rightarrow> verb" where
  "verb_of (Belongs_to _) = Belongs_to_v"
| "verb_of (Has_one _) = Has_one_v"
| "verb_of (Has_many _) = Has_many_v"
| "verb_of (Many_to_many _) = Many_to_many_v"

text \<open>What a catalog from the database guarantees: keys have columns, and nothing is nameless.\<close>

definition fk_ok :: "foreign_key \<Rightarrow> bool" where
  "fk_ok fk \<longleftrightarrow> fk_columns fk \<noteq> [] \<and> hd (fk_columns fk) \<noteq> [] \<and> fk_references_table fk \<noteq> [] \<and>
     [] \<notin> set (fk_references_columns fk)"

definition catalog_ok :: "catalog_response \<Rightarrow> bool" where
  "catalog_ok catalog \<longleftrightarrow>
     list_all (\<lambda>t. t_name t \<noteq> [] \<and> [] \<notin> set (t_primary_key t) \<and> list_all fk_ok (t_foreign_keys t)) (cat_tables catalog) \<and>
     list_all (\<lambda>j. jn_table j \<noteq> [] \<and> fk_ok (jn_left j) \<and> fk_ok (jn_right j)) (cat_junctions catalog)"

lemma col0_ok: "fk_ok fk \<Longrightarrow> col0 fk \<noteq> []"
  by (cases "fk_columns fk") (auto simp: fk_ok_def col0_def)

lemma ref0_ok: "fk_ok fk \<Longrightarrow> d \<noteq> [] \<Longrightarrow> ref0 fk d \<noteq> []"
  by (cases "fk_references_columns fk") (auto simp: fk_ok_def ref0_def)

lemma pkOf_ok:
  assumes "catalog_ok catalog" and "t = None \<or> (\<exists>x \<in> set (cat_tables catalog). t = Some x)"
  shows "pkOf t \<noteq> []"
  using assms by (auto simp: pkOf_def catalog_ok_def list_all_iff split: option.splits dest: js_get_in_set)

lemma find_table_mem: "find_table catalog name = None \<or> (\<exists>x \<in> set (cat_tables catalog). find_table catalog name = Some x)"
  by (cases "find_table catalog name") (auto simp: find_table_def find_Some_iff)

lemma find_table_Some: "find_table catalog name = Some x \<Longrightarrow> x \<in> set (cat_tables catalog) \<and> t_name x = name"
  by (auto simp: find_table_def find_Some_iff)

lemma find_mem: "find P xs = Some x \<Longrightarrow> x \<in> set xs \<and> P x"
  by (auto simp: find_Some_iff)

lemma suggestion_cases:
  assumes "s \<in> set (suggestRelations catalog fromTable)"
  obtains (outgoing) self fk where "find_table catalog fromTable = Some self" "fk \<in> set (t_foreign_keys self)"
      "s = belongs_to_suggestion catalog self fk"
  | (incoming) t fk where "t \<in> set (cat_tables catalog)" "fk \<in> set (t_foreign_keys t)"
      "fk_references_table fk = fromTable" "s = has_many_suggestion t fk"
  | (via) j where "j \<in> set (cat_junctions catalog)" "junction_suggestion catalog fromTable j = Some s"
  using assms by (cases "find_table catalog fromTable") (auto simp: suggestRelations_def)

lemma junction_suggestion_Some:
  assumes "junction_suggestion catalog fromTable j = Some s"
  obtains ours other where "ours \<in> {jn_left j, jn_right j}" "other \<in> {jn_left j, jn_right j}"
    and "fk_references_table ours = fromTable" "fk_references_table other \<noteq> fromTable"
    and "s = \<lparr>su_key = ''mm:'' @ jn_table j @ '':'' @ fk_references_table other, su_target = fk_references_table other,
                 su_detail = Via (jn_table j), su_verb = Many_to_many_v,
                 su_build = join_field (fk_references_table other)
                   (Many_to_many \<lparr>th_table = jn_table j, th_left_key = col0 ours, th_right_key = col0 other,
                                  th_filters = None\<rparr>)
                   (pkOf (find_table catalog (fk_references_table other))) False\<rparr>"
  using assms
  by (cases "fk_references_table (jn_left j) = fromTable"; cases "fk_references_table (jn_right j) = fromTable")
    (auto simp: junction_suggestion_def Let_def)

lemma suggestion_complete:
  assumes ok: "catalog_ok catalog" and s: "s \<in> set (suggestRelations catalog fromTable)"
  shows "\<not> joinIncomplete (Some (su_build s)) \<and> f_field (su_build s) = su_target s \<and> su_target s \<noteq> []"
  using s
proof (cases rule: suggestion_cases)
  case (outgoing self fk)
  then have "fk_ok fk"
    using ok find_table_Some [OF outgoing(1)] by (auto simp: catalog_ok_def list_all_iff)
  then show ?thesis
    using outgoing(3) col0_ok ref0_ok pkOf_ok [OF ok find_table_mem]
    by (simp add: belongs_to_suggestion_def Let_def joinIncomplete_def join_field_def) (simp add: fk_ok_def)
next
  case (incoming t fk)
  then have "fk_ok fk" "t_name t \<noteq> []" using ok by (auto simp: catalog_ok_def list_all_iff)
  then show ?thesis
    using incoming col0_ok pkOf_ok [OF ok, of "Some t"]
    by (auto simp: has_many_suggestion_def joinIncomplete_def join_field_def)
next
  case (via j)
  from via(2) obtain ours other where o: "ours \<in> {jn_left j, jn_right j}" "other \<in> {jn_left j, jn_right j}"
    and eq: "s = \<lparr>su_key = ''mm:'' @ jn_table j @ '':'' @ fk_references_table other, su_target = fk_references_table other,
                 su_detail = Via (jn_table j), su_verb = Many_to_many_v,
                 su_build = join_field (fk_references_table other)
                   (Many_to_many \<lparr>th_table = jn_table j, th_left_key = col0 ours, th_right_key = col0 other,
                                  th_filters = None\<rparr>)
                   (pkOf (find_table catalog (fk_references_table other))) False\<rparr>"
    by (rule junction_suggestion_Some)
  have "fk_ok ours" "fk_ok other" "jn_table j \<noteq> []"
    using ok via(1) o by (auto simp: catalog_ok_def list_all_iff)
  then show ?thesis
    using col0_ok pkOf_ok [OF ok find_table_mem]
    by (simp add: eq joinIncomplete_def join_field_def through_incomplete_def) (simp add: fk_ok_def)
qed

lemma suggestion_verb:
  assumes "s \<in> set (suggestRelations catalog fromTable)"
  shows "\<exists>j. joinOf (Some (su_build s)) = Some (j, []) \<and> verb_of (j_kind j) = su_verb s \<and> j_table j = su_target s \<and>
    su_verb s \<noteq> Has_one_v"
  using assms
proof (cases rule: suggestion_cases)
  case (via j)
  from via(2) show ?thesis by (rule junction_suggestion_Some) (simp add: join_field_def)
qed (simp_all add: belongs_to_suggestion_def has_many_suggestion_def join_field_def Let_def)

text \<open>The suggestions cover the foreign keys in both directions.\<close>

lemma suggests_outgoing:
  "find_table catalog fromTable = Some self \<Longrightarrow> fk \<in> set (t_foreign_keys self) \<Longrightarrow>
     belongs_to_suggestion catalog self fk \<in> set (suggestRelations catalog fromTable)"
  by (simp add: suggestRelations_def)

lemma suggests_incoming:
  "t \<in> set (cat_tables catalog) \<Longrightarrow> fk \<in> set (t_foreign_keys t) \<Longrightarrow>
     has_many_suggestion t fk \<in> set (suggestRelations catalog (fk_references_table fk))"
  by (auto simp: suggestRelations_def)

lemma suggests_junction:
  "j \<in> set (cat_junctions catalog) \<Longrightarrow> fk_references_table (jn_left j) \<noteq> fk_references_table (jn_right j) \<Longrightarrow>
     \<exists>s \<in> set (suggestRelations catalog (fk_references_table (jn_left j))).
       su_verb s = Many_to_many_v \<and> su_target s = fk_references_table (jn_right j) \<and> su_detail s = Via (jn_table j)"
proof -
  assume j: "j \<in> set (cat_junctions catalog)" "fk_references_table (jn_left j) \<noteq> fk_references_table (jn_right j)"
  then obtain s where s: "junction_suggestion catalog (fk_references_table (jn_left j)) j = Some s"
    "su_verb s = Many_to_many_v" "su_target s = fk_references_table (jn_right j)" "su_detail s = Via (jn_table j)"
    by (auto simp: junction_suggestion_def Let_def)
  have "s \<in> set (suggestRelations catalog (fk_references_table (jn_left j)))"
    unfolding suggestRelations_def using j(1) s(1) by (auto intro: image_eqI [OF sym])
  with s show ?thesis by blast
qed

text \<open>A junction of a table with itself offers nothing.\<close>

lemma self_junction_silent:
  "fk_references_table (jn_left j) = fk_references_table (jn_right j) \<Longrightarrow>
     junction_suggestion catalog fromTable j = None"
  by (auto simp: junction_suggestion_def Let_def)

end
