(* ===== verification/Search_Palette.thy ===== *)
theory Search_Palette
  imports Theme Design_Store Ui_Store Recents
begin

text \<open>
  The command palette: the records every part of the project is found by
  (\<^verbatim>\<open>model/search.ts\<close>), ranking and highlighting (\<^verbatim>\<open>model/rank.ts\<close>), and the palette's own
  weights, completion, selection and navigation (\<^verbatim>\<open>components/CommandPalette.tsx\<close>). The
  full-text engine is third party: its hits, as pairs of an id and a score, are an argument.
  The em dash shown for a missing table is the argument \<open>dash\<close>; its code is beyond the model.
\<close>

section \<open>Records\<close>

datatype category =
    Action_c | Index_c | Field_c | Setting_c | Catalog_c | Legend_kind_c | Legend_type_c

datatype target =
    To_index string
  | To_field string path nat
  | To_node string path
  | To_config
  | To_catalog

record flag =
  fl_text :: string
  fl_ok :: bool

record search_detail =
  sd_crumb :: "string list option"
  sd_color :: "string option"
  sd_headKind :: "string option"
  sd_source :: "string option"
  sd_target :: "string option"
  sd_body :: "string option"
  sd_flags :: "flag list option"
  sd_meta :: "string option"
  sd_enter :: string

record search_record =
  rc_id :: string
  rc_category :: category
  rc_title :: string
  rc_subtitle :: "string option"
  rc_keywords :: string
  rc_group :: "string option"
  rc_index :: "string option"
  rc_color :: "string option"
  rc_kind :: "string option"
  rc_shortcut :: "string option"
  rc_detail :: search_detail
  rc_target :: "target option"

definition no_detail :: "string \<Rightarrow> search_detail" where
  "no_detail enter =
     \<lparr>sd_crumb = None, sd_color = None, sd_headKind = None, sd_source = None, sd_target = None,
      sd_body = None, sd_flags = None, sd_meta = None, sd_enter = enter\<rparr>"

definition bare_record :: "string \<Rightarrow> category \<Rightarrow> string \<Rightarrow> string \<Rightarrow> search_detail \<Rightarrow> search_record" where
  "bare_record i c title keywords detail =
     \<lparr>rc_id = i, rc_category = c, rc_title = title, rc_subtitle = None, rc_keywords = keywords,
      rc_group = None, rc_index = None, rc_color = None, rc_kind = None, rc_shortcut = None,
      rc_detail = detail, rc_target = None\<rparr>"

definition NODE_KINDS :: "string list" where
  "NODE_KINDS = [''object'', ''belongs_to'', ''has_one'', ''has_many'', ''many_to_many'']"

definition fieldColor :: "string \<Rightarrow> string" where
  "fieldColor kind =
     (if kind \<in> set NODE_KINDS then ''var(--k-'' @ kind @ '')'' else ''var(--'' @ typeClass kind @ '')'')"

definition middot :: string where
  "middot = [CHR '' '', CHR 0xB7, CHR '' '']"

definition n_fields :: "translate \<Rightarrow> nat \<Rightarrow> string" where
  "n_fields t n = t ''node.fields'' [(''n'', JNum (Fin (of_nat n)))]"

definition index_record :: "translate \<Rightarrow> string \<Rightarrow> doc \<Rightarrow> index_entry \<Rightarrow> search_record" where
  "index_record t dash d entry =
     (let schema = obj_get (doc_schemas d) (e_name entry);
          table = (case schema of None \<Rightarrow> '''' | Some s \<Rightarrow> s_table s);
          fieldCount = (case schema of None \<Rightarrow> 0 | Some s \<Rightarrow> length (s_fields s)) in
      (bare_record (''index.'' @ e_name entry) Index_c (e_name entry) (''index '' @ table)
         ((no_detail (t ''search.openIndex'' []))
            \<lparr>sd_meta := Some (t ''inspector.rootTable'' [] @ '': '' @ (if table = '''' then dash else table)),
             sd_flags := (if fieldCount \<noteq> 0 then Some [\<lparr>fl_text = n_fields t fieldCount, fl_ok = False\<rparr>] else None)\<rparr>))
        \<lparr>rc_subtitle := Some (if fieldCount \<noteq> 0 then table @ middot @ n_fields t fieldCount else table),
         rc_index := Some (e_name entry),
         rc_target := Some (To_index (e_name entry))\<rparr>)"

definition find_column :: "table_shape list \<Rightarrow> string \<Rightarrow> string option \<Rightarrow> column_shape option" where
  "find_column tables table name =
     (case name of
        None \<Rightarrow> None
      | Some n \<Rightarrow>
          if n = '''' then None
          else (case find (\<lambda>tb. t_name tb = table) tables of
                  None \<Rightarrow> None | Some tb \<Rightarrow> find (\<lambda>c. cs_name c = n) (t_columns tb)))"

definition node_record :: "translate \<Rightarrow> string \<Rightarrow> index_schema \<Rightarrow> doc_node \<Rightarrow> search_record" where
  "node_record t name schema node =
     (bare_record (''node.'' @ name @ ''.'' @ pathId (n_path node)) Field_c
        (case n_name node of Some x \<Rightarrow> x | None \<Rightarrow> n_table node)
        (n_kind node @ '' '' @ n_table node @ '' '' @ name)
        \<lparr>sd_crumb = Some (name # butlast (pathLabels schema (n_path node))),
         sd_color = Some (fieldColor (n_kind node)), sd_headKind = Some (n_kind node), sd_source = None,
         sd_target = None, sd_body = Some (t (''kindHelp.'' @ n_kind node) []), sd_flags = None,
         sd_meta = Some (n_table node @ middot @ n_fields t (length (n_leaves node))),
         sd_enter = t ''search.jumpNode'' []\<rparr>)
       \<lparr>rc_subtitle := Some (name @ middot @ n_kind node), rc_index := Some name,
        rc_color := Some (fieldColor (n_kind node)), rc_kind := Some (n_kind node),
        rc_target := Some (To_node name (n_path node))\<rparr>"

definition nullable_flag :: "translate \<Rightarrow> column_shape \<Rightarrow> flag" where
  "nullable_flag t col =
     (if cs_nullable col then \<lparr>fl_text = t ''inspector.colNullable'' [], fl_ok = False\<rparr>
      else \<lparr>fl_text = t ''inspector.colNotNull'' [], fl_ok = True\<rparr>)"

definition leaf_record ::
  "translate \<Rightarrow> table_shape list \<Rightarrow> string \<Rightarrow> index_schema \<Rightarrow> doc_node \<Rightarrow> leaf_field \<Rightarrow> search_record" where
  "leaf_record t tables name schema node leaf =
     (let col = find_column tables (n_table node) (lf_column leaf);
          src = (case lf_column leaf of
                   Some c \<Rightarrow> if c = '''' then None
                     else Some (n_table node @ ''.'' @ c @ (case col of Some x \<Rightarrow> middot @ cs_sql_type x | None \<Rightarrow> ''''))
                 | None \<Rightarrow> None) in
      (bare_record (''field.'' @ name @ ''.'' @ pathId (n_path node) @ ''.'' @ show_nat (lf_index leaf)) Field_c
         (lf_name leaf)
         (lf_kind leaf @ '' '' @ (case lf_column leaf of Some c \<Rightarrow> c | None \<Rightarrow> '''') @ '' '' @ n_table node @ '' '' @ name)
         \<lparr>sd_crumb = Some (name # pathLabels schema (n_path node)), sd_color = Some (fieldColor (lf_kind leaf)),
          sd_headKind = None, sd_source = src, sd_target = Some (lf_kind leaf), sd_body = None,
          sd_flags = map_option (\<lambda>x. [nullable_flag t x]) col, sd_meta = None,
          sd_enter = t ''search.jumpField'' []\<rparr>)
        \<lparr>rc_subtitle := Some (name @ middot @ n_table node), rc_index := Some name,
         rc_color := Some (fieldColor (lf_kind leaf)), rc_kind := Some (lf_kind leaf),
         rc_target := Some (To_field name (n_path node) (lf_index leaf))\<rparr>)"

definition node_records ::
  "translate \<Rightarrow> table_shape list \<Rightarrow> string \<Rightarrow> index_schema \<Rightarrow> doc_node \<Rightarrow> search_record list" where
  "node_records t tables name schema node =
     (if n_path node \<noteq> [] then [node_record t name schema node] else []) @
     map (leaf_record t tables name schema node) (n_leaves node)"

definition setting :: "translate \<Rightarrow> string \<Rightarrow> string \<Rightarrow> string \<Rightarrow> string \<Rightarrow> search_record" where
  "setting t i title body keywords =
     (bare_record i Setting_c title keywords ((no_detail (t ''search.openSettings'' []))\<lparr>sd_body := Some body\<rparr>))
       \<lparr>rc_target := Some To_config\<rparr>"

definition setting_records :: "translate \<Rightarrow> config_toml \<Rightarrow> search_record list" where
  "setting_records t config =
     [setting t ''set.prefix'' (t ''config.indexPrefix'' []) (t ''search.descPrefix'' []) ''prefix name deployment'',
      setting t ''set.connection'' (t ''config.connection'' []) (t ''search.descConnection'' [])
        ''connection database url host port user password source postgres dsn'',
      setting t ''set.onError'' ''on_error'' (t ''search.descOnError'' []) ''on error policy stop skip failure'',
      setting t ''set.server'' (t ''search.serverAddresses'' []) (t ''search.descServer'' [])
        ''server public private address http port metrics status''] @
     map (\<lambda>sinkName. setting t (''set.sink.'' @ sinkName) sinkName (t ''search.descSink'' [])
            (''sink '' @ sinkName @ '' opensearch stdout output url''))
       (obj_keys (case cfg_sinks config of None \<Rightarrow> [] | Some s \<Rightarrow> s))"

definition n_cols :: "translate \<Rightarrow> nat \<Rightarrow> string" where
  "n_cols t n = t ''catalog.cols'' [(''n'', JNum (Fin (of_nat n)))]"

definition table_record :: "translate \<Rightarrow> table_shape \<Rightarrow> search_record" where
  "table_record t table =
     (bare_record (''table.'' @ t_name table) Catalog_c (t_name table)
        (''table '' @ join_with '' '' (map cs_name (t_columns table)))
        ((no_detail (t ''search.browseTables'' []))
           \<lparr>sd_meta := Some (t_schema table @ middot @ n_cols t (length (t_columns table))),
            sd_flags := (if t_primary_key table \<noteq> []
                         then Some [\<lparr>fl_text = ''pk: '' @ join_with '', '' (t_primary_key table), fl_ok = True\<rparr>]
                         else None)\<rparr>))
       \<lparr>rc_subtitle := Some (n_cols t (length (t_columns table))), rc_target := Some To_catalog\<rparr>"

definition column_record :: "translate \<Rightarrow> table_shape \<Rightarrow> column_shape \<Rightarrow> search_record" where
  "column_record t table col =
     (bare_record (''column.'' @ t_name table @ ''.'' @ cs_name col) Catalog_c (cs_name col)
        (''column '' @ cs_sql_type col @ '' '' @ t_name table)
        ((no_detail (t ''search.browseTables'' []))
           \<lparr>sd_crumb := Some [t_name table],
            sd_source := Some (t_name table @ ''.'' @ cs_name col @ middot @ cs_sql_type col),
            sd_flags := Some [nullable_flag t col]\<rparr>))
       \<lparr>rc_subtitle := Some (t_name table @ middot @ cs_sql_type col), rc_target := Some To_catalog\<rparr>"

definition buildSearchRecords :: "doc \<Rightarrow> catalog_response option \<Rightarrow> translate \<Rightarrow> string \<Rightarrow> search_record list" where
  "buildSearchRecords d catalog t dash =
     (let tables = (case catalog of None \<Rightarrow> [] | Some c \<Rightarrow> cat_tables c) in
      map (index_record t dash d) (entries_of (doc_config d)) @
      concat (map (\<lambda>(name, schema). concat (map (node_records t tables name schema) (gr_nodes (projectGraph schema))))
                (doc_schemas d)) @
      setting_records t (doc_config d) @
      concat (map (\<lambda>table. table_record t table # map (column_record t table) (t_columns table)) tables))"

section \<open>Ranking\<close>

definition is_lower :: "char \<Rightarrow> bool" where
  "is_lower c \<longleftrightarrow> 97 \<le> code_unit c \<and> code_unit c \<le> 122"

definition is_upper :: "char \<Rightarrow> bool" where
  "is_upper c \<longleftrightarrow> 65 \<le> code_unit c \<and> code_unit c \<le> 90"

text \<open>\<open>replace(/([a-z0-9])([A-Z])/g, "$1 $2")\<close>: an upper-case letter starts no other match.\<close>

fun split_humps :: "string \<Rightarrow> string" where
  "split_humps (c # d # s) =
     (if (is_lower c \<or> is_digit c) \<and> is_upper d then c # CHR '' '' # split_humps (d # s)
      else c # split_humps (d # s))"
| "split_humps s = s"

function words_of :: "(char \<Rightarrow> bool) \<Rightarrow> string \<Rightarrow> string list" where
  "words_of P s =
     (let s' = dropWhile (\<lambda>c. \<not> P c) s in
      if s' = [] then [] else takeWhile P s' # words_of P (dropWhile P s'))"
  by pat_completeness auto
termination
proof (relation "measure (\<lambda>(P, s). length s)", goal_cases)
  case (2 P s s')
  obtain c r where s': "s' = c # r" using 2(2) by (cases s') auto
  have "P c" using 2 s' hd_dropWhile [of "\<lambda>c. \<not> P c" s] by (metis list.sel(1))
  then have "length (dropWhile P s') < length s'" using s' by (simp add: le_imp_less_Suc length_dropWhile_le)
  moreover have "length s' \<le> length s" using 2(1) by (simp add: length_dropWhile_le)
  ultimately show ?case by simp
qed simp

declare words_of.simps [simp del]

definition tokenize_query :: "string \<Rightarrow> string list" where
  "tokenize_query txt = words_of (\<lambda>c. is_lower c \<or> is_digit c) (to_lower (split_humps txt))"

text \<open>The starts the loop over \<open>indexOf\<close> finds for one token.\<close>

function occurrences :: "string \<Rightarrow> string \<Rightarrow> nat \<Rightarrow> nat list" where
  "occurrences tok s from =
     (if tok = [] then []
      else case index_of_from tok s from of
        None \<Rightarrow> []
      | Some i \<Rightarrow> i # occurrences tok s (i + length tok))"
  by pat_completeness auto
termination
proof (relation "measure (\<lambda>(tok, s, from). length s - from)", goal_cases)
  case (2 tok s start i)
  then show ?case using index_of_from_Some [of tok s start i] by (cases tok) auto
qed simp

declare occurrences.simps [simp del]

definition titlePositions :: "string \<Rightarrow> string \<Rightarrow> nat list" where
  "titlePositions query title =
     sort (js_set (concat (map (\<lambda>tok. concat (map (\<lambda>i. [i..<i + length tok]) (occurrences tok (to_lower title) 0)))
                            (tokenize_query query))))"

definition titleBonus :: "string \<Rightarrow> string \<Rightarrow> rat" where
  "titleBonus queryLower title =
     (let t = to_lower title in
      if t = queryLower then 8 / 5 else if starts_with queryLower t then 13 / 10 else 1)"

record ranked =
  rk_record :: search_record
  rk_positions :: "nat list"

definition score_hit ::
  "(search_record \<Rightarrow> rat) \<Rightarrow> string \<Rightarrow> (string \<times> search_record) list \<Rightarrow> string \<times> rat \<Rightarrow>
     (search_record \<times> nat list \<times> rat) option" where
  "score_hit weight query byId res =
     map_option
       (\<lambda>r. (r, titlePositions query (rc_title r),
              snd res * weight r * titleBonus (to_lower (trim query)) (rc_title r)))
       (map_of byId (fst res))"

definition runSearch ::
  "(string \<Rightarrow> (string \<times> rat) list) \<Rightarrow> string \<Rightarrow> (string \<times> search_record) list \<Rightarrow> (search_record \<Rightarrow> rat) \<Rightarrow> ranked list" where
  "runSearch search query byId weight =
     map (\<lambda>(r, p, sc). \<lparr>rk_record = r, rk_positions = p\<rparr>)
       (sort_key (\<lambda>(r, p, sc). - sc) (somes (map (score_hit weight query byId) (search query))))"

section \<open>The query's words and the highlight\<close>

lemma words_of_word:
  "w \<in> set (words_of P s) \<Longrightarrow> w \<noteq> [] \<and> (\<forall>c \<in> set w. P c)"
proof (induction P s rule: words_of.induct)
  case (1 P s)
  let ?s = "dropWhile (\<lambda>c. \<not> P c) s"
  have "?s \<noteq> [] \<Longrightarrow> P (hd ?s)" by (metis hd_dropWhile)
  then have ne: "?s \<noteq> [] \<Longrightarrow> takeWhile P ?s \<noteq> []" by (cases ?s) auto
  consider "?s = []" | "?s \<noteq> []" "w = takeWhile P ?s" | "?s \<noteq> []" "w \<in> set (words_of P (dropWhile P ?s))"
    using "1.prems" by (auto simp: words_of.simps [of P s] Let_def split: if_splits)
  then show ?case
  proof cases
    case 1
    then show ?thesis using "1.prems" by (simp add: words_of.simps [of P s])
  next
    case 2
    then show ?thesis using ne by (auto dest: set_takeWhileD)
  next
    case 3
    then show ?thesis using "1.IH" by blast
  qed
qed

lemma words_of_sep: "\<forall>c \<in> set u. \<not> P c \<Longrightarrow> words_of P (u @ s) = words_of P s"
  by (simp add: words_of.simps [of P "u @ s"] words_of.simps [of P s])

lemma words_of_one:
  assumes "u \<noteq> []" "\<forall>c \<in> set u. P c" "s = [] \<or> \<not> P (hd s)"
  shows "words_of P (u @ s) = u # words_of P s"
proof -
  have d: "dropWhile (\<lambda>c. \<not> P c) (u @ s) = u @ s"
    using assms(1,2) by (cases u) auto
  have t: "takeWhile P (u @ s) = u" "dropWhile P (u @ s) = s"
    using assms by (cases s; auto simp: takeWhile_append dropWhile_append)+
  show ?thesis using assms(1) by (simp add: words_of.simps [of P "u @ s"] d t)
qed

text \<open>A query of words, whatever separates them, is those words.\<close>

lemma words_of_words:
  "\<forall>u \<in> set us. u \<noteq> [] \<and> (\<forall>c \<in> set u. P c) \<Longrightarrow> \<not> P c \<Longrightarrow>
     words_of P (concat (map (\<lambda>u. u @ [c]) us)) = us"
proof (induction us)
  case Nil
  then show ?case by (simp add: words_of.simps)
next
  case (Cons u us)
  then show ?case
    using words_of_one [of u P "c # concat (map (\<lambda>u. u @ [c]) us)"]
      words_of_sep [of "[c]" P "concat (map (\<lambda>u. u @ [c]) us)"] by simp
qed

lemma tokenize_query_word:
  "w \<in> set (tokenize_query s) \<Longrightarrow> w \<noteq> [] \<and> (\<forall>c \<in> set w. is_lower c \<or> is_digit c)"
  unfolding tokenize_query_def by (rule words_of_word)

lemma index_of_least: "index_of p s = Some i \<Longrightarrow> take (length p) (drop k s) = p \<Longrightarrow> i \<le> k \<or> length s < k + length p"
proof (induction p s arbitrary: i k rule: index_of.induct)
  case (2 p c s)
  then show ?case
    by (cases k) (fastforce simp: starts_with_def split: if_splits)+
qed (auto split: if_splits)

lemma occurrences_hit:
  "i \<in> set (occurrences tok s start) \<Longrightarrow> i + length tok \<le> length s \<and> take (length tok) (drop i s) = tok"
proof (induction tok s start rule: occurrences.induct)
  case (1 tok s start)
  show ?case
  proof (cases "index_of_from tok s start")
    case None
    then show ?thesis using "1.prems" by (simp add: occurrences.simps [of tok s start] split: if_splits)
  next
    case (Some j)
    then show ?thesis
      using "1.prems" "1.IH" index_of_from_Some [OF Some]
      by (auto simp: occurrences.simps [of tok s start] split: if_splits)
  qed
qed

text \<open>An occurrence the loop skips overlaps one it found.\<close>

lemma occurrences_cover:
  "tok \<noteq> [] \<Longrightarrow> start \<le> k \<Longrightarrow> k + length tok \<le> length s \<Longrightarrow> take (length tok) (drop k s) = tok \<Longrightarrow>
     \<exists>i \<in> set (occurrences tok s start). i \<le> k \<and> k < i + length tok"
proof (induction tok s start rule: occurrences.induct)
  case (1 tok s start)
  let ?d = "drop start s"
  have at: "take (length tok) (drop (k - start) ?d) = tok" using "1.prems" by simp
  obtain j where j: "index_of tok ?d = Some j" "j \<le> k - start"
  proof (cases "index_of tok ?d")
    case None
    then show ?thesis using index_of_None [OF None at] "1.prems" by simp
  next
    case (Some j)
    then show ?thesis using index_of_least [OF Some at] that "1.prems" by auto
  qed
  let ?i = "min start (length s) + j"
  have i: "index_of_from tok s start = Some ?i" and le: "?i \<le> k"
    using j "1.prems" by (auto simp: index_of_from_def)
  have eq: "occurrences tok s start = ?i # occurrences tok s (?i + length tok)"
    using i "1.prems" 1 by (simp add: occurrences.simps [of tok s start])
  show ?case
  proof (cases "k < ?i + length tok")
    case True
    then show ?thesis using le eq by auto
  next
    case False
    then show ?thesis using "1.IH" [OF "1.prems"(1) i] "1.prems" eq by auto
  qed
qed

lemma set_titlePositions:
  "set (titlePositions query title) =
     (\<Union>tok \<in> set (tokenize_query query). \<Union>i \<in> set (occurrences tok (to_lower title) 0). {i..<i + length tok})"
  by (auto simp: titlePositions_def)

lemma titlePositions_ordered: "sorted (titlePositions query title) \<and> distinct (titlePositions query title)"
  by (simp add: titlePositions_def)

lemma titlePositions_bounded: "p \<in> set (titlePositions query title) \<Longrightarrow> p < length title"
  using occurrences_hit by (fastforce simp: set_titlePositions to_lower_def)

text \<open>A word of the query that occurs in the title is highlighted there, at least in part.\<close>

lemma titlePositions_covers:
  assumes tok: "tok \<in> set (tokenize_query query)"
    and at: "k + length tok \<le> length title" "take (length tok) (drop k (to_lower title)) = tok"
  shows "k \<in> set (titlePositions query title)"
proof -
  have "k + length tok \<le> length (to_lower title)" using at by (simp add: to_lower_def)
  then obtain i where "i \<in> set (occurrences tok (to_lower title) 0)" "i \<le> k" "k < i + length tok"
    using occurrences_cover [of tok 0 k "to_lower title"] tokenize_query_word [OF tok] at by auto
  then show ?thesis using tok by (auto simp: set_titlePositions)
qed


section \<open>The ranking\<close>

definition scored_hits ::
  "(string \<Rightarrow> (string \<times> rat) list) \<Rightarrow> string \<Rightarrow> (string \<times> search_record) list \<Rightarrow> (search_record \<times> rat) set" where
  "scored_hits search query byId = {(r, sc). \<exists>i. (i, sc) \<in> set (search query) \<and> map_of byId i = Some r}"

definition final_score :: "(search_record \<Rightarrow> rat) \<Rightarrow> string \<Rightarrow> rat \<Rightarrow> search_record \<Rightarrow> rat" where
  "final_score weight query sc r = sc * weight r * titleBonus (to_lower (trim query)) (rc_title r)"

lemma set_scored:
  "x \<in> set (somes (map (score_hit weight query byId) (search query))) \<longleftrightarrow>
     (\<exists>(r, sc) \<in> scored_hits search query byId.
        x = (r, titlePositions query (rc_title r), final_score weight query sc r))"
proof -
  have "x \<in> set (somes (map (score_hit weight query byId) (search query))) \<longleftrightarrow>
      (\<exists>(i, sc) \<in> set (search query). score_hit weight query byId (i, sc) = Some x)"
    by (force simp: image_iff)
  also have "\<dots> \<longleftrightarrow> (\<exists>(r, sc) \<in> scored_hits search query byId.
      x = (r, titlePositions query (rc_title r), final_score weight query sc r))"
    by (auto simp: score_hit_def scored_hits_def final_score_def)
  finally show ?thesis .
qed

lemma runSearch_members:
  "rk \<in> set (runSearch search query byId weight) \<longleftrightarrow>
     (\<exists>sc. (rk_record rk, sc) \<in> scored_hits search query byId) \<and>
     rk_positions rk = titlePositions query (rc_title (rk_record rk))"
  by (cases rk) (force simp: runSearch_def set_scored simp del: set_somes)

lemma length_somes_map: "length (somes (map f xs)) \<le> length xs"
proof (induction xs)
  case (Cons x xs)
  then show ?case by (cases "f x") auto
qed simp

lemma length_runSearch: "length (runSearch search query byId weight) \<le> length (search query)"
  unfolding runSearch_def length_map length_sort by (rule length_somes_map)

text \<open>When the engine scores each record once, the best final score comes first.\<close>

lemma runSearch_sorted:
  assumes base: "\<And>r sc. (r, sc) \<in> scored_hits search query byId \<Longrightarrow> sc = base r"
  shows "sorted (map (\<lambda>rk. - final_score weight query (base (rk_record rk)) (rk_record rk))
    (runSearch search query byId weight))"
proof -
  let ?scored = "somes (map (score_hit weight query byId) (search query))"
  have "(case x of (r, p, sc) \<Rightarrow> - final_score weight query (base r) r) = (case x of (r, p, sc) \<Rightarrow> - sc)"
    if "x \<in> set ?scored" for x
    using that base by (auto simp only: set_scored split: prod.splits)
  then have "map (\<lambda>(r, p, sc). - final_score weight query (base r) r) (sort_key (\<lambda>(r, p, sc). - sc) ?scored) =
      map (\<lambda>(r, p, sc). - sc) (sort_key (\<lambda>(r, p, sc). - sc) ?scored)"
    by (intro map_cong) auto
  then have "sorted (map (\<lambda>(r, p, sc). - final_score weight query (base r) r) (sort_key (\<lambda>(r, p, sc). - sc) ?scored))"
    using sorted_sort_key by (simp only:)
  then show ?thesis by (simp add: runSearch_def o_def case_prod_unfold)
qed

section \<open>The records\<close>

text \<open>Where a record navigates exists in the document.\<close>

fun resolves :: "doc \<Rightarrow> target \<Rightarrow> bool" where
  "resolves d (To_index name) \<longleftrightarrow> name \<in> set (names_of (doc_config d))"
| "resolves d (To_node name path) \<longleftrightarrow>
     (\<exists>schema. (name, schema) \<in> set (doc_schemas d) \<and> path \<in> set (container_paths (s_fields schema)))"
| "resolves d (To_field name path leaf) \<longleftrightarrow>
     (\<exists>schema. (name, schema) \<in> set (doc_schemas d) \<and>
        (\<exists>n \<in> set (gr_nodes (projectGraph schema)). n_path n = path \<and> leaf \<in> lf_index ` set (n_leaves n)))"
| "resolves d To_config \<longleftrightarrow> True"
| "resolves d To_catalog \<longleftrightarrow> True"

lemmas record_defs = bare_record_def index_record_def node_record_def leaf_record_def setting_def
  table_record_def column_record_def Let_def

lemma record_target [simp]:
  "rc_target (index_record t dash d e) = Some (To_index (e_name e))"
  "rc_target (node_record t name schema n) = Some (To_node name (n_path n))"
  "rc_target (leaf_record t tables name schema n l) = Some (To_field name (n_path n) (lf_index l))"
  "rc_target (setting t i title body keywords) = Some To_config"
  "rc_target (table_record t table) = Some To_catalog"
  "rc_target (column_record t table col) = Some To_catalog"
  by (simp_all add: record_defs)

lemma setting_target: "r \<in> set (setting_records t c) \<Longrightarrow> rc_target r = Some To_config"
  by (auto simp: setting_records_def)

lemma node_records_target:
  "r \<in> set (node_records t tables name schema n) \<Longrightarrow>
     n_path n \<noteq> [] \<and> rc_target r = Some (To_node name (n_path n)) \<or>
     (\<exists>l \<in> set (n_leaves n). rc_target r = Some (To_field name (n_path n) (lf_index l)))"
  by (auto simp: node_records_def split: if_splits)

lemma node_path_container:
  "n \<in> set (gr_nodes (projectGraph schema)) \<Longrightarrow> n_path n \<noteq> [] \<Longrightarrow> n_path n \<in> set (container_paths (s_fields schema))"
  using graph_paths [of schema] by (metis image_eqI list.set_map)

lemma record_resolves:
  assumes "r \<in> set (buildSearchRecords d catalog t dash)"
  shows "\<exists>x. rc_target r = Some x \<and> resolves d x"
  using assms unfolding buildSearchRecords_def Let_def
  by (fastforce simp: setting_target names_of_def dest!: node_records_target setting_target
      intro: node_path_container)

text \<open>Nothing is left out: every index, every node below a root, every leaf has its record.\<close>

lemma index_findable:
  assumes "name \<in> set (names_of (doc_config d))"
  shows "\<exists>r \<in> set (buildSearchRecords d catalog t dash). rc_target r = Some (To_index name) \<and> rc_title r = name"
proof -
  obtain e where e: "e \<in> set (entries_of (doc_config d))" "e_name e = name"
    using assms by (auto simp: names_of_def)
  then have "index_record t dash d e \<in> set (buildSearchRecords d catalog t dash)"
    by (simp add: buildSearchRecords_def Let_def)
  moreover have "rc_title (index_record t dash d e) = name" using e by (simp add: record_defs)
  ultimately show ?thesis using e by (metis record_target(1))
qed

lemma leaf_findable:
  assumes "(name, schema) \<in> set (doc_schemas d)" "n \<in> set (gr_nodes (projectGraph schema))" "l \<in> set (n_leaves n)"
  shows "\<exists>r \<in> set (buildSearchRecords d catalog t dash).
    rc_target r = Some (To_field name (n_path n) (lf_index l)) \<and> rc_title r = lf_name l"
proof -
  let ?r = "leaf_record t (case catalog of None \<Rightarrow> [] | Some c \<Rightarrow> cat_tables c) name schema n l"
  have "?r \<in> set (buildSearchRecords d catalog t dash)"
    using assms by (force simp: buildSearchRecords_def Let_def node_records_def)
  moreover have "rc_title ?r = lf_name l" by (simp add: record_defs)
  ultimately show ?thesis by (metis record_target(3))
qed

text \<open>The ids take no account of the database schema: two tables of one name share theirs, and
  the engine, which keys its documents by id, is handed a duplicate.\<close>

lemma same_table_ids:
  assumes "cat_tables c = [a, b]" "t_name a = t_name b" "t_schema a \<noteq> t_schema b"
  shows "\<not> distinct (map rc_id (buildSearchRecords d (Some c) t dash))"
  using assms by (simp add: buildSearchRecords_def Let_def record_defs)

end
