(* ===== verification/Anchors.thy ===== *)
theory Anchors
  imports Schema
begin

text \<open>
  \<^verbatim>\<open>model/anchors.ts\<close>: where a parse error's squiggle goes. The document is the tree the
  \<^verbatim>\<open>yaml\<close> package parsed: a \<open>ydoc\<close> lists its pairs in the order its \<open>visit\<close> calls the
  visitor, each with the collection it is in. A scalar carries its text (\<open>String(value)\<close>) and
  its source range; line and column of a reported position count from 1.
\<close>

datatype ynode =
    Yscalar string "(nat \<times> nat) option"
  | Ymap "(ynode \<times> ynode) list"
  | Yother

type_synonym ydoc = "((ynode \<times> ynode) \<times> ynode) list"

record span =
  sp_from :: nat
  sp_to :: nat

record parse_error_info =
  pe_message :: string
  pe_location :: "(nat \<times> nat) option"
  pe_field :: "string option"
  pe_typeTag :: "string option"

definition FIELD_TAGS :: "string list" where
  "FIELD_TAGS =
     SCALAR_NAMES @
     [''geo'', ''map'', ''custom'', ''constant'', ''object'', ''belongs_to'', ''has_one'', ''has_many'',
      ''many_to_many'', ''count'', ''sum'', ''avg'', ''min'', ''max'', ''ids'']"

fun spanOf :: "ynode \<Rightarrow> span option" where
  "spanOf (Yscalar _ (Some (a, b))) = Some \<lparr>sp_from = a, sp_to = b\<rparr>"
| "spanOf _ = None"

text \<open>The first element a loop with an early return stops at.\<close>

fun first_some :: "('a \<Rightarrow> 'b option) \<Rightarrow> 'a list \<Rightarrow> 'b option" where
  "first_some f [] = None"
| "first_some f (x # xs) = (case f x of None \<Rightarrow> first_some f xs | Some y \<Rightarrow> Some y)"

fun isMap :: "ynode \<Rightarrow> (ynode \<times> ynode) list option" where
  "isMap (Ymap items) = Some items"
| "isMap _ = None"

fun field_hit ::
  "string \<Rightarrow> string option \<Rightarrow> (ynode \<times> ynode) \<times> ynode \<Rightarrow> (span \<times> (ynode \<times> ynode) list option) option" where
  "field_hit name tag ((Yscalar key r, Yscalar val r'), parent) =
     (if val \<noteq> name then None
      else if (case tag of Some t \<Rightarrow> if t \<noteq> '''' then key \<noteq> t else key \<notin> set FIELD_TAGS
                         | None \<Rightarrow> key \<notin> set FIELD_TAGS) then None
      else (case spanOf (Yscalar val r') of None \<Rightarrow> None | Some sp \<Rightarrow> Some (sp, isMap parent)))"
| "field_hit name tag _ = None"

definition anchorField ::
  "ydoc \<Rightarrow> string \<Rightarrow> string option \<Rightarrow> (span \<times> (ynode \<times> ynode) list option) option" where
  "anchorField doc name tag = first_some (field_hit name tag) doc"

fun scalar_span :: "string \<Rightarrow> ynode \<Rightarrow> span option" where
  "scalar_span txt (Yscalar v r) = (if v = txt then spanOf (Yscalar v r) else None)"
| "scalar_span txt _ = None"

definition anchorValueIn :: "(ynode \<times> ynode) list \<Rightarrow> string \<Rightarrow> span option" where
  "anchorValueIn items txt = first_some (\<lambda>(k, v). scalar_span txt v) items"

definition anchorKeyIn :: "(ynode \<times> ynode) list \<Rightarrow> string \<Rightarrow> span option" where
  "anchorKeyIn items txt = first_some (\<lambda>(k, v). scalar_span txt k) items"

definition anchorToken :: "ydoc \<Rightarrow> string \<Rightarrow> span option" where
  "anchorToken doc token = first_some (\<lambda>((k, v), _). first_some (scalar_span token) [k, v]) doc"

fun line_offset :: "string \<Rightarrow> nat \<Rightarrow> nat \<Rightarrow> nat" where
  "line_offset txt 0 offset = offset"
| "line_offset txt (Suc n) offset =
     (case index_of_from [CHR 0x0A] txt offset of
        None \<Rightarrow> offset
      | Some nl \<Rightarrow> line_offset txt n (nl + 1))"

definition offsetOf :: "string \<Rightarrow> nat \<Rightarrow> nat \<Rightarrow> nat" where
  "offsetOf txt line column = min (line_offset txt (line - 1) 0 + column - 1) (length txt)"

text \<open>The captures of \<open>matchAll(/q([^q]+)q/g)\<close>.\<close>

function quoted :: "char \<Rightarrow> string \<Rightarrow> string list" where
  "quoted q [] = []"
| "quoted q (c # s) =
     (if c = q then
        (let body = takeWhile (\<lambda>x. x \<noteq> q) s; rest = dropWhile (\<lambda>x. x \<noteq> q) s in
         if body \<noteq> [] \<and> rest \<noteq> [] then body # quoted q (tl rest) else quoted q s)
      else quoted q s)"
  by pat_completeness auto
termination
  by (relation "measure (\<lambda>(q, s). length s)") (auto intro: le_imp_less_Suc diff_le_self le_trans [OF _ length_dropWhile_le])

definition token_char :: "char \<Rightarrow> bool" where
  "token_char c \<longleftrightarrow> \<not> is_space c \<and> c \<notin> set '':,#[]{}''"

definition anchorParseError :: "ydoc \<Rightarrow> string \<Rightarrow> parse_error_info \<Rightarrow> span" where
  "anchorParseError doc txt err =
     (case pe_location err of
        Some (line, column) \<Rightarrow>
          (let start = offsetOf txt line column;
               token = takeWhile token_char (drop start txt)
           in \<lparr>sp_from = start, sp_to = start + max (if token = [] then 1 else length token) 1\<rparr>)
      | None \<Rightarrow>
          (case (case pe_field err of
                   Some name \<Rightarrow> if name \<noteq> '''' then anchorField doc name (pe_typeTag err) else None
                 | None \<Rightarrow> None) of
             Some (sp, Some items) \<Rightarrow>
               (case first_some (anchorValueIn items) (quoted CHR 0x22 (pe_message err)) of
                  Some x \<Rightarrow> x
                | None \<Rightarrow>
                    (case first_some (\<lambda>token. if Some token = pe_field err \<or> Some token = pe_typeTag err then None
                                              else anchorKeyIn items token)
                            (quoted CHR 0x60 (pe_message err)) of
                       Some x \<Rightarrow> x
                     | None \<Rightarrow> sp))
           | Some (sp, None) \<Rightarrow> sp
           | None \<Rightarrow>
               (case first_some (anchorToken doc) (rev (quoted CHR 0x60 (pe_message err))) of
                  Some x \<Rightarrow> x
                | None \<Rightarrow> \<lparr>sp_from = 0, sp_to = 0\<rparr>)))"

section \<open>What an anchor is\<close>

lemma first_some_Some: "first_some f xs = Some y \<Longrightarrow> \<exists>x \<in> set xs. f x = Some y"
  by (induction xs) (auto split: option.splits)

lemma first_some_None: "first_some f xs = None \<longleftrightarrow> (\<forall>x \<in> set xs. f x = None)"
  by (induction xs) (auto split: option.splits)

lemma first_some_append:
  "first_some f (xs @ ys) = (case first_some f xs of None \<Rightarrow> first_some f ys | Some y \<Rightarrow> Some y)"
  by (induction xs) (auto split: option.splits)

lemma scalar_span_Some: "scalar_span txt n = Some s \<Longrightarrow> spanOf n = Some s \<and> (\<exists>r. n = Yscalar txt r)"
  by (cases n) (auto split: if_splits)

lemma quoted_tokens: "tok \<in> set (quoted q s) \<Longrightarrow> tok \<noteq> [] \<and> q \<notin> set tok"
proof (induction q s rule: quoted.induct)
  case (2 q c s)
  then show ?case by (auto simp: Let_def split: if_splits dest: set_takeWhileD)
qed simp

lemma quoted_first:
  assumes "q \<notin> set pre" and "tok \<noteq> []" and "q \<notin> set tok"
  shows "quoted q (pre @ q # tok @ q # post) = tok # quoted q post"
proof -
  have *: "takeWhile (\<lambda>x. x \<noteq> q) (tok @ q # post) = tok" "dropWhile (\<lambda>x. x \<noteq> q) (tok @ q # post) = q # post"
    using assms(3) by (auto simp: takeWhile_append dropWhile_append)
  show ?thesis using assms(1)
  proof (induction pre)
    case Nil
    then show ?case using * assms(2) by simp
  qed auto
qed

section \<open>Lines and offsets\<close>

lemma line_offset_drop:
  assumes "start \<le> length txt" and "n < length (split_char CHR 0x0A (drop start txt))"
  shows "line_offset txt n start \<le> length txt \<and>
    drop (line_offset txt n start) txt = join_with [CHR 0x0A] (drop n (split_char CHR 0x0A (drop start txt)))"
  using assms
proof (induction n arbitrary: start)
  case (Suc n)
  let ?s = "drop start txt" and ?u = "takeWhile (\<lambda>x. x \<noteq> CHR 0x0A) (drop start txt)"
  have nl: "CHR 0x0A \<in> set ?s" using Suc.prems(2) split_char_no_sep [of "CHR 0x0A" ?s] by fastforce
  then obtain u v where uv: "?s = u @ CHR 0x0A # v" "CHR 0x0A \<notin> set u" by (meson split_list_first)
  have "\<forall>x \<in> set u. x \<noteq> CHR 0x0A" using uv(2) by metis
  then have u: "?u = u" by (simp add: uv(1))
  with uv have v: "?s = ?u @ CHR 0x0A # v" by simp
  have i: "index_of_from [CHR 0x0A] txt start = Some (start + length ?u)"
    using nl Suc.prems(1) by (simp add: index_of_from_def index_of_char)
  have "CHR 0x0A \<notin> set ?u" by (auto dest: set_takeWhileD)
  then have split: "split_char CHR 0x0A ?s = ?u # split_char CHR 0x0A v"
    using v split_char_append by metis
  have "drop (length ?u + 1) ?s = v" by (subst v) simp
  then have v': "drop (start + length ?u + 1) txt = v" by (simp add: add.commute add.left_commute)
  have "length ?s = length ?u + 1 + length v" by (subst v) simp
  then have le: "start + length ?u + 1 \<le> length txt" using Suc.prems(1) by simp
  from Suc.IH [OF le, unfolded v'] Suc.prems(2) show ?case by (simp add: i split)
qed simp

lemma offsetOf_line:
  assumes "1 \<le> line" and "line \<le> length (split_char CHR 0x0A txt)"
  shows "drop (offsetOf txt line 1) txt = join_with [CHR 0x0A] (drop (line - 1) (split_char CHR 0x0A txt))"
  using line_offset_drop [of 0 "txt" "line - 1"] assms by (simp add: offsetOf_def min_def)

lemma offsetOf_bound: "offsetOf txt line column \<le> length txt"
  by (simp add: offsetOf_def)

section \<open>Where an anchor can be\<close>

definition in_text :: "nat \<Rightarrow> ynode \<Rightarrow> bool" where
  "in_text n node \<longleftrightarrow> (case spanOf node of None \<Rightarrow> True | Some s \<Rightarrow> sp_from s \<le> sp_to s \<and> sp_to s \<le> n)"

definition items_in :: "nat \<Rightarrow> (ynode \<times> ynode) list \<Rightarrow> bool" where
  "items_in n items \<longleftrightarrow> list_all (\<lambda>(k, v). in_text n k \<and> in_text n v) items"

definition doc_in :: "nat \<Rightarrow> ydoc \<Rightarrow> bool" where
  "doc_in n doc \<longleftrightarrow>
     list_all (\<lambda>((k, v), parent). in_text n k \<and> in_text n v \<and>
                 (case isMap parent of None \<Rightarrow> True | Some items \<Rightarrow> items_in n items)) doc"

lemma field_hit_Some:
  assumes "field_hit name tag pr = Some (sp, m)"
  obtains key r r' parent where "pr = ((Yscalar key r, Yscalar name r'), parent)"
    and "spanOf (Yscalar name r') = Some sp" and "m = isMap parent"
    and "(\<exists>t. tag = Some t \<and> t \<noteq> '''' \<and> key = t) \<or> key \<in> set FIELD_TAGS"
  using assms
  by (cases "(name, tag, pr)" rule: field_hit.cases) (auto split: if_splits option.splits)

lemma anchorField_Some:
  assumes "anchorField doc name tag = Some (sp, m)"
  obtains key r r' parent where "((Yscalar key r, Yscalar name r'), parent) \<in> set doc"
    and "spanOf (Yscalar name r') = Some sp" and "m = isMap parent"
    and "(\<exists>t. tag = Some t \<and> t \<noteq> '''' \<and> key = t) \<or> key \<in> set FIELD_TAGS"
  using assms unfolding anchorField_def by (auto dest!: first_some_Some elim!: field_hit_Some)

lemma anchorField_exact:
  assumes "((Yscalar tag r, Yscalar name (Some rng)), parent) \<in> set doc" and "tag \<noteq> ''''"
  shows "anchorField doc name (Some tag) \<noteq> None"
proof
  assume "anchorField doc name (Some tag) = None"
  with assms have "field_hit name (Some tag) ((Yscalar tag r, Yscalar name (Some rng)), parent) = None"
    by (auto simp: anchorField_def first_some_None)
  with assms(2) show False by (cases rng) simp
qed

lemma anchorValueIn_Some:
  "anchorValueIn items txt = Some s \<Longrightarrow> \<exists>(k, v) \<in> set items. spanOf v = Some s"
  by (force simp: anchorValueIn_def dest!: first_some_Some scalar_span_Some)

lemma anchorKeyIn_Some:
  "anchorKeyIn items txt = Some s \<Longrightarrow> \<exists>(k, v) \<in> set items. spanOf k = Some s"
  by (force simp: anchorKeyIn_def dest!: first_some_Some scalar_span_Some)

lemma anchorToken_Some:
  "anchorToken doc txt = Some s \<Longrightarrow> \<exists>((k, v), m) \<in> set doc. spanOf k = Some s \<or> spanOf v = Some s"
  unfolding anchorToken_def
  by (drule first_some_Some) (fastforce dest: scalar_span_Some split: option.splits)

text \<open>A field's error stays on the field or inside the block it was found in.\<close>

lemma anchor_own_block:
  assumes loc: "pe_location err = None" and name: "pe_field err = Some name" "name \<noteq> ''''"
    and hit: "anchorField doc name (pe_typeTag err) = Some (sp, Some items)"
  shows "anchorParseError doc txt err = sp \<or>
    (\<exists>(k, v) \<in> set items. spanOf k = Some (anchorParseError doc txt err) \<or> spanOf v = Some (anchorParseError doc txt err))"
proof -
  let ?vs = "first_some (anchorValueIn items) (quoted CHR 0x22 (pe_message err))"
  let ?ks = "first_some (\<lambda>token. if Some token = pe_field err \<or> Some token = pe_typeTag err then None
               else anchorKeyIn items token) (quoted CHR 0x60 (pe_message err))"
  show ?thesis
  proof (cases ?vs)
    case (Some x)
    then obtain tok where "anchorValueIn items tok = Some x" by (auto dest: first_some_Some)
    with Some show ?thesis
      using loc name hit by (fastforce simp: anchorParseError_def dest: anchorValueIn_Some)
  next
    case None
    show ?thesis
    proof (cases ?ks)
      case (Some x)
      then obtain tok where "anchorKeyIn items tok = Some x" by (auto dest!: first_some_Some split: if_splits)
      with None Some show ?thesis
        using loc name hit by (fastforce simp: anchorParseError_def dest: anchorKeyIn_Some)
    qed (use None loc name hit in \<open>simp add: anchorParseError_def\<close>)
  qed
qed

lemma doc_in_members:
  "doc_in n doc \<Longrightarrow> ((k, v), parent) \<in> set doc \<Longrightarrow> in_text n k \<and> in_text n v"
  "doc_in n doc \<Longrightarrow> ((k, v), Ymap items) \<in> set doc \<Longrightarrow> (k', v') \<in> set items \<Longrightarrow> in_text n k' \<and> in_text n v'"
  by (fastforce simp: doc_in_def list_all_iff items_in_def)+

lemma isMap_Some: "isMap parent = Some items \<longleftrightarrow> parent = Ymap items"
  by (cases parent) auto

lemma in_text_span: "in_text n node \<Longrightarrow> spanOf node = Some s \<Longrightarrow> sp_from s \<le> sp_to s \<and> sp_to s \<le> n"
  by (simp add: in_text_def)

text \<open>The squiggle stays in the text, but for the one place past the end a position may name.\<close>

lemma anchorParseError_bounds:
  assumes doc: "doc_in (length txt) doc"
  shows "sp_from (anchorParseError doc txt err) \<le> sp_to (anchorParseError doc txt err) \<and>
    sp_from (anchorParseError doc txt err) \<le> length txt \<and>
    sp_to (anchorParseError doc txt err) \<le> max (length txt) (Suc (sp_from (anchorParseError doc txt err)))"
proof -
  let ?n = "length txt" and ?r = "anchorParseError doc txt err"
  have spans: ?thesis if "in_text ?n node" "spanOf node = Some ?r" for node
    using in_text_span [OF that] by (simp add: le_max_iff_disj)
  show ?thesis
  proof (cases "pe_location err")
    case (Some p)
    obtain l c where p: "p = (l, c)" by (cases p)
    have "length (takeWhile token_char (drop (offsetOf txt l c) txt)) \<le> ?n - offsetOf txt l c"
      using length_takeWhile_le [of token_char "drop (offsetOf txt l c) txt"] by simp
    then show ?thesis
      using Some p offsetOf_bound [of "txt" l c] by (auto simp: anchorParseError_def Let_def)
  next
    case loc: None
    let ?hit = "case pe_field err of Some name \<Rightarrow> if name \<noteq> '''' then anchorField doc name (pe_typeTag err) else None
                 | None \<Rightarrow> None"
    show ?thesis
    proof (cases ?hit)
      case None
      show ?thesis
      proof (cases "first_some (anchorToken doc) (rev (quoted CHR 0x60 (pe_message err)))")
        case (Some x)
        then obtain tok where "anchorToken doc tok = Some x" by (auto dest: first_some_Some)
        moreover have "?r = x" using loc None Some by (simp add: anchorParseError_def)
        ultimately show ?thesis using spans doc_in_members(1) [OF doc] anchorToken_Some by blast
      qed (use loc None in \<open>simp add: anchorParseError_def\<close>)
    next
      case (Some h)
      then obtain name where name: "pe_field err = Some name" "name \<noteq> ''''"
          "anchorField doc name (pe_typeTag err) = Some h" by (auto split: option.splits if_splits)
      obtain sp m where h: "h = (sp, m)" by (cases h)
      from name(3) [unfolded h] obtain key r r' parent
        where hit: "((Yscalar key r, Yscalar name r'), parent) \<in> set doc" "spanOf (Yscalar name r') = Some sp"
          "m = isMap parent" by (rule anchorField_Some)
      show ?thesis
      proof (cases m)
        case None
        then have "?r = sp" using loc name h by (simp add: anchorParseError_def)
        then show ?thesis using spans doc_in_members(1) [OF doc hit(1)] hit(2) by blast
      next
        case (Some items)
        then have "parent = Ymap items" using hit(3) isMap_Some by simp
        then show ?thesis
          using anchor_own_block [OF loc name(1,2), of doc sp items "txt"] name(3) h Some hit(1,2)
            doc_in_members [OF doc] spans by blast
      qed
    qed
  qed
qed

end
