(* ===== verification/Code_Mode.thy ===== *)
theory Code_Mode
  imports Save_Review Preview_Prune Anchors
begin

text \<open>
  The preview and the Code mode of \<^verbatim>\<open>App.tsx\<close>: three effects around requests that answer
  later. The state is the two stores, the component's own \<open>rawFor\<close>, \<open>codeProblem\<close> and
  \<open>parseSeq\<close>, the timer each effect may have running and the requests still open. An effect
  runs after a change of one of its dependencies, first its cleanup, then its body; the
  dependencies are compared by value. The servers' answers are part of the steps.
\<close>

record code_state =
  cm_app :: app
  cm_rawFor :: string
  cm_problem :: "parse_error_info option"
  cm_seq :: nat
  cm_timer :: "(nat \<times> string \<times> string) option"
  cm_open :: "(nat \<times> string \<times> string) list"
  cm_seed :: "string option"
  cm_ptimer :: "(string \<times> index_schema) option"
  cm_popen :: "(string \<times> index_schema) list"

abbreviation cm_active :: "code_state \<Rightarrow> string" where
  "cm_active st \<equiv> ds_active (ap_design (cm_app st))"

abbreviation cm_rawMode :: "code_state \<Rightarrow> bool" where
  "cm_rawMode st \<equiv> ui_rawMode (ap_ui (cm_app st))"

abbreviation cm_rawText :: "code_state \<Rightarrow> string" where
  "cm_rawText st \<equiv> ui_rawText (ap_ui (cm_app st))"

definition schema_at :: "app \<Rightarrow> string \<Rightarrow> index_schema option" where
  "schema_at a name = (case app_doc a of None \<Rightarrow> None | Some d \<Rightarrow> obj_get (doc_schemas d) name)"

definition cm_schema :: "code_state \<Rightarrow> index_schema option" where
  "cm_schema st = (if cm_active st = ''config'' then None else schema_at (cm_app st) (cm_active st))"

definition on_app :: "(app \<Rightarrow> app) \<Rightarrow> code_state \<Rightarrow> code_state" where
  "on_app f st = st\<lparr>cm_app := f (cm_app st)\<rparr>"

section \<open>The effects\<close>

text \<open>\<open>String(e)\<close> of an error; an engine's own message is abbreviated to the error's name.\<close>

definition error_string :: "js_error \<Rightarrow> string" where
  "error_string e =
     (case e of Thrown m \<Rightarrow> if m = [] then ''Error'' else ''Error: '' @ m | _ \<Rightarrow> errText e)"

definition run_preview :: "code_state \<Rightarrow> code_state" where
  "run_preview st =
     (let st = st\<lparr>cm_ptimer := None\<rparr> in
      case cm_schema st of
        None \<Rightarrow> on_app (on_design (setPreview None)) st
      | Some schema \<Rightarrow> st\<lparr>cm_ptimer := Some (cm_active st, prunedForPreview schema)\<rparr>)"

definition run_sync :: "code_state \<Rightarrow> code_state" where
  "run_sync st =
     (let st = st\<lparr>cm_timer := None\<rparr> in
      if \<not> cm_rawMode st \<or> cm_active st = ''config'' \<or> cm_rawFor st \<noteq> cm_active st
      then st\<lparr>cm_problem := None\<rparr>
      else st\<lparr>cm_seq := Suc (cm_seq st),
              cm_timer := Some (Suc (cm_seq st), cm_active st, cm_rawText st)\<rparr>)"

definition run_seed :: "code_state \<Rightarrow> code_state" where
  "run_seed st =
     (let st = st\<lparr>cm_seed := None\<rparr> in
      if \<not> cm_rawMode st \<or> cm_active st = ''config'' \<or> cm_rawFor st = cm_active st \<or> cm_schema st = None
      then st else st\<lparr>cm_seed := Some (cm_active st)\<rparr>)"

definition sync_deps :: "code_state \<Rightarrow> bool \<times> string \<times> string \<times> string" where
  "sync_deps st = (cm_rawMode st, cm_rawText st, cm_active st, cm_rawFor st)"

definition seed_deps :: "code_state \<Rightarrow> bool \<times> string \<times> string \<times> index_schema option \<times> project option" where
  "seed_deps st = (cm_rawMode st, cm_active st, cm_rawFor st, cm_schema st, ds_project (ap_design (cm_app st)))"

text \<open>A render after a change: the effects whose dependencies differ run, in their order.\<close>

definition settle :: "code_state \<Rightarrow> code_state \<Rightarrow> code_state" where
  "settle old st =
     (let st1 = (if (cm_active st, cm_schema st) \<noteq> (cm_active old, cm_schema old) then run_preview st else st);
          st2 = (if sync_deps st \<noteq> sync_deps old then run_sync st1 else st1)
      in if seed_deps st \<noteq> seed_deps old then run_seed st2 else st2)"

section \<open>Handlers and replies\<close>

definition disk_raw :: "design_state \<Rightarrow> string \<Rightarrow> string option" where
  "disk_raw s name =
     (case ds_project s of None \<Rightarrow> None
      | Some p \<Rightarrow> (case find (\<lambda>i. if_name i = name) (p_indexes p) of None \<Rightarrow> None | Some i \<Rightarrow> if_raw i))"

definition openRaw :: "code_state \<Rightarrow> code_state" where
  "openRaw st =
     (let s = ap_design (cm_app st);
          txt = (case ds_preview s of
                   Some p \<Rightarrow> pv_yaml p
                 | None \<Rightarrow> (case disk_raw s (ds_active s) of Some x \<Rightarrow> x | None \<Rightarrow> ''''))
      in (on_app (on_ui (setRawMode True) \<circ> on_ui (setRawText txt)) st)\<lparr>cm_rawFor := ds_active s\<rparr>)"

definition reset_code :: "code_state \<Rightarrow> code_state" where
  "reset_code st =
     (let r = reset (cm_app st) in st\<lparr>cm_app := fst r, cm_rawFor := (if snd r then '''' else cm_rawFor st)\<rparr>)"

definition fire_sync :: "code_state \<Rightarrow> code_state" where
  "fire_sync st =
     (case cm_timer st of None \<Rightarrow> st
      | Some rq \<Rightarrow> st\<lparr>cm_timer := None, cm_open := rq # cm_open st\<rparr>)"

definition fire_preview :: "code_state \<Rightarrow> code_state" where
  "fire_preview st =
     (case cm_ptimer st of None \<Rightarrow> st
      | Some rq \<Rightarrow> st\<lparr>cm_ptimer := None, cm_popen := rq # cm_popen st\<rparr>)"

definition problem_of :: "parse_response \<Rightarrow> parse_error_info option" where
  "problem_of res =
     (case pr_error res of
        None \<Rightarrow> None
      | Some e \<Rightarrow> if e = '''' then None
          else Some \<lparr>pe_message = e, pe_location = pr_location res, pe_field = pr_field res,
                     pe_typeTag = pr_type_tag res\<rparr>)"

text \<open>The edit ignores the schema it is given, so it never throws.\<close>

definition apply_parsed :: "index_schema \<Rightarrow> app \<Rightarrow> app" where
  "apply_parsed parsed a = a\<lparr>ap_design := catch_res (apply_edit (\<lambda>_. Inr parsed) (ap_design a)) (ap_design a)\<rparr>"

definition parse_reply :: "nat \<times> string \<times> string \<Rightarrow> parse_response res \<Rightarrow> code_state \<Rightarrow> code_state" where
  "parse_reply rq result st =
     (case rq of (seq, index, txt) \<Rightarrow>
       (let st = st\<lparr>cm_open := remove1 rq (cm_open st)\<rparr> in
        case result of
          Inl _ \<Rightarrow> st\<lparr>cm_problem := None\<rparr>
        | Inr res \<Rightarrow>
            if seq \<noteq> cm_seq st \<or> \<not> cm_rawMode st then st
            else
              (let st = st\<lparr>cm_problem := problem_of res\<rparr> in
               case pr_schema res of
                 None \<Rightarrow> st
               | Some parsed \<Rightarrow>
                   if Some parsed \<noteq> schema_at (cm_app st) index then on_app (apply_parsed parsed) st else st)))"

definition preview_reply :: "string \<times> index_schema \<Rightarrow> preview_response res \<Rightarrow> code_state \<Rightarrow> code_state" where
  "preview_reply rq result st =
     (let st = st\<lparr>cm_popen := remove1 rq (cm_popen st)\<rparr> in
      case result of
        Inl e \<Rightarrow> on_app (on_ui (setError (error_string e))) st
      | Inr p \<Rightarrow> on_app (on_design (setPreview (Some p))) st)"

definition seed_reply :: "preview_response res \<Rightarrow> code_state \<Rightarrow> code_state" where
  "seed_reply result st =
     (case cm_seed st of
        None \<Rightarrow> st
      | Some index \<Rightarrow>
          (let st = st\<lparr>cm_seed := None\<rparr> in
           case result of
             Inr p \<Rightarrow>
               if \<not> cm_rawMode st then st
               else (on_app (on_ui (setRawText (pv_yaml p))) st)\<lparr>cm_rawFor := index\<rparr>
           | Inl _ \<Rightarrow>
               (on_app (on_ui (setRawText
                  (case disk_raw (ap_design (cm_app st)) index of Some x \<Rightarrow> x | None \<Rightarrow> ''''))) st)
                 \<lparr>cm_rawFor := index\<rparr>))"

section \<open>Runs\<close>

definition code_init :: "app \<Rightarrow> code_state" where
  "code_init a =
     \<lparr>cm_app = a, cm_rawFor = '''', cm_problem = None, cm_seq = 0, cm_timer = None, cm_open = [],
      cm_seed = None, cm_ptimer = None, cm_popen = []\<rparr>"

text \<open>\<open>change\<close> is any other action on the stores: typing, an edit, opening an index, undo.\<close>

inductive code_step :: "code_state \<Rightarrow> code_state \<Rightarrow> bool" where
  change: "code_step st (settle st (st\<lparr>cm_app := a\<rparr>))"
| open_raw: "code_step st (settle st (openRaw st))"
| reset_raw: "code_step st (settle st (reset_code st))"
| fire: "code_step st (fire_sync st)"
| pfire: "code_step st (fire_preview st)"
| reply: "rq \<in> set (cm_open st) \<Longrightarrow> code_step st (settle st (parse_reply rq result st))"
| preply: "rq \<in> set (cm_popen st) \<Longrightarrow> code_step st (settle st (preview_reply rq presult st))"
| seeded: "code_step st (settle st (seed_reply presult st))"

inductive code_reachable :: "code_state \<Rightarrow> bool" where
  start: "\<not> ui_rawMode (ap_ui a) \<Longrightarrow> code_reachable (code_init a)"
| step: "code_reachable st \<Longrightarrow> code_step st st' \<Longrightarrow> code_reachable st'"


section \<open>What a reply may do\<close>

definition sync_on :: "code_state \<Rightarrow> bool" where
  "sync_on st \<longleftrightarrow> cm_rawMode st \<and> cm_active st \<noteq> ''config'' \<and> cm_rawFor st = cm_active st"

definition pending :: "code_state \<Rightarrow> (nat \<times> string \<times> string) set" where
  "pending st = set_option (cm_timer st) \<union> set (cm_open st)"

text \<open>Requests are numbered in order, and the newest number, while the sync is on, is that of the
  buffer as it stands.\<close>

definition code_inv :: "code_state \<Rightarrow> bool" where
  "code_inv st \<longleftrightarrow>
     (\<forall>(seq, index, txt) \<in> pending st. seq \<le> cm_seq st \<and>
        (sync_on st \<and> seq = cm_seq st \<longrightarrow> index = cm_active st \<and> txt = cm_rawText st))"

lemmas code_frames =
  on_app_def on_ui_def on_design_def setPreview_def setRawMode_def setRawText_def setError_def

lemma cm_run_preview [simp]:
  "cm_active (run_preview st) = cm_active st" "ap_ui (cm_app (run_preview st)) = ap_ui (cm_app st)"
  "cm_rawFor (run_preview st) = cm_rawFor st" "cm_seq (run_preview st) = cm_seq st"
  "cm_timer (run_preview st) = cm_timer st" "cm_open (run_preview st) = cm_open st"
  "app_doc (cm_app (run_preview st)) = app_doc (cm_app st)"
  by (simp_all add: run_preview_def code_frames Let_def cm_schema_def split: option.splits)

lemma cm_run_seed [simp]:
  "cm_app (run_seed st) = cm_app st" "cm_rawFor (run_seed st) = cm_rawFor st"
  "cm_seq (run_seed st) = cm_seq st" "cm_timer (run_seed st) = cm_timer st"
  "cm_open (run_seed st) = cm_open st"
  by (simp_all add: run_seed_def Let_def)

lemma cm_run_sync [simp]:
  "cm_app (run_sync st) = cm_app st" "cm_rawFor (run_sync st) = cm_rawFor st"
  "cm_open (run_sync st) = cm_open st"
  by (simp_all add: run_sync_def Let_def)

lemma settle_frame [simp]:
  "cm_active (settle old st) = cm_active st" "ap_ui (cm_app (settle old st)) = ap_ui (cm_app st)"
  "cm_rawFor (settle old st) = cm_rawFor st" "cm_open (settle old st) = cm_open st"
  "app_doc (cm_app (settle old st)) = app_doc (cm_app st)"
  by (simp_all add: settle_def Let_def)

lemma sync_on_settle [simp]: "sync_on (settle old st) = sync_on st"
  by (simp add: sync_on_def)

lemma run_sync_off: "\<not> sync_on st \<Longrightarrow> cm_timer (run_sync st) = None \<and> cm_seq (run_sync st) = cm_seq st"
  by (auto simp: run_sync_def sync_on_def Let_def)

lemma run_sync_on:
  "sync_on st \<Longrightarrow> cm_seq (run_sync st) = Suc (cm_seq st) \<and>
     cm_timer (run_sync st) = Some (Suc (cm_seq st), cm_active st, cm_rawText st)"
  by (auto simp: run_sync_def sync_on_def Let_def)

lemma settle_same_deps:
  "sync_deps st = sync_deps old \<Longrightarrow> cm_seq (settle old st) = cm_seq st \<and> cm_timer (settle old st) = cm_timer st"
  by (simp add: settle_def Let_def)

lemma settle_new_deps:
  assumes "sync_deps st \<noteq> sync_deps old"
  shows "sync_on st \<Longrightarrow> cm_seq (settle old st) = Suc (cm_seq st) \<and>
           cm_timer (settle old st) = Some (Suc (cm_seq st), cm_active st, cm_rawText st)"
    and "\<not> sync_on st \<Longrightarrow> cm_seq (settle old st) = cm_seq st \<and> cm_timer (settle old st) = None"
  using assms by (auto simp: settle_def Let_def run_sync_on run_sync_off sync_on_def)

lemma settle_inv:
  assumes inv: "code_inv old" and same: "cm_seq st = cm_seq old" "cm_timer st = cm_timer old"
    and sub: "set (cm_open st) \<subseteq> set (cm_open old)"
  shows "code_inv (settle old st)"
proof (cases "sync_deps st = sync_deps old")
  case True
  then have eq: "sync_on st = sync_on old" "cm_active st = cm_active old" "cm_rawText st = cm_rawText old"
    by (auto simp: sync_deps_def sync_on_def)
  have "pending (settle old st) \<subseteq> pending old"
    using sub same settle_same_deps [OF True] by (auto simp: pending_def)
  then show ?thesis
    using inv eq same settle_same_deps [OF True] by (fastforce simp: code_inv_def)
next
  case False
  have bounded: "(seq, index, txt) \<in> set (cm_open st) \<Longrightarrow> seq \<le> cm_seq st" for seq index "txt"
    using inv sub same by (fastforce simp: code_inv_def pending_def)
  show ?thesis
    by (cases "sync_on st")
      (use bounded settle_new_deps [OF False] in
        \<open>fastforce simp: code_inv_def pending_def dest: bounded\<close>)+
qed

lemma reply_frame:
  "cm_seq (parse_reply rq r st) = cm_seq st" "cm_timer (parse_reply rq r st) = cm_timer st"
  "cm_open (parse_reply rq r st) = remove1 rq (cm_open st)"
  by (simp_all add: parse_reply_def Let_def code_frames split: prod.splits sum.splits option.splits)

lemma preview_reply_frame:
  "cm_seq (preview_reply q r st) = cm_seq st" "cm_timer (preview_reply q r st) = cm_timer st"
  "cm_open (preview_reply q r st) = cm_open st"
  by (simp_all add: preview_reply_def Let_def code_frames split: sum.splits)

lemma seed_reply_frame:
  "cm_seq (seed_reply r st) = cm_seq st" "cm_timer (seed_reply r st) = cm_timer st"
  "cm_open (seed_reply r st) = cm_open st"
  by (simp_all add: seed_reply_def Let_def code_frames split: sum.splits option.splits)

lemma open_frame:
  "cm_seq (openRaw st) = cm_seq st" "cm_timer (openRaw st) = cm_timer st" "cm_open (openRaw st) = cm_open st"
  "cm_seq (reset_code st) = cm_seq st" "cm_timer (reset_code st) = cm_timer st"
  "cm_open (reset_code st) = cm_open st"
  by (simp_all add: openRaw_def reset_code_def Let_def code_frames)

lemma fire_inv:
  "code_inv st \<Longrightarrow> code_inv (fire_sync st)" "code_inv st \<Longrightarrow> code_inv (fire_preview st)"
  by (auto simp: code_inv_def fire_sync_def fire_preview_def pending_def sync_on_def split: option.splits)

lemma code_step_inv: "code_step st st' \<Longrightarrow> code_inv st \<Longrightarrow> code_inv st'"
  by (induction rule: code_step.induct)
    (auto simp: fire_inv reply_frame preview_reply_frame seed_reply_frame open_frame
      intro!: settle_inv dest: set_remove1_subset [THEN subsetD])

lemma code_inv_init: "code_inv (code_init a)"
  by (simp add: code_init_def code_inv_def pending_def)

lemma code_reachable_inv: "code_reachable st \<Longrightarrow> code_inv st"
  by (induction rule: code_reachable.induct) (auto simp: code_inv_init intro: code_step_inv)

text \<open>A reply that comes while the sync is on is dropped, or it is the parse of the buffer as it
  stands, and then at most the active index's schema changes, to that parse.\<close>

lemma synced_reply:
  assumes reach: "code_reachable st" and open_rq: "(seq, index, txt0) \<in> set (cm_open st)"
    and on: "sync_on st" and d: "app_doc (cm_app st) = Some d"
    and st': "st' = settle st (parse_reply (seq, index, txt0) (Inr resp) st)"
  shows "app_doc (cm_app st') = Some d \<or>
    (index = cm_active st \<and> txt0 = cm_rawText st \<and>
     (\<exists>parsed. pr_schema resp = Some parsed \<and>
        app_doc (cm_app st') = Some (d\<lparr>doc_schemas := obj_put (doc_schemas d) index parsed\<rparr>)))"
proof -
  have newest: "seq = cm_seq st \<Longrightarrow> index = cm_active st \<and> txt0 = cm_rawText st"
    using code_reachable_inv [OF reach] open_rq on by (fastforce simp: code_inv_def pending_def)
  then show ?thesis
    using on d unfolding st'
    by (auto simp: parse_reply_def Let_def on_app_def apply_parsed_def apply_edit_def schema_at_def sync_on_def
        split: option.splits)
qed

text \<open>Off the sync the guard is weaker: the effect that turns it off leaves the number as it is.
  Switching the index while a request is open writes the old index's parse into the new one.\<close>

lemma switch_index_race:
  assumes on: "sync_on st" and b: "b \<noteq> cm_active st" "b \<noteq> ''config''"
    and d: "app_doc (cm_app st) = Some d" and parsed: "pr_schema resp = Some parsed"
    and edited: "obj_get (doc_schemas d) (cm_active st) \<noteq> Some parsed"
    and st1: "st1 = settle st (on_app (on_design (openIndex b)) st)"
    and st2: "st2 = settle st1 (parse_reply (cm_seq st, cm_active st, txt0) (Inr resp) st1)"
  shows "cm_active st2 = b \<and> schema_at (cm_app st2) b = Some parsed"
proof -
  let ?o = "on_app (on_design (openIndex b)) st"
  have off: "\<not> sync_on ?o" and deps: "sync_deps ?o \<noteq> sync_deps st"
    using on b by (auto simp: sync_on_def sync_deps_def on_app_def on_design_def openIndex_def)
  have frame: "cm_active ?o = b" "app_doc (cm_app ?o) = Some d" "ap_ui (cm_app ?o) = ap_ui (cm_app st)"
    "cm_seq ?o = cm_seq st"
    using d by (simp_all add: on_app_def on_design_def openIndex_def)
  then have at1: "cm_active st1 = b" "app_doc (cm_app st1) = Some d" "cm_rawMode st1" "cm_seq st1 = cm_seq st"
    using on off settle_new_deps(2) [OF deps off] by (simp_all add: st1 sync_on_def)
  then show ?thesis
    using b parsed edited unfolding st2
    by (auto simp: schema_at_def parse_reply_def Let_def on_app_def apply_parsed_def apply_edit_def obj_get_put)
qed


text \<open>Typing: the newest text is scheduled, and its parse, if nothing changes before the reply,
  becomes the active schema.\<close>

lemma typing_applies:
  assumes on: "sync_on st" and new: "txt0 \<noteq> cm_rawText st" and d: "app_doc (cm_app st) = Some d"
    and st1: "st1 = fire_sync (settle st (on_app (on_ui (setRawText txt0)) st))"
    and parsed: "pr_schema resp = Some parsed"
  shows "cm_open st1 = (Suc (cm_seq st), cm_active st, txt0) # cm_open st"
    and "schema_at (cm_app (settle st1 (parse_reply (Suc (cm_seq st), cm_active st, txt0) (Inr resp) st1)))
           (cm_active st) = Some parsed"
proof -
  let ?o = "on_app (on_ui (setRawText txt0)) st"
  have frame: "cm_active ?o = cm_active st" "app_doc (cm_app ?o) = Some d" "cm_rawMode ?o"
    "cm_rawText ?o = txt0" "cm_seq ?o = cm_seq st" "cm_open ?o = cm_open st" "sync_on ?o"
    using on d by (simp_all add: code_frames sync_on_def)
  have deps: "sync_deps ?o \<noteq> sync_deps st"
    using new by (simp add: sync_deps_def code_frames)
  have at1: "cm_active st1 = cm_active st" "app_doc (cm_app st1) = Some d" "cm_rawMode st1"
    "cm_seq st1 = Suc (cm_seq st)"
    "cm_open st1 = (Suc (cm_seq st), cm_active st, txt0) # cm_open st"
    using frame settle_new_deps(1) [OF deps] by (simp_all add: st1 fire_sync_def)
  show "cm_open st1 = (Suc (cm_seq st), cm_active st, txt0) # cm_open st"
    by (fact at1(5))
  show "schema_at (cm_app (settle st1 (parse_reply (Suc (cm_seq st), cm_active st, txt0) (Inr resp) st1)))
          (cm_active st) = Some parsed"
    using at1 parsed on
    by (auto simp: schema_at_def parse_reply_def Let_def on_app_def apply_parsed_def apply_edit_def
        obj_get_put sync_on_def)
qed

text \<open>
  Opening Code mode takes the preview's text as the buffer, whatever index and edit the preview
  was made from: its parse replaces the active schema. The preview may still be the previous
  index's, and it is made from the pruned schema, without the fields not finished yet.
\<close>

lemma openRaw_applies_preview:
  assumes off: "\<not> cm_rawMode st" and idx: "cm_active st \<noteq> ''config''"
    and d: "app_doc (cm_app st) = Some d" and pv: "ds_preview (ap_design (cm_app st)) = Some p"
    and st1: "st1 = fire_sync (settle st (openRaw st))"
    and parsed: "pr_schema resp = Some parsed"
  shows "cm_open st1 = (Suc (cm_seq st), cm_active st, pv_yaml p) # cm_open st"
    and "schema_at (cm_app (settle st1 (parse_reply (Suc (cm_seq st), cm_active st, pv_yaml p) (Inr resp) st1)))
           (cm_active st) = Some parsed"
proof -
  let ?o = "openRaw st"
  have frame: "cm_active ?o = cm_active st" "app_doc (cm_app ?o) = Some d" "cm_rawMode ?o"
    "cm_rawText ?o = pv_yaml p" "cm_seq ?o = cm_seq st" "cm_open ?o = cm_open st" "sync_on ?o"
    using d pv idx by (simp_all add: openRaw_def Let_def code_frames sync_on_def)
  have deps: "sync_deps ?o \<noteq> sync_deps st"
    using off frame(3) by (simp add: sync_deps_def)
  have at1: "cm_active st1 = cm_active st" "app_doc (cm_app st1) = Some d" "cm_rawMode st1"
    "cm_seq st1 = Suc (cm_seq st)"
    "cm_open st1 = (Suc (cm_seq st), cm_active st, pv_yaml p) # cm_open st"
    using frame settle_new_deps(1) [OF deps] by (simp_all add: st1 fire_sync_def)
  show "cm_open st1 = (Suc (cm_seq st), cm_active st, pv_yaml p) # cm_open st"
    by (fact at1(5))
  show "schema_at (cm_app (settle st1 (parse_reply (Suc (cm_seq st), cm_active st, pv_yaml p) (Inr resp) st1)))
          (cm_active st) = Some parsed"
    using at1 parsed idx
    by (auto simp: schema_at_def parse_reply_def Let_def on_app_def apply_parsed_def apply_edit_def obj_get_put)
qed

text \<open>Re-seeding is complete: while Code mode shows an index other than the buffer's, a seed for
  it is under way after every render, and its reply puts the sync on.\<close>

lemma seed_reply_on:
  assumes "cm_seed st = Some (cm_active st)" "cm_rawMode st" "cm_active st \<noteq> ''config''"
  shows "sync_on (seed_reply r st)"
  using assms by (auto simp: seed_reply_def Let_def sync_on_def code_frames split: sum.splits)

lemma switch_seeds:
  assumes "cm_rawMode st" "b \<noteq> ''config''" "b \<noteq> cm_active st" "b \<noteq> cm_rawFor st"
    and "schema_at (cm_app st) b \<noteq> None"
  shows "cm_seed (settle st (on_app (on_design (openIndex b)) st)) = Some b"
  using assms
  by (auto simp: settle_def Let_def seed_deps_def run_seed_def cm_schema_def code_frames openIndex_def
      schema_at_def run_preview_def run_sync_def split: option.splits)

lemma stale_seed_dropped:
  assumes "seed_deps st \<noteq> seed_deps old" "cm_active st = ''config'' \<or> \<not> cm_rawMode st"
  shows "cm_seed (settle old st) = None"
  using assms by (auto simp: settle_def Let_def run_seed_def)

end
