(* ===== verification/App_Shell.thy ===== *)
theory App_Shell
  imports Code_Mode Router Issues Search_Palette
begin

text \<open>
  The rest of \<^verbatim>\<open>App.tsx\<close>: routing between the address bar and the stores, loading, the
  validation, what the shell derives from the document, the palette's commands and the global
  keyboard handler. The browser's history is a stack of paths. Undo and redo (\<^verbatim>\<open>zundo\<close>), the
  server and the glyphs of the shortcuts are arguments.
\<close>

section \<open>Routing\<close>

definition applyRoute :: "route \<Rightarrow> app \<Rightarrow> app" where
  "applyRoute route a =
     (case route of
        Tables \<Rightarrow> on_ui (setBrowseCatalog True) a
      | Deployment \<Rightarrow>
          on_design (setActive ''config'') (on_ui (setRawMode False) (on_ui (setBrowseCatalog False) a))
      | Index name code \<Rightarrow>
          (let a = on_ui (setBrowseCatalog False) a;
               known = (case app_doc a of None \<Rightarrow> False | Some d \<Rightarrow> name \<in> set (names_of (doc_config d)))
           in if \<not> known then a
              else on_ui (setRawMode code)
                     (if ds_active (ap_design a) \<noteq> name then on_design (openIndex name) a else a)))"

definition shownRoute :: "app \<Rightarrow> route" where
  "shownRoute a =
     (if ui_browseCatalog (ap_ui a) then Tables
      else if ds_active (ap_design a) = ''config'' then Deployment
      else Index (ds_active (ap_design a)) (ui_rawMode (ap_ui a)))"

definition routePath :: "app \<Rightarrow> string" where
  "routePath a = formatRoute (shownRoute a)"

record browser =
  br_path :: string
  br_back :: "string list"
  br_routedOnce :: bool

definition mirror_url :: "app \<Rightarrow> browser \<Rightarrow> browser" where
  "mirror_url a b =
     (if app_doc a = None \<or> br_path b = routePath a then b
      else \<lparr>br_path = routePath a,
            br_back = (if br_routedOnce b then br_path b # br_back b else br_back b),
            br_routedOnce = True\<rparr>)"

definition onPop :: "string \<Rightarrow> app \<Rightarrow> app res" where
  "onPop pathname a =
     map_res (\<lambda>r. case r of None \<Rightarrow> a | Some route \<Rightarrow> applyRoute route a) (parseRoute pathname)"

section \<open>Loading\<close>

text \<open>A throw inside \<open>then\<close> reaches the same \<open>catch\<close>, after the project was loaded.\<close>

definition project_reply :: "(nat \<Rightarrow> string) \<Rightarrow> string \<Rightarrow> project res \<Rightarrow> app \<Rightarrow> app" where
  "project_reply newId pathname result a =
     (case result of
        Inl e \<Rightarrow> on_ui (setError (error_string e)) a
      | Inr p \<Rightarrow>
          (let a = on_design (loadProject newId p True) a in
           case onPop pathname a of
             Inl e \<Rightarrow> on_ui (setError (error_string e)) a
           | Inr a \<Rightarrow> a))"

definition catalog_reply :: "catalog_response res \<Rightarrow> app \<Rightarrow> app" where
  "catalog_reply result a =
     (case result of
        Inl e \<Rightarrow> on_ui (setError (error_string e)) a
      | Inr c \<Rightarrow> on_design (setCatalog (Some c)) a)"

definition refreshCatalog :: "translate \<Rightarrow> (request \<Rightarrow> catalog_response res) \<Rightarrow> app \<Rightarrow> app" where
  "refreshCatalog t api a =
     (case api (case app_doc a of Some d \<Rightarrow> api_testConnection (doc_config d) | None \<Rightarrow> api_catalog) of
        Inr c \<Rightarrow>
          (if truthy (cat_error c)
           then toast_with Error_toast (t ''toast.dbNotReachable'' [])
           else toast_with Ok_toast (t ''toast.dbConnected'' []))
            (on_design (setCatalog (Some c)) a)
      | Inl e \<Rightarrow> toast_with Error_toast (errText e) a)"

section \<open>What is derived\<close>

definition columnsFor :: "catalog_response option \<Rightarrow> string \<Rightarrow> column_shape list" where
  "columnsFor catalog table =
     (case find (\<lambda>t. t_name t = table) (case catalog of None \<Rightarrow> [] | Some c \<Rightarrow> cat_tables c) of
        None \<Rightarrow> [] | Some t \<Rightarrow> t_columns t)"

definition shown_schema :: "app \<Rightarrow> index_schema option" where
  "shown_schema a =
     (if ds_active (ap_design a) \<noteq> ''config'' then schema_at a (ds_active (ap_design a)) else None)"

definition inspectorOpen :: "app \<Rightarrow> bool" where
  "inspectorOpen a \<longleftrightarrow>
     ds_active (ap_design a) \<noteq> ''config'' \<and> \<not> ui_rawMode (ap_ui a) \<and> shown_schema a \<noteq> None \<and>
     ds_selection (ap_design a) \<noteq> None"

definition allDiagnostics :: "translate \<Rightarrow> app \<Rightarrow> diagnostic list" where
  "allDiagnostics t a =
     (let s = ap_design a;
          live = (case shown_schema a of
                    Some schema \<Rightarrow> requiredDefaultIssues schema (ds_catalog s) (ds_active s) t | None \<Rightarrow> [])
      in (case ds_diagnostics s of Some ds \<Rightarrow> ds | None \<Rightarrow> []) @ live)"

definition typeMismatches :: "app \<Rightarrow> nat" where
  "typeMismatches a =
     (case shown_schema a of Some schema \<Rightarrow> countTypeMismatches schema (ds_catalog (ap_design a)) | None \<Rightarrow> 0)"

text \<open>Validation while typing: the request the effect makes, and the list its reply leaves.\<close>

definition live_request :: "app \<Rightarrow> request option" where
  "live_request a =
     (let s = ap_design a in
      case (shown_schema a, ds_doc s) of
        (Some schema, Some d) \<Rightarrow>
          if \<not> ui_rawMode (ap_ui a) \<or> (case ds_catalog s of Some c \<Rightarrow> truthy (cat_error c) | None \<Rightarrow> False) then None
          else Some (api_validate (doc_config d) [(ds_active s, schema)])
      | _ \<Rightarrow> None)"

definition live_reply :: "bool \<Rightarrow> validate_response res \<Rightarrow> diagnostic list \<Rightarrow> diagnostic list" where
  "live_reply rawNow result old =
     (case result of
        Inl _ \<Rightarrow> []
      | Inr res \<Rightarrow>
          if \<not> rawNow then old
          else if vr_db_reachable res \<and> \<not> truthy (vr_error res) then vr_diagnostics res else [])"

section \<open>Validation\<close>

definition err_or :: "string option \<Rightarrow> string" where
  "err_or e = (case e of Some x \<Rightarrow> x | None \<Rightarrow> ''unknown'')"

definition validated :: "translate \<Rightarrow> validate_response \<Rightarrow> app \<Rightarrow> app" where
  "validated t res a =
     (if \<not> vr_db_reachable res then
        toast_with Error_toast (t ''toast.dbNotReachableErr'' [(''err'', JStr (err_or (vr_error res)))])
          (on_design (setDiagnostics None) a)
      else if truthy (vr_error res) then
        toast_with Error_toast (t ''toast.validateFailed'' [(''err'', JStr (the (vr_error res)))])
          (on_design (setDiagnostics None) a)
      else
        (let a = on_design (setDiagnostics (Some (vr_diagnostics res))) a in
         if vr_diagnostics res \<noteq> [] then
           on_ui (setDrawer True)
             (toast_with Error_toast
               (t ''toast.issues'' [(''n'', JNum (Fin (of_nat (length (vr_diagnostics res)))))]) a)
         else toast_with Ok_toast (t ''toast.schemasMatch'' []) a))"

definition validate :: "translate \<Rightarrow> (request \<Rightarrow> validate_response res) \<Rightarrow> app \<Rightarrow> app" where
  "validate t api a =
     (case app_doc a of
        None \<Rightarrow> a
      | Some d \<Rightarrow>
          if ui_validating (ap_ui a) then a
          else
            on_ui (setValidating False)
              (case api (api_validate (doc_config d) (doc_schemas d)) of
                 Inr res \<Rightarrow> validated t res a
               | Inl e \<Rightarrow> toast_with Error_toast (t ''toast.validateFailed'' [(''err'', JStr (errText e))]) a))"


section \<open>Commands\<close>

definition KIND_ROWS :: "string list" where
  "KIND_ROWS = [''root'', ''object'', ''belongs_to'', ''has_one'', ''has_many'', ''many_to_many'']"

definition kindDesc :: "translate \<Rightarrow> string \<Rightarrow> string" where
  "kindDesc t kind =
     (if kind = ''root'' then t ''legend.kindRoot'' []
      else if kind = ''object'' then t ''legend.kindObject'' []
      else if kind = ''belongs_to'' then t ''legend.kindBelongsTo'' []
      else if kind = ''has_one'' then t ''legend.kindHasOne'' []
      else if kind = ''has_many'' then t ''legend.kindHasMany'' []
      else t ''legend.kindManyToMany'' [])"

definition typeDesc :: "translate \<Rightarrow> string \<Rightarrow> string" where
  "typeDesc t varKey =
     (if varKey = ''string'' then t ''legend.typeString'' []
      else if varKey = ''number'' then t ''legend.typeNumber'' []
      else if varKey = ''temporal'' then t ''legend.typeDate'' []
      else if varKey = ''bool'' then t ''legend.typeBoolean'' []
      else if varKey = ''uuid'' then t ''legend.typeUuid'' []
      else t ''legend.typeGeo'' [])"

datatype action =
    Validate_a | Save_a | Reset_a | Deployment_a | Tables_a | Yaml_a | Theme_a | Sidebar_a
  | NewIndex_a | Undo_a | Redo_a | Mode_a

definition action_record ::
  "translate \<Rightarrow> string \<Rightarrow> string \<Rightarrow> string \<Rightarrow> string option \<Rightarrow> string \<Rightarrow> search_record" where
  "action_record t i title keywords shortcut body =
     (bare_record i Action_c title keywords ((no_detail (t ''search.runAction'' []))\<lparr>sd_body := Some body\<rparr>))
       \<lparr>rc_shortcut := shortcut\<rparr>"

definition action_commands :: "translate \<Rightarrow> (string \<Rightarrow> string) \<Rightarrow> bool \<Rightarrow> (search_record \<times> action option) list" where
  "action_commands t combo leftOpen =
     [(action_record t ''cmd.validate'' (t ''topbar.validate'' []) ''validate check database diagnostics'' None
         (t ''search.descValidate'' []), Some Validate_a),
      (action_record t ''cmd.save'' (t ''topbar.save'' []) ''save write disk files'' (Some (combo ''S''))
         (t ''search.descSave'' []), Some Save_a),
      (action_record t ''cmd.reset'' (t ''topbar.reset'' []) ''reset discard revert unsaved changes'' None
         (t ''search.descReset'' []), Some Reset_a),
      (action_record t ''cmd.deployment'' (t ''sidebar.deployment'' [])
         ''deployment settings config connection sinks'' None (t ''search.descDeployment'' []), Some Deployment_a),
      (action_record t ''cmd.tables'' (t ''topbar.tables'' []) ''tables database catalog browse columns'' None
         (t ''search.descTables'' []), Some Tables_a),
      (action_record t ''cmd.yaml'' (t ''topbar.yaml'' []) ''yaml preview drawer mapping document'' None
         (t ''search.descYaml'' []), Some Yaml_a),
      (action_record t ''cmd.theme'' (t ''topbar.toggleTheme'' []) ''theme dark light appearance'' None
         (t ''search.descTheme'' []), Some Theme_a),
      (action_record t ''cmd.sidebar'' (if leftOpen then t ''topbar.hideSidebar'' [] else t ''topbar.showSidebar'' [])
         ''sidebar toggle panel indexes'' None (t ''search.descSidebar'' []), Some Sidebar_a),
      (action_record t ''cmd.newIndex'' (t ''sidebar.newIndex'' []) ''new index create add schema file'' None
         (t ''search.descNewIndex'' []), Some NewIndex_a),
      (action_record t ''cmd.undo'' (t ''search.undo'' []) ''undo revert step back history'' (Some (combo ''Z''))
         (t ''search.descUndo'' []), Some Undo_a),
      (action_record t ''cmd.redo'' (t ''search.redo'' []) ''redo forward step history'' (Some (combo ''shift Z''))
         (t ''search.descRedo'' []), Some Redo_a)]"

definition mode_command :: "translate \<Rightarrow> bool \<Rightarrow> search_record \<times> action option" where
  "mode_command t rawMode =
     (action_record t ''cmd.mode'' (if rawMode then t ''search.toVisual'' [] else t ''search.toCode'' [])
        ''visual code yaml editor canvas switch mode toggle raw'' None (t ''search.descMode'' []), Some Mode_a)"

definition kind_legend :: "translate \<Rightarrow> string \<Rightarrow> search_record \<times> action option" where
  "kind_legend t k =
     ((bare_record (''legend.kind.'' @ k) Legend_kind_c k (''legend node kind relation '' @ k)
         ((no_detail (t ''search.reference'' []))\<lparr>sd_body := Some (kindDesc t k)\<rparr>))
        \<lparr>rc_color := Some (''var(--k-'' @ k @ '')'')\<rparr>, None)"

definition type_legend :: "translate \<Rightarrow> string \<times> string \<Rightarrow> search_record \<times> action option" where
  "type_legend t f =
     ((bare_record (''legend.type.'' @ fst f) Legend_type_c (snd f) (''legend field type '' @ snd f @ '' '' @ fst f)
         ((no_detail (t ''search.reference'' []))\<lparr>sd_body := Some (typeDesc t (fst f))\<rparr>))
        \<lparr>rc_color := Some (''var(--t-'' @ fst f @ '')'')\<rparr>, None)"

definition commands :: "translate \<Rightarrow> (string \<Rightarrow> string) \<Rightarrow> app \<Rightarrow> (search_record \<times> action option) list" where
  "commands t combo a =
     action_commands t combo (ui_leftOpen (ap_ui a)) @
     (if ds_active (ap_design a) \<noteq> ''config'' then [mode_command t (ui_rawMode (ap_ui a))] else []) @
     map (kind_legend t) KIND_ROWS @ map (type_legend t) TYPE_FAMILIES"

text \<open>What the handlers close over: the history, the server and the translator.\<close>

record shell_env =
  en_undo :: "design_state \<Rightarrow> design_state"
  en_redo :: "design_state \<Rightarrow> design_state"
  en_canUndo :: bool
  en_canRedo :: bool
  en_t :: translate
  en_diff :: "request \<Rightarrow> op_diff list res"
  en_validate :: "request \<Rightarrow> validate_response res"

record shell =
  sh_code :: code_state
  sh_paletteOpen :: bool
  sh_newIndexOpen :: bool

definition on_code :: "(code_state \<Rightarrow> code_state) \<Rightarrow> shell \<Rightarrow> shell" where
  "on_code f sh = sh\<lparr>sh_code := f (sh_code sh)\<rparr>"

abbreviation sh_app :: "shell \<Rightarrow> app" where
  "sh_app sh \<equiv> cm_app (sh_code sh)"

definition on_shell_app :: "(app \<Rightarrow> app) \<Rightarrow> shell \<Rightarrow> shell" where
  "on_shell_app f = on_code (on_app f)"

fun run_action :: "shell_env \<Rightarrow> action \<Rightarrow> shell \<Rightarrow> shell" where
  "run_action en Validate_a sh = on_shell_app (validate (en_t en) (en_validate en)) sh"
| "run_action en Save_a sh = on_shell_app (save (en_t en) (en_diff en)) sh"
| "run_action en Reset_a sh = on_code reset_code sh"
| "run_action en Deployment_a sh =
     on_shell_app (on_design (setActive ''config'') \<circ> on_ui (setBrowseCatalog False)) sh"
| "run_action en Tables_a sh = on_shell_app (on_ui (setBrowseCatalog True)) sh"
| "run_action en Yaml_a sh = on_shell_app (on_ui toggleDrawer) sh"
| "run_action en Theme_a sh = on_shell_app (on_ui toggleTheme) sh"
| "run_action en Sidebar_a sh = on_shell_app (on_ui toggleLeft) sh"
| "run_action en NewIndex_a sh = sh\<lparr>sh_newIndexOpen := True\<rparr>"
| "run_action en Undo_a sh = (if en_canUndo en then on_shell_app (on_design (en_undo en)) sh else sh)"
| "run_action en Redo_a sh = (if en_canRedo en then on_shell_app (on_design (en_redo en)) sh else sh)"
| "run_action en Mode_a sh =
     (if ui_rawMode (ap_ui (sh_app sh)) then on_shell_app (on_ui (setRawMode False)) sh
      else on_code openRaw sh)"

section \<open>The keyboard\<close>

record key_event =
  ke_key :: string
  ke_meta :: bool
  ke_ctrl :: bool
  ke_shift :: bool
  ke_editing :: bool

definition apply_then_clear :: "(index_schema \<Rightarrow> index_schema res) \<Rightarrow> shell \<Rightarrow> shell res" where
  "apply_then_clear fn sh =
     map_res (\<lambda>s. on_shell_app (\<lambda>a. a\<lparr>ap_design := setSelection None s\<rparr>) sh)
       (apply_edit fn (ap_design (sh_app sh)))"

definition delete_selection :: "shell \<Rightarrow> shell res" where
  "delete_selection sh =
     (case ds_selection (ap_design (sh_app sh)) of
        Some (Node_sel path) \<Rightarrow> if path \<noteq> [] then apply_then_clear (\<lambda>s. removeNode s path) sh else Inr sh
      | Some (Field_sel path i) \<Rightarrow> apply_then_clear (\<lambda>s. removeAt s path i) sh
      | Some (Columns_sel path names) \<Rightarrow> apply_then_clear (\<lambda>s. removeFields s path names) sh
      | _ \<Rightarrow> Inr sh)"

definition handleKey :: "shell_env \<Rightarrow> key_event \<Rightarrow> shell \<Rightarrow> shell res" where
  "handleKey en e sh =
     (let modkey = ke_meta e \<or> ke_ctrl e; k = to_lower (ke_key e) in
      if modkey \<and> k = ''k'' then Inr (sh\<lparr>sh_paletteOpen := \<not> sh_paletteOpen sh\<rparr>)
      else if modkey \<and> k = ''s'' then Inr (on_shell_app (save (en_t en) (en_diff en)) sh)
      else if modkey \<and> k = ''z'' then
        (if ke_editing e then Inr sh
         else Inr (on_shell_app (on_design (if ke_shift e then en_redo en else en_undo en)) sh))
      else if ke_key e = ''Escape'' then Inr (on_shell_app (on_design (setSelection None)) sh)
      else if (ke_key e = ''Delete'' \<or> ke_key e = ''Backspace'') \<and> \<not> ke_editing e
              \<and> ds_selection (ap_design (sh_app sh)) \<noteq> None
      then delete_selection sh
      else Inr sh)"


section \<open>Routes and what is shown\<close>

definition known_index :: "string \<Rightarrow> app \<Rightarrow> bool" where
  "known_index name a \<longleftrightarrow> (\<exists>d. app_doc a = Some d \<and> name \<in> set (names_of (doc_config d)))"

definition routable :: "route \<Rightarrow> app \<Rightarrow> bool" where
  "routable r a \<longleftrightarrow> (\<forall>name code. r = Index name code \<longrightarrow> known_index name a \<and> name \<noteq> ''config'')"

lemmas app_frames = code_frames setBrowseCatalog_def setActive_def openIndex_def setSelection_def

lemma applyRoute_shown: "routable r a \<Longrightarrow> shownRoute (applyRoute r a) = r"
  by (cases r) (auto simp: applyRoute_def shownRoute_def routable_def known_index_def app_frames Let_def
      split: option.splits)

lemma applyRoute_doc: "app_doc (applyRoute r a) = app_doc a"
  by (cases r) (auto simp: applyRoute_def app_frames Let_def split: option.splits)

lemma applyRoute_unknown:
  "\<not> known_index name a \<Longrightarrow> applyRoute (Index name code) a = on_ui (setBrowseCatalog False) a"
  by (auto simp: applyRoute_def known_index_def app_frames Let_def split: option.splits)

text \<open>The address a state writes leads back to it.\<close>

definition addressable :: "app \<Rightarrow> bool" where
  "addressable a \<longleftrightarrow> ds_active (ap_design a) \<noteq> ''''"

lemma parse_routePath: "addressable a \<Longrightarrow> parseRoute (routePath a) = Inr (Some (shownRoute a))"
  by (auto simp: routePath_def shownRoute_def addressable_def parse_format_index parse_format_views)

lemma onPop_own_path:
  "addressable a \<Longrightarrow> routable (shownRoute a) b \<Longrightarrow>
     \<exists>b'. onPop (routePath a) b = Inr b' \<and> shownRoute b' = shownRoute a \<and> app_doc b' = app_doc b"
  by (simp add: onPop_def parse_routePath applyRoute_shown applyRoute_doc)

lemma mirror_url_path: "app_doc a \<noteq> None \<Longrightarrow> br_path (mirror_url a b) = routePath a"
  by (auto simp: mirror_url_def)

lemma mirror_url_idem: "mirror_url a (mirror_url a b) = mirror_url a b"
  by (simp add: mirror_url_def)

text \<open>Going back does not write the history again, and the first write adds no entry.\<close>

lemma mirror_after_back:
  assumes "routable r a" "br_path b = formatRoute r"
  shows "mirror_url (applyRoute r a) b = b"
  using applyRoute_shown [OF assms(1)] assms(2) by (simp add: mirror_url_def routePath_def)

lemma mirror_first: "\<not> br_routedOnce b \<Longrightarrow> br_back (mirror_url a b) = br_back b"
  by (simp add: mirror_url_def)

lemma mirror_pushes:
  "app_doc a \<noteq> None \<Longrightarrow> br_routedOnce b \<Longrightarrow> br_path b \<noteq> routePath a \<Longrightarrow>
     br_back (mirror_url a b) = br_path b # br_back b"
  by (simp add: mirror_url_def)

text \<open>A deep link wins over the first index; a malformed one is reported, with the project loaded.\<close>

lemma names_of_stamp [simp]: "names_of (c\<lparr>cfg_index := Some (stamp_ids newId es)\<rparr>) = map e_name es"
  by simp

lemma project_reply_deep_link:
  assumes "name \<in> set (names_of (p_config p))" "name \<noteq> ''''" "name \<noteq> ''config''"
  shows "shownRoute (project_reply newId (formatRoute (Index name code)) (Inr p) a) = Index name code"
proof -
  let ?a = "on_design (loadProject newId p True) a"
  have "routable (Index name code) ?a"
    using assms by (auto simp: routable_def known_index_def loadProject_def on_design_def Let_def names_of_def)
  then show ?thesis
    using assms(2) by (simp add: project_reply_def onPop_def parse_format_index applyRoute_shown Let_def)
qed

lemma project_reply_malformed:
  assumes "parseRoute pathname = Inl e"
  shows "project_reply newId pathname (Inr p) a =
    on_ui (setError (error_string e)) (on_design (loadProject newId p True) a)"
  using assms by (simp add: project_reply_def onPop_def Let_def)

text \<open>
  Entering Code mode by its address leaves the buffer alone when it already belongs to the
  index: what was edited on the canvas since is overwritten by the old text's parse.
\<close>

lemma enter_by_address_stale:
  assumes off: "\<not> cm_rawMode st" and idx: "cm_active st \<noteq> ''config''" and buf: "cm_rawFor st = cm_active st"
    and known: "known_index (cm_active st) (cm_app st)" and d: "app_doc (cm_app st) = Some d"
    and st1: "st1 = fire_sync (settle st (on_app (applyRoute (Index (cm_active st) True)) st))"
    and parsed: "pr_schema resp = Some old"
  shows "schema_at (cm_app (settle st1 (parse_reply (Suc (cm_seq st), cm_active st, cm_rawText st) (Inr resp) st1)))
           (cm_active st) = Some old"
proof -
  let ?o = "on_app (applyRoute (Index (cm_active st) True)) st"
  have frame: "cm_active ?o = cm_active st" "app_doc (cm_app ?o) = Some d" "cm_rawMode ?o" "sync_on ?o"
    "cm_rawText ?o = cm_rawText st" "cm_seq ?o = cm_seq st"
    using known d idx buf
    by (auto simp: applyRoute_def known_index_def app_frames sync_on_def Let_def)
  have deps: "sync_deps ?o \<noteq> sync_deps st"
    using off frame(3) by (simp add: sync_deps_def)
  have at1: "cm_active st1 = cm_active st" "app_doc (cm_app st1) = Some d" "cm_rawMode st1"
    "cm_seq st1 = Suc (cm_seq st)"
    using frame settle_new_deps(1) [OF deps] by (simp_all add: st1 fire_sync_def)
  then show ?thesis
    using parsed idx
    by (auto simp: schema_at_def parse_reply_def Let_def on_app_def apply_parsed_def apply_edit_def obj_get_put)
qed

section \<open>Commands and keys\<close>

lemma bare_record_simps [simp]:
  "rc_id (bare_record i c title keywords detail) = i"
  "rc_category (bare_record i c title keywords detail) = c"
  "rc_target (bare_record i c title keywords detail) = None"
  by (simp_all add: bare_record_def)

lemma commands_ids: "distinct (map (rc_id \<circ> fst) (commands t combo a))"
  by (simp add: commands_def action_commands_def mode_command_def action_record_def kind_legend_def
      type_legend_def KIND_ROWS_def TYPE_FAMILIES_def)

lemma commands_runnable:
  "(r, run) \<in> set (commands t combo a) \<Longrightarrow> (run \<noteq> None \<longleftrightarrow> rc_category r = Action_c) \<and> rc_target r = None"
  by (auto simp: commands_def action_commands_def mode_command_def action_record_def kind_legend_def
      type_legend_def split: if_splits)

lemma mode_command_toggles:
  "ui_rawMode (ap_ui (sh_app (run_action en Mode_a sh))) = (\<not> ui_rawMode (ap_ui (sh_app sh)))"
  by (simp add: on_shell_app_def on_code_def openRaw_def code_frames Let_def)

lemmas shell_frames = on_shell_app_def on_code_def app_frames apply_then_clear_def

text \<open>While a text field has the focus, no key edits the document, except for the save.\<close>

lemma save_doc: "app_doc (save t api a) = app_doc a"
  by (auto simp: save_def Let_def toast_with_def on_ui_def split: option.splits sum.splits)

lemma handleKey_typing:
  "ke_editing e \<Longrightarrow> \<exists>sh'. handleKey en e sh = Inr sh' \<and> app_doc (sh_app sh') = app_doc (sh_app sh)"
  by (auto simp: handleKey_def shell_frames save_doc Let_def)

lemma delete_selection_frame:
  assumes "delete_selection sh = Inr sh'" "app_doc (sh_app sh) = Some d"
  shows "\<exists>d'. app_doc (sh_app sh') = Some d' \<and> doc_config d' = doc_config d \<and>
    (\<forall>n. n \<noteq> ds_active (ap_design (sh_app sh)) \<longrightarrow> obj_get (doc_schemas d') n = obj_get (doc_schemas d) n)"
  using assms
  by (auto simp: delete_selection_def shell_frames apply_edit_def map_res_eq_Inr obj_get_put
      split: option.splits selection.splits if_splits)

lemma delete_selection_clears:
  assumes "delete_selection sh = Inr sh'" "sh' \<noteq> sh"
  shows "ds_selection (ap_design (sh_app sh')) = None"
  using assms by (auto simp: delete_selection_def shell_frames map_res_eq_Inr split: option.splits selection.splits if_splits)


text \<open>Delete acts on the selection whatever is shown over the canvas: the table browser, Code
  mode, or the review of a save.\<close>

lemma delete_whatever_shown:
  "delete_selection (on_shell_app (on_ui f) sh) = map_res (on_shell_app (on_ui f)) (delete_selection sh)"
  by (cases "ds_selection (ap_design (sh_app sh))")
    (auto simp: delete_selection_def shell_frames map_res_def split: selection.splits sum.splits)

section \<open>Validation\<close>

lemma validate_frame: "app_doc (validate t api a) = app_doc a"
  by (auto simp: validate_def validated_def toast_with_def app_frames setDiagnostics_def Let_def
      split: option.splits sum.splits)

text \<open>A clean bill is only given for a reachable database without issues.\<close>

lemma validate_match:
  assumes "app_doc a = Some d" "\<not> ui_validating (ap_ui a)"
    and "ds_diagnostics (ap_design (validate t api a)) = Some ds" "api (api_validate (doc_config d) (doc_schemas d)) = Inr res"
  shows "vr_db_reachable res \<and> \<not> truthy (vr_error res) \<and> ds = vr_diagnostics res \<and>
    (ds = [] \<longleftrightarrow> ui_toast (ap_ui (validate t api a)) = Some \<lparr>to_kind = Ok_toast, to_text = t ''toast.schemasMatch'' []\<rparr>)"
  using assms
  by (auto simp: validate_def validated_def toast_with_def app_frames setDiagnostics_def setToast_def
      setDrawer_def setValidating_def Let_def split: if_splits)

lemma validate_failure:
  assumes "app_doc a = Some d" "\<not> ui_validating (ap_ui a)" "api (api_validate (doc_config d) (doc_schemas d)) = Inl e"
  shows "ap_design (validate t api a) = ap_design a \<and> \<not> ui_validating (ap_ui (validate t api a)) \<and>
    ui_toast (ap_ui (validate t api a)) =
      Some \<lparr>to_kind = Error_toast, to_text = t ''toast.validateFailed'' [(''err'', JStr (errText e))]\<rparr>"
  using assms by (simp add: validate_def toast_with_def app_frames setToast_def setValidating_def)

lemma inspectorOpen_schema:
  "inspectorOpen a \<Longrightarrow> \<exists>schema d. app_doc a = Some d \<and> obj_get (doc_schemas d) (ds_active (ap_design a)) = Some schema \<and>
     shown_schema a = Some schema"
  by (auto simp: inspectorOpen_def shown_schema_def schema_at_def split: option.splits)

lemma live_reply_trusts:
  "live_reply rawNow (Inr res) old = ds \<Longrightarrow> rawNow \<Longrightarrow> ds \<noteq> [] \<Longrightarrow>
     vr_db_reachable res \<and> \<not> truthy (vr_error res) \<and> ds = vr_diagnostics res"
  by (auto simp: live_reply_def split: if_splits)

end
