(* ===== verification/Palette.thy ===== *)
theory Palette
  imports App_Shell
begin

text \<open>
  \<^verbatim>\<open>components/CommandPalette.tsx\<close>: the rows of the palette, their order and highlight, the
  ghost completion, the highlighted record and what selecting one does. The engine's hits
  (\<open>search\<close>) and its first suggestion (\<open>suggest\<close>) are arguments; scores are exact rationals.
\<close>

section \<open>Rows\<close>

definition category_name :: "category \<Rightarrow> string" where
  "category_name c =
     (case c of Action_c \<Rightarrow> ''action'' | Index_c \<Rightarrow> ''index'' | Field_c \<Rightarrow> ''field'' | Setting_c \<Rightarrow> ''setting''
      | Catalog_c \<Rightarrow> ''catalog'' | Legend_kind_c \<Rightarrow> ''legendKind'' | Legend_type_c \<Rightarrow> ''legendType'')"

definition headings :: "translate \<Rightarrow> category \<Rightarrow> string" where
  "headings t c =
     (case c of Action_c \<Rightarrow> t ''search.actions'' [] | Index_c \<Rightarrow> t ''search.indexes'' []
      | Field_c \<Rightarrow> t ''search.fields'' [] | Setting_c \<Rightarrow> t ''search.settings'' []
      | Catalog_c \<Rightarrow> t ''search.tables'' [] | Legend_kind_c \<Rightarrow> t ''search.legendKinds'' []
      | Legend_type_c \<Rightarrow> t ''search.legendTypes'' [])"

definition palette_records ::
  "translate \<Rightarrow> string \<Rightarrow> bool \<Rightarrow> search_record list \<Rightarrow> doc \<Rightarrow> catalog_response option \<Rightarrow> search_record list" where
  "palette_records t dash opened cmds d catalog =
     (if opened
      then map (\<lambda>r. r\<lparr>rc_group := Some (headings t (rc_category r) @ '' '' @ category_name (rc_category r))\<rparr>)
             (cmds @ buildSearchRecords d catalog t dash)
      else [])"

text \<open>\<open>new Map(records.map((r) => [r.id, r]))\<close>: the last record of an id.\<close>

definition by_id :: "search_record list \<Rightarrow> string \<Rightarrow> search_record option" where
  "by_id records i = find (\<lambda>r. rc_id r = i) (rev records)"

definition onScreen :: "string \<Rightarrow> search_record \<Rightarrow> bool" where
  "onScreen active r \<longleftrightarrow> rc_index r = Some active \<or> (active = ''config'' \<and> rc_category r = Setting_c)"

definition pick_weight :: "string \<Rightarrow> rat jobj \<Rightarrow> search_record \<Rightarrow> rat" where
  "pick_weight active frecency r =
     (if onScreen active r then 7 / 5 else 1) * (1 + min (3 / 5) (score_of frecency (rc_id r) * (3 / 25)))"

definition ranked_rows ::
  "(string \<Rightarrow> (string \<times> rat) list) \<Rightarrow> string \<Rightarrow> search_record list \<Rightarrow> string \<Rightarrow> rat jobj \<Rightarrow> ranked list" where
  "ranked_rows search q records active frecency =
     (let needle = trim q; weight = pick_weight active frecency in
      if needle = '''' then
        map (\<lambda>r. \<lparr>rk_record = r, rk_positions = []\<rparr>)
          (sort_key (\<lambda>r. - weight r)
            (filter (\<lambda>r. rc_category r \<in> {Action_c, Index_c, Setting_c}) records))
      else runSearch search needle (map (\<lambda>r. (rc_id r, r)) (rev records)) weight)"

definition completion :: "(string \<Rightarrow> string option) \<Rightarrow> string \<Rightarrow> string" where
  "completion suggest q =
     (if trim q = '''' then ''''
      else
        (let s = (case suggest (trim q) of Some s \<Rightarrow> s | None \<Rightarrow> '''') in
         if starts_with (to_lower q) (to_lower s) \<and> length s > length q then drop (length q) s else ''''))"

definition recent_rows :: "bool \<Rightarrow> string \<Rightarrow> search_record list \<Rightarrow> storage \<Rightarrow> pick list" where
  "recent_rows opened q records st =
     (if opened \<and> trim q = '''' then filter (\<lambda>p. by_id records (pk_id p) \<noteq> None) (recentPicks st) else [])"

definition group_order :: "category list" where
  "group_order = [Action_c, Index_c, Field_c, Setting_c, Legend_kind_c, Legend_type_c, Catalog_c]"

text \<open>A group: its category, how many rows match, the rows shown.\<close>

definition row_groups :: "ranked list \<Rightarrow> (category \<times> nat \<times> ranked list) list" where
  "row_groups ranked =
     somes (map (\<lambda>cat.
         let all = filter (\<lambda>x. rc_category (rk_record x) = cat) ranked in
         if all = [] then None else Some (cat, length all, take 8 all)) group_order)"

text \<open>The title in runs, each on or off the match.\<close>

fun add_char :: "bool \<Rightarrow> char \<Rightarrow> (bool \<times> string) list \<Rightarrow> (bool \<times> string) list" where
  "add_char on c [] = [(on, [c])]"
| "add_char on c [(b, s)] = (if b = on then [(b, s @ [c])] else [(b, s), (on, [c])])"
| "add_char on c (p # ps) = p # add_char on c ps"

definition highlighted :: "string \<Rightarrow> nat list \<Rightarrow> (bool \<times> string) list" where
  "highlighted s positions =
     (if positions = [] then [(False, s)]
      else foldl (\<lambda>parts (c, i). add_char (i \<in> set positions) c parts) [] (zip s [0..<length s]))"

section \<open>The highlighted record\<close>

definition current_record :: "search_record list \<Rightarrow> ranked list \<Rightarrow> string \<Rightarrow> search_record option" where
  "current_record records ranked value =
     (case by_id records value of
        Some r \<Rightarrow> Some r
      | None \<Rightarrow>
          (case find (\<lambda>x. to_lower (rc_id (rk_record x)) = to_lower value) ranked of
             Some x \<Rightarrow> Some (rk_record x)
           | None \<Rightarrow> (case ranked of [] \<Rightarrow> None | x # _ \<Rightarrow> Some (rk_record x))))"

text \<open>Tab accepts the completion; the modifier with Backspace forgets the highlighted pick.\<close>

definition input_key ::
  "(string \<Rightarrow> string option) \<Rightarrow> key_event \<Rightarrow> string \<Rightarrow> string \<Rightarrow> storage \<Rightarrow> string \<times> storage" where
  "input_key suggest e value q st =
     (if ke_key e = ''Tab'' \<and> completion suggest q \<noteq> '''' then (q @ completion suggest q, st)
      else if (ke_meta e \<or> ke_ctrl e) \<and> ke_key e = ''Backspace'' \<and> starts_with ''recent:'' value
      then (q, removeRecent (drop (length ''recent:'') value) st)
      else (q, st))"

section \<open>Selecting\<close>

definition navigate :: "target \<Rightarrow> app \<Rightarrow> app" where
  "navigate x a =
     (case x of
        To_index name \<Rightarrow> on_design (openIndex name) (on_ui (setBrowseCatalog False) a)
      | To_field index path leaf \<Rightarrow>
          on_design (requestFocus index (pathId path))
            (on_design (setSelection (Some (Field_sel path leaf)))
              (on_design (setActive index) (on_ui (setRawMode False) (on_ui (setBrowseCatalog False) a))))
      | To_node index path \<Rightarrow>
          on_design (requestFocus index (pathId path))
            (on_design (setSelection (Some (if path \<noteq> [] then Node_sel path else Root_sel)))
              (on_design (setActive index) (on_ui (setRawMode False) (on_ui (setBrowseCatalog False) a))))
      | To_config \<Rightarrow> on_design (setActive ''config'') (on_ui (setBrowseCatalog False) a)
      | To_catalog \<Rightarrow> on_ui (setBrowseCatalog True) a)"

text \<open>An unreadable frecency table throws before the palette closes or anything runs.\<close>

definition onSelect ::
  "shell_env \<Rightarrow> rat \<Rightarrow> search_record \<times> action option \<Rightarrow> shell \<times> storage \<Rightarrow> (shell \<times> storage) res" where
  "onSelect en now row s =
     (case row of (r, run) \<Rightarrow>
       map_res
         (\<lambda>st.
            (let sh = (fst s)\<lparr>sh_paletteOpen := False\<rparr> in
             (case run of
                Some act \<Rightarrow> run_action en act sh
              | None \<Rightarrow> (case rc_target r of Some x \<Rightarrow> on_shell_app (navigate x) sh | None \<Rightarrow> sh)),
             recordPickRecent \<lparr>pk_id = rc_id r, pk_title = rc_title r\<rparr> st))
         (recordPick now (rc_id r) (snd s)))"


section \<open>The highlight shows the title\<close>

lemma concat_add_char: "concat (map snd (add_char on c ps)) = concat (map snd ps) @ [c]"
  by (induction on c ps rule: add_char.induct) auto

definition run_flags :: "(bool \<times> string) list \<Rightarrow> bool list" where
  "run_flags ps = concat (map (\<lambda>(b, s). replicate (length s) b) ps)"

lemma run_flags_add_char: "run_flags (add_char on c ps) = run_flags ps @ [on]"
  by (induction on c ps rule: add_char.induct) (auto simp: run_flags_def replicate_append_same)

lemma foldl_add_char:
  "concat (map snd (foldl (\<lambda>parts (c, i). add_char (P i) c parts) ps cs)) = concat (map snd ps) @ map fst cs"
  "run_flags (foldl (\<lambda>parts (c, i). add_char (P i) c parts) ps cs) = run_flags ps @ map (P \<circ> snd) cs"
  by (induction cs arbitrary: ps) (auto simp: concat_add_char run_flags_add_char split: prod.splits)

lemma highlighted_text: "concat (map snd (highlighted s positions)) = s"
  by (simp add: highlighted_def foldl_add_char(1) [where P = "\<lambda>i. i \<in> set positions"])

lemma highlighted_flags: "run_flags (highlighted s positions) = map (\<lambda>i. i \<in> set positions) [0..<length s]"
proof (cases "positions = []")
  case True
  then show ?thesis by (simp add: highlighted_def run_flags_def map_replicate_trivial map_replicate_const)
next
  case False
  then show ?thesis
    by (simp add: highlighted_def foldl_add_char(2) [where P = "\<lambda>i. i \<in> set positions"])
      (simp add: run_flags_def map_map [symmetric] del: map_map)
qed

fun alternating :: "(bool \<times> string) list \<Rightarrow> bool" where
  "alternating ((b, s) # (b', s') # ps) \<longleftrightarrow> b \<noteq> b' \<and> s \<noteq> [] \<and> alternating ((b', s') # ps)"
| "alternating [(b, s)] \<longleftrightarrow> s \<noteq> []"
| "alternating [] \<longleftrightarrow> True"

lemma alternating_add_char:
  "alternating ps \<Longrightarrow> alternating (add_char on c ps) \<and> (ps \<noteq> [] \<longrightarrow> fst (hd (add_char on c ps)) = fst (hd ps))"
proof (induction ps rule: alternating.induct)
  case (1 b s b' s' ps)
  then show ?case by (cases "add_char on c ((b', s') # ps)") auto
qed auto

lemma highlighted_alternating: "positions \<noteq> [] \<Longrightarrow> alternating (highlighted s positions)"
proof -
  have "alternating ps \<Longrightarrow> alternating (foldl (\<lambda>parts (c, i). add_char (i \<in> set positions) c parts) ps cs)" for ps cs
    by (induction cs arbitrary: ps) (auto simp: alternating_add_char split: prod.splits)
  then show "positions \<noteq> [] \<Longrightarrow> alternating (highlighted s positions)" by (simp add: highlighted_def)
qed

section \<open>Ranking and groups\<close>

lemma pick_weight_bounds:
  assumes "0 \<le> score_of frecency (rc_id r)"
  shows "1 \<le> pick_weight active frecency r" and "pick_weight active frecency r \<le> 56 / 25"
proof -
  let ?m = "min (3 / 5) (score_of frecency (rc_id r) * (3 / 25))"
  have "0 \<le> ?m" "?m \<le> 3 / 5" using assms by auto
  then show "1 \<le> pick_weight active frecency r" "pick_weight active frecency r \<le> 56 / 25"
    by (auto simp: pick_weight_def)
qed

text \<open>Equal picks: what is on screen comes before what is not.\<close>

lemma onScreen_heavier:
  assumes "onScreen active r" "\<not> onScreen active r'" "score_of frecency (rc_id r) = score_of frecency (rc_id r')"
    and "0 \<le> score_of frecency (rc_id r)"
  shows "pick_weight active frecency r' < pick_weight active frecency r"
proof -
  let ?m = "min (3 / 5) (score_of frecency (rc_id r') * (3 / 25))"
  have "0 \<le> ?m" using assms by auto
  then show ?thesis using assms by (simp add: pick_weight_def)
qed

lemma ranked_rows_empty_query:
  assumes "trim q = ''''"
  shows "set (map rk_record (ranked_rows search q records active frecency)) =
      {r \<in> set records. rc_category r \<in> {Action_c, Index_c, Setting_c}}"
    and "sorted (map (\<lambda>x. - pick_weight active frecency (rk_record x)) (ranked_rows search q records active frecency))"
proof -
  show "set (map rk_record (ranked_rows search q records active frecency)) =
      {r \<in> set records. rc_category r \<in> {Action_c, Index_c, Setting_c}}"
    using assms by (auto simp: ranked_rows_def Let_def image_image)
  have "map (\<lambda>x. - pick_weight active frecency (rk_record x)) (ranked_rows search q records active frecency) =
      map (\<lambda>r. - pick_weight active frecency r)
        (sort_key (\<lambda>r. - pick_weight active frecency r)
          (filter (\<lambda>r. rc_category r \<in> {Action_c, Index_c, Setting_c}) records))"
    using assms by (simp add: ranked_rows_def Let_def o_def)
  then show "sorted (map (\<lambda>x. - pick_weight active frecency (rk_record x))
      (ranked_rows search q records active frecency))"
    by (simp only: sorted_sort_key)
qed

lemma row_groups_mem:
  "(c, n, rows) \<in> set (row_groups ranked) \<longleftrightarrow>
     (let all = filter (\<lambda>x. rc_category (rk_record x) = c) ranked in
      all \<noteq> [] \<and> n = length all \<and> rows = take 8 all)"
  by (cases c) (auto simp: row_groups_def group_order_def Let_def)

lemma group_order_all: "c \<in> set group_order"
  by (cases c) (simp_all add: group_order_def)

lemma length_by_category:
  "length ranked = sum_list (map (\<lambda>c. length (filter (\<lambda>x. rc_category (rk_record x) = c) ranked)) group_order)"
proof (induction ranked)
  case (Cons x xs)
  then show ?case by (cases "rc_category (rk_record x)") (simp_all add: group_order_def)
qed (simp add: group_order_def)

text \<open>The counts on the group headings add up to the result count.\<close>

lemma row_groups_counts: "sum_list (map (\<lambda>(c, n, rows). n) (row_groups ranked)) = length ranked"
proof -
  have "sum_list (map (\<lambda>(c, n, rows). n) (somes (map (\<lambda>cat.
         let all = filter (\<lambda>x. rc_category (rk_record x) = cat) ranked in
         if all = [] then None else Some (cat, length all, take 8 all)) cs))) =
      sum_list (map (\<lambda>c. length (filter (\<lambda>x. rc_category (rk_record x) = c) ranked)) cs)" for cs
    by (induction cs) (auto simp: Let_def)
  then show ?thesis by (simp add: row_groups_def length_by_category [symmetric])
qed


section \<open>Completing and forgetting\<close>

lemma completion_extends:
  assumes "completion suggest q \<noteq> ''''" "suggest (trim q) = Some s"
  shows "to_lower (q @ completion suggest q) = to_lower s"
proof -
  have q: "take (length q) (to_lower s) = to_lower q" and c: "completion suggest q = drop (length q) s"
    using assms by (auto simp: completion_def Let_def starts_with_def to_lower_def split: if_splits)
  have "to_lower (q @ drop (length q) s) = take (length q) (to_lower s) @ drop (length q) (to_lower s)"
    by (simp only: q) (simp add: to_lower_def drop_map)
  then show ?thesis by (simp add: c)
qed

lemma tab_accepts:
  "completion suggest q \<noteq> '''' \<Longrightarrow> ke_key e = ''Tab'' \<Longrightarrow> input_key suggest e value q st = (q @ completion suggest q, st)"
  by (simp add: input_key_def)

lemma backspace_forgets:
  assumes "st_usable st" "ke_key e = ''Backspace''" "ke_meta e \<or> ke_ctrl e"
  shows "recentPicks (snd (input_key suggest e (''recent:'' @ i) q st)) =
    filter (\<lambda>p. pk_id p \<noteq> i) (recentPicks st)"
  using assms by (simp add: input_key_def recentPicks_remove starts_with_def)

section \<open>The highlighted record\<close>

lemma current_record_of_row:
  assumes "distinct (map rc_id records)" "r \<in> set records"
  shows "current_record records ranked (rc_id r) = Some r"
proof -
  have "find (\<lambda>x. rc_id x = rc_id r) (rev records) = Some r"
  proof -
    obtain x where x: "find (\<lambda>x. rc_id x = rc_id r) (rev records) = Some x"
      using assms(2) by (cases "find (\<lambda>x. rc_id x = rc_id r) (rev records)") (auto simp: find_None_iff)
    then have "x \<in> set records" "rc_id x = rc_id r" by (auto simp: find_Some_iff) (metis nth_mem set_rev length_rev)
    then have "x = r" using assms by (meson distinct_map inj_onD)
    then show ?thesis using x by simp
  qed
  then show ?thesis by (simp add: current_record_def by_id_def)
qed

text \<open>A highlighted recent pick is not previewed: its row's value is no record's id, and the pane
  shows the top result instead.\<close>

lemma current_record_recent:
  assumes "\<And>r. r \<in> set records \<Longrightarrow> \<not> starts_with ''recent:'' (to_lower (rc_id r))"
    and "set (map rk_record ranked) \<subseteq> set records"
  shows "current_record records ranked (''recent:'' @ i) = map_option rk_record (js_get ranked 0)"
proof -
  have differ: "to_lower (rc_id r) \<noteq> to_lower (''recent:'' @ i)" if "r \<in> set records" for r
  proof
    assume "to_lower (rc_id r) = to_lower (''recent:'' @ i)"
    then have "starts_with ''recent:'' (to_lower (rc_id r))"
      by (simp add: starts_with_def to_lower_def to_lower_char_def code_unit_def)
    then show False using assms(1) that by blast
  qed
  then have "by_id records (''recent:'' @ i) = None"
    by (simp add: by_id_def find_None_iff) (metis append_Cons append_Nil)
  moreover have "find (\<lambda>x. to_lower (rc_id (rk_record x)) = to_lower (''recent:'' @ i)) ranked = None"
    using differ assms(2) by (auto simp: find_None_iff)
  ultimately show ?thesis by (simp add: current_record_def js_get_def split: list.splits)
qed

section \<open>A jump shows its target\<close>

lemmas palette_frames = app_frames navigate_def requestFocus_def

definition jump_view :: "target \<Rightarrow> bool \<Rightarrow> route" where
  "jump_view x raw =
     (case x of To_index name \<Rightarrow> Index name raw | To_field name _ _ \<Rightarrow> Index name False
      | To_node name _ \<Rightarrow> Index name False | To_config \<Rightarrow> Deployment | To_catalog \<Rightarrow> Tables)"

lemma navigate_shows:
  assumes "\<forall>name. jump_view x (ui_rawMode (ap_ui a)) = Index name (ui_rawMode (ap_ui a)) \<or>
      jump_view x (ui_rawMode (ap_ui a)) = Index name False \<longrightarrow> name \<noteq> ''config''"
  shows "shownRoute (navigate x a) = jump_view x (ui_rawMode (ap_ui a))"
  using assms by (cases x) (auto simp: palette_frames shownRoute_def jump_view_def)

lemma navigate_doc: "app_doc (navigate x a) = app_doc a"
  by (cases x) (simp_all add: palette_frames)

text \<open>From a record of the document: the index is there, and what is selected is there.\<close>

lemma field_jump_lands:
  assumes rec: "r \<in> set (buildSearchRecords d catalog t dash)" "rc_target r = Some (To_field name path leaf)"
    and d: "app_doc a = Some d" "obj_wf (doc_schemas d)" and "name \<noteq> ''config''"
  shows "\<exists>schema n l. shown_schema (navigate (To_field name path leaf) a) = Some schema \<and>
    ds_selection (ap_design (navigate (To_field name path leaf) a)) = Some (Field_sel path leaf) \<and>
    ds_focus (ap_design (navigate (To_field name path leaf) a)) = Some (name, n_id n) \<and>
    n \<in> set (gr_nodes (projectGraph schema)) \<and> n_path n = path \<and> l \<in> set (n_leaves n) \<and> lf_index l = leaf"
proof -
  obtain schema n l where at: "(name, schema) \<in> set (doc_schemas d)" "n \<in> set (gr_nodes (projectGraph schema))"
    "n_path n = path" "l \<in> set (n_leaves n)" "leaf = lf_index l"
    using record_resolves [OF rec(1)] rec(2) by auto
  then have "obj_get (doc_schemas d) name = Some schema" by (intro obj_get_in d(2))
  then have "shown_schema (navigate (To_field name path leaf) a) = Some schema"
    using d(1) assms(5) by (simp add: palette_frames shown_schema_def schema_at_def)
  moreover have "n_id n = pathId path" using graph_node_id [OF at(2)] at(3) by simp
  ultimately show ?thesis
    using at by (intro exI [of _ schema] exI [of _ n] exI [of _ l]) (simp add: palette_frames)
qed

section \<open>Selecting a row\<close>

lemma onSelect_remembers:
  assumes "onSelect en now (r, run) (sh, st) = Inr (sh', st')" "st_usable st" "rc_id r \<noteq> ''''"
  shows "\<not> sh_paletteOpen sh' \<or> run \<noteq> None"
    and "hd (recentPicks st') = \<lparr>pk_id = rc_id r, pk_title = rc_title r\<rparr>"
proof -
  obtain st1 where st1: "recordPick now (rc_id r) st = Inr st1"
    "st' = recordPickRecent \<lparr>pk_id = rc_id r, pk_title = rc_title r\<rparr> st1"
    using assms(1) by (auto simp: onSelect_def)
  have "st_usable st1"
    using st1(1) ls.usable_write [OF assms(2)] by (auto simp: recordPick_def Let_def)
  then show "hd (recentPicks st') = \<lparr>pk_id = rc_id r, pk_title = rc_title r\<rparr>"
    using recentPicks_record [of st1 "\<lparr>pk_id = rc_id r, pk_title = rc_title r\<rparr>"] assms(3)
    by (simp add: st1(2) recent_CAP_def)
  show "\<not> sh_paletteOpen sh' \<or> run \<noteq> None"
    using assms(1) by (auto simp: onSelect_def Let_def on_shell_app_def on_code_def split: option.splits)
qed

text \<open>A frecency table stored as \<open>null\<close> makes every row dead: the selection throws first.\<close>

lemma onSelect_null_store:
  "st_readable st \<Longrightarrow> st_items st frecency_KEY = Some (Json JNull) \<Longrightarrow>
     onSelect en now row (sh, st) = Inl TypeError"
  by (cases row) (simp add: onSelect_def recordPick_def read_frecency_def get_item_def json_parse_def as_store_def)

lemma onSelect_runs:
  "onSelect en now (r, Some act) (sh, st) = Inr (sh', st') \<Longrightarrow> sh' = run_action en act (sh\<lparr>sh_paletteOpen := False\<rparr>)"
  by (auto simp: onSelect_def Let_def)

end
