(* ===== verification/Adapter_Form.thy ===== *)
theory Adapter_Form
  imports Js_Value Schema
begin

text \<open>
  \<^verbatim>\<open>components/AdapterForm.tsx\<close>: the form an adapter's options get from its draft-07 JSON
  schema. Schemas are parsed JSON; a subschema that is no object (a boolean one) is read as
  the empty object, as a property access on it answers \<open>undefined\<close>. What an editor emits is
  modelled, not its markup. \<open>JSON.parse\<close> of a typed text is the argument \<open>parse\<close>.
\<close>

record adapter_description =
  ad_port :: string
  ad_kind :: string
  ad_schema :: "js jobj"
  ad_example :: "js jobj"
  ad_secrets :: "string list"

section \<open>Reading a schema\<close>

definition js_prop :: "js jobj \<Rightarrow> string \<Rightarrow> js" where
  "js_prop ob k = (case obj_get ob k of None \<Rightarrow> JUndef | Some v \<Rightarrow> v)"

definition as_obj :: "js \<Rightarrow> js jobj" where
  "as_obj v = (case v of JObj ob \<Rightarrow> ob | _ \<Rightarrow> [])"

definition nullish_or :: "js \<Rightarrow> js \<Rightarrow> js" where
  "nullish_or v w = (if v = JUndef \<or> v = JNull then w else v)"

definition is_ref :: "string \<Rightarrow> bool" where
  "is_ref r \<longleftrightarrow> starts_with ''#/definitions/'' r"

definition non_null :: "js list \<Rightarrow> js list" where
  "non_null alts = filter (\<lambda>a. js_prop (as_obj a) ''type'' \<noteq> JStr ''null'') alts"

text \<open>One round of the loop: whether it continues, and the schema it continues with or returns.\<close>

definition unwrap_allOf :: "js jobj \<Rightarrow> js jobj option" where
  "unwrap_allOf current =
     (case js_prop current ''allOf'' of
        JArr [inner] \<Rightarrow>
          Some (obj_put (as_obj inner) ''description''
            (nullish_or (js_prop current ''description'') (js_prop (as_obj inner) ''description'')))
      | _ \<Rightarrow> None)"

definition unwrap_optional :: "js jobj \<Rightarrow> js jobj option" where
  "unwrap_optional current =
     (case js_prop current ''anyOf'' of
        JArr alts \<Rightarrow>
          (case non_null alts of
             [a] \<Rightarrow>
               if length alts \<noteq> 1
               then Some (obj_put (obj_put (as_obj a) ''description'' (js_prop current ''description''))
                            ''default'' (js_prop current ''default''))
               else None
           | _ \<Rightarrow> None)
      | _ \<Rightarrow> None)"

definition drop_null :: "js jobj \<Rightarrow> js jobj" where
  "drop_null current =
     (case js_prop current ''anyOf'' of
        JArr alts \<Rightarrow>
          if length (non_null alts) \<noteq> length alts then obj_put current ''anyOf'' (JArr (non_null alts)) else current
      | _ \<Rightarrow> current)"

definition follow_ref :: "js jobj \<Rightarrow> js jobj \<Rightarrow> js jobj option" where
  "follow_ref base current =
     (case js_prop current ''$ref'' of
        JStr r \<Rightarrow>
          if is_ref r then
            (let name = drop (length ''#/definitions/'') r in
             case obj_get (as_obj (js_prop base ''definitions'')) name of
               Some (JObj target) \<Rightarrow>
                 Some (obj_put
                   (obj_put target ''description''
                     (nullish_or (js_prop current ''description'') (js_prop target ''description'')))
                   ''refName'' (JStr name))
             | _ \<Rightarrow> None)
          else None
      | _ \<Rightarrow> None)"

definition resolve_step :: "js jobj \<Rightarrow> js jobj \<Rightarrow> bool \<times> js jobj" where
  "resolve_step base current =
     (case unwrap_allOf current of
        Some c \<Rightarrow> (True, c)
      | None \<Rightarrow>
          (case unwrap_optional current of
             Some c \<Rightarrow> (True, c)
           | None \<Rightarrow>
               (case follow_ref base (drop_null current) of
                  Some c \<Rightarrow> (True, c)
                | None \<Rightarrow> (False, drop_null current))))"

fun resolve_n :: "nat \<Rightarrow> js jobj \<Rightarrow> js jobj \<Rightarrow> js jobj" where
  "resolve_n 0 base current = current"
| "resolve_n (Suc n) base current =
     (case resolve_step base current of
        (True, c) \<Rightarrow> resolve_n n base c
      | (False, c) \<Rightarrow> c)"

definition resolve_schema :: "js jobj \<Rightarrow> js jobj \<Rightarrow> js jobj" where
  "resolve_schema schema base = resolve_n 8 base schema"

definition isSecret :: "js jobj \<Rightarrow> bool" where
  "isSecret schema \<longleftrightarrow>
     js_prop schema ''x-flusso-secret'' = JBool True \<or> js_prop schema ''refName'' = JStr ''Secret''"

fun strings_of :: "js list \<Rightarrow> string list" where
  "strings_of [] = []"
| "strings_of (JStr s # vs) = s # strings_of vs"
| "strings_of (_ # vs) = strings_of vs"

definition enumTokens :: "js jobj \<Rightarrow> string list option" where
  "enumTokens schema =
     (case js_prop schema ''enum'' of
        JArr vs \<Rightarrow> Some (strings_of vs)
      | _ \<Rightarrow>
          (case nullish_or (js_prop schema ''oneOf'') (js_prop schema ''anyOf'') of
             JArr alts \<Rightarrow>
               (let tokens = strings_of (map (\<lambda>a. js_prop (as_obj a) ''const'') alts) in
                if length tokens = length alts \<and> tokens \<noteq> [] then Some tokens else None)
           | _ \<Rightarrow> None))"

definition jsonType :: "js jobj \<Rightarrow> string option" where
  "jsonType schema =
     (case js_prop schema ''type'' of
        JStr t \<Rightarrow> Some t
      | JArr ts \<Rightarrow> (case find (\<lambda>x. x \<noteq> JStr ''null'') ts of Some (JStr s) \<Rightarrow> Some s | _ \<Rightarrow> None)
      | _ \<Rightarrow> None)"

section \<open>The form\<close>

definition form_set :: "string \<Rightarrow> js \<Rightarrow> js jobj \<Rightarrow> js jobj" where
  "form_set key v value =
     (if v = JUndef \<or> v = JStr '''' then obj_delete value key else obj_put value key v)"

definition required_keys :: "js jobj \<Rightarrow> string list" where
  "required_keys schema = (case js_prop schema ''required'' of JArr vs \<Rightarrow> strings_of vs | _ \<Rightarrow> [])"

definition form_entries :: "adapter_description \<Rightarrow> (string \<times> js) list" where
  "form_entries d = filter (\<lambda>(key, s). key \<noteq> ''type'') (as_obj (js_prop (ad_schema d) ''properties''))"

definition is_primary :: "adapter_description \<Rightarrow> string \<times> js \<Rightarrow> bool" where
  "is_primary d e \<longleftrightarrow>
     fst e \<in> set (required_keys (ad_schema d)) \<or> fst e \<in> set (ad_secrets d) \<or>
     \<not> has_key (resolve_schema (as_obj (snd e)) (ad_schema d)) ''default''"

definition primary_entries :: "adapter_description \<Rightarrow> (string \<times> js) list" where
  "primary_entries d = filter (is_primary d) (form_entries d)"

definition tuning_entries :: "adapter_description \<Rightarrow> (string \<times> js) list" where
  "tuning_entries d = filter (\<lambda>e. \<not> list_ex (\<lambda>p. fst p = fst e) (primary_entries d)) (form_entries d)"

definition setCount :: "adapter_description \<Rightarrow> js jobj \<Rightarrow> nat" where
  "setCount d value = length (filter (\<lambda>(key, s). js_prop value key \<noteq> JUndef) (tuning_entries d))"

section \<open>One option's editor\<close>

datatype mode = Literal_m | Env_m | Parts_m

definition is_env :: "js \<Rightarrow> bool" where
  "is_env v = (case v of JObj ob \<Rightarrow> has_key ob ''env'' | _ \<Rightarrow> False)"

definition mode_of :: "js \<Rightarrow> mode" where
  "mode_of v =
     (if (case v of JObj _ \<Rightarrow> True | JArr _ \<Rightarrow> True | _ \<Rightarrow> False) \<and> \<not> is_env v then Parts_m
      else if is_env v then Env_m else Literal_m)"

definition exampleFor :: "js jobj \<Rightarrow> js jobj" where
  "exampleFor schema =
     obj_of (map (\<lambda>(key, property). (key, js_prop (as_obj property) ''default''))
       (filter (\<lambda>(key, property). has_key (as_obj property) ''default'') (as_obj (js_prop schema ''properties''))))"

definition mode_change :: "js jobj \<Rightarrow> mode \<Rightarrow> js" where
  "mode_change objectAlt m =
     (case m of Literal_m \<Rightarrow> JStr '''' | Env_m \<Rightarrow> JObj [(''env'', JStr '''')] | Parts_m \<Rightarrow> JObj (exampleFor objectAlt))"

text \<open>The editors, with what they show: a secret, a secret or a table of its parts, a choice
  (the shown token, the tokens, whether the default is offered), a check box, a number, a
  table, JSON, a text.\<close>

datatype editor =
    Secret_e
  | Mode_e mode "js jobj"
  | Choice_e string "string list" bool
  | Check_e bool
  | Num_e "js_num option" "js_num option"
  | Table_e "(string \<times> js) list"
  | Json_e
  | Text_e string string

definition str_or_empty :: "js \<Rightarrow> string" where
  "str_or_empty v = (case v of JStr s \<Rightarrow> s | _ \<Rightarrow> '''')"

definition alternatives :: "js jobj \<Rightarrow> js jobj \<Rightarrow> js jobj list option" where
  "alternatives schema base =
     (case js_prop schema ''anyOf'' of
        JArr alts \<Rightarrow> Some (map (\<lambda>a. resolve_schema (as_obj a) base) alts)
      | _ \<Rightarrow> None)"

definition typed_editor :: "js jobj \<Rightarrow> js \<Rightarrow> editor" where
  "typed_editor schema value =
     (let dflt = js_prop schema ''default''; ty = jsonType schema in
      if ty = Some ''boolean'' then
        Check_e (case value of JBool b \<Rightarrow> b | _ \<Rightarrow> dflt = JBool True)
      else if ty = Some ''integer'' \<or> ty = Some ''number'' then
        Num_e (case value of JNum n \<Rightarrow> Some n | _ \<Rightarrow> None) (case dflt of JNum n \<Rightarrow> Some n | _ \<Rightarrow> None)
      else if ty = Some ''object'' then
        (case js_prop schema ''properties'' of JObj ps \<Rightarrow> Table_e ps | _ \<Rightarrow> Json_e)
      else if ty = Some ''array'' then Json_e
      else Text_e (str_or_empty value) (str_or_empty dflt))"

definition option_editor :: "js jobj \<Rightarrow> bool \<Rightarrow> js jobj \<Rightarrow> js \<Rightarrow> editor" where
  "option_editor base secret schema value =
     (let alts = alternatives schema base;
          objectAlt = (case alts of
                         Some as \<Rightarrow> find (\<lambda>a. jsonType a = Some ''object'' \<and> has_key a ''properties'') as | None \<Rightarrow> None);
          secretAlt = (case alts of Some as \<Rightarrow> find isSecret as | None \<Rightarrow> None)
      in if secret \<and> alts = None then Secret_e
         else if (case alts of Some as \<Rightarrow> length as > 1 | None \<Rightarrow> False) \<and> objectAlt \<noteq> None \<and> secretAlt \<noteq> None
         then Mode_e (mode_of value) (the objectAlt)
         else (case enumTokens schema of
                 Some tokens \<Rightarrow>
                   Choice_e (str_or_empty value) tokens
                     (case js_prop schema ''default'' of JStr _ \<Rightarrow> True | _ \<Rightarrow> False)
               | None \<Rightarrow> typed_editor schema value))"

section \<open>What an editor emits\<close>

definition choice_change :: "string \<Rightarrow> js" where
  "choice_change v = (if v = '''' then JUndef else JStr v)"

definition secret_env :: "js \<Rightarrow> string" where
  "secret_env v = (if is_env v then str_or_empty (js_prop (as_obj v) ''env'') else '''')"

definition secret_literal :: "js \<Rightarrow> string" where
  "secret_literal v = str_or_empty v"

definition secret_switch :: "mode \<Rightarrow> js \<Rightarrow> js" where
  "secret_switch m v = (if m = Env_m then JObj [(''env'', JStr (secret_env v))] else JStr (secret_literal v))"

definition secret_type :: "string \<Rightarrow> js \<Rightarrow> js" where
  "secret_type input v = (if is_env v then JObj [(''env'', JStr input)] else choice_change input)"

text \<open>The JSON text field: its draft, whether it is marked invalid, and what it emits.\<close>

definition json_type :: "(string \<Rightarrow> js option) \<Rightarrow> string \<Rightarrow> bool \<Rightarrow> string \<times> bool \<times> js option" where
  "json_type parse v invalid =
     (if trim v = '''' then (v, False, Some JUndef)
      else case parse v of Some x \<Rightarrow> (v, False, Some x) | None \<Rightarrow> (v, True, None))"

section \<open>Resolving\<close>

lemma non_null_idem [simp]: "non_null (non_null alts) = non_null alts"
  by (simp add: non_null_def)

lemma js_prop_put: "js_prop (obj_put ob k v) j = (if j = k then v else js_prop ob j)"
  by (simp add: js_prop_def obj_get_put)

lemma js_prop_delete: "js_prop (obj_delete ob k) j = (if j = k then JUndef else js_prop ob j)"
  by (simp add: js_prop_def obj_get_delete)

text \<open>What a round returns is returned again as it is.\<close>

lemma drop_null_idem: "drop_null (drop_null c) = drop_null c"
  by (auto simp: drop_null_def js_prop_put split: js.splits)

lemma resolve_step_stable: "resolve_step base c = (False, c') \<Longrightarrow> resolve_step base c' = (False, c')"
proof -
  assume "resolve_step base c = (False, c')"
  then have c: "unwrap_allOf c = None" "unwrap_optional c = None" "follow_ref base (drop_null c) = None" "c' = drop_null c"
    by (auto simp: resolve_step_def split: option.splits)
  have "unwrap_allOf (drop_null c) = None"
    using c(1) by (auto simp: unwrap_allOf_def drop_null_def js_prop_put split: js.splits list.splits)
  moreover have "unwrap_optional (drop_null c) = None"
    using c(2) by (auto simp: unwrap_optional_def drop_null_def js_prop_put split: js.splits list.splits)
  ultimately show ?thesis using c by (simp add: resolve_step_def drop_null_idem)
qed

lemma resolve_n_stable: "resolve_step base c = (False, c) \<Longrightarrow> resolve_n n base c = c"
  by (cases n) simp_all

fun hops :: "nat \<Rightarrow> js jobj \<Rightarrow> js jobj \<Rightarrow> bool" where
  "hops 0 base c = False"
| "hops (Suc n) base c = (case resolve_step base c of (True, c') \<Rightarrow> hops n base c' | (False, _) \<Rightarrow> True)"

lemma resolve_n_settles: "hops n base c \<Longrightarrow> resolve_step base (resolve_n n base c) = (False, resolve_n n base c)"
  by (induction n base c rule: hops.induct) (auto split: prod.splits bool.splits dest: resolve_step_stable)

lemma resolve_schema_idem:
  "hops 8 base c \<Longrightarrow> resolve_schema (resolve_schema c base) base = resolve_schema c base"
  unfolding resolve_schema_def by (rule resolve_n_stable) (rule resolve_n_settles)

text \<open>When the loop settles within its rounds, more rounds change nothing.\<close>

lemma resolve_n_more: "hops n base c \<Longrightarrow> resolve_n (n + m) base c = resolve_n n base c"
  by (induction n base c rule: hops.induct) (auto split: prod.splits bool.splits)

text \<open>Unwrapping an optional value creates the key \<open>default\<close> whether or not there is one, so an
  optional option without a default is folded away with those that have one.\<close>

lemma resolve_optional_has_default:
  assumes "unwrap_allOf s = None" "unwrap_optional s = Some c" "resolve_step base c = (False, c)"
  shows "has_key (resolve_schema s base) ''default''"
proof -
  have "resolve_schema s base = c"
    using assms resolve_n_stable [OF assms(3), of 7]
    by (simp add: resolve_schema_def resolve_step_def numeral_eq_Suc)
  moreover have "has_key c ''default''"
    using assms(2) by (auto simp: unwrap_optional_def split: js.splits list.splits if_splits)
  ultimately show ?thesis by simp
qed

section \<open>The form's options\<close>

lemma form_set_get:
  "js_prop (form_set key v value) j =
     (if j = key then (if v = JStr '''' then JUndef else v) else js_prop value j)"
  by (auto simp: form_set_def js_prop_put js_prop_delete)

lemma form_set_wf: "obj_wf value \<Longrightarrow> obj_wf (form_set key v value)"
  by (simp add: form_set_def obj_wf_put obj_wf_delete)

text \<open>No option is ever stored empty.\<close>

definition no_blank :: "js jobj \<Rightarrow> bool" where
  "no_blank value \<longleftrightarrow> (\<forall>k. has_key value k \<longrightarrow> js_prop value k \<noteq> JUndef \<and> js_prop value k \<noteq> JStr '''')"

lemma form_set_no_blank: "no_blank value \<Longrightarrow> no_blank (form_set key v value)"
  by (auto simp: no_blank_def form_set_def js_prop_put js_prop_delete)

text \<open>Every option is in exactly one of the two parts, a required one or a secret inline.\<close>

lemma form_partition:
  assumes "e \<in> set (form_entries d)" "distinct (map fst (form_entries d))"
  shows "(e \<in> set (primary_entries d)) \<noteq> (e \<in> set (tuning_entries d))"
proof -
  have only: "p = e" if "p \<in> set (form_entries d)" "fst p = fst e" for p
    using that assms by (metis eq_key_imp_eq_value prod.collapse)
  have "list_ex (\<lambda>p. fst p = fst e) (primary_entries d) \<longleftrightarrow> e \<in> set (primary_entries d)"
    using only assms(1) unfolding list_ex_iff primary_entries_def set_filter by blast
  then show ?thesis using assms(1) by (auto simp: tuning_entries_def)
qed

lemma required_inline:
  "e \<in> set (form_entries d) \<Longrightarrow> fst e \<in> set (required_keys (ad_schema d)) \<or> fst e \<in> set (ad_secrets d) \<Longrightarrow>
     e \<in> set (primary_entries d)"
  by (auto simp: primary_entries_def is_primary_def)

text \<open>After a mode was picked the picker shows it.\<close>

lemma mode_change_shown:
  assumes "\<not> has_key (exampleFor objectAlt) ''env''"
  shows "mode_of (js_prop (form_set key (mode_change objectAlt m) value) key) = m"
  using assms by (cases m) (auto simp: mode_change_def form_set_get mode_of_def is_env_def has_key_def obj_get_def)

lemma secret_switch_shown:
  "is_env (js_prop (form_set key (secret_switch m v) value) key) \<longleftrightarrow> m = Env_m"
  by (auto simp: secret_switch_def form_set_get is_env_def has_key_def obj_get_def)

lemma env_simps [simp]:
  "is_env (JObj [(''env'', x)])" "\<not> is_env (JStr s)" "\<not> is_env JUndef"
  "secret_env (JObj [(''env'', JStr s)]) = s" "secret_env (JStr s) = ''''" "secret_env JUndef = ''''"
  "secret_literal (JStr s) = s" "secret_literal JUndef = ''''" "secret_literal (JObj ob) = ''''"
  by (simp_all add: is_env_def secret_env_def secret_literal_def str_or_empty_def js_prop_def as_obj_def
      has_key_def obj_get_def)

lemma secret_type_shown:
  "secret_env (js_prop (form_set key (secret_type txt0 v) value) key) = (if is_env v then txt0 else '''')"
  "secret_literal (js_prop (form_set key (secret_type txt0 v) value) key) = (if is_env v then '''' else txt0)"
  by (simp_all add: secret_type_def form_set_get choice_change_def)

lemma json_type_valid:
  "json_type parse v invalid = (draft, bad, Some x) \<Longrightarrow> trim v \<noteq> '''' \<Longrightarrow> parse v = Some x \<and> \<not> bad"
  by (auto simp: json_type_def split: option.splits)

end
