(* ===== verification/Config_Panel.thy ===== *)
theory Config_Panel
  imports Adapter_Form Design_Store
begin

text \<open>
  \<^verbatim>\<open>components/ConfigPanel.tsx\<close>: the deployment screen. Every edit builds a new configuration
  and hands it to \<open>onChange\<close>, which is the store's \<open>setConfig\<close>.
\<close>

section \<open>Port entries\<close>

definition splitEntry :: "js jobj option \<Rightarrow> string \<times> js jobj" where
  "splitEntry entry =
     (let e = (case entry of None \<Rightarrow> [] | Some e \<Rightarrow> e)
      in ((case js_prop e ''type'' of JStr k \<Rightarrow> k | _ \<Rightarrow> ''''), obj_delete e ''type''))"

text \<open>\<open>{ type: kind, ...options }\<close>.\<close>

definition joinEntry :: "string \<Rightarrow> js jobj \<Rightarrow> js jobj" where
  "joinEntry kind options = obj_of ((''type'', JStr kind) # options)"

definition stream_kind :: "config_toml \<Rightarrow> string" where
  "stream_kind config =
     (let k = fst (splitEntry (cfg_stream config)) in if k = '''' then ''channel'' else k)"

definition find_adapter :: "adapter_description list \<Rightarrow> string \<Rightarrow> string \<Rightarrow> adapter_description option" where
  "find_adapter adapters port kind = find (\<lambda>a. ad_kind a = kind) (filter (\<lambda>a. ad_port a = port) adapters)"

definition set_source_kind :: "string \<Rightarrow> config_toml \<Rightarrow> config_toml" where
  "set_source_kind kind config = config\<lparr>cfg_source := [(''type'', JStr kind)]\<rparr>"

definition set_source_options :: "js jobj \<Rightarrow> config_toml \<Rightarrow> config_toml" where
  "set_source_options options config =
     config\<lparr>cfg_source := joinEntry (fst (splitEntry (Some (cfg_source config)))) options\<rparr>"

definition set_stream_kind :: "string \<Rightarrow> config_toml \<Rightarrow> config_toml" where
  "set_stream_kind kind config = config\<lparr>cfg_stream := Some [(''type'', JStr kind)]\<rparr>"

definition set_stream_options :: "adapter_description \<Rightarrow> js jobj \<Rightarrow> config_toml \<Rightarrow> config_toml" where
  "set_stream_options description options config =
     config\<lparr>cfg_stream := (if options \<noteq> [] then Some (joinEntry (ad_kind description) options) else None)\<rparr>"

section \<open>Deployment-wide settings\<close>

definition set_prefix :: "string \<Rightarrow> config_toml \<Rightarrow> config_toml" where
  "set_prefix p config = config\<lparr>cfg_prefix := Some p\<rparr>"

definition set_on_error :: "string \<Rightarrow> config_toml \<Rightarrow> config_toml" where
  "set_on_error v config = config\<lparr>cfg_on_error := Some (JStr v)\<rparr>"

definition batch_of :: "config_toml \<Rightarrow> js_num option \<times> js_num option" where
  "batch_of config = (case cfg_batch config of None \<Rightarrow> (None, None) | Some b \<Rightarrow> b)"

definition set_max_changes :: "js_num option \<Rightarrow> config_toml \<Rightarrow> config_toml" where
  "set_max_changes v config = config\<lparr>cfg_batch := Some (v, snd (batch_of config))\<rparr>"

definition set_max_delay_ms :: "js_num option \<Rightarrow> config_toml \<Rightarrow> config_toml" where
  "set_max_delay_ms v config = config\<lparr>cfg_batch := Some (fst (batch_of config), v)\<rparr>"

definition set_address :: "string \<Rightarrow> string \<Rightarrow> config_toml \<Rightarrow> config_toml" where
  "set_address which v config =
     config\<lparr>cfg_server := Some (obj_put (case cfg_server config of None \<Rightarrow> [] | Some s \<Rightarrow> s) which
       (if v = '''' then JUndef else JStr v))\<rparr>"

section \<open>Indexes\<close>

definition setEntry :: "nat \<Rightarrow> index_entry \<Rightarrow> config_toml \<Rightarrow> config_toml" where
  "setEntry i e config = config\<lparr>cfg_index := Some ((entries_of config)[i := e])\<rparr>"

definition row_on_error :: "string \<Rightarrow> index_entry \<Rightarrow> index_entry" where
  "row_on_error v e = e\<lparr>e_on_error := (if v = ''default'' then None else Some (JStr v))\<rparr>"

definition row_toggle :: "index_entry \<Rightarrow> index_entry" where
  "row_toggle e = e\<lparr>e_enabled := \<not> e_enabled e\<rparr>"

definition row_suggestion :: "index_entry \<Rightarrow> string" where
  "row_suggestion e = (if e_name e \<noteq> '''' then e_name e @ ''.schema.yml'' else '''')"

definition schemaList :: "config_toml \<Rightarrow> index_entry \<Rightarrow> string list" where
  "schemaList config e = js_set (filter (\<lambda>s. s \<noteq> '''') (row_suggestion e # map e_schema (entries_of config)))"

definition add_index :: "config_toml \<Rightarrow> config_toml" where
  "add_index config =
     config\<lparr>cfg_index := Some (entries_of config @
       [\<lparr>e_name = ''new_index'', e_schema = ''new_index.schema.yml'', e_enabled = True, e_on_error = None,
         e_id = None\<rparr>])\<rparr>"

definition remove_index :: "nat \<Rightarrow> config_toml \<Rightarrow> config_toml" where
  "remove_index i config = config\<lparr>cfg_index := Some (without_index i (entries_of config))\<rparr>"

section \<open>Sinks\<close>

text \<open>A sink is an object; \<open>cfg_sinks\<close> holds any value under a name.\<close>

definition sinks_of :: "config_toml \<Rightarrow> js jobj" where
  "sinks_of config = (case cfg_sinks config of None \<Rightarrow> [] | Some s \<Rightarrow> s)"

definition setSink :: "string \<Rightarrow> js jobj \<Rightarrow> config_toml \<Rightarrow> config_toml" where
  "setSink name sink config = config\<lparr>cfg_sinks := Some (obj_put (sinks_of config) name (JObj sink))\<rparr>"

definition removeSink :: "string \<Rightarrow> config_toml \<Rightarrow> config_toml" where
  "removeSink name config = config\<lparr>cfg_sinks := Some (obj_delete (sinks_of config) name)\<rparr>"

definition renameSink :: "string \<Rightarrow> string \<Rightarrow> config_toml \<Rightarrow> config_toml" where
  "renameSink old to config =
     (let name = trim to in
      if name = '''' \<or> name = old \<or> has_key (sinks_of config) name then config
      else config\<lparr>cfg_sinks := Some (obj_of (map (\<lambda>(k, v). (if k = old then name else k, v)) (sinks_of config)))\<rparr>)"

definition add_sink :: "adapter_description list \<Rightarrow> config_toml \<Rightarrow> config_toml" where
  "add_sink adapters config =
     setSink (''sink'' @ show_nat (length (obj_keys (sinks_of config)) + 1))
       (case filter (\<lambda>a. ad_port a = ''sink'') adapters of
          [] \<Rightarrow> [] | a # _ \<Rightarrow> joinEntry (ad_kind a) (ad_example a))
       config"

definition sink_backfill :: "js jobj \<Rightarrow> bool" where
  "sink_backfill sink \<longleftrightarrow> js_prop (snd (splitEntry (Some sink))) ''backfill'' \<noteq> JBool False"

definition sink_options :: "js jobj \<Rightarrow> js jobj" where
  "sink_options sink = obj_delete (snd (splitEntry (Some sink))) ''backfill''"

definition withBackfill :: "js jobj \<Rightarrow> bool \<Rightarrow> js jobj" where
  "withBackfill nxt on = (if on then nxt else obj_put nxt ''backfill'' (JBool False))"

definition sink_kind_change :: "adapter_description list \<Rightarrow> string \<Rightarrow> js jobj \<Rightarrow> js jobj" where
  "sink_kind_change adapters kind sink =
     withBackfill
       (joinEntry kind (case find (\<lambda>a. ad_kind a = kind) adapters of Some a \<Rightarrow> ad_example a | None \<Rightarrow> []))
       (sink_backfill sink)"

definition sink_options_change :: "js jobj \<Rightarrow> js jobj \<Rightarrow> js jobj" where
  "sink_options_change options sink =
     withBackfill (joinEntry (fst (splitEntry (Some sink))) options) (sink_backfill sink)"

definition sink_backfill_change :: "bool \<Rightarrow> js jobj \<Rightarrow> js jobj" where
  "sink_backfill_change on sink =
     withBackfill (joinEntry (fst (splitEntry (Some sink))) (sink_options sink)) on"

text \<open>The name field keeps a draft; committing it renames, or restores the name.\<close>

definition commitName :: "string list \<Rightarrow> string \<Rightarrow> string \<Rightarrow> config_toml \<Rightarrow> string \<times> config_toml" where
  "commitName taken name draft config =
     (let v = trim draft in
      if v = '''' \<or> v = name \<or> v \<in> set taken then (name, config) else (draft, renameSink name v config))"


section \<open>Entries\<close>

lemma js_prop_of: "js_prop (obj_of es) k = (case map_of (rev es) k of None \<Rightarrow> JUndef | Some v \<Rightarrow> v)"
  by (simp add: js_prop_def obj_get_of)

lemma map_of_rev_wf: "obj_wf es \<Longrightarrow> map_of (rev es) = map_of es"
  by (subst map_of_inject_set) (simp_all add: obj_wf_def obj_keys_def rev_map [symmetric])

lemma joinEntry_prop:
  assumes "obj_wf options" "\<not> has_key options ''type''"
  shows "js_prop (joinEntry kind options) k = (if k = ''type'' then JStr kind else js_prop options k)"
proof -
  have "js_prop options j = (case map_of options j of None \<Rightarrow> JUndef | Some v \<Rightarrow> v)" for j
    by (simp add: js_prop_def obj_get_def)
  moreover have "map_of options ''type'' = None"
    using assms(2) by (simp add: has_key_def obj_get_def)
  ultimately show ?thesis
    using assms(1) by (simp add: joinEntry_def js_prop_of map_of_rev_wf map_add_def split: option.splits)
qed

text \<open>Taking an entry apart and putting it together again keeps every property.\<close>

lemma splitEntry_wf: "obj_wf e \<Longrightarrow> obj_wf (snd (splitEntry (Some e))) \<and> \<not> has_key (snd (splitEntry (Some e))) ''type''"
  by (simp add: splitEntry_def Let_def obj_wf_delete)

lemma split_join:
  assumes "obj_wf e" "js_prop e ''type'' = JStr kind"
  shows "js_prop (joinEntry (fst (splitEntry (Some e))) (snd (splitEntry (Some e)))) k = js_prop e k"
  using splitEntry_wf [OF assms(1)] assms(2)
  by (auto simp: joinEntry_prop) (auto simp: splitEntry_def Let_def js_prop_delete)

lemma join_split:
  assumes "obj_wf options" "\<not> has_key options ''type''"
  shows "fst (splitEntry (Some (joinEntry kind options))) = kind"
    and "js_prop (snd (splitEntry (Some (joinEntry kind options)))) k = js_prop options k"
proof -
  show "fst (splitEntry (Some (joinEntry kind options))) = kind"
    using joinEntry_prop [OF assms] by (simp add: splitEntry_def Let_def)
  have "js_prop options ''type'' = JUndef"
    using assms(2) by (simp add: has_key_def js_prop_def)
  then show "js_prop (snd (splitEntry (Some (joinEntry kind options)))) k = js_prop options k"
    using joinEntry_prop [OF assms] by (simp add: splitEntry_def Let_def js_prop_delete)
qed

section \<open>Sinks\<close>

lemma sink_options_wf:
  "obj_wf sink \<Longrightarrow> obj_wf (sink_options sink) \<and> \<not> has_key (sink_options sink) ''type'' \<and>
     \<not> has_key (sink_options sink) ''backfill''"
  by (simp add: sink_options_def splitEntry_def Let_def obj_wf_delete)

lemma sink_options_prop:
  "js_prop (sink_options sink) k = (if k = ''type'' \<or> k = ''backfill'' then JUndef else js_prop sink k)"
  by (simp add: sink_options_def splitEntry_def Let_def js_prop_delete)

text \<open>Switching the backfill is read back, and nothing else of the sink changes.\<close>

lemma sink_backfill_change_correct:
  assumes wf: "obj_wf sink" and ty: "js_prop sink ''type'' = JStr kind"
  shows "sink_backfill (sink_backfill_change on sink) = on"
    and "k \<noteq> ''backfill'' \<Longrightarrow> js_prop (sink_backfill_change on sink) k = js_prop sink k"
proof -
  have kind: "fst (splitEntry (Some sink)) = kind" using ty by (simp add: splitEntry_def Let_def)
  have all: "js_prop (sink_backfill_change on sink) k =
      (if k = ''backfill'' then (if on then JUndef else JBool False)
       else if k = ''type'' then JStr kind else js_prop sink k)" for k
    using sink_options_wf [OF wf]
    by (simp add: sink_backfill_change_def withBackfill_def js_prop_put joinEntry_prop sink_options_prop kind)
  show "sink_backfill (sink_backfill_change on sink) = on"
    by (simp add: sink_backfill_def splitEntry_def Let_def js_prop_delete all)
  show "k \<noteq> ''backfill'' \<Longrightarrow> js_prop (sink_backfill_change on sink) k = js_prop sink k"
    by (auto simp: all ty)
qed

text \<open>A rename keeps every sink's value under its new name and, for names that are no array
  index, the order of the sinks.\<close>

lemma obj_of_fresh:
  assumes "distinct (map fst es)" "\<forall>k \<in> set (map fst es). \<not> is_index_key k"
  shows "obj_of es = es"
  using assms
proof (induction es rule: rev_induct)
  case (snoc e es)
  obtain k v where e: "e = (k, v)" by (cases e)
  have "obj_of (es @ [e]) = obj_put (obj_of es) k v" by (simp add: obj_of_def e)
  also have "\<dots> = obj_put es k v" using snoc by (simp add: e)
  also have "\<dots> = es @ [(k, v)]"
    using snoc.prems by (auto simp: e obj_put_def has_key_iff obj_keys_def)
  finally show ?case by (simp add: e)
qed (simp add: obj_of_def)

definition renamed :: "string \<Rightarrow> string \<Rightarrow> string \<Rightarrow> string" where
  "renamed old name k = (if k = old then name else k)"

lemma renameSink_keys:
  assumes wf: "obj_wf (sinks_of config)" and new: "trim to \<noteq> ''''" "\<not> has_key (sinks_of config) (trim to)"
    and plain_names: "\<forall>k \<in> set (trim to # obj_keys (sinks_of config)). \<not> is_index_key k"
  shows "obj_keys (sinks_of (renameSink old to config)) = map (renamed old (trim to)) (obj_keys (sinks_of config))"
    and "has_key (sinks_of config) k \<Longrightarrow>
      obj_get (sinks_of (renameSink old to config)) (renamed old (trim to) k) = obj_get (sinks_of config) k"
proof -
  let ?S = "sinks_of config" and ?n = "trim to"
  let ?es = "map (\<lambda>(k, v). (renamed old ?n k, v)) ?S"
  have keys: "map fst ?es = map (renamed old ?n) (obj_keys ?S)"
    by (induction ?S) (auto simp: obj_keys_def)
  have inj: "inj_on (renamed old ?n) (set (obj_keys ?S))"
    using new(2) by (auto simp: inj_on_def renamed_def has_key_iff split: if_splits)
  have dist: "distinct (map fst ?es)"
    unfolding keys using wf inj by (simp add: distinct_map obj_wf_def)
  have fresh: "obj_of ?es = ?es"
  proof (rule obj_of_fresh [OF dist], rule ballI)
    fix k assume "k \<in> set (map fst ?es)"
    then show "\<not> is_index_key k" unfolding keys using plain_names by (auto simp: renamed_def)
  qed
  show "obj_keys (sinks_of (renameSink old to config)) = map (renamed old ?n) (obj_keys ?S)"
  proof (cases "?n = old")
    case True
    then have "renamed old ?n = (\<lambda>k. k)" by (auto simp: renamed_def)
    then show ?thesis using True new by (simp add: renameSink_def)
  next
    case False
    then have "sinks_of (renameSink old to config) = ?es"
      using new fresh by (simp add: renameSink_def Let_def sinks_of_def [of "_\<lparr>cfg_sinks := _\<rparr>"] renamed_def)
    then show ?thesis using keys by (simp add: obj_keys_def)
  qed
  assume "has_key ?S k"
  then obtain v where v: "(k, v) \<in> set ?S" "obj_get ?S k = Some v" by (auto simp: has_key_def dest: obj_get_mem)
  show "obj_get (sinks_of (renameSink old to config)) (renamed old ?n k) = obj_get ?S k"
  proof (cases "?n = old")
    case True
    then show ?thesis by (simp add: renameSink_def renamed_def)
  next
    case False
    then have "sinks_of (renameSink old to config) = ?es"
      using new fresh by (simp add: renameSink_def Let_def sinks_of_def [of "_\<lparr>cfg_sinks := _\<rparr>"] renamed_def)
    moreover have "(renamed old ?n k, v) \<in> set ?es" using v(1) by force
    moreover have "obj_wf ?es" using dist by (simp add: obj_wf_def obj_keys_def)
    ultimately show ?thesis using v(2) obj_get_in by metis
  qed
qed


lemma rename_refused:
  "trim to = '''' \<or> trim to = old \<or> has_key (sinks_of config) (trim to) \<Longrightarrow> renameSink old to config = config"
  by (auto simp: renameSink_def Let_def)

lemma commitName_safe:
  assumes "obj_wf (sinks_of config)" "taken = filter (\<lambda>n. n \<noteq> name) (obj_keys (sinks_of config))" "trim draft \<in> set taken"
  shows "commitName taken name draft config = (name, config)"
  using assms(3) by (simp add: commitName_def Let_def)

text \<open>\<open>sink<n+1>\<close> is the name of an added sink; after a removal it may be taken, and that sink's
  settings are lost.\<close>

lemma add_sink_overwrites:
  assumes "sinks_of config = [(''sink2'', v)]"
  shows "\<exists>sink. sinks_of (add_sink adapters config) = [(''sink2'', JObj sink)]"
proof -
  have "show_nat (Suc (Suc 0)) = ''2''" by code_simp
  then show ?thesis
    using assms
    by (simp add: add_sink_def setSink_def sinks_of_def [of "_\<lparr>cfg_sinks := _\<rparr>"] obj_put_def has_key_def
        obj_get_def obj_keys_def del: show_nat.simps)
qed

section \<open>Rows of the index table and their schemas\<close>

lemma names_of_setEntry: "names_of (setEntry i e config) = (names_of config)[i := e_name e]"
  by (simp add: setEntry_def names_of_def map_update)

text \<open>Renaming a row to a new name moves its schema along and leaves the others.\<close>

lemma rename_row:
  assumes d: "ds_doc s = Some d" and c: "doc_config d = config"
    and names: "distinct (names_of config)" "i < length (names_of config)" "e_name e \<notin> set (names_of config)"
    and keys: "set (obj_keys (doc_schemas d)) \<subseteq> set (names_of config)" and j: "j < length (names_of config)"
  shows "\<exists>d'. ds_doc (setConfig newId (setEntry i e config) s) = Some d' \<and>
    obj_get (doc_schemas d') (if j = i then e_name e else names_of config ! j) =
      obj_get (doc_schemas d) (names_of config ! j)"
proof -
  have "inplace_rename (names_of config) ((names_of config)[i := e_name e])"
    using names by (auto simp: inplace_rename_def list_all_iff set_zip nth_list_update distinct_list_update)
  then show ?thesis
    using setConfig_rename_gen [OF d, of "setEntry i e config" j newId] c keys j
    by (auto simp: names_of_setEntry nth_list_update)
qed

text \<open>Each key stroke in the name field is an edit: typing a name that passes through another
  index's name puts this index's schema in the place of the other's.\<close>

lemma rename_through_existing:
  assumes d: "ds_doc s = Some d" and names: "names_of (doc_config d) = [a, b]" "a \<noteq> b"
    and e: "e_name e = b" and sa: "obj_get (doc_schemas d) a = Some x"
  shows "\<exists>d'. ds_doc (setConfig newId (setEntry 0 e (doc_config d)) s) = Some d' \<and>
    names_of (doc_config d') = [b, b] \<and> obj_get (doc_schemas d') b = Some x \<and> obj_get (doc_schemas d') a = None"
proof -
  let ?new = "setEntry 0 e (doc_config d)"
  have n: "names_of ?new = [b, b]" using names e by (simp add: names_of_setEntry)
  have rs: "renames_of (entries_of (doc_config d)) (entries_of ?new) = [(a, b)]"
    using names n by (simp add: renames_of_names flip: names_of_def) (simp add: map_set_def)
  have "removed_names (entries_of (doc_config d)) (entries_of ?new) [(a, b)] = []"
    using names n by (auto simp: removed_names_def names_of_def filter_empty_conv)
  then show ?thesis
    using setConfig_doc [OF d, of newId ?new] n sa names
    by (auto simp: rs Let_def rekey_schema_def obj_laws)
qed

lemma remove_last_row:
  assumes d: "ds_doc s = Some d" and names: "names_of (doc_config d) = ns @ [a]" "a \<notin> set ns"
  shows "\<exists>d'. ds_doc (setConfig newId (remove_index (length ns) (doc_config d)) s) = Some d' \<and>
    (\<forall>k. obj_get (doc_schemas d') k = (if k = a then None else obj_get (doc_schemas d) k))"
proof -
  have n: "names_of (remove_index (length ns) (doc_config d)) = ns"
    using names by (simp add: remove_index_def names_of_def map_without_index) (simp add: without_index_take_drop)
  have "list_all (\<lambda>(x, y). x = y) (zip (ns @ [a]) ns)"
    by (induction ns) auto
  then show ?thesis
    using setConfig_aligned [OF d, of "remove_index (length ns) (doc_config d)" newId] names n
    by (auto split: if_splits)
qed

lemma add_index_twice: "\<not> distinct (names_of (add_index (add_index config)))"
  by (simp add: add_index_def names_of_def entries_of_def [of "_\<lparr>cfg_index := _\<rparr>"])

end
