(* ===== verification/Filters.thy ===== *)
theory Filters
  imports Schema Js_Prelude
begin

text \<open>
  \<^verbatim>\<open>components/Filters.tsx\<close>: the filter editor. The kind of a filter is its constructor; an
  operator's operands are a single value, a range or a list. A row's edits are functions on
  the list of filters, \<^const>\<open>None\<close> when the last one is removed.
\<close>

datatype filter_kind = Raw_k | Null_check_k | Value_op_k

datatype arity = Single_a | Range_a | List_a

fun kindOf :: "filter \<Rightarrow> filter_kind" where
  "kindOf (Raw _) = Raw_k"
| "kindOf (Null_check _ _) = Null_check_k"
| "kindOf (Value_op _ _ _) = Value_op_k"

fun blank :: "filter_kind \<Rightarrow> filter" where
  "blank Raw_k = Raw ''''"
| "blank Null_check_k = Null_check '''' Is_null"
| "blank Value_op_k = Value_op '''' Op_eq (Single '''')"

definition opArity :: "filter_op \<Rightarrow> arity" where
  "opArity op =
     (if op = Op_in \<or> op = Op_not_in then List_a else if op = Op_between then Range_a else Single_a)"

fun operands :: "filter_value \<Rightarrow> string list" where
  "operands (Single s) = [s]"
| "operands (List ss) = ss"
| "operands (Range lo hi) = [lo, hi]"

definition operand_at :: "string list \<Rightarrow> nat \<Rightarrow> string" where
  "operand_at flat i = (case js_get flat i of Some s \<Rightarrow> s | None \<Rightarrow> '''')"

definition reshapeValue :: "filter_op \<Rightarrow> filter_value \<Rightarrow> filter_value" where
  "reshapeValue op prev =
     (let flat = operands prev in
      case opArity op of
        List_a \<Rightarrow> List (if flat \<noteq> [] then flat else [''''])
      | Range_a \<Rightarrow> Range (operand_at flat 0) (operand_at flat 1)
      | Single_a \<Rightarrow> Single (operand_at flat 0))"

section \<open>The edits of a row\<close>

text \<open>An edit applies to the rows that show its control; the others it leaves alone.\<close>

fun set_raw :: "string \<Rightarrow> filter \<Rightarrow> filter" where
  "set_raw s (Raw _) = Raw s" | "set_raw s f = f"

fun set_column :: "string \<Rightarrow> filter \<Rightarrow> filter" where
  "set_column c (Null_check _ op) = Null_check c op"
| "set_column c (Value_op _ op v) = Value_op c op v"
| "set_column c f = f"

fun set_null_op :: "null_op \<Rightarrow> filter \<Rightarrow> filter" where
  "set_null_op op (Null_check c _) = Null_check c op" | "set_null_op op f = f"

fun set_op :: "filter_op \<Rightarrow> filter \<Rightarrow> filter" where
  "set_op op (Value_op c _ v) = Value_op c op (reshapeValue op v)" | "set_op op f = f"

fun set_single :: "string \<Rightarrow> filter \<Rightarrow> filter" where
  "set_single s (Value_op c op (Single _)) = Value_op c op (Single s)" | "set_single s f = f"

fun set_lo :: "string \<Rightarrow> filter \<Rightarrow> filter" where
  "set_lo s (Value_op c op (Range _ hi)) = Value_op c op (Range s hi)" | "set_lo s f = f"

fun set_hi :: "string \<Rightarrow> filter \<Rightarrow> filter" where
  "set_hi s (Value_op c op (Range lo _)) = Value_op c op (Range lo s)" | "set_hi s f = f"

fun set_item_at :: "nat \<Rightarrow> string \<Rightarrow> filter \<Rightarrow> filter" where
  "set_item_at j s (Value_op c op (List ss)) = Value_op c op (List (ss[j := s]))" | "set_item_at j s f = f"

text \<open>The first item has no remove button.\<close>

fun remove_item_at :: "nat \<Rightarrow> filter \<Rightarrow> filter" where
  "remove_item_at j (Value_op c op (List ss)) =
     (if 0 < j then Value_op c op (List (without_index j ss)) else Value_op c op (List ss))"
| "remove_item_at j f = f"

fun add_item :: "filter \<Rightarrow> filter" where
  "add_item (Value_op c op (List ss)) = Value_op c op (List (ss @ ['''']))" | "add_item f = f"

section \<open>The list\<close>

definition filters_set :: "nat \<Rightarrow> filter \<Rightarrow> filter list \<Rightarrow> filter list option" where
  "filters_set i f value = Some (value[i := f])"

definition filters_remove :: "nat \<Rightarrow> filter list \<Rightarrow> filter list option" where
  "filters_remove i value = (let nxt = without_index i value in if nxt \<noteq> [] then Some nxt else None)"

definition filters_add :: "filter list \<Rightarrow> filter list option" where
  "filters_add value = Some (value @ [blank Value_op_k])"

definition filters_kind :: "nat \<Rightarrow> filter_kind \<Rightarrow> filter list \<Rightarrow> filter list option" where
  "filters_kind i k value = filters_set i (blank k) value"

section \<open>Operands always fit the operator\<close>

fun fits :: "filter_op \<Rightarrow> filter_value \<Rightarrow> bool" where
  "fits op (Single _) \<longleftrightarrow> opArity op = Single_a"
| "fits op (Range _ _) \<longleftrightarrow> opArity op = Range_a"
| "fits op (List ss) \<longleftrightarrow> opArity op = List_a \<and> ss \<noteq> []"

fun filter_fits :: "filter \<Rightarrow> bool" where
  "filter_fits (Value_op _ op v) \<longleftrightarrow> fits op v"
| "filter_fits _ \<longleftrightarrow> True"

lemma kindOf_blank [simp]: "kindOf (blank k) = k"
  by (cases k) simp_all

lemma blank_fits: "filter_fits (blank k)"
  by (cases k) (simp_all add: opArity_def)

lemma reshape_fits: "fits op (reshapeValue op v)"
  by (cases "opArity op") (simp_all add: reshapeValue_def Let_def)

text \<open>The edits of one row, by name, so that a session is a sequence of them.\<close>

datatype row_edit =
    Raw_edit string | Column_edit string | Null_op_edit null_op | Op_edit filter_op | Single_edit string
  | Lo_edit string | Hi_edit string | Item_edit nat string | Remove_item nat | Add_item | Kind_edit filter_kind

fun edit_row :: "row_edit \<Rightarrow> filter \<Rightarrow> filter" where
  "edit_row (Raw_edit s) f = set_raw s f"
| "edit_row (Column_edit c) f = set_column c f"
| "edit_row (Null_op_edit op) f = set_null_op op f"
| "edit_row (Op_edit op) f = set_op op f"
| "edit_row (Single_edit s) f = set_single s f"
| "edit_row (Lo_edit s) f = set_lo s f"
| "edit_row (Hi_edit s) f = set_hi s f"
| "edit_row (Item_edit j s) f = set_item_at j s f"
| "edit_row (Remove_item j) f = remove_item_at j f"
| "edit_row Add_item f = add_item f"
| "edit_row (Kind_edit k) f = blank k"

lemma without_index_nonempty: "0 < j \<Longrightarrow> xs \<noteq> [] \<Longrightarrow> without_index j xs \<noteq> []"
  by (cases xs) (auto simp: without_index_take_drop)



lemma edit_row_fits: "filter_fits f \<Longrightarrow> filter_fits (edit_row e f)"
proof (cases f)
  case (Value_op c op v)
  moreover assume "filter_fits f"
  ultimately show ?thesis
    by (cases e; cases v) (auto simp: reshape_fits blank_fits without_index_nonempty)
qed (cases e; simp add: blank_fits)+

definition edit_rows :: "row_edit list \<Rightarrow> filter \<Rightarrow> filter" where
  "edit_rows es f = foldl (\<lambda>f e. edit_row e f) f es"

lemma edit_rows_fits: "filter_fits f \<Longrightarrow> filter_fits (edit_rows es f)"
  by (induction es arbitrary: f) (simp_all add: edit_rows_def edit_row_fits)

text \<open>Changing the operator keeps what fits of the operands typed so far.\<close>

lemma operand_pair: "[operand_at ss 0, operand_at ss 1] = take 2 ss @ replicate (2 - length ss) ''''"
proof (cases ss)
  case (Cons a rest)
  then show ?thesis by (cases rest) (simp_all add: operand_at_def js_get_def)
qed (simp add: operand_at_def js_get_def numeral_2_eq_2)

lemma reshape_prefix:
  assumes "fits op v"
  shows "\<exists>n. operands (reshapeValue op' v) = take n (operands v) @ replicate (n - length (operands v)) ''''"
proof -
  consider "opArity op' = List_a" | "opArity op' = Range_a" | "opArity op' = Single_a" by (cases "opArity op'") auto
  then show ?thesis
  proof cases
    case 1
    then show ?thesis using assms by (intro exI [of _ "length (operands v)"]) (cases v; simp add: reshapeValue_def)
  next
    case 2
    then show ?thesis using assms
      by (intro exI [of _ 2]) (simp add: reshapeValue_def Let_def operand_pair [symmetric])
  next
    case 3
    then show ?thesis using assms
      by (intro exI [of _ 1]) (cases v; auto simp: reshapeValue_def operand_at_def js_get_def neq_Nil_conv)
  qed
qed

lemma reshape_same_arity: "fits op v \<Longrightarrow> opArity op' = opArity op \<Longrightarrow> reshapeValue op' v = v"
  by (cases v) (auto simp: reshapeValue_def operand_at_def js_get_def)

lemma equal_to_between: "set_op Op_between (Value_op c Op_eq (Single s)) = Value_op c Op_between (Range s '''')"
  by (simp add: reshapeValue_def opArity_def operand_at_def js_get_def)

lemma between_and_back: "set_op Op_eq (set_op Op_between (Value_op c Op_eq (Single s))) = Value_op c Op_eq (Single s)"
  by (simp add: equal_to_between) (simp add: reshapeValue_def opArity_def operand_at_def js_get_def)

section \<open>The list keeps its other rows\<close>

lemma filters_set_other: "filters_set i f value = Some nxt \<Longrightarrow> j \<noteq> i \<Longrightarrow> js_get nxt j = js_get value j"
  by (auto simp: filters_set_def js_get_def)

lemma filters_add_remove: "map_option (\<lambda>v. filters_remove (length value) v) (filters_add value) =
    Some (if value = [] then None else Some value)"
  by (simp add: filters_add_def filters_remove_def Let_def without_index_take_drop)

lemma filters_remove_None: "i < length value \<Longrightarrow> filters_remove i value = None \<longleftrightarrow> length value = 1"
  by (cases "value") (auto simp: filters_remove_def Let_def without_index_take_drop)

end
