(* ===== verification/Review_Dialog.thy ===== *)
theory Review_Dialog
  imports Save_Review App_Shell
begin

text \<open>
  The review of a save (\<^verbatim>\<open>App.tsx\<close>: \<open>DiffModal\<close> with its chip, detail, badge and path
  shortening). The state is the selected position, the set of included paths and the filter;
  files are told apart by their values;
  \<open>localeCompare\<close> is the order \<open>leq\<close>, the ellipsis the argument \<open>dots\<close>.
\<close>

section \<open>The files\<close>

definition shortenPath :: "string \<Rightarrow> string \<Rightarrow> string" where
  "shortenPath dots path =
     (if length path \<le> 30 then path
      else
        (let parts = split_char CHR ''/'' path in
         if length parts \<le> 2 then path else hd parts @ ''/'' @ dots @ ''/'' @ last parts))"

definition is_config_diff :: "op_diff \<Rightarrow> bool" where
  "is_config_diff d \<longleftrightarrow> ends_with ''flusso.toml'' (d_path d)"

definition changed_files :: "(string \<Rightarrow> string \<Rightarrow> bool) \<Rightarrow> op_diff list \<Rightarrow> op_diff list" where
  "changed_files leq ds =
     (let xs = filter d_changed ds in
      filter is_config_diff xs @
      sort_by (\<lambda>a b. leq (d_path a) (d_path b)) (filter (\<lambda>d. \<not> is_config_diff d) xs))"

datatype check = Loading_c | Failed_c string | Done_c validate_response

datatype chip = Validating_chip | Offline_chip | Failed_chip | Issues_chip nat | Good_chip

definition check_chip :: "check \<Rightarrow> chip" where
  "check_chip c =
     (case c of
        Loading_c \<Rightarrow> Validating_chip
      | Failed_c _ \<Rightarrow> Offline_chip
      | Done_c res \<Rightarrow>
          if \<not> vr_db_reachable res then Offline_chip
          else if truthy (vr_error res) then Failed_chip
          else if length (vr_diagnostics res) > 0 then Issues_chip (length (vr_diagnostics res))
          else Good_chip)"

definition check_detail :: "check \<Rightarrow> (string option \<times> diagnostic list) option" where
  "check_detail c =
     (case c of
        Loading_c \<Rightarrow> None
      | _ \<Rightarrow>
          (let err = (case c of Failed_c e \<Rightarrow> Some e
                      | Done_c res \<Rightarrow> if vr_db_reachable res then vr_error res else None | _ \<Rightarrow> None);
               ds = (case c of Done_c res \<Rightarrow>
                         if vr_db_reachable res \<and> \<not> truthy (vr_error res) then vr_diagnostics res else []
                     | _ \<Rightarrow> [])
           in if \<not> truthy err \<and> ds = [] then None else Some (if truthy err then err else None, ds)))"

definition check_reply :: "validate_response res \<Rightarrow> check" where
  "check_reply result = (case result of Inr res \<Rightarrow> Done_c res | Inl e \<Rightarrow> Failed_c (errText e))"

datatype badge = Delete_badge | Move_badge | New_badge | No_badge

definition op_badge :: "op_diff \<Rightarrow> badge" where
  "op_badge d =
     (if d_op d = D_delete then Delete_badge else if d_op d = D_move then Move_badge
      else if d_current d = '''' then New_badge else No_badge)"

section \<open>The dialog's state\<close>

record review =
  rv_selected :: nat
  rv_include :: "string list"
  rv_query :: string

definition open_review :: "op_diff list \<Rightarrow> review" where
  "open_review changed = \<lparr>rv_selected = 0, rv_include = js_set (map d_path changed), rv_query = ''''\<rparr>"

definition shown_files :: "op_diff list \<Rightarrow> review \<Rightarrow> op_diff list" where
  "shown_files changed rv =
     (let needle = to_lower (trim (rv_query rv)) in
      filter (\<lambda>d. needle = '''' \<or> includes_str needle (to_lower (d_path d))) changed)"

definition active_file :: "op_diff list \<Rightarrow> review \<Rightarrow> op_diff option" where
  "active_file changed rv =
     (case js_get changed (rv_selected rv) of Some d \<Rightarrow> Some d | None \<Rightarrow> js_get changed 0)"

definition toggle_file :: "string \<Rightarrow> review \<Rightarrow> review" where
  "toggle_file path rv =
     rv\<lparr>rv_include := (if path \<in> set (rv_include rv) then set_delete path (rv_include rv)
                       else set_add path (rv_include rv))\<rparr>"

definition shownIncluded :: "op_diff list \<Rightarrow> review \<Rightarrow> nat" where
  "shownIncluded changed rv = length (filter (\<lambda>d. d_path d \<in> set (rv_include rv)) (shown_files changed rv))"

definition allShown :: "op_diff list \<Rightarrow> review \<Rightarrow> bool" where
  "allShown changed rv \<longleftrightarrow>
     length (shown_files changed rv) > 0 \<and> shownIncluded changed rv = length (shown_files changed rv)"

definition include_all :: "bool \<Rightarrow> op_diff list \<Rightarrow> review \<Rightarrow> review" where
  "include_all clear files rv =
     rv\<lparr>rv_include := foldl (\<lambda>s d. if clear then set_delete (d_path d) s else set_add (d_path d) s)
                        (rv_include rv) files\<rparr>"

definition toggleAll :: "op_diff list \<Rightarrow> review \<Rightarrow> review" where
  "toggleAll changed rv = include_all (allShown changed rv) (shown_files changed rv) rv"

definition dir_of :: "string \<Rightarrow> op_diff \<Rightarrow> string" where
  "dir_of dots d =
     (let short = shortenPath dots (d_path d) in
      case last_index_of_char CHR ''/'' short of None \<Rightarrow> '''' | Some i \<Rightarrow> take i short)"

definition base_of :: "string \<Rightarrow> op_diff \<Rightarrow> string" where
  "base_of dots d =
     (let short = shortenPath dots (d_path d) in
      case last_index_of_char CHR ''/'' short of None \<Rightarrow> short | Some i \<Rightarrow> drop (Suc i) short)"

fun add_to_group :: "string \<Rightarrow> op_diff \<Rightarrow> (string \<times> op_diff list) list \<Rightarrow> (string \<times> op_diff list) list" where
  "add_to_group dir d [] = [(dir, [d])]"
| "add_to_group dir d [(dir', fs)] = (if dir' = dir then [(dir', fs @ [d])] else [(dir', fs), (dir, [d])])"
| "add_to_group dir d (g # gs) = g # add_to_group dir d gs"

definition folder_groups :: "string \<Rightarrow> op_diff list \<Rightarrow> (string \<times> op_diff list) list" where
  "folder_groups dots shown = foldl (\<lambda>gs d. add_to_group (dir_of dots d) d gs) [] shown"

definition toggleFolder :: "op_diff list \<Rightarrow> review \<Rightarrow> review" where
  "toggleFolder files rv = include_all (list_all (\<lambda>f. d_path f \<in> set (rv_include rv)) files) files rv"

definition ignoreList :: "op_diff list \<Rightarrow> review \<Rightarrow> string list" where
  "ignoreList changed rv = map d_path (filter (\<lambda>d. d_path d \<notin> set (rv_include rv)) changed)"

definition escape_key :: "review \<Rightarrow> review" where
  "escape_key rv = (if rv_query rv \<noteq> '''' then rv\<lparr>rv_query := ''''\<rparr> else rv)"

section \<open>Keys\<close>

definition index_of_diff :: "op_diff list \<Rightarrow> op_diff \<Rightarrow> nat option" where
  "index_of_diff ds d = (case find (\<lambda>i. ds ! i = d) [0..<length ds] of Some i \<Rightarrow> Some i | None \<Rightarrow> None)"

definition shown_pos :: "op_diff list \<Rightarrow> review \<Rightarrow> nat option" where
  "shown_pos changed rv =
     (let shown = shown_files changed rv in
      find (\<lambda>i. index_of_diff changed (shown ! i) = Some (rv_selected rv)) [0..<length shown])"

definition select_shown :: "op_diff list \<Rightarrow> nat \<Rightarrow> review \<Rightarrow> review" where
  "select_shown changed i rv =
     (case index_of_diff changed (shown_files changed rv ! i) of
        Some j \<Rightarrow> rv\<lparr>rv_selected := j\<rparr> | None \<Rightarrow> rv)"

text \<open>The second component is the list handed to \<open>onConfirm\<close>, when it is called.\<close>

definition onDialogKey :: "op_diff list \<Rightarrow> bool \<Rightarrow> key_event \<Rightarrow> review \<Rightarrow> review \<times> string list option" where
  "onDialogKey changed saving e rv =
     (let modkey = ke_meta e \<or> ke_ctrl e; shown = shown_files changed rv; pos = shown_pos changed rv in
      if modkey \<and> ke_key e = ''Enter'' then
        (rv, if rv_include rv \<noteq> [] \<and> \<not> saving then Some (ignoreList changed rv) else None)
      else if modkey \<and> to_lower (ke_key e) = ''a'' then (toggleAll changed rv, None)
      else if shown = [] then (rv, None)
      else if ke_key e = ''ArrowDown'' then
        (select_shown changed (min (length shown - 1) (case pos of None \<Rightarrow> 0 | Some p \<Rightarrow> p + 1)) rv, None)
      else if ke_key e = ''ArrowUp'' then
        (select_shown changed (case pos of None \<Rightarrow> 0 | Some p \<Rightarrow> p - 1) rv, None)
      else if ke_key e = ''Enter'' then
        (toggle_file (d_path (shown ! (case pos of None \<Rightarrow> 0 | Some p \<Rightarrow> p))) rv, None)
      else (rv, None))"


section \<open>The list\<close>

text \<open>The review lists every changed file once, the configuration first.\<close>

lemma changed_files_mset: "mset (changed_files leq ds) = mset (filter d_changed ds)"
  unfolding changed_files_def Let_def mset_append mset_sort_by mset_filter by (rule multiset_partition [symmetric])

lemma changed_files_set: "set (changed_files leq ds) = {d \<in> set ds. d_changed d}"
  by (auto simp: changed_files_def Let_def)

lemma shown_files_subset: "set (shown_files changed rv) \<subseteq> set changed"
  by (auto simp: shown_files_def Let_def)

section \<open>Folders\<close>

lemma add_to_group_files: "concat (map snd (add_to_group dir d gs)) = concat (map snd gs) @ [d]"
  by (induction dir d gs rule: add_to_group.induct) auto

lemma folder_groups_files: "concat (map snd (folder_groups dots shown)) = shown"
proof -
  have "concat (map snd (foldl (\<lambda>gs d. add_to_group (dir_of dots d) d gs) gs xs)) = concat (map snd gs) @ xs" for gs xs
    by (induction xs arbitrary: gs) (simp_all add: add_to_group_files)
  then show ?thesis by (simp add: folder_groups_def)
qed

fun grouped :: "string \<Rightarrow> (string \<times> op_diff list) list \<Rightarrow> bool" where
  "grouped dots ((d1, f1) # (d2, f2) # gs) \<longleftrightarrow>
     d1 \<noteq> d2 \<and> f1 \<noteq> [] \<and> list_all (\<lambda>f. dir_of dots f = d1) f1 \<and> grouped dots ((d2, f2) # gs)"
| "grouped dots [(d1, f1)] \<longleftrightarrow> f1 \<noteq> [] \<and> list_all (\<lambda>f. dir_of dots f = d1) f1"
| "grouped dots [] \<longleftrightarrow> True"

lemma add_to_group_hd: "gs \<noteq> [] \<Longrightarrow> \<exists>fs. \<exists>gs'. add_to_group dir d gs = (fst (hd gs), fs) # gs'"
  by (induction dir d gs rule: add_to_group.induct) auto

lemma grouped_add: "grouped dots gs \<Longrightarrow> grouped dots (add_to_group (dir_of dots d) d gs)"
proof (induction dots gs rule: grouped.induct)
  case (1 dots d1 f1 d2 f2 gs)
  obtain fs gs' where eq: "add_to_group (dir_of dots d) d ((d2, f2) # gs) = (d2, fs) # gs'"
    using add_to_group_hd [of "(d2, f2) # gs" "dir_of dots d" d] by auto
  have "grouped dots ((d2, fs) # gs')" using 1 eq by (simp del: grouped.simps) (metis eq "1.prems" grouped.simps(1))
  then show ?case using 1 eq by simp
qed auto

lemma folder_groups_grouped: "grouped dots (folder_groups dots shown)"
proof -
  have "grouped dots gs \<Longrightarrow> grouped dots (foldl (\<lambda>gs d. add_to_group (dir_of dots d) d gs) gs xs)" for gs xs
    by (induction xs arbitrary: gs) (simp_all add: grouped_add)
  then show ?thesis by (simp add: folder_groups_def)
qed

section \<open>Including and ignoring\<close>

lemma set_ignoreList:
  "set (ignoreList changed rv) = d_path ` set changed - set (rv_include rv)"
  by (auto simp: ignoreList_def)

lemma ignoreList_fresh: "ignoreList changed (open_review changed) = []"
  by (simp add: ignoreList_def open_review_def filter_empty_conv)

lemma toggle_file_include [simp]:
  "set (rv_include (toggle_file path rv)) =
     (if path \<in> set (rv_include rv) then set (rv_include rv) - {path} else insert path (set (rv_include rv)))"
  by (simp add: toggle_file_def)

lemma toggle_file_twice: "set (rv_include (toggle_file path (toggle_file path rv))) = set (rv_include rv)"
  by auto

lemma set_include_all:
  "set (rv_include (include_all clear files rv)) =
     (if clear then set (rv_include rv) - d_path ` set files else set (rv_include rv) \<union> d_path ` set files)"
proof -
  have "set (foldl (\<lambda>s d. if clear then set_delete (d_path d) s else set_add (d_path d) s) s files) =
      (if clear then set s - d_path ` set files else set s \<union> d_path ` set files)" for s
    by (induction files arbitrary: s) auto
  then show ?thesis by (simp add: include_all_def)
qed

lemma shown_files_include_all [simp]: "shown_files changed (include_all c files rv) = shown_files changed rv"
  by (simp add: shown_files_def include_all_def)

lemma allShown_iff:
  "allShown changed rv \<longleftrightarrow> shown_files changed rv \<noteq> [] \<and> d_path ` set (shown_files changed rv) \<subseteq> set (rv_include rv)"
proof -
  have "length (filter P xs) = length xs \<longleftrightarrow> (\<forall>x \<in> set xs. P x)" for P and xs :: "op_diff list"
    by (metis filter_True length_filter_less less_irrefl)
  then show ?thesis by (auto simp: allShown_def shownIncluded_def)
qed

text \<open>Select-all turns the shown files on unless they are all on, and leaves the others.\<close>

lemma toggleAll_correct:
  assumes "shown_files changed rv \<noteq> []"
  shows "allShown changed (toggleAll changed rv) \<longleftrightarrow> \<not> allShown changed rv"
    and "p \<notin> d_path ` set (shown_files changed rv) \<Longrightarrow>
      p \<in> set (rv_include (toggleAll changed rv)) \<longleftrightarrow> p \<in> set (rv_include rv)"
proof -
  obtain d where "d \<in> set (shown_files changed rv)" using assms by (cases "shown_files changed rv") auto
  then show "allShown changed (toggleAll changed rv) \<longleftrightarrow> \<not> allShown changed rv"
    by (auto simp: allShown_iff toggleAll_def set_include_all split: if_splits)
  show "p \<notin> d_path ` set (shown_files changed rv) \<Longrightarrow>
      p \<in> set (rv_include (toggleAll changed rv)) \<longleftrightarrow> p \<in> set (rv_include rv)"
    by (auto simp: toggleAll_def set_include_all)
qed

lemma toggleFolder_correct:
  assumes "files \<noteq> []"
  shows "list_all (\<lambda>f. d_path f \<in> set (rv_include (toggleFolder files rv))) files \<longleftrightarrow>
    \<not> list_all (\<lambda>f. d_path f \<in> set (rv_include rv)) files"
  using assms by (auto simp: toggleFolder_def set_include_all list_all_iff neq_Nil_conv)

section \<open>Keys\<close>

lemma index_of_diff_Some: "index_of_diff ds d = Some i \<Longrightarrow> i < length ds \<and> ds ! i = d"
  by (auto simp: index_of_diff_def find_Some_iff split: option.splits)

lemma include_all_selected [simp]: "rv_selected (include_all c files rv) = rv_selected rv"
  by (simp add: include_all_def)

lemma onDialogKey_in_range:
  assumes "onDialogKey changed saving e rv = (rv', out)" "rv_selected rv < length changed"
  shows "rv_selected rv' < length changed"
  using assms
  by (auto simp: onDialogKey_def Let_def select_shown_def toggleAll_def toggle_file_def
      split: if_splits option.splits dest: index_of_diff_Some)

lemma onDialogKey_confirms:
  assumes "onDialogKey changed saving e rv = (rv', Some skip)"
  shows "rv' = rv \<and> rv_include rv \<noteq> [] \<and> \<not> saving \<and> skip = ignoreList changed rv"
  using assms by (auto simp: onDialogKey_def Let_def split: if_splits)

text \<open>Confirming an untouched review saves everything.\<close>

lemma untouched_review_saves_all:
  assumes "onDialogKey changed saving e (open_review changed) = (rv', Some skip)"
  shows "performSave t api skip a = performSave t api [] a"
  using onDialogKey_confirms [OF assms] by (simp add: ignoreList_fresh)

lemma escape_key_never_closes: "rv_include (escape_key rv) = rv_include rv \<and> rv_query (escape_key rv) = ''''"
  by (simp add: escape_key_def)

section \<open>The quick validation\<close>

lemma chip_and_detail:
  "check_chip c = Good_chip \<Longrightarrow> check_detail c = None"
  "check_chip c = Issues_chip n \<Longrightarrow> \<exists>res. c = Done_c res \<and> check_detail c = Some (None, vr_diagnostics res) \<and> length (vr_diagnostics res) = n"
  "check_chip c = Failed_chip \<Longrightarrow> \<exists>res. c = Done_c res \<and> check_detail c = Some (vr_error res, [])"
  by (auto simp: check_chip_def check_detail_def truthy_def Let_def split: check.splits if_splits)

text \<open>An unreachable database leaves the chip alone: its error is not in the detail.\<close>

lemma offline_no_detail: "\<not> vr_db_reachable res \<Longrightarrow> check_detail (Done_c res) = None"
  by (simp add: check_detail_def truthy_def)

text \<open>Folders are told apart by their shortened path: two folders below the same root that both
  elide share a header, and its check box takes the files of both.\<close>

definition new_file_at :: "string \<Rightarrow> op_diff" where
  "new_file_at p =
     \<lparr>d_op = D_write, d_path = p, d_from = None, d_current = '''', d_next = ''x'', d_changed = True, d_warning = None\<rparr>"

lemma elided_folders_merge:
  "map fst (folder_groups ''~''
     [new_file_at ''dev/customers/orders-and-returns/a.schema.yml'', new_file_at ''dev/customers/zones-and-areas/b.schema.yml'']) =
   [''dev/~'']"
  by code_simp

end
