(* ===== verification/New_Index.thy ===== *)
theory New_Index
  imports Design_Store
begin

text \<open>
  The wizard for a new index (\<^verbatim>\<open>App.tsx\<close>: \<open>NewIndex\<close>): its fields, the path they make, and the
  creation, which goes to the store's \<open>createIndex\<close>.
\<close>

record wizard =
  wz_open :: bool
  wz_step :: nat
  wz_name :: string
  wz_table :: string
  wz_dir :: string
  wz_base :: string
  wz_baseEdited :: bool
  wz_override :: bool
  wz_overrideName :: string

definition SUFFIX :: string where
  "SUFFIX = ''.schema.yml''"

definition first_table :: "string list \<Rightarrow> string" where
  "first_table tables = (case tables of [] \<Rightarrow> '''' | t # _ \<Rightarrow> t)"

definition init_wizard :: "string list \<Rightarrow> wizard" where
  "init_wizard tables =
     \<lparr>wz_open = False, wz_step = 0, wz_name = '''', wz_table = first_table tables, wz_dir = '''', wz_base = '''',
      wz_baseEdited = False, wz_override = False, wz_overrideName = ''''\<rparr>"

definition effectiveBase :: "wizard \<Rightarrow> string" where
  "effectiveBase w = trim (if wz_baseEdited w then wz_base w else wz_name w)"

definition effectiveFile :: "wizard \<Rightarrow> string" where
  "effectiveFile w =
     (if wz_override w then trim (wz_overrideName w)
      else if effectiveBase w \<noteq> '''' then effectiveBase w @ SUFFIX else '''')"

definition is_slash :: "char \<Rightarrow> bool" where
  "is_slash c \<longleftrightarrow> c = CHR ''/''"

definition cleanDir :: "wizard \<Rightarrow> string" where
  "cleanDir w = rev (dropWhile is_slash (rev (dropWhile is_slash (wz_dir w))))"

definition effectivePath :: "wizard \<Rightarrow> string" where
  "effectivePath w =
     (if cleanDir w \<noteq> '''' \<and> effectiveFile w \<noteq> '''' then cleanDir w @ ''/'' @ effectiveFile w
      else effectiveFile w)"

definition detailsOk :: "wizard \<Rightarrow> bool" where
  "detailsOk w \<longleftrightarrow> wz_name w \<noteq> '''' \<and> wz_table w \<noteq> ''''"

definition reset_wizard :: "string list \<Rightarrow> wizard \<Rightarrow> wizard" where
  "reset_wizard tables w =
     w\<lparr>wz_open := False, wz_step := 0, wz_name := '''', wz_table := first_table tables, wz_dir := '''',
       wz_base := '''', wz_baseEdited := False, wz_override := False, wz_overrideName := ''''\<rparr>"

definition create :: "string \<Rightarrow> string list \<Rightarrow> wizard \<times> design_state \<Rightarrow> wizard \<times> design_state" where
  "create newId tables st =
     (case st of (w, s) \<Rightarrow>
        if \<not> detailsOk w \<or> effectivePath w = '''' then (w, s)
        else (reset_wizard tables w, createIndex newId (wz_name w) (wz_table w) (effectivePath w) s))"

text \<open>Opening by the button defaults the table; Enter goes on, outside pickers and buttons.\<close>

definition open_wizard :: "string list \<Rightarrow> wizard \<Rightarrow> wizard" where
  "open_wizard tables w =
     w\<lparr>wz_table := (if wz_table w = '''' \<and> first_table tables \<noteq> '''' then first_table tables else wz_table w),
       wz_open := True\<rparr>"

definition wizard_enter ::
  "string \<Rightarrow> string list \<Rightarrow> bool \<Rightarrow> wizard \<times> design_state \<Rightarrow> wizard \<times> design_state" where
  "wizard_enter newId tables inPicker st =
     (case st of (w, s) \<Rightarrow>
        if inPicker then (w, s)
        else if wz_step w = 0 \<and> detailsOk w then (w\<lparr>wz_step := 1\<rparr>, s)
        else if wz_step w = 1 then create newId tables (w, s)
        else (w, s))"

definition type_base :: "string \<Rightarrow> wizard \<Rightarrow> wizard" where
  "type_base s w = w\<lparr>wz_baseEdited := True, wz_base := s\<rparr>"

definition start_override :: "wizard \<Rightarrow> wizard" where
  "start_override w = w\<lparr>wz_overrideName := effectiveFile w, wz_override := True\<rparr>"

definition back_button :: "string list \<Rightarrow> wizard \<Rightarrow> wizard" where
  "back_button tables w = (if wz_step w = 0 then reset_wizard tables w else w\<lparr>wz_step := 0\<rparr>)"

section \<open>The path\<close>

text \<open>Overriding starts from the file shown, so it changes nothing by itself.\<close>

lemma trim_idem: "trim (trim s) = trim s"
proof -
  have tw: "dropWhile is_space (rev (dropWhile is_space (rev u))) = rev (dropWhile is_space (rev u))"
    if "dropWhile is_space u = u" for u
  proof (cases "dropWhile is_space (rev u)")
    case (Cons a x)
    obtain p where "rev u = p @ a # x" using Cons by (metis takeWhile_dropWhile_id)
    then have u: "u = (rev x @ [a]) @ rev p" by (metis rev_append rev_rev_ident rev.simps(2) append.assoc)
    have "\<not> is_space (hd u)" using that u by (metis append_is_Nil_conv hd_dropWhile list.distinct(1) rev_is_Nil_conv)
    then have "\<not> is_space (hd (rev x @ [a]))" using u by (cases "rev x") auto
    then show ?thesis using Cons by (cases "rev x") auto
  next
    case Nil
    show ?thesis by (simp only: Nil rev.simps(1) dropWhile.simps(1))
  qed
  have "dropWhile is_space (dropWhile is_space s) = dropWhile is_space s" by simp
  then show ?thesis using tw [of "dropWhile is_space s"] by (simp add: trim_def)
qed

lemma trim_empty: "trim s = '''' \<longleftrightarrow> (\<forall>c \<in> set s. is_space c)"
proof
  assume "trim s = ''''"
  then have "\<forall>c \<in> set (dropWhile is_space s). is_space c" by (auto simp: trim_def dropWhile_eq_Nil_conv)
  then show "\<forall>c \<in> set s. is_space c"
    by (metis hd_dropWhile hd_in_set dropWhile_eq_Nil_conv)
qed (auto simp: trim_def dropWhile_eq_Nil_conv dest: set_dropWhileD)

lemma start_override_file: "effectiveFile (start_override w) = (if wz_override w then effectiveFile w else trim (effectiveFile w))"
  by (simp add: start_override_def effectiveFile_def effectiveBase_def trim_idem)

lemma trim_keeps_end:
  assumes s: "trim s = s" "s \<noteq> ''''" and t: "t \<noteq> ''''" "\<not> is_space (last t)"
  shows "trim (s @ t) = s @ t"
proof -
  have "\<not> is_space (hd s)"
  proof
    assume "is_space (hd s)"
    then have "length (dropWhile is_space s) < length s" using s(2) by (cases s) (auto simp: le_imp_less_Suc length_dropWhile_le)
    moreover have "length (trim s) \<le> length (dropWhile is_space s)"
      unfolding trim_def by (metis length_dropWhile_le length_rev)
    ultimately show False using s(1) by simp
  qed
  then have "dropWhile is_space (s @ t) = s @ t" using s(2) by (cases s) auto
  moreover have "dropWhile is_space (rev (s @ t)) = rev (s @ t)"
    using t by (cases t rule: rev_cases) auto
  ultimately show ?thesis by (simp add: trim_def)
qed

lemma effectiveFile_trimmed: "trim (effectiveFile w) = effectiveFile w"
proof (cases "wz_override w \<or> effectiveBase w = ''''")
  case True
  then show ?thesis by (auto simp: effectiveFile_def trim_idem) (simp add: trim_def)
next
  case False
  have "trim (effectiveBase w @ SUFFIX) = effectiveBase w @ SUFFIX"
  proof (rule trim_keeps_end)
    show "trim (effectiveBase w) = effectiveBase w" by (simp add: effectiveBase_def trim_idem)
    show "\<not> is_space (last SUFFIX)" by (simp add: SUFFIX_def is_space_def code_unit_def)
  qed (use False in \<open>simp_all add: SUFFIX_def\<close>)
  then show ?thesis using False by (simp add: effectiveFile_def)
qed

text \<open>Overriding starts from the file the dialog shows, so it changes nothing by itself.\<close>

lemma start_override_path: "effectivePath (start_override w) = effectivePath w"
proof -
  have "effectiveFile (start_override w) = effectiveFile w"
    by (simp add: start_override_file effectiveFile_trimmed)
  moreover have "cleanDir (start_override w) = cleanDir w" by (simp add: cleanDir_def start_override_def)
  ultimately show ?thesis by (simp only: effectivePath_def)
qed

section \<open>Creating\<close>

lemma effectivePath_not_blank: "effectivePath w \<noteq> '''' \<Longrightarrow> trim (effectivePath w) \<noteq> ''''"
proof -
  assume "effectivePath w \<noteq> ''''"
  then have "trim (effectiveFile w) \<noteq> ''''"
    by (auto simp: effectivePath_def effectiveFile_trimmed split: if_splits)
  then show ?thesis by (auto simp: trim_empty effectivePath_def)
qed

text \<open>
  Creating adds one entry at the end, whose file is the path shown; with the fields untouched but
  for the name it is the name's own default.
\<close>

lemma create_adds:
  assumes "detailsOk w" "effectivePath w \<noteq> ''''" and d: "ds_doc s = Some d"
  shows "\<exists>d' e. ds_doc (snd (create newId tables (w, s))) = Some d' \<and>
    entries_of (doc_config d') = entries_of (doc_config d) @ [e] \<and> e_name e = wz_name w \<and>
    e_schema e = trim (effectivePath w) \<and> ds_active (snd (create newId tables (w, s))) = wz_name w \<and>
    \<not> wz_open (fst (create newId tables (w, s)))"
  using assms effectivePath_not_blank [OF assms(2)]
  by (simp add: create_def createIndex_def Let_def entries_of_def reset_wizard_def)

lemma plain_name_path:
  assumes "trim n = n" "n \<noteq> ''''"
  shows "effectivePath ((init_wizard tables)\<lparr>wz_name := n\<rparr>) = default_path n"
  using assms by (simp add: effectivePath_def cleanDir_def init_wizard_def effectiveFile_def effectiveBase_def
    SUFFIX_def default_path_def)

text \<open>A name of blanks passes the first step and then creates nothing, silently.\<close>

lemma blank_name_stuck:
  assumes "\<forall>c \<in> set (wz_name w). is_space c" "\<not> wz_baseEdited w" "\<not> wz_override w"
  shows "create newId tables (w, s) = (w, s)"
  using assms trim_empty [of "wz_name w"]
  by (simp add: create_def effectivePath_def effectiveFile_def effectiveBase_def)

end
