(* ===== verification/Node_View.thy ===== *)
theory Node_View
  imports Design_Store Relations Preview_Prune
begin

text \<open>
  \<^verbatim>\<open>components/DocNodeView.tsx\<close>: one node of the canvas with its rows. The handlers act on the
  design store; an edit that throws is the handler's throw. The rows' filter, the anchor of a
  range and the rename draft are the component's own state and arguments here.
\<close>

section \<open>Rows\<close>

definition row_matches :: "string \<Rightarrow> string \<Rightarrow> bool" where
  "row_matches flt name \<longleftrightarrow> includes_str (to_lower flt) (to_lower name)"

definition is_scalar_leaf :: "leaf_field \<Rightarrow> bool" where
  "is_scalar_leaf l \<longleftrightarrow> lf_column l \<noteq> None \<and> lf_column l \<noteq> Some '''' \<and> lf_kind l \<in> set SCALAR_NAMES"

text \<open>\<open>includedByCol\<close>: the last leaf of a column is the one its row shows.\<close>

definition included_leaf :: "doc_node \<Rightarrow> string \<Rightarrow> leaf_field option" where
  "included_leaf node c = find (\<lambda>l. is_scalar_leaf l \<and> lf_column l = Some c) (rev (n_leaves node))"

definition includedCount :: "column_shape list \<Rightarrow> doc_node \<Rightarrow> nat" where
  "includedCount cols node = length (filter (\<lambda>c. included_leaf node (cs_name c) \<noteq> None) cols)"

definition allIncluded :: "column_shape list \<Rightarrow> doc_node \<Rightarrow> bool" where
  "allIncluded cols node \<longleftrightarrow> length cols > 0 \<and> includedCount cols node = length cols"

definition extraLeaves :: "column_shape list \<Rightarrow> doc_node \<Rightarrow> leaf_field list" where
  "extraLeaves cols node =
     filter (\<lambda>l. \<not> (is_scalar_leaf l \<and> (\<exists>c \<in> set cols. lf_column l = Some (cs_name c)))) (n_leaves node)"

definition visibleCols :: "string \<Rightarrow> column_shape list \<Rightarrow> column_shape list" where
  "visibleCols flt cols = filter (\<lambda>c. row_matches flt (cs_name c)) cols"

definition visibleLeaves :: "string \<Rightarrow> column_shape list \<Rightarrow> doc_node \<Rightarrow> leaf_field list" where
  "visibleLeaves flt cols node = filter (\<lambda>l. row_matches flt (lf_name l)) (extraLeaves cols node)"

definition rowOrder :: "string \<Rightarrow> column_shape list \<Rightarrow> doc_node \<Rightarrow> string list" where
  "rowOrder flt cols node = map cs_name (visibleCols flt cols) @ map lf_name (visibleLeaves flt cols node)"

definition nodeIssues :: "diagnostic list \<Rightarrow> doc_node \<Rightarrow> nat" where
  "nodeIssues ds node = length (filter (\<lambda>l. lf_name l \<in> dg_field ` set ds) (n_leaves node))"

section \<open>Selecting rows\<close>

definition fieldSelected :: "selection option \<Rightarrow> doc_node \<Rightarrow> nat \<Rightarrow> bool" where
  "fieldSelected sel node index \<longleftrightarrow> sel = Some (Field_sel (n_path node) index)"

definition rowsSelected :: "selection option \<Rightarrow> doc_node \<Rightarrow> string list" where
  "rowsSelected sel node =
     (case sel of Some (Columns_sel path names) \<Rightarrow> if path = n_path node then names else [] | _ \<Rightarrow> [])"

record click =
  ck_shift :: bool
  ck_modkey :: bool

definition list_index :: "string list \<Rightarrow> string \<Rightarrow> nat option" where
  "list_index xs x = find (\<lambda>i. xs ! i = x) [0..<length xs]"

definition row_range :: "string list \<Rightarrow> string option \<Rightarrow> string \<Rightarrow> string list option" where
  "row_range order anchor name =
     (case anchor of
        None \<Rightarrow> None
      | Some x \<Rightarrow>
          if x = '''' then None
          else (case (list_index order x, list_index order name) of
                  (Some a, Some b) \<Rightarrow> Some (take (max a b + 1 - min a b) (drop (min a b) order))
                | _ \<Rightarrow> None))"

text \<open>The new selection and anchor.\<close>

definition selectRow ::
  "doc_node \<Rightarrow> string list \<Rightarrow> selection option \<Rightarrow> string option \<Rightarrow> string \<Rightarrow> click \<Rightarrow> nat option \<Rightarrow>
     selection \<times> string option" where
  "selectRow node order sel anchor name e fieldIndex =
     (case (if ck_shift e then row_range order anchor name else None) of
        Some names \<Rightarrow> (Columns_sel (n_path node) names, anchor)
      | None \<Rightarrow>
          if ck_modkey e then
            (let rows = rowsSelected sel node;
                 s = js_set (if rows \<noteq> [] then rows
                             else case anchor of Some x \<Rightarrow> if x \<noteq> '''' then [x] else [] | None \<Rightarrow> []);
                 s' = (if name \<in> set s then set_delete name s else set_add name s)
             in (Columns_sel (n_path node) s', Some name))
          else
            ((case fieldIndex of Some i \<Rightarrow> Field_sel (n_path node) i | None \<Rightarrow> Columns_sel (n_path node) [name]),
             Some name))"

section \<open>Editing\<close>

definition apply_select ::
  "(index_schema \<Rightarrow> index_schema res) \<Rightarrow> (selection option \<Rightarrow> selection option) \<Rightarrow> design_state \<Rightarrow> design_state res" where
  "apply_select fn f s = map_res (\<lambda>s'. setSelection (f (ds_selection s)) s') (apply_edit fn s)"

definition commitRename :: "doc_node \<Rightarrow> string \<Rightarrow> design_state \<Rightarrow> design_state res" where
  "commitRename node draft s =
     (let name = trim draft in
      if name = '''' \<or> Some name = n_name node then Inr s
      else apply_edit (\<lambda>sc. case fieldAtPath sc (n_path node) of
                              None \<Rightarrow> Inr sc
                            | Some (Field _ opts src) \<Rightarrow> setNode sc (n_path node) (Field name opts src)) s)"

definition pickRootTable :: "catalog_response option \<Rightarrow> string \<Rightarrow> design_state \<Rightarrow> design_state res" where
  "pickRootTable catalog t s =
     (if t = '''' then Inr s
      else apply_edit (\<lambda>sc. Inr (setRootMeta sc
             \<lparr>rp_table = Some t, rp_db_schema = None, rp_primary_key = Some (table_pk catalog t)\<rparr>)) s)"

definition suggested_or_keyword :: "column_shape \<Rightarrow> flusso_type" where
  "suggested_or_keyword c = (case cs_suggested_type c of Some t \<Rightarrow> t | None \<Rightarrow> Scalar Keyword_t)"

definition includeColumn :: "doc_node \<Rightarrow> nat \<Rightarrow> column_shape \<Rightarrow> design_state \<Rightarrow> design_state res" where
  "includeColumn node n c =
     apply_select (\<lambda>sc. toggleColumn sc (n_path node) (cs_name c) True (suggested_or_keyword c) (cs_nullable c))
       (\<lambda>_. Some (Field_sel (n_path node) n))"

definition excludeColumn :: "doc_node \<Rightarrow> column_shape \<Rightarrow> leaf_field \<Rightarrow> design_state \<Rightarrow> design_state res" where
  "excludeColumn node c inc =
     apply_select (\<lambda>sc. toggleColumn sc (n_path node) (cs_name c) False (Scalar Keyword_t) True)
       (\<lambda>sel. if fieldSelected sel node (lf_index inc) then None else sel)"

definition removeLeaf :: "doc_node \<Rightarrow> leaf_field \<Rightarrow> design_state \<Rightarrow> design_state res" where
  "removeLeaf node l = apply_edit (\<lambda>sc. removeAt sc (n_path node) (lf_index l))"

definition removeThis :: "doc_node \<Rightarrow> design_state \<Rightarrow> design_state res" where
  "removeThis node = apply_select (\<lambda>sc. removeNode sc (n_path node)) (\<lambda>_. None)"

definition column_spec_of :: "column_shape \<Rightarrow> column_spec" where
  "column_spec_of c = \<lparr>cp_name = cs_name c, cp_ty = cs_suggested_type c, cp_nullable = Some (cs_nullable c)\<rparr>"

definition toggleAllColumns :: "column_shape list \<Rightarrow> doc_node \<Rightarrow> design_state \<Rightarrow> design_state res" where
  "toggleAllColumns cols node =
     apply_edit (\<lambda>sc. if allIncluded cols node then clearColumns sc (n_path node)
                      else includeColumns sc (n_path node) (map column_spec_of cols))"

definition pickSpecial :: "doc_node \<Rightarrow> nat \<Rightarrow> string \<Rightarrow> design_state \<Rightarrow> design_state res" where
  "pickSpecial node n kind =
     apply_select (\<lambda>sc. addSpecial sc (n_path node) kind) (\<lambda>_. Some (Field_sel (n_path node) n))"

definition pickRelation :: "doc_node \<Rightarrow> suggestion \<Rightarrow> design_state \<Rightarrow> design_state res" where
  "pickRelation node sg = apply_edit (\<lambda>sc. addField sc (n_path node) (su_build sg))"

definition manualColumn :: "doc_node \<Rightarrow> string \<Rightarrow> design_state \<Rightarrow> design_state res" where
  "manualColumn node name s =
     (if trim name = '''' then Inr s
      else apply_edit (\<lambda>sc. toggleColumn sc (n_path node) (trim name) True (Scalar Keyword_t) True) s)"

definition REL_VERB_ORDER :: "verb list" where
  "REL_VERB_ORDER = [Belongs_to_v, Has_many_v, Many_to_many_v]"

definition relation_sections :: "suggestion list \<Rightarrow> (verb \<times> suggestion list) list" where
  "relation_sections suggestions =
     filter (\<lambda>(v, es). length es > 0)
       (map (\<lambda>v. (v, filter (\<lambda>s. su_verb s = v) suggestions)) REL_VERB_ORDER)"

definition typeLabel :: "flusso_type option \<Rightarrow> string" where
  "typeLabel ty =
     (case ty of None \<Rightarrow> '''' | Some (Scalar t) \<Rightarrow> scalar_name t | Some (Map_t _) \<Rightarrow> ''map''
      | Some (Custom_t _ _) \<Rightarrow> ''custom'')"

section \<open>A range and a toggle\<close>

lemma find_upt_index:
  assumes "i < length xs" "xs ! i = x" "\<forall>j < i. xs ! j \<noteq> x"
  shows "list_index xs x = Some i"
proof -
  have "[0..<length xs] = [0..<i] @ i # [Suc i..<length xs]"
    using assms(1) by (metis upt_add_eq_append upt_conv_Cons le_add_diff_inverse less_imp_le zero_le)
  moreover have "find P (us @ i # vs) = Some i" if "\<forall>u \<in> set us. \<not> P u" "P i" for P and us vs :: "nat list"
    using that by (induction us) auto
  ultimately show ?thesis
    using assms(2,3) by (simp add: list_index_def)
qed

lemma list_index_Some: "list_index xs x = Some i \<Longrightarrow> i < length xs \<and> xs ! i = x"
  by (auto simp: list_index_def find_Some_iff)

lemma list_index_None: "list_index xs x = None \<longleftrightarrow> x \<notin> set xs"
  by (auto simp: list_index_def find_None_iff in_set_conv_nth)

text \<open>A range is a stretch of the rows as shown; it holds both of its ends.\<close>

lemma row_range_contiguous:
  assumes "row_range order (Some x) name = Some names"
  shows "\<exists>before after. order = before @ names @ after" and "x \<in> set names" "name \<in> set names"
proof -
  obtain a b where ab: "list_index order x = Some a" "list_index order name = Some b"
      "names = take (max a b + 1 - min a b) (drop (min a b) order)"
    using assms by (auto simp: row_range_def split: if_splits option.splits)
  let ?lo = "min a b" and ?n = "max a b + 1 - min a b"
  have lt: "a < length order" "b < length order" and at: "order ! a = x" "order ! b = name"
    using ab list_index_Some by fastforce+
  show "\<exists>before after. order = before @ names @ after"
    unfolding ab(3) by (metis append_take_drop_id)
  have nth: "names ! (k - ?lo) = order ! k \<and> k - ?lo < length names" if "?lo \<le> k" "k \<le> max a b" for k
    using that lt unfolding ab(3) by auto
  show "x \<in> set names" using nth [of a] at by (metis nth_mem min.cobounded1 max.cobounded1)
  show "name \<in> set names" using nth [of b] at by (metis nth_mem min.cobounded2 max.cobounded2)
qed

lemma row_range_exists:
  assumes "x \<noteq> ''''" "x \<in> set order" "name \<in> set order"
  shows "\<exists>names. row_range order (Some x) name = Some names"
  using assms list_index_None [of order x] list_index_None [of order name] by (auto simp: row_range_def)

text \<open>A second click with the modifier takes the row out again.\<close>

lemma modified_click_twice:
  assumes e: "\<not> ck_shift e" "ck_modkey e" and rows: "rowsSelected sel node = r # rs" "distinct (r # rs)" "name \<notin> set (r # rs)"
    and one: "selectRow node order sel anchor name e i = (sel1, anchor1)"
    and two: "selectRow node order (Some sel1) anchor1 name e i = (sel2, anchor2)"
  shows "sel2 = Columns_sel (n_path node) (r # rs)"
proof -
  have set1: "js_set (r # rs) = r # rs" using rows(2) by (rule js_set_distinct)
  have "sel1 = Columns_sel (n_path node) (set_add name (r # rs))"
    using one e rows(1,3) set1 by (auto simp: selectRow_def Let_def)
  then have "sel1 = Columns_sel (n_path node) ((r # rs) @ [name])" using rows(3) by (simp add: set_add_def)
  moreover have "js_set ((r # rs) @ [name]) = (r # rs) @ [name]" using rows(2,3) by (intro js_set_distinct) auto
  moreover have "set_delete name ((r # rs) @ [name]) = r # rs"
    using rows(3) by (auto simp: set_delete_def filter_id_conv)
  ultimately show ?thesis using two e by (simp add: selectRow_def rowsSelected_def Let_def split: prod.splits)
qed

section \<open>Including, excluding, removing\<close>

lemma apply_select_sel:
  assumes "apply_select fn f s = Inr s'"
  shows "ds_selection s' = f (ds_selection s)"
  using assms by (auto simp: apply_select_def map_res_def setSelection_def split: sum.splits)

text \<open>
  A column included from the row is the node's last field, and the selection points at it.
\<close>

lemma includeColumn_selects:
  assumes live: "live_path sc (n_path node)"
  shows "\<exists>sc'. toggleColumn sc (n_path node) (cs_name c) True (suggested_or_keyword c) (cs_nullable c) = Inr sc' \<and>
    nodeFields sc' (n_path node) ! length (nodeFields sc (n_path node)) =
      column_field (cs_name c) (suggested_or_keyword c) (cs_nullable c) \<and>
    length (nodeFields sc' (n_path node)) = Suc (length (nodeFields sc (n_path node)))"
  using edit_node_total [OF live, of "\<lambda>fs. fs @ [column_field (cs_name c) (suggested_or_keyword c) (cs_nullable c)]"]
  by (auto simp: toggleColumn_def)

text \<open>The new field takes the column's name, whatever the node already holds.\<close>

lemma includeColumn_same_name:
  assumes live: "live_path sc (n_path node)" and taken: "cs_name c \<in> set (map f_field (nodeFields sc (n_path node)))"
    and add: "toggleColumn sc (n_path node) (cs_name c) True (suggested_or_keyword c) (cs_nullable c) = Inr sc'"
  shows "\<not> distinct (map f_field (nodeFields sc' (n_path node)))"
proof -
  have "nodeFields sc' (n_path node) =
      nodeFields sc (n_path node) @ [column_field (cs_name c) (suggested_or_keyword c) (cs_nullable c)]"
    using edit_node_total [OF live, of "\<lambda>fs. fs @ [column_field (cs_name c) (suggested_or_keyword c) (cs_nullable c)]"] add
    by (auto simp: toggleColumn_def)
  then show ?thesis using taken by (simp add: column_field_def)
qed

text \<open>
  Removing a leaf keeps the selection: a selected field behind it is then the one after it.
\<close>

lemma removeLeaf_shifts:
  assumes live: "live_path sc (n_path node)" and le: "lf_index l \<le> i" "Suc i < length (nodeFields sc (n_path node))"
  shows "\<exists>sc'. removeAt sc (n_path node) (lf_index l) = Inr sc' \<and>
    nodeFields sc' (n_path node) ! i = nodeFields sc (n_path node) ! Suc i"
proof -
  obtain sc' where "edit_node sc (n_path node) (without_index (lf_index l)) = Inr sc'"
      "nodeFields sc' (n_path node) = without_index (lf_index l) (nodeFields sc (n_path node))"
    using edit_node_total [OF live] by metis
  moreover have "without_index (lf_index l) fs ! i = fs ! Suc i" if "lf_index l \<le> i" "Suc i < length fs" for fs :: "field list"
    using that by (simp add: without_index_take_drop nth_append min_def)
  ultimately show ?thesis using le by (auto simp: removeAt_def)
qed

section \<open>Suggestions by verb\<close>

lemma relation_sections_mem:
  assumes "su_verb s \<in> set REL_VERB_ORDER" "s \<in> set ss"
  shows "\<exists>es. (su_verb s, es) \<in> set (relation_sections ss) \<and> s \<in> set es"
proof -
  let ?es = "filter (\<lambda>x. su_verb x = su_verb s) ss"
  have "s \<in> set ?es" using assms(2) by simp
  moreover from this have "length ?es > 0" by (metis length_pos_if_in_set)
  then have "(su_verb s, ?es) \<in> set (relation_sections ss)"
    unfolding relation_sections_def set_filter set_map using assms(1) by blast
  ultimately show ?thesis by blast
qed

text \<open>The menu loses no suggestion of a catalog: each is in the section of its verb.\<close>

lemma relation_sections_complete:
  assumes "s \<in> set (suggestRelations catalog table)"
  shows "\<exists>es. (su_verb s, es) \<in> set (relation_sections (suggestRelations catalog table)) \<and> s \<in> set es"
proof -
  have "su_verb s \<in> set REL_VERB_ORDER"
    using suggestion_verb [OF assms] by (cases "su_verb s") (auto simp: REL_VERB_ORDER_def)
  then show ?thesis using assms by (intro relation_sections_mem)
qed

lemma relation_sections_sound:
  assumes "(v, es) \<in> set (relation_sections ss)"
  shows "es \<noteq> [] \<and> set es \<subseteq> set ss \<and> (\<forall>s \<in> set es. su_verb s = v)"
  using assms by (auto simp: relation_sections_def)

end
