(* ===== verification/Canvas_View.thy ===== *)
theory Canvas_View
  imports Design_Store Relations Layout Theme
begin

text \<open>
  \<^verbatim>\<open>components/Canvas.tsx\<close>: the canvas as a state of placed nodes with the effects and handlers
  on it. React Flow is outside: it measures the nodes (\<open>vn_measured\<close>) and moves the viewport; what
  the code asks of it is a \<open>flow_request\<close>.
\<close>

section \<open>State\<close>

record view_node =
  vn_node :: doc_node
  vn_position :: point
  vn_measured :: "rat option"

record view_edge =
  ve_id :: string
  ve_source :: string
  ve_target :: string
  ve_label :: string
  ve_stroke :: string

record canvas =
  cv_nodes :: "view_node list"
  cv_edges :: "view_edge list"
  cv_showMap :: bool
  cv_locked :: bool
  cv_laidOut :: string
  cv_appliedFor :: "string option"

datatype flow_request = Set_viewport js | Fit_view | Fit_node string

definition init_canvas :: "string \<Rightarrow> storage \<Rightarrow> canvas" where
  "init_canvas indexName st =
     \<lparr>cv_nodes = [], cv_edges = [], cv_showMap = loadMinimap indexName st, cv_locked = False,
      cv_laidOut = '''', cv_appliedFor = None\<rparr>"

definition switch_map :: "string \<Rightarrow> storage \<Rightarrow> canvas \<Rightarrow> canvas" where
  "switch_map indexName st c = c\<lparr>cv_showMap := loadMinimap indexName st\<rparr>"

definition toggleMap :: "string \<Rightarrow> canvas \<Rightarrow> storage \<Rightarrow> canvas \<times> storage" where
  "toggleMap indexName c st =
     (c\<lparr>cv_showMap := \<not> cv_showMap c\<rparr>, saveMinimap indexName (\<not> cv_showMap c) st)"

section \<open>Heights and positions\<close>

definition table_columns :: "catalog_response option \<Rightarrow> string \<Rightarrow> column_shape list" where
  "table_columns catalog table =
     (case catalog of None \<Rightarrow> []
      | Some c \<Rightarrow> (case find_table c table of None \<Rightarrow> [] | Some t \<Rightarrow> t_columns t))"

definition is_special :: "string list \<Rightarrow> leaf_field \<Rightarrow> bool" where
  "is_special catalogNames l \<longleftrightarrow>
     \<not> (lf_kind l \<in> set SCALAR_NAMES \<and>
        (case lf_column l of None \<Rightarrow> False | Some c \<Rightarrow> c \<noteq> '''' \<and> c \<in> set catalogNames))"

definition estimateHeight :: "catalog_response option \<Rightarrow> doc_node \<Rightarrow> rat" where
  "estimateHeight catalog n =
     (let tableCols = table_columns catalog (n_table n);
          special = length (filter (is_special (map cs_name tableCols)) (n_leaves n));
          rows = (if length tableCols \<noteq> 0 then length tableCols else length (n_leaves n)) + special;
          colsH = min (of_nat rows * 36 + 12) 280;
          hasSuggestions = (case catalog of None \<Rightarrow> False | Some c \<Rightarrow> length (suggestRelations c (n_table n)) > 0);
          footerH = 76 + (if hasSuggestions then 34 else 0)
      in 64 + colsH + footerH)"

text \<open>
  \<open>overrides[n.id]\<close> on the parsed value: reading from null throws, and a value that is no table of
  points would be handed to React Flow as it is, which is outside the model.
\<close>

definition override_at :: "js \<Rightarrow> string \<Rightarrow> point option res" where
  "override_at overrides i =
     (case overrides of
        JNull \<Rightarrow> Inl TypeError
      | JObj es \<Rightarrow>
          (case obj_get es i of
             None \<Rightarrow> Inr None
           | Some JNull \<Rightarrow> Inr None
           | Some (JObj p) \<Rightarrow>
               (case (obj_get p ''x'', obj_get p ''y'') of
                  (Some (JNum (Fin x)), Some (JNum (Fin y))) \<Rightarrow> Inr (Some (x, y))
                | _ \<Rightarrow> Inl Unrepresentable)
           | _ \<Rightarrow> Inl Unrepresentable)
      | _ \<Rightarrow> Inl Unrepresentable)"

primrec first_of :: "'a option list \<Rightarrow> 'a \<Rightarrow> 'a" where
  "first_of [] d = d"
| "first_of (x # xs) d = (case x of Some y \<Rightarrow> y | None \<Rightarrow> first_of xs d)"

definition prev_position :: "view_node list \<Rightarrow> string \<Rightarrow> point option" where
  "prev_position prev i =
     map_option vn_position (find (\<lambda>v. n_id (vn_node v) = i) (rev prev))"

definition the_layout :: "positions option \<Rightarrow> positions res" where
  "the_layout p = (case p of Some q \<Rightarrow> Inr q | None \<Rightarrow> Inl Unrepresentable)"

section \<open>The schema on the canvas\<close>

definition project_node :: "js \<Rightarrow> view_node list \<Rightarrow> positions \<Rightarrow> doc_node \<Rightarrow> view_node res" where
  "project_node overrides prev auto n =
     map_res
       (\<lambda>ov. \<lparr>vn_node = n, vn_position = first_of [ov, prev_position prev (n_id n), obj_get auto (n_id n)] (0, 0),
              vn_measured = None\<rparr>)
       (override_at overrides (n_id n))"

definition project_edge :: "graph_edge \<Rightarrow> view_edge" where
  "project_edge e =
     \<lparr>ve_id = g_id e, ve_source = g_source e, ve_target = g_target e, ve_label = g_label e,
      ve_stroke = edgeColor (g_label e)\<rparr>"

definition project_effect ::
  "catalog_response option \<Rightarrow> string \<Rightarrow> index_schema \<Rightarrow> canvas \<times> design_state \<times> storage \<Rightarrow>
     (canvas \<times> design_state \<times> storage) res" where
  "project_effect catalog indexName schema x =
     (case x of (c, s, st) \<Rightarrow>
        (let g = projectGraph schema;
             ps = pruneCollapsed (map n_id (gr_nodes g)) s st
         in bind_res (the_layout (autoLayout (gr_nodes g) (estimateHeight catalog)))
              (\<lambda>auto. map_res
                 (\<lambda>vs. (c\<lparr>cv_nodes := vs, cv_edges := map project_edge (gr_edges g)\<rparr>, fst ps, snd ps))
                 (mapM_res (project_node (loadOverrides indexName (snd ps)) (cv_nodes c) auto) (gr_nodes g)))))"

section \<open>The layout from the measured heights\<close>

definition height_of :: "view_node \<Rightarrow> rat" where
  "height_of v = (case vn_measured v of Some h \<Rightarrow> h | None \<Rightarrow> 0)"

definition signature :: "string \<Rightarrow> view_node list \<Rightarrow> string" where
  "signature indexName vs =
     indexName @ ''|'' @
     join_with '','' (sort_by str_leq
       (map (\<lambda>v. n_id (vn_node v) @ '':'' @ show_int \<lfloor>height_of v + 1/2\<rfloor>) vs))"

definition measured_height :: "view_node list \<Rightarrow> doc_node \<Rightarrow> rat" where
  "measured_height vs dn =
     (case find (\<lambda>v. n_id (vn_node v) = n_id dn) (rev vs) of Some v \<Rightarrow> height_of v | None \<Rightarrow> 300)"

definition measured_layout :: "view_node list \<Rightarrow> positions res" where
  "measured_layout vs = the_layout (autoLayout (map vn_node vs) (measured_height vs))"

definition place_at :: "js \<Rightarrow> positions \<Rightarrow> view_node \<Rightarrow> view_node res" where
  "place_at overrides auto v =
     map_res (\<lambda>ov. v\<lparr>vn_position := first_of [ov, obj_get auto (n_id (vn_node v))] (vn_position v)\<rparr>)
       (override_at overrides (n_id (vn_node v)))"

definition relayout :: "string \<Rightarrow> storage \<Rightarrow> canvas \<Rightarrow> canvas res" where
  "relayout indexName st c =
     (if cv_nodes c = [] \<or> (\<exists>v \<in> set (cv_nodes c). height_of v = 0) then Inr c
      else if signature indexName (cv_nodes c) = cv_laidOut c then Inr c
      else bind_res (measured_layout (cv_nodes c))
             (\<lambda>auto. map_res
                (\<lambda>vs. c\<lparr>cv_laidOut := signature indexName (cv_nodes c), cv_nodes := vs\<rparr>)
                (mapM_res (place_at (loadOverrides indexName st) auto) (cv_nodes c))))"

definition resetLayout :: "string \<Rightarrow> canvas \<times> storage \<Rightarrow> (canvas \<times> storage) res" where
  "resetLayout indexName x =
     (case x of (c, st) \<Rightarrow>
        map_res
          (\<lambda>auto. (c\<lparr>cv_laidOut := '''',
                     cv_nodes := map (\<lambda>v. v\<lparr>vn_position := first_of [obj_get auto (n_id (vn_node v))] (vn_position v)\<rparr>)
                                   (cv_nodes c)\<rparr>,
                   clearOverrides indexName st))
          (measured_layout (cv_nodes c)))"

section \<open>Handlers\<close>

definition onNodeDragStop :: "string \<Rightarrow> view_node \<Rightarrow> storage \<Rightarrow> storage res" where
  "onNodeDragStop indexName v st =
     saveOverride indexName (n_id (vn_node v)) (fst (vn_position v)) (snd (vn_position v)) st"

definition onMoveEnd :: "string \<Rightarrow> viewport \<Rightarrow> storage \<Rightarrow> storage" where
  "onMoveEnd indexName vp st = saveViewport indexName vp st"

definition node_selection :: "doc_node \<Rightarrow> selection" where
  "node_selection dn = (if n_path dn \<noteq> [] then Node_sel (n_path dn) else Root_sel)"

definition onPaneClick :: "design_state \<Rightarrow> design_state" where
  "onPaneClick s = setSelection None s"

definition onEdgeClick :: "canvas \<Rightarrow> view_edge \<Rightarrow> design_state \<Rightarrow> design_state" where
  "onEdgeClick c edge s =
     (case find (\<lambda>v. n_id (vn_node v) = ve_target edge) (cv_nodes c) of
        None \<Rightarrow> s
      | Some v \<Rightarrow> setSelection (Some (node_selection (vn_node v))) s)"

definition allCollapsed :: "canvas \<Rightarrow> design_state \<Rightarrow> bool" where
  "allCollapsed c s \<longleftrightarrow> length (cv_nodes c) > 0 \<and> length (ds_collapsed s) \<ge> length (cv_nodes c)"

definition onCollapseToggle :: "canvas \<Rightarrow> design_state \<Rightarrow> storage \<Rightarrow> design_state \<times> storage" where
  "onCollapseToggle c s st = (if allCollapsed c s then expandAll s st else collapseAll s st)"

definition onToggleLock :: "canvas \<Rightarrow> canvas" where
  "onToggleLock c = c\<lparr>cv_locked := \<not> cv_locked c\<rparr>"

section \<open>The viewport and the focus\<close>

definition js_truthy_object :: "js \<Rightarrow> bool" where
  "js_truthy_object v \<longleftrightarrow>
     v \<noteq> JNull \<and> v \<noteq> JBool False \<and> v \<noteq> JNum (Fin 0) \<and> v \<noteq> JStr ''''"

definition restore_viewport :: "bool \<Rightarrow> string \<Rightarrow> storage \<Rightarrow> canvas \<Rightarrow> canvas \<times> flow_request option" where
  "restore_viewport ready index st c =
     (if \<not> ready \<or> cv_appliedFor c = Some index then (c, None)
      else (c\<lparr>cv_appliedFor := Some index\<rparr>,
            Some (if js_truthy_object (loadViewport index st) then Set_viewport (loadViewport index st)
                  else Fit_view)))"

definition focus_effect ::
  "string \<Rightarrow> canvas \<Rightarrow> design_state \<times> storage \<Rightarrow> (design_state \<times> storage) \<times> flow_request option" where
  "focus_effect indexName c x =
     (case x of (s, st) \<Rightarrow>
        (case ds_focus s of
           None \<Rightarrow> ((s, st), None)
         | Some (index, nodeId) \<Rightarrow>
             if index \<noteq> indexName then ((s, st), None)
             else if nodeId \<notin> set (map (\<lambda>v. n_id (vn_node v)) (cv_nodes c)) then ((s, st), None)
             else (case (if nodeId \<in> set (ds_collapsed s) then toggleCollapsed nodeId s st else (s, st)) of
                     (s', st') \<Rightarrow> ((clearFocus s', st'), Some (Fit_node nodeId)))))"

text \<open>
  On a change of the index the canvas's effect runs before the application's \<open>loadCollapsed\<close>: an
  effect of a child goes before its parent's.
\<close>

definition switch_effects ::
  "catalog_response option \<Rightarrow> string \<Rightarrow> index_schema \<Rightarrow> canvas \<times> design_state \<times> storage \<Rightarrow>
     (canvas \<times> design_state \<times> storage) res" where
  "switch_effects catalog indexName schema x =
     bind_res (project_effect catalog indexName schema x)
       (\<lambda>(c, s, st). map_res (\<lambda>(s', st'). (c, s', st')) (loadCollapsed indexName s st))"

section \<open>Where the nodes are\<close>

lemma estimateHeight_bounds: "152 \<le> estimateHeight catalog n" "estimateHeight catalog n \<le> 454"
  by (auto simp: estimateHeight_def Let_def)

lemma layout_of_graph:
  assumes "\<And>n. 0 \<le> h n"
  shows "\<exists>auto. the_layout (autoLayout (gr_nodes (projectGraph schema)) h) = Inr auto \<and>
    (\<forall>n \<in> set (gr_nodes (projectGraph schema)). \<exists>p. obj_get auto (n_id n) = Some p)"
  using layout_answers [of h schema] assms by (fastforce simp: the_layout_def)

text \<open>
  The canvas shows the nodes of the schema, each at its override, else where it was, else where
  the layout puts it; without a table of overrides nothing throws.
\<close>

lemma project_nodes:
  assumes "project_effect catalog indexName schema (c, s, st) = Inr (c', s', st')"
  shows "map vn_node (cv_nodes c') = gr_nodes (projectGraph schema)"
  using assms by (auto simp: project_effect_def Let_def project_node_def dest!: mapM_res_image [where g = vn_node and h = id])

lemma project_position:
  assumes run: "project_effect catalog indexName schema (c, s, st) = Inr (c', s', st')" and v: "v \<in> set (cv_nodes c')"
  shows "\<exists>ov. override_at (loadOverrides indexName st') (n_id (vn_node v)) = Inr ov \<and>
    (\<forall>p. ov = Some p \<longrightarrow> vn_position v = p) \<and>
    (\<forall>p. ov = None \<and> prev_position (cv_nodes c) (n_id (vn_node v)) = Some p \<longrightarrow> vn_position v = p)"
proof -
  obtain auto where "mapM_res (project_node (loadOverrides indexName st') (cv_nodes c) auto) (gr_nodes (projectGraph schema)) =
      Inr (cv_nodes c')"
    using run by (auto simp: project_effect_def Let_def) (metis snd_conv)
  from mapM_res_members [OF this] v obtain n where
    "project_node (loadOverrides indexName st') (cv_nodes c) auto n = Inr v" by blast
  then show ?thesis by (auto simp: project_node_def)
qed

lemma project_succeeds:
  assumes "\<And>i. override_at (loadOverrides indexName (snd (pruneCollapsed (live_ids schema) s st))) i = Inr None"
  shows "\<exists>c'. project_effect catalog indexName schema (c, s, st) =
      Inr (c', fst (pruneCollapsed (live_ids schema) s st), snd (pruneCollapsed (live_ids schema) s st)) \<and>
    (\<forall>v \<in> set (cv_nodes c'). prev_position (cv_nodes c) (n_id (vn_node v)) = None \<longrightarrow>
       fst (vn_position v) = of_nat (n_depth (vn_node v)) * COL_W)"
proof -
  let ?ns = "gr_nodes (projectGraph schema)" and ?h = "estimateHeight catalog"
  have h: "0 \<le> ?h n" for n using estimateHeight_bounds(1) [of catalog n] by linarith
  obtain auto where auto: "autoLayout ?ns ?h = Some auto"
      "\<forall>n \<in> set ?ns. \<exists>y. obj_get auto (n_id n) = Some (of_nat (n_depth n) * COL_W, y) \<and> 0 \<le> y"
    using layout_answers [of ?h schema] h by blast
  define g where "g n = \<lparr>vn_node = n, vn_position = first_of [prev_position (cv_nodes c) (n_id n), obj_get auto (n_id n)] (0, 0),
      vn_measured = None\<rparr>" for n
  have "mapM_res (project_node (loadOverrides indexName (snd (pruneCollapsed (live_ids schema) s st))) (cv_nodes c) auto) ?ns =
      Inr (map g ?ns)"
    by (rule mapM_res_all) (simp add: project_node_def assms g_def)
  then have "project_effect catalog indexName schema (c, s, st) =
      Inr (c\<lparr>cv_nodes := map g ?ns, cv_edges := map project_edge (gr_edges (projectGraph schema))\<rparr>,
        fst (pruneCollapsed (live_ids schema) s st), snd (pruneCollapsed (live_ids schema) s st))"
    by (simp add: project_effect_def Let_def the_layout_def auto(1) live_ids_def)
  moreover have "fst (vn_position (g n)) = of_nat (n_depth n) * COL_W"
    if "n \<in> set ?ns" "prev_position (cv_nodes c) (n_id n) = None" for n
    using auto(2) that by (fastforce simp: g_def)
  ultimately show ?thesis by (auto simp: g_def)
qed

text \<open>The layout runs once for the heights it has seen.\<close>

lemma vn_position_update_simps [simp]:
  "height_of (v\<lparr>vn_position := p\<rparr>) = height_of v"
  by (simp add: height_of_def)

lemma relayout_once:
  assumes "relayout indexName st c = Inr c'"
  shows "relayout indexName st c' = Inr c'"
proof (cases "c' = c")
  case False
  then have "signature indexName (cv_nodes c') = cv_laidOut c'"
  proof -
    obtain auto where vs: "mapM_res (place_at (loadOverrides indexName st) auto) (cv_nodes c) = Inr (cv_nodes c')"
        and sig: "cv_laidOut c' = signature indexName (cv_nodes c)"
      using assms False by (auto simp: relayout_def split: if_splits)
    have "map (\<lambda>v. n_id (vn_node v) @ '':'' @ show_int \<lfloor>height_of v + 1/2\<rfloor>) (cv_nodes c') =
        map (\<lambda>v. n_id (vn_node v) @ '':'' @ show_int \<lfloor>height_of v + 1/2\<rfloor>) (cv_nodes c)"
      by (rule mapM_res_image [OF vs]) (auto simp: place_at_def)
    then show ?thesis by (simp add: sig signature_def)
  qed
  then show ?thesis by (simp add: relayout_def)
next
  case True
  with assms show ?thesis by simp
qed

section \<open>The controls\<close>

lemma prev_position_mem:
  assumes "distinct (map (\<lambda>v. n_id (vn_node v)) vs)" "v \<in> set vs"
  shows "prev_position vs (n_id (vn_node v)) = Some (vn_position v)"
proof -
  have "find (\<lambda>x. n_id (vn_node x) = n_id (vn_node v)) (rev vs) = Some v"
    if "distinct (map (\<lambda>v. n_id (vn_node v)) ws)" "v \<in> set ws" "rev vs = ws" for ws
    unfolding that(3) using that(1,2) by (induction ws) (auto simp: image_iff)
  then show ?thesis using assms by (simp add: prev_position_def rev_map [symmetric])
qed

text \<open>An edit moves no node that stays: without overrides, each keeps its place.\<close>

lemma edit_moves_nothing:
  assumes run: "project_effect catalog indexName schema (c, s, st) = Inr (c', s', st')"
    and free: "\<And>i. override_at (loadOverrides indexName st') i = Inr None"
    and ids: "distinct (map (\<lambda>v. n_id (vn_node v)) (cv_nodes c))"
    and v: "v \<in> set (cv_nodes c)" "v' \<in> set (cv_nodes c')" "n_id (vn_node v') = n_id (vn_node v)"
  shows "vn_position v' = vn_position v"
  using project_position [OF run v(2)] prev_position_mem [OF ids v(1)] free [of "n_id (vn_node v')"] v(3)
  by (metis sum.inject(2))

text \<open>
  The nodes are told apart by their place in the tree, so the node behind a removed one takes the
  removed one's identity, and with it its position and its override.
\<close>

lemma sibling_takes_over:
  assumes live: "live_path schema (p @ [i])" "live_path schema (p @ [Suc i])"
    and gone: "removeNode schema (p @ [i]) = Inr schema'"
  shows "fieldAtPath schema' (p @ [i]) = fieldAtPath schema (p @ [Suc i])"
proof -
  have p: "live_path schema p" using live(1) by (simp add: live_path_def live_in_append)
  have "edit_node schema p (without_index i) = Inr schema'"
    using gone by (simp add: removeNode_def removeAt_def)
  then have fs: "nodeFields schema' p = without_index i (nodeFields schema p)"
    using edit_node_total [OF p] by (metis sum.inject(2))
  have "Suc i < length (nodeFields schema p)"
    using live(2) by (auto simp: live_path_def live_in_append nodeFields_def live_in_Cons js_get_def split: option.splits if_splits)
  then show ?thesis
    by (simp add: fieldAtPath_def fs js_get_def without_index_take_drop nth_append min_def)
qed

lemma resetLayout_clears:
  assumes "st_usable st" "resetLayout indexName (c, st) = Inr (c', st')"
  shows "loadOverrides indexName st' = JObj [] \<and> map vn_node (cv_nodes c') = map vn_node (cv_nodes c) \<and>
    cv_laidOut c' = ''''"
  using assms
  by (auto simp: resetLayout_def loadOverrides_def clearOverrides_def st_usable_def get_item_def try_remove_item_def
      remove_item_def)

text \<open>The one button collapses all and then expands all.\<close>

lemma collapse_then_expand:
  assumes nodes: "map vn_node (cv_nodes c) = gr_nodes (projectGraph schema)"
    and d: "ds_doc s = Some d" "obj_get (doc_schemas d) (ds_active s) = Some schema"
    and first: "\<not> allCollapsed c s" "onCollapseToggle c s st = (s1, st1)"
    and second: "onCollapseToggle c s1 st1 = (s2, st2)"
  shows "set (ds_collapsed s1) = set (live_ids schema) \<and> ds_collapsed s2 = []"
proof -
  have s1: "s1 = s\<lparr>ds_collapsed := js_set (live_ids schema)\<rparr>"
    using first d by (simp add: onCollapseToggle_def collapseAll_def Let_def)
  have "js_set (live_ids schema) = live_ids schema"
    unfolding live_ids_def by (rule js_set_distinct [OF graph_ids_distinct])
  moreover have "length (live_ids schema) = length (cv_nodes c)"
    unfolding live_ids_def using nodes by (metis length_map)
  moreover have "length (cv_nodes c) > 0"
    using graph_root [of schema] nodes by (metis length_greater_0_conv length_pos_if_in_set list.map_disc_iff)
  ultimately have "allCollapsed c s1" by (simp add: allCollapsed_def s1)
  then show ?thesis using second by (auto simp: s1 onCollapseToggle_def expandAll_def)
qed

lemma edge_click_selects:
  assumes nodes: "map vn_node (cv_nodes c) = gr_nodes (projectGraph schema)"
    and e: "ve_target e = pathId p" and p: "live_path schema p" "p \<noteq> []"
  shows "ds_selection (onEdgeClick c e s) = Some (Node_sel p)"
proof -
  have "p \<in> set (map n_path (gr_nodes (projectGraph schema)))"
    using p(1) by (simp add: graph_paths set_container_paths live_path_def)
  then obtain n where n: "n \<in> set (gr_nodes (projectGraph schema))" "n_path n = p" by auto
  from n(1) nodes obtain v where v: "v \<in> set (cv_nodes c)" "vn_node v = n" by (metis (no_types, lifting) imageE list.set_map)
  have "\<exists>w. find (\<lambda>v. n_id (vn_node v) = ve_target e) (cv_nodes c) = Some w"
    using v e n graph_node_id [OF n(1)] by (auto simp: find_None_iff simp flip: not_None_eq)
  then obtain w where w: "find (\<lambda>v. n_id (vn_node v) = ve_target e) (cv_nodes c) = Some w" ..
  then have "n_id (vn_node w) = pathId p" "w \<in> set (cv_nodes c)"
    using e by (auto simp: find_Some_iff)
  moreover from this have "vn_node w \<in> set (gr_nodes (projectGraph schema))" using nodes by (metis image_eqI list.set_map)
  ultimately have "n_path (vn_node w) = p" using graph_node_id by fastforce
  then show ?thesis using w p(2) by (simp add: onEdgeClick_def node_selection_def setSelection_def)
qed

section \<open>Focus and viewport\<close>

text \<open>
  A focus request waits for its index and its node; then the node is expanded, the request gone
  and the viewport asked for, once.
\<close>

lemma focus_waits:
  assumes "ds_focus s = Some (index, nodeId)"
    and "index \<noteq> indexName \<or> nodeId \<notin> set (map (\<lambda>v. n_id (vn_node v)) (cv_nodes c))"
  shows "focus_effect indexName c (s, st) = ((s, st), None)"
  using assms by (auto simp: focus_effect_def)

lemma focus_done:
  assumes "ds_focus s = Some (indexName, nodeId)" "nodeId \<in> set (map (\<lambda>v. n_id (vn_node v)) (cv_nodes c))"
    and "focus_effect indexName c (s, st) = ((s', st'), r)"
  shows "nodeId \<notin> set (ds_collapsed s') \<and> ds_focus s' = None \<and> r = Some (Fit_node nodeId) \<and>
    focus_effect indexName c (s', st') = ((s', st'), None)"
  using assms
  by (auto simp: focus_effect_def toggleCollapsed_def clearFocus_def Let_def split: prod.splits if_splits)

lemma viewport_restored:
  assumes "st_usable st" "cv_appliedFor c \<noteq> Some index"
  shows "snd (restore_viewport True index (onMoveEnd index vp st) c) = Some (Set_viewport (vp_value vp))"
    and "snd (restore_viewport True index st' (fst (restore_viewport True index st c))) = None"
  using assms by (simp_all add: restore_viewport_def onMoveEnd_def viewport_roundtrip js_truthy_object_def vp_value_def)

section \<open>Changing the index\<close>

text \<open>
  The canvas prunes the collapsed set before the application loads the new index's: a set of the
  previous index that does not fit is written under the new index's key and loaded from there,
  whatever was remembered.
\<close>

lemma switch_takes_previous_collapsed:
  assumes st: "st_usable st" and idx: "ds_active s = indexName" "indexName \<noteq> ''config''"
    and d: "ds_doc s = Some d" "obj_get (doc_schemas d) indexName = Some schema"
    and old: "distinct (ds_collapsed s)" "\<not> set (ds_collapsed s) \<subseteq> set (live_ids schema)"
    and run: "switch_effects catalog indexName schema (c, s, st) = Inr (c', s', st')"
  shows "ds_collapsed s' = filter (\<lambda>i. i \<in> set (live_ids schema)) (ds_collapsed s)"
proof -
  define ids where "ids = filter (\<lambda>i. i \<in> set (live_ids schema)) (ds_collapsed s)"
  have "length ids < length (ds_collapsed s)" unfolding ids_def using old(2) by (auto intro: length_filter_less)
  then have ids: "distinct ids" "set ids \<subseteq> set (live_ids schema)" "length ids \<noteq> length (ds_collapsed s)" "js_set ids = ids"
    using old(1) by (auto simp: ids_def js_set_distinct)
  have prune: "pruneCollapsed (live_ids schema) s st = (s\<lparr>ds_collapsed := ids\<rparr>, persistCollapsed indexName ids st)"
    using idx ids by (simp add: pruneCollapsed_def Let_def ids_def)
  have "loadCollapsed indexName (s\<lparr>ds_collapsed := ids\<rparr>) (persistCollapsed indexName ids st) =
      Inr (s\<lparr>ds_collapsed := ids\<rparr>, persistCollapsed indexName ids st)"
    using load_persisted [OF st idx(2), of "s\<lparr>ds_collapsed := ids\<rparr>" d schema ids] d ids by simp
  then show ?thesis
    using run prune by (auto simp: switch_effects_def project_effect_def Let_def live_ids_def ids_def)
qed

end
