(* ===== verification/Sample.thy ===== *)
theory Sample
  imports Save_Review
begin

text \<open>
  One small project, at which the properties are evaluated: an index over \<open>users\<close> with one
  column and one join to \<open>orders\<close>, its configuration and the state that holds them.
\<close>

definition email_field :: field where
  "email_field = column_field ''email'' (Scalar Keyword_t) True"

definition orders_field :: field where
  "orders_field =
     Field ''orders'' None
       (Relation_s (Join_r
          \<lparr>j_table = ''orders'', j_kind = Has_many ''user_id'', j_primary_key = ''id'', j_nullable = False,
           j_filters = None, j_order_by = None, j_limit = None\<rparr>
          [column_field ''total'' (Scalar Decimal_t) True]))"

definition users_schema :: index_schema where
  "users_schema = (emptySchema ''users'' (Some ''id''))\<lparr>s_fields := [email_field, orders_field]\<rparr>"

definition entry_of :: "string \<Rightarrow> index_entry" where
  "entry_of name =
     \<lparr>e_name = name, e_schema = default_path name, e_enabled = True, e_on_error = None, e_id = Some name\<rparr>"

definition config_of :: "string list \<Rightarrow> config_toml" where
  "config_of names =
     \<lparr>cfg_source = [], cfg_stream = None, cfg_sinks = None, cfg_index = Some (map entry_of names),
      cfg_prefix = None, cfg_on_error = None, cfg_batch = None, cfg_server = None\<rparr>"

definition doc_of :: "(string \<times> index_schema) list \<Rightarrow> doc" where
  "doc_of schemas = \<lparr>doc_config = config_of (map fst schemas), doc_schemas = schemas\<rparr>"

definition empty_doc :: doc where
  "empty_doc = doc_of [(''a'', emptySchema ''users'' None)]"

definition users_doc :: doc where
  "users_doc = doc_of [(''a'', users_schema)]"

definition two_docs :: doc where
  "two_docs = doc_of [(''a'', users_schema), (''b'', emptySchema ''orders'' None)]"

definition design_of :: "string \<Rightarrow> doc \<Rightarrow> doc \<Rightarrow> design_state" where
  "design_of name saved d = init_design\<lparr>ds_doc := Some d, ds_saved := Some saved, ds_active := name\<rparr>"

definition app_of :: "string \<Rightarrow> doc \<Rightarrow> doc \<Rightarrow> app" where
  "app_of name saved d = \<lparr>ap_design = design_of name saved d, ap_ui = init_ui empty_storage\<rparr>"

definition plain_server :: server where
  "plain_server =
     \<lparr>sv_render = (\<lambda>s. Inr (''table '' @ s_table s @ concat (map f_field (s_fields s)))),
      sv_render_config = (\<lambda>c. Inr ''config''), sv_warn = (\<lambda>_. None), sv_config_path = ''flusso.toml''\<rparr>"

definition plain_disk :: disk where
  "plain_disk = [''flusso.toml'' \<mapsto> ''config'', ''a.schema.yml'' \<mapsto> ''table users'']"

lemmas sample_defs =
  email_field_def orders_field_def users_schema_def entry_of_def config_of_def doc_of_def empty_doc_def users_doc_def
  two_docs_def design_of_def app_of_def plain_server_def plain_disk_def emptySchema_def init_design_def

lemma sample_names [simp]:
  "names_of (config_of names) = names" "entries_of (config_of names) = map entry_of names"
  "e_name (entry_of n) = n" "e_schema (entry_of n) = default_path n" "e_id (entry_of n) = Some n"
  by (simp_all add: names_of_def entries_of_def config_of_def entry_of_def comp_def)

lemma sample_docs [simp]:
  "doc_config (doc_of ss) = config_of (map fst ss)" "doc_schemas (doc_of ss) = ss"
  "ds_doc (design_of n sd d) = Some d" "ds_saved (design_of n sd d) = Some sd" "ds_active (design_of n sd d) = n"
  by (simp_all add: doc_of_def design_of_def)

lemma sample_app [simp]:
  "ap_design (app_of n sd d) = design_of n sd d" "ap_ui (app_of n sd d) = init_ui empty_storage"
  "app_doc (app_of n sd d) = Some d" "app_saved (app_of n sd d) = Some sd"
  by (simp_all add: app_of_def)

lemma users_fields [simp]:
  "nodeFields users_schema [] = [email_field, orders_field]" "live_path users_schema []"
  "f_field email_field = ''email''" "f_field orders_field = ''orders''"
  by (simp_all add: nodeFields_def live_path_def users_schema_def email_field_def orders_field_def column_field_def
    path_simps)

end
