(* ===== verification/Highlight.thy ===== *)
theory Highlight
  imports Js_Prelude
begin

text \<open>
  \<^verbatim>\<open>components/highlight.tsx\<close> and \<^verbatim>\<open>components/CodeBlock.tsx\<close>: the colouring of one line of YAML
  or JSON. A line becomes a list of spans; the contract of both, kept below, is that the spans
  hold exactly the characters of the line. The regular expressions are written out as scanners:
  each quantifier takes what the backtracking search would settle on.
\<close>

datatype css = Plain | Comment | Key | Punct | Str | Num | Bool

type_synonym spans = "(css \<times> string) list"

definition flat :: "spans \<Rightarrow> string" where
  "flat ps = concat (map snd ps)"

lemma flat_simps [simp]:
  "flat [] = ''''" "flat ((c, s) # ps) = s @ flat ps" "flat (ps @ qs) = flat ps @ flat qs"
  by (simp_all add: flat_def)

section \<open>Numbers\<close>

text \<open>\<open>\d+\<close> from the front: the digits and the rest; \<open>(\.\d+)?\<close> and \<open>([eE][+-]?\d+)?\<close> take nothing when
  no digit follows.\<close>

definition digits :: "string \<Rightarrow> string \<times> string" where
  "digits s = (takeWhile is_digit s, dropWhile is_digit s)"

fun fraction :: "string \<Rightarrow> string \<times> string" where
  "fraction (c # s) =
     (if c = CHR ''.'' \<and> fst (digits s) \<noteq> '''' then (c # fst (digits s), snd (digits s)) else ('''', c # s))"
| "fraction [] = ('''', '''')"

fun sign :: "string \<Rightarrow> string \<times> string" where
  "sign (c # s) = (if c = CHR ''+'' \<or> c = CHR ''-'' then ([c], s) else ('''', c # s))"
| "sign [] = ('''', '''')"

fun exponent :: "string \<Rightarrow> string \<times> string" where
  "exponent (c # s) =
     (let (sg, r) = sign s in
      if (c = CHR ''e'' \<or> c = CHR ''E'') \<and> fst (digits r) \<noteq> ''''
      then (c # sg @ fst (digits r), snd (digits r)) else ('''', c # s))"
| "exponent [] = ('''', '''')"

fun minus :: "string \<Rightarrow> string \<times> string" where
  "minus (c # s) = (if c = CHR ''-'' then ([c], s) else ('''', c # s))"
| "minus [] = ('''', '''')"

text \<open>\<open>-?\d+(\.\d+)?\<close>, the whole text of a YAML number, and the number token of JSON.\<close>

definition yaml_number :: "string \<Rightarrow> bool" where
  "yaml_number s =
     (let (_, r) = minus s; (d, r') = digits r in d \<noteq> '''' \<and> snd (fraction r') = '''')"

definition json_number :: "string \<Rightarrow> (string \<times> string) option" where
  "json_number s =
     (let (m, r) = minus s; (d, r) = digits r; (f, r) = fraction r; (e, r) = exponent r in
      if d = '''' then None else Some (m @ d @ f @ e, r))"

section \<open>YAML\<close>

definition yamlValue :: "string \<Rightarrow> css \<times> string" where
  "yamlValue v =
     (if v = ''true'' \<or> v = ''false'' \<or> v = ''null'' then (Bool, v)
      else if yaml_number v then (Num, v) else (Str, v))"

text \<open>
  \<open>^([^:#\s][^:]*?):(\s*)(.*)$\<close>: the key ends at the first colon. Without the \<open>s\<close> flag the dot
  stops at a line end, which a line of \<open>split("\n")\<close> may hold as a carriage return; blanks behind
  the colon belong to the second group.
\<close>

definition line_end :: "char \<Rightarrow> bool" where
  "line_end c \<longleftrightarrow> code_unit c = 10 \<or> code_unit c = 13"

definition key_value :: "string \<Rightarrow> (string \<times> string \<times> string) option" where
  "key_value rest =
     (let key = takeWhile (\<lambda>c. c \<noteq> CHR '':'') rest;
          after = drop (Suc (length key)) rest;
          blank = takeWhile is_space after;
          v = dropWhile is_space after
      in if key = '''' \<or> hd key = CHR ''#'' \<or> is_space (hd key) \<or> length key = length rest
            \<or> list_ex line_end v
         then None else Some (key, blank, v))"

definition yaml_rest :: "string \<Rightarrow> spans" where
  "yaml_rest rest =
     (case key_value rest of
        Some (k, b, v) \<Rightarrow> [(Key, k), (Punct, '':''), (Plain, b)] @ (if v \<noteq> '''' then [yamlValue v] else [])
      | None \<Rightarrow> if rest \<noteq> '''' then [yamlValue rest] else [])"

definition yamlLine :: "string \<Rightarrow> spans" where
  "yamlLine line =
     (let trimmed = dropWhile is_space line;
          indent = take (length line - length trimmed) line;
          bullet = (if starts_with ''- '' trimmed then ''- '' else '''');
          rest = (if starts_with ''- '' trimmed then drop 2 trimmed else trimmed)
      in if starts_with ''#'' trimmed then [(Comment, line)]
         else [(Plain, indent)] @ (if bullet \<noteq> '''' then [(Punct, bullet)] else []) @ yaml_rest rest)"

section \<open>JSON\<close>

text \<open>
  \<open>"(?:\\.|[^"\\])*"\<close> behind the opening quote: \<^const>\<open>None\<close> when no closing quote follows. An
  escape takes the next character, unless that is a line end.
\<close>

fun json_string_body :: "string \<Rightarrow> (string \<times> string) option" where
  "json_string_body [] = None"
| "json_string_body [c] = (if c = CHR 0x22 then Some ([c], '''') else None)"
| "json_string_body (c # d # s) =
     (if c = CHR 0x22 then Some ([c], d # s)
      else if c = CHR 0x5C then
        (if line_end d then None else map_option (\<lambda>(t, r). (c # d # t, r)) (json_string_body s))
      else map_option (\<lambda>(t, r). (c # t, r)) (json_string_body (d # s)))"

definition json_colon :: "string \<Rightarrow> (string \<times> string) option" where
  "json_colon s =
     (let b = takeWhile is_space s; r = dropWhile is_space s in
      if starts_with '':'' r then Some (b @ '':'', drop 1 r) else None)"

definition word_char :: "char \<Rightarrow> bool" where
  "word_char c \<longleftrightarrow>
     is_digit c \<or> (65 \<le> code_unit c \<and> code_unit c \<le> 90) \<or> (97 \<le> code_unit c \<and> code_unit c \<le> 122) \<or> c = CHR ''_''"

definition json_word :: "string \<Rightarrow> string \<Rightarrow> bool" where
  "json_word w s \<longleftrightarrow> starts_with w s \<and> (drop (length w) s = '''' \<or> \<not> word_char (hd (drop (length w) s)))"

definition json_literal :: "char option \<Rightarrow> string \<Rightarrow> string option" where
  "json_literal prev s =
     (if (case prev of Some p \<Rightarrow> word_char p | None \<Rightarrow> False) then None
      else find (\<lambda>w. json_word w s) [''true'', ''false'', ''null''])"

definition json_string :: "string \<Rightarrow> (string \<times> string) option" where
  "json_string s =
     (case s of
        c # r \<Rightarrow> if c = CHR 0x22 then map_option (\<lambda>(t, r'). (c # t, r')) (json_string_body r) else None
      | [] \<Rightarrow> None)"

text \<open>The match at the front of \<open>s\<close>, if there is one; \<open>prev\<close> is the character in front of it.\<close>

definition json_match :: "char option \<Rightarrow> string \<Rightarrow> (spans \<times> string) option" where
  "json_match prev s =
     (case json_string s of
        Some (str, r) \<Rightarrow>
          (case json_colon r of
             Some (colon, r') \<Rightarrow> Some ([(Key, str), (Punct, colon)], r')
           | None \<Rightarrow> Some ([(Str, str)], r))
      | None \<Rightarrow>
          (case json_number s of
             Some (n, r) \<Rightarrow> Some ([(Num, n)], r)
           | None \<Rightarrow>
               (case json_literal prev s of
                  Some w \<Rightarrow> Some ([(Bool, w)], drop (length w) s)
                | None \<Rightarrow>
                    (case s of
                       c # r \<Rightarrow> if c \<in> set ''{}[],'' then Some ([(Punct, [c])], r) else None
                     | [] \<Rightarrow> None))))"

section \<open>The spans hold the line\<close>

lemma digits_split [simp]: "fst (digits s) @ snd (digits s) = s"
  by (simp add: digits_def)

lemma minus_split: "minus s = (m, r) \<Longrightarrow> m @ r = s"
  by (cases s) (auto split: if_splits)

lemma sign_split: "sign s = (m, r) \<Longrightarrow> m @ r = s"
  by (cases s) (auto split: if_splits)

lemma fraction_split: "fraction s = (f, r) \<Longrightarrow> f @ r = s"
  by (cases s) (auto split: if_splits)

lemma exponent_split: "exponent s = (e, r) \<Longrightarrow> e @ r = s"
  by (cases s) (auto simp: sign_split split: if_splits prod.splits)

lemma json_number_split:
  assumes "json_number s = Some (n, r)"
  shows "n @ r = s" and "n \<noteq> ''''"
proof -
  obtain m r1 f r2 e where parts: "minus s = (m, r1)" "fraction (snd (digits r1)) = (f, r2)" "exponent r2 = (e, r)"
      "n = m @ fst (digits r1) @ f @ e" "fst (digits r1) \<noteq> ''''"
    using assms by (auto simp: json_number_def Let_def case_prod_unfold split: if_splits) (metis prod.collapse)
  have "fst (digits r1) @ f @ e @ r = r1"
    using fraction_split [OF parts(2)] exponent_split [OF parts(3)] by simp
  then show "n @ r = s" using minus_split [OF parts(1)] parts(4) by simp
  show "n \<noteq> ''''" using parts by simp
qed

lemma json_string_body_split: "json_string_body s = Some (t, r) \<Longrightarrow> t @ r = s"
  by (induction s arbitrary: t r rule: json_string_body.induct) (auto split: if_splits)

lemma json_string_split: "json_string s = Some (t, r) \<Longrightarrow> t @ r = s \<and> t \<noteq> ''''"
  by (auto simp: json_string_def json_string_body_split split: list.splits if_splits)

lemma starts_with_split: "starts_with p s \<Longrightarrow> p @ drop (length p) s = s"
  unfolding starts_with_def by (metis append_take_drop_id)

lemma json_colon_split: "json_colon s = Some (t, r) \<Longrightarrow> t @ r = s"
  using starts_with_split [of "'':''" "dropWhile is_space s"]
  by (auto simp: json_colon_def Let_def split: if_splits)

lemma json_literal_split: "json_literal prev s = Some w \<Longrightarrow> w @ drop (length w) s = s \<and> w \<noteq> ''''"
  by (auto simp: json_literal_def json_word_def starts_with_split split: if_splits)

lemma json_match_split:
  assumes "json_match prev s = Some (ps, r)"
  shows "flat ps @ r = s \<and> flat ps \<noteq> ''''"
proof (cases "json_string s")
  case (Some x)
  then show ?thesis
    using assms json_string_split [of s "fst x" "snd x"] json_colon_split [of "snd x"]
    by (auto simp: json_match_def case_prod_unfold split: option.splits)
next
  case str: None
  show ?thesis
  proof (cases "json_number s")
    case (Some x)
    then show ?thesis
      using assms str json_number_split [of s "fst x" "snd x"] by (auto simp: json_match_def case_prod_unfold)
  next
    case num: None
    show ?thesis
      using assms str num json_literal_split [of prev s]
      by (auto simp: json_match_def split: option.splits list.splits if_splits)
  qed
qed

lemma json_match_shorter: "json_match prev s = Some (ps, r) \<Longrightarrow> length r < length s"
  by (drule json_match_split) (metis length_append length_greater_0_conv less_add_same_cancel2)

text \<open>
  The loop of \<open>exec\<close> with its \<open>lastIndex\<close>: \<open>pend\<close> is the text since the last match.
\<close>

definition pending_text :: "string \<Rightarrow> spans" where
  "pending_text pend = (if pend \<noteq> '''' then [(Plain, pend)] else [])"

function json_scan :: "char option \<Rightarrow> string \<Rightarrow> string \<Rightarrow> spans" where
  "json_scan prev pend [] = pending_text pend"
| "json_scan prev pend (c # s) =
     (case json_match prev (c # s) of
        Some (ps, r) \<Rightarrow> pending_text pend @ ps @ json_scan (Some (last (flat ps))) '''' r
      | None \<Rightarrow> json_scan (Some c) (pend @ [c]) s)"
  by pat_completeness auto
termination
  by (relation "measure (\<lambda>(prev, pend, s). length s)") (auto dest!: json_match_shorter)

definition jsonLine :: "string \<Rightarrow> spans" where
  "jsonLine line = json_scan None '''' line"

lemma flat_pending [simp]: "flat (pending_text pend) = pend"
  by (simp add: pending_text_def)

lemma flat_json_scan: "flat (json_scan prev pend s) = pend @ s"
proof (induction prev pend s rule: json_scan.induct)
  case (2 prev pend c s)
  show ?case
  proof (cases "json_match prev (c # s)")
    case None
    then show ?thesis using 2(1) by simp
  next
    case (Some m)
    then obtain ps r where m: "json_match prev (c # s) = Some (ps, r)" by (cases m) simp
    then have "flat (json_scan (Some (last (flat ps))) '''' r) = r" using 2(2) m by simp
    then show ?thesis using m json_match_split [OF m] by simp
  qed
qed simp

lemma jsonLine_flat: "flat (jsonLine line) = line"
  by (simp add: jsonLine_def flat_json_scan)

lemma break_at: "c \<in> set s \<Longrightarrow>
    takeWhile (\<lambda>x. x \<noteq> c) s @ c # drop (Suc (length (takeWhile (\<lambda>x. x \<noteq> c) s))) s = s"
  by (induction s) auto

lemma key_value_split:
  assumes "key_value rest = Some (k, b, v)"
  shows "k @ CHR '':'' # b @ v = rest"
proof -
  have k: "k = takeWhile (\<lambda>c. c \<noteq> CHR '':'') rest" and len: "length k \<noteq> length rest"
    and bv: "b @ v = drop (Suc (length k)) rest"
    using assms unfolding key_value_def Let_def
    by (simp_all only: split: if_split_asm) (simp_all only: option.distinct option.inject prod.inject, simp_all, metis takeWhile_dropWhile_id)
  have "CHR '':'' \<in> set rest"
  proof (rule ccontr)
    assume "CHR '':'' \<notin> set rest"
    then have "\<forall>x \<in> set rest. x \<noteq> CHR '':''" by blast
    then have "k = rest" unfolding k takeWhile_eq_all_conv .
    then show False using len by blast
  qed
  then show ?thesis unfolding bv k by (rule break_at)
qed

lemma snd_yamlValue [simp]: "snd (yamlValue v) = v"
  by (simp add: yamlValue_def)

lemma indent_split: "take (length s - length (dropWhile P s)) s @ dropWhile P s = s"
  by (induction s) (auto simp: Suc_diff_le length_dropWhile_le)

lemma flat_one [simp]: "flat [p] = snd p"
  by (simp add: flat_def)

lemma flat_yaml_rest [simp]: "flat (yaml_rest rest) = rest"
  by (auto simp: yaml_rest_def dest!: key_value_split split: option.splits)

lemma yamlLine_flat: "flat (yamlLine line) = line"
proof -
  define t where "t = dropWhile is_space line"
  have indent: "take (length line - length t) line @ t = line"
    unfolding t_def by (rule indent_split)
  have bullet: "CHR ''-'' # CHR '' '' # drop 2 t = t" if "starts_with ''- '' t"
    using starts_with_split [OF that] by (simp add: numeral_2_eq_2)
  show ?thesis
    using indent bullet by (simp add: yamlLine_def Let_def flip: t_def)
qed

section \<open>The block\<close>

text \<open>
  \<open>CodeBlock\<close>: \<open>text.split("\n")\<close>, each line in its spans and behind each a line break. A copy
  writes the text itself.
\<close>

datatype lang = Yaml | Json

definition render_line :: "lang \<Rightarrow> string \<Rightarrow> spans" where
  "render_line lang line = (case lang of Yaml \<Rightarrow> yamlLine line | Json \<Rightarrow> jsonLine line)"

definition line_break :: char where
  "line_break = CHR 0x0A"

definition code_block :: "lang \<Rightarrow> string \<Rightarrow> spans" where
  "code_block lang txt = concat (map (\<lambda>l. render_line lang l @ [(Plain, [line_break])]) (split_char line_break txt))"

lemma flat_render_line [simp]: "flat (render_line lang line) = line"
  by (simp add: render_line_def yamlLine_flat jsonLine_flat split: lang.splits)

lemma flat_lines:
  "ls \<noteq> [] \<Longrightarrow> flat (concat (map (\<lambda>l. render_line lang l @ [(Plain, [line_break])]) ls)) = join_with [line_break] ls @ [line_break]"
  by (induction ls rule: induct_list012) simp_all

text \<open>
  What is shown, and what \<open>selectAll\<close> selects, is the text and one line break more than the copy
  button writes.
\<close>

lemma code_block_flat: "flat (code_block lang txt) = txt @ [line_break]"
  by (simp add: code_block_def flat_lines)

section \<open>Which scalars are numbers\<close>

text \<open>The scanner against the regular expression \<open>^-?\d+(\.\d+)?$\<close> as it is read.\<close>

definition all_digits :: "string \<Rightarrow> bool" where
  "all_digits s \<longleftrightarrow> s \<noteq> '''' \<and> list_all is_digit s"

definition number_shape :: "string \<Rightarrow> bool" where
  "number_shape s \<longleftrightarrow>
     (\<exists>m d f. s = m @ d @ f \<and> m \<in> {'''', ''-''} \<and> all_digits d \<and>
        (f = '''' \<or> (\<exists>e. f = CHR ''.'' # e \<and> all_digits e)))"

lemma digits_app:
  "all_digits d \<Longrightarrow> (r = '''' \<or> \<not> is_digit (hd r)) \<Longrightarrow> digits (d @ r) = (d, r)"
  by (cases r) (auto simp: digits_def all_digits_def list_all_iff takeWhile_append2 dropWhile_append2)

lemma digits_all: "fst (digits s) \<noteq> '''' \<Longrightarrow> all_digits (fst (digits s))"
  by (auto simp: digits_def all_digits_def list_all_iff dest: set_takeWhileD)

lemma fraction_end: "snd (fraction r) = '''' \<longleftrightarrow> r = '''' \<or> (\<exists>e. r = CHR ''.'' # e \<and> all_digits e)"
proof (cases r)
  case (Cons c e)
  have "snd (digits e) = '''' \<and> fst (digits e) \<noteq> '''' \<longleftrightarrow> all_digits e"
    by (auto simp: digits_def all_digits_def list_all_iff dropWhile_eq_Nil_conv takeWhile_eq_Nil_iff)
  then show ?thesis using Cons by auto
qed simp

lemma is_digit_sep: "\<not> is_digit (CHR ''.'')" "\<not> is_digit (CHR ''-'')"
  by (simp_all add: is_digit_def code_unit_def)

lemma yaml_number_parts:
  "minus s = (m, r) \<Longrightarrow> yaml_number s \<longleftrightarrow> fst (digits r) \<noteq> '''' \<and> snd (fraction (snd (digits r))) = ''''"
  by (simp add: yaml_number_def Let_def case_prod_unfold)

lemma yaml_number_iff: "yaml_number s \<longleftrightarrow> number_shape s"
proof
  assume n: "yaml_number s"
  obtain m r where m: "minus s = (m, r)" by fastforce
  have "m \<in> {'''', ''-''}" using m by (cases s) (auto split: if_splits)
  moreover have "s = m @ fst (digits r) @ snd (digits r)" using minus_split [OF m] by simp
  ultimately show "number_shape s"
    using n unfolding yaml_number_parts [OF m] fraction_end number_shape_def by (blast intro: digits_all)
next
  assume "number_shape s"
  then obtain m d f where s: "s = m @ d @ f" "m \<in> {'''', ''-''}" and d: "all_digits d"
      and f: "f = '''' \<or> (\<exists>e. f = CHR ''.'' # e \<and> all_digits e)"
    unfolding number_shape_def by blast
  obtain c d' where c: "d = c # d'" "is_digit c" using d by (cases d) (auto simp: all_digits_def)
  have m: "minus s = (m, d @ f)" using s c is_digit_sep(2) by auto
  have "digits (d @ f) = (d, f)" using f is_digit_sep(1) by (intro digits_app [OF d]) auto
  then show "yaml_number s"
    using d f unfolding yaml_number_parts [OF m] by (simp add: fraction_end all_digits_def)
qed

end
