(* ===== verification/Inspector.thy ===== *)
theory Inspector
  imports Filters Preview_Prune Theme Edits
begin

text \<open>
  \<^verbatim>\<open>components/Inspector.tsx\<close>, the forms: what each control makes of the part of a field it edits
  (a column, an aggregate, a join, a junction, the list of variants, of options and of sort keys).
  A control emits a new value of that part; \<open>Inspector_Panel\<close> puts it into the schema. A control
  that a form shows only for some constructor leaves the other constructors alone here.
\<close>

section \<open>Verbs, operations and help\<close>

fun aggOpKind :: "aggregate_op \<Rightarrow> string" where
  "aggOpKind Count_op = ''count''"
| "aggOpKind (Sum_op _) = ''sum''"
| "aggOpKind (Avg_op _) = ''avg''"
| "aggOpKind (Min_op _) = ''min''"
| "aggOpKind (Max_op _) = ''max''"
| "aggOpKind (Ids_op _) = ''ids''"

fun aggOpColumn :: "aggregate_op \<Rightarrow> string option" where
  "aggOpColumn Count_op = None"
| "aggOpColumn (Ids_op _) = None"
| "aggOpColumn (Sum_op c) = Some c"
| "aggOpColumn (Avg_op c) = Some c"
| "aggOpColumn (Min_op c) = Some c"
| "aggOpColumn (Max_op c) = Some c"

definition withAggColumn :: "string \<Rightarrow> string \<Rightarrow> aggregate_op" where
  "withAggColumn kind col =
     (if kind = ''sum'' then Sum_op col
      else if kind = ''avg'' then Avg_op col
      else if kind = ''min'' then Min_op col
      else Max_op col)"

fun join_verb :: "join_kind \<Rightarrow> string" where
  "join_verb (Belongs_to _) = ''belongs_to''"
| "join_verb (Has_one _) = ''has_one''"
| "join_verb (Has_many _) = ''has_many''"
| "join_verb (Many_to_many _) = ''many_to_many''"

definition blankKind :: "string \<Rightarrow> join_kind" where
  "blankKind verb =
     (if verb = ''belongs_to'' then Belongs_to ''''
      else if verb = ''has_one'' then Has_one ''''
      else if verb = ''has_many'' then Has_many ''''
      else Many_to_many \<lparr>th_table = '''', th_left_key = '''', th_right_key = '''', th_filters = None\<rparr>)"

fun fieldHelpKind :: "field field_source \<Rightarrow> string" where
  "fieldHelpKind (Geo_s _) = ''geo''"
| "fieldHelpKind (Constant_s _) = ''constant''"
| "fieldHelpKind (Column_s c) =
     (case col_ty c of Scalar _ \<Rightarrow> '''' | Map_t _ \<Rightarrow> ''map'' | Custom_t _ _ \<Rightarrow> ''custom'')"
| "fieldHelpKind (Relation_s (Aggregate_r a)) = aggOpKind (agg_op a)"
| "fieldHelpKind _ = ''''"

lemma aggOpKind_aggOp: "aggOpKind op = aggOp op"
  by (cases op) simp_all

lemma join_verb_joinVerb: "join_verb k = joinVerb k"
  by (cases k) simp_all

lemma join_verb_blank: "verb \<in> set JOIN_KINDS \<Longrightarrow> join_verb (blankKind verb) = verb"
  by (auto simp: JOIN_KINDS_def blankKind_def)

lemma withAggColumn_same: "aggOpColumn op \<noteq> None \<Longrightarrow> aggOpKind (withAggColumn (aggOpKind op) c) = aggOpKind op"
  by (cases op) (simp_all add: withAggColumn_def)

text \<open>The help line of a leaf is that of its kind, and there is one for every kind but the scalars.\<close>

lemma fieldHelpKind_kind:
  assumes "\<nexists>fs. childFields f = Some fs"
  shows "fieldHelpKind (f_source f) = (if scalar_column f = None then fieldKind f else '''')"
  using assms
  by (cases f rule: fieldKind.cases)
     (auto simp: scalar_column_def aggOpKind_aggOp split: flusso_type.splits)

section \<open>Junctions, joins\<close>

text \<open>The controls of a junction: a new table drops the filters, which are about the old one's columns.\<close>

datatype through_edit = Th_table string | Th_left string | Th_right string | Th_filters "filter list option"

fun edit_through :: "through_edit \<Rightarrow> through \<Rightarrow> through" where
  "edit_through (Th_table t) th =
     th\<lparr>th_table := t, th_filters := (if t = th_table th then th_filters th else None)\<rparr>"
| "edit_through (Th_left k) th = th\<lparr>th_left_key := k\<rparr>"
| "edit_through (Th_right k) th = th\<lparr>th_right_key := k\<rparr>"
| "edit_through (Th_filters fs) th = th\<lparr>th_filters := fs\<rparr>"

datatype join_edit =
    J_verb string
  | J_table string
  | J_primary_key string
  | J_column string                  \<comment> \<open>the column of a \<open>belongs_to\<close>\<close>
  | J_foreign_key string             \<comment> \<open>the key of a \<open>has_one\<close> or \<open>has_many\<close>\<close>
  | J_through through_edit           \<comment> \<open>the junction of a \<open>many_to_many\<close>\<close>
  | J_required bool
  | J_order_by "order_by list option"
  | J_limit "js_num option"
  | J_filters "filter list option"

fun edit_join :: "join_edit \<Rightarrow> join \<Rightarrow> join" where
  "edit_join (J_verb v) j = j\<lparr>j_kind := blankKind v\<rparr>"
| "edit_join (J_table t) j = j\<lparr>j_table := t\<rparr>"
| "edit_join (J_primary_key k) j = j\<lparr>j_primary_key := k\<rparr>"
| "edit_join (J_column c) j = (case j_kind j of Belongs_to _ \<Rightarrow> j\<lparr>j_kind := Belongs_to c\<rparr> | _ \<Rightarrow> j)"
| "edit_join (J_foreign_key k) j =
     (case j_kind j of Has_one _ \<Rightarrow> j\<lparr>j_kind := Has_one k\<rparr> | Has_many _ \<Rightarrow> j\<lparr>j_kind := Has_many k\<rparr> | _ \<Rightarrow> j)"
| "edit_join (J_through e) j =
     (case j_kind j of Many_to_many th \<Rightarrow> j\<lparr>j_kind := Many_to_many (edit_through e th)\<rparr> | _ \<Rightarrow> j)"
| "edit_join (J_required req) j = j\<lparr>j_nullable := \<not> req\<rparr>"
| "edit_join (J_order_by obs) j = j\<lparr>j_order_by := obs\<rparr>"
| "edit_join (J_limit n) j = j\<lparr>j_limit := n\<rparr>"
| "edit_join (J_filters fs) j = j\<lparr>j_filters := fs\<rparr>"

definition to_many :: "join \<Rightarrow> bool" where
  "to_many j \<longleftrightarrow> join_verb (j_kind j) = ''has_many'' \<or> join_verb (j_kind j) = ''many_to_many''"

text \<open>Which controls the form shows.\<close>

fun join_control :: "join \<Rightarrow> join_edit \<Rightarrow> bool" where
  "join_control j (J_column _) \<longleftrightarrow> (\<exists>c. j_kind j = Belongs_to c)"
| "join_control j (J_foreign_key _) \<longleftrightarrow> (\<exists>k. j_kind j = Has_one k \<or> j_kind j = Has_many k)"
| "join_control j (J_through _) \<longleftrightarrow> (\<exists>th. j_kind j = Many_to_many th)"
| "join_control j (J_required _) \<longleftrightarrow> \<not> to_many j"
| "join_control j (J_order_by _) \<longleftrightarrow> join_verb (j_kind j) \<noteq> ''belongs_to''"
| "join_control j (J_limit _) \<longleftrightarrow> to_many j"
| "join_control j _ \<longleftrightarrow> True"

text \<open>
  A changed verb starts without keys. Until they are filled in the join is incomplete, and what
  the other verb had, the sort keys, the limit and the nullability, stays in the join.
\<close>

lemma edit_verb_incomplete:
  "joinIncomplete (Some (Field n opts (Relation_s (Join_r (edit_join (J_verb v) j) fs))))"
  by (simp add: joinIncomplete_def blankKind_def through_incomplete_def)

lemma edit_verb_keeps:
  "j_order_by (edit_join (J_verb v) j) = j_order_by j" "j_limit (edit_join (J_verb v) j) = j_limit j"
  "j_nullable (edit_join (J_verb v) j) = j_nullable j" "j_filters (edit_join (J_verb v) j) = j_filters j"
  by simp_all

text \<open>Every control of the form but the verb keeps the verb.\<close>

lemma edit_join_verb: "(\<And>v. e \<noteq> J_verb v) \<Longrightarrow> join_verb (j_kind (edit_join e j)) = join_verb (j_kind j)"
  by (cases e) (auto split: join_kind.splits)

section \<open>Sort keys\<close>

definition order_by_set :: "order_by list \<Rightarrow> nat \<Rightarrow> order_by \<Rightarrow> order_by list option" where
  "order_by_set obs i ob = Some (obs[i := ob])"

definition order_by_column :: "order_by list \<Rightarrow> nat \<Rightarrow> string \<Rightarrow> order_by list option" where
  "order_by_column obs i c = order_by_set obs i ((obs ! i)\<lparr>ob_column := c\<rparr>)"

definition order_by_direction :: "order_by list \<Rightarrow> nat \<Rightarrow> direction \<Rightarrow> order_by list option" where
  "order_by_direction obs i d = order_by_set obs i ((obs ! i)\<lparr>ob_direction := Some d\<rparr>)"

definition order_by_remove :: "order_by list \<Rightarrow> nat \<Rightarrow> order_by list option" where
  "order_by_remove obs i = (let nxt = without_index i obs in if nxt \<noteq> [] then Some nxt else None)"

definition order_by_add :: "column_shape list \<Rightarrow> order_by list \<Rightarrow> order_by list option" where
  "order_by_add cols obs =
     Some (obs @ [\<lparr>ob_column = (case cols of c # _ \<Rightarrow> cs_name c | [] \<Rightarrow> ''''), ob_direction = Some Asc\<rparr>])"

section \<open>Soft delete\<close>

definition soft_delete_kind :: "soft_delete option \<Rightarrow> string" where
  "soft_delete_kind sd =
     (case sd of None \<Rightarrow> ''none'' | Some (Sd_field _ _) \<Rightarrow> ''field'' | Some (Sd_column _ _) \<Rightarrow> ''column'')"

definition soft_delete_choose :: "string \<Rightarrow> soft_delete option" where
  "soft_delete_choose k =
     (if k = ''none'' then None
      else if k = ''field'' then Some (Sd_field '''' None) else Some (Sd_column '''' None))"

fun soft_delete_name :: "string \<Rightarrow> soft_delete option \<Rightarrow> soft_delete option" where
  "soft_delete_name x (Some (Sd_field _ fs)) = Some (Sd_field x fs)"
| "soft_delete_name x (Some (Sd_column _ fs)) = Some (Sd_column x fs)"
| "soft_delete_name x None = None"

lemma soft_delete_choose_kind:
  "k \<in> {''none'', ''field'', ''column''} \<Longrightarrow> soft_delete_kind (soft_delete_choose k) = k"
  by (auto simp: soft_delete_choose_def soft_delete_kind_def)

lemma soft_delete_name_kind [simp]: "soft_delete_kind (soft_delete_name x sd) = soft_delete_kind sd"
  by (cases "(x, sd)" rule: soft_delete_name.cases) (simp_all add: soft_delete_kind_def)

text \<open>A kind chosen anew names nothing yet, and the preview leaves it out.\<close>

lemma soft_delete_choose_pruned: "prunedSoftDelete (soft_delete_choose k) = None"
  by (simp add: prunedSoftDelete_def soft_delete_choose_def)

section \<open>Aggregates\<close>

datatype agg_edit =
    A_table string
  | A_column string                 \<comment> \<open>shown for the operations that read one\<close>
  | A_key_kind string
  | A_foreign_key string
  | A_through through_edit
  | A_distinct bool
  | A_value_type scalar
  | A_element_type scalar
  | A_filters "filter list option"
  | A_junction_filters "filter list option"

text \<open>A key other than a junction takes the distinct flag with it.\<close>

definition set_key :: "aggregate_key \<Rightarrow> aggregate \<Rightarrow> aggregate" where
  "set_key k a =
     a\<lparr>agg_key := k, agg_distinct := (case k of Through _ \<Rightarrow> agg_distinct a | Direct _ \<Rightarrow> None)\<rparr>"

definition blank_key :: "string \<Rightarrow> aggregate_key" where
  "blank_key k =
     (if k = ''direct'' then Direct ''''
      else Through \<lparr>th_table = '''', th_left_key = '''', th_right_key = '''', th_filters = None\<rparr>)"

fun edit_agg :: "agg_edit \<Rightarrow> aggregate \<Rightarrow> aggregate" where
  "edit_agg (A_table t) a = a\<lparr>agg_table := t\<rparr>"
| "edit_agg (A_column c) a =
     (if aggOpColumn (agg_op a) = None then a else a\<lparr>agg_op := withAggColumn (aggOpKind (agg_op a)) c\<rparr>)"
| "edit_agg (A_key_kind k) a = set_key (blank_key k) a"
| "edit_agg (A_foreign_key c) a = (case agg_key a of Direct _ \<Rightarrow> set_key (Direct c) a | _ \<Rightarrow> a)"
| "edit_agg (A_through e) a =
     (case agg_key a of Through th \<Rightarrow> set_key (Through (edit_through e th)) a | _ \<Rightarrow> a)"
| "edit_agg (A_distinct d) a =
     (case agg_key a of Through _ \<Rightarrow> a\<lparr>agg_distinct := (if d then Some True else None)\<rparr> | _ \<Rightarrow> a)"
| "edit_agg (A_value_type t) a =
     (if aggOpKind (agg_op a) \<in> {''sum'', ''min'', ''max''} then a\<lparr>agg_value_type := Some (Scalar t)\<rparr> else a)"
| "edit_agg (A_element_type t) a =
     (case agg_op a of Ids_op _ \<Rightarrow> a\<lparr>agg_op := Ids_op (Scalar t)\<rparr> | _ \<Rightarrow> a)"
| "edit_agg (A_filters fs) a = a\<lparr>agg_filters := fs\<rparr>"
| "edit_agg (A_junction_filters fs) a =
     (case agg_key a of Through th \<Rightarrow> a\<lparr>agg_key := Through (th\<lparr>th_filters := fs\<rparr>)\<rparr> | _ \<Rightarrow> a)"

definition hasMappingType :: "aggregate \<Rightarrow> bool" where
  "hasMappingType a \<longleftrightarrow> aggOpKind (agg_op a) \<in> {''sum'', ''min'', ''max'', ''ids''}"

text \<open>
  What the form keeps of an aggregate: a distinct flag only beside a junction, and set only to
  true. The default aggregate has it, and the operation is never changed.
\<close>

definition agg_ok :: "aggregate \<Rightarrow> bool" where
  "agg_ok a \<longleftrightarrow>
     (case agg_distinct a of None \<Rightarrow> True | Some d \<Rightarrow> d \<and> (case agg_key a of Through _ \<Rightarrow> True | Direct _ \<Rightarrow> False))"

lemma agg_ok_default: "agg_ok (defaultAggregate kind table)"
  by (simp add: agg_ok_def defaultAggregate_def)

lemma edit_agg_ok: "agg_ok a \<Longrightarrow> agg_ok (edit_agg e a)"
  by (cases e) (auto simp: agg_ok_def set_key_def split: option.splits aggregate_key.splits aggregate_op.splits)

lemma withAggColumn_kind: "aggOpColumn (agg_op a) = Some c \<Longrightarrow>
    aggOpKind (withAggColumn (aggOpKind (agg_op a)) c') = aggOpKind (agg_op a)"
  by (simp add: withAggColumn_same)

lemma edit_agg_kind: "aggOpKind (agg_op (edit_agg e a)) = aggOpKind (agg_op a)"
  by (cases e) (auto simp: withAggColumn_kind set_key_def split: aggregate_op.splits aggregate_key.splits option.splits)

lemma edit_agg_kinds: "agg_ok (foldl (\<lambda>a e. edit_agg e a) (defaultAggregate kind table) es) \<and>
    aggOpKind (agg_op (foldl (\<lambda>a e. edit_agg e a) (defaultAggregate kind table) es)) = aggOpKind (defaultAggregateOp kind)"
proof (induction es rule: rev_induct)
  case Nil
  show ?case by (simp add: agg_ok_default) (simp add: defaultAggregate_def)
next
  case (snoc e es)
  then show ?case by (simp add: edit_agg_ok edit_agg_kind)
qed

section \<open>Variants of an enum\<close>

definition variants_of :: "column \<Rightarrow> string list" where
  "variants_of c = (case col_enum_order c of None \<Rightarrow> [] | Some vs \<Rightarrow> vs)"

definition commit_variants :: "string list \<Rightarrow> column \<Rightarrow> column" where
  "commit_variants nxt c = c\<lparr>col_enum_order := (if nxt \<noteq> [] then Some nxt else None)\<rparr>"

text \<open>The column and the draft behind it; a refused draft stays.\<close>

definition variants_add :: "string \<Rightarrow> column \<Rightarrow> column \<times> string" where
  "variants_add draft c =
     (let v = trim draft in
      if v = '''' \<or> v \<in> set (variants_of c) then (c, draft)
      else (commit_variants (variants_of c @ [v]) c, ''''))"

definition variants_rename :: "nat \<Rightarrow> string \<Rightarrow> column \<Rightarrow> column" where
  "variants_rename i v c = commit_variants ((variants_of c)[i := v]) c"

definition variants_remove :: "nat \<Rightarrow> column \<Rightarrow> column" where
  "variants_remove i c = commit_variants (without_index i (variants_of c)) c"

definition variants_move :: "nat \<Rightarrow> int \<Rightarrow> column \<Rightarrow> column" where
  "variants_move i delta c =
     (let vs = variants_of c; j = int i + delta in
      if j < 0 \<or> j \<ge> int (length vs) then c
      else commit_variants (vs[i := vs ! nat j, nat j := vs ! i]) c)"

lemma variants_of_commit [simp]: "variants_of (commit_variants vs c) = vs"
  by (simp add: variants_of_def commit_variants_def)

lemma variants_add_distinct:
  "distinct (variants_of c) \<Longrightarrow> '''' \<notin> set (variants_of c) \<Longrightarrow>
     distinct (variants_of (fst (variants_add draft c))) \<and> '''' \<notin> set (variants_of (fst (variants_add draft c)))"
  by (auto simp: variants_add_def Let_def)

text \<open>Moving only reorders, and moving back restores the column.\<close>

lemma variants_move_mset:
  assumes "i < length (variants_of c)"
  shows "mset (variants_of (variants_move i delta c)) = mset (variants_of c)"
  using assms by (auto simp: variants_move_def Let_def mset_swap nat_less_iff)

lemma commit_variants_id: "col_enum_order c \<noteq> Some [] \<Longrightarrow> commit_variants (variants_of c) c = c"
  by (cases "col_enum_order c") (auto simp: commit_variants_def variants_of_def)

lemma commit_variants_twice [simp]: "commit_variants vs (commit_variants us c) = commit_variants vs c"
  by (simp add: commit_variants_def)

lemma variants_move_back:
  assumes "Suc i < length (variants_of c)"
  shows "variants_move (Suc i) (- 1) (variants_move i 1 c) = c"
proof -
  let ?vs = "variants_of c"
  have "nat (int i + 1) = Suc i" by simp
  then have one: "variants_move i 1 c = commit_variants (?vs[i := ?vs ! Suc i, Suc i := ?vs ! i]) c"
    using assms by (simp add: variants_move_def Let_def)
  have "?vs[i := ?vs ! Suc i, Suc i := ?vs ! i, Suc i := ?vs ! Suc i, i := ?vs ! i] = ?vs"
    using assms by (auto intro!: nth_equalityI simp: nth_list_update)
  then have "variants_move (Suc i) (- 1) (variants_move i 1 c) = commit_variants ?vs c"
    using assms unfolding one by (simp add: variants_move_def Let_def)
  also have "\<dots> = c" using assms by (intro commit_variants_id) (auto simp: variants_of_def)
  finally show ?thesis .
qed

text \<open>Renaming has neither of the checks of adding.\<close>

lemma variants_rename_duplicate:
  assumes "i < length (variants_of c)" "j < length (variants_of c)" "i \<noteq> j"
  shows "\<not> distinct (variants_of (variants_rename i (variants_of c ! j) c))"
proof -
  let ?vs = "(variants_of c)[i := variants_of c ! j]"
  have "?vs ! i = ?vs ! j" using assms by simp
  then have "\<not> distinct ?vs" using assms by (metis length_list_update nth_eq_iff_index_eq)
  then show ?thesis by (simp add: variants_rename_def)
qed

section \<open>Columns\<close>

datatype column_edit =
    C_transform transform bool
  | C_type scalar
  | C_use flusso_type               \<comment> \<open>the button of the suggested type\<close>
  | C_add_variant string
  | C_rename_variant nat string
  | C_remove_variant nat
  | C_move_variant nat int
  | C_required bool
  | C_default "js option"
  | C_column string                 \<comment> \<open>shown for maps and custom types\<close>
  | C_map_values scalar
  | C_pg_types string
  | C_os_type string

definition transforms_of :: "column \<Rightarrow> transform list" where
  "transforms_of c = (case col_transforms c of None \<Rightarrow> [] | Some ts \<Rightarrow> ts)"

definition toggle_transform :: "transform \<Rightarrow> bool \<Rightarrow> column \<Rightarrow> column" where
  "toggle_transform tr on c =
     (let nxt = (if on then set_add tr (js_set (transforms_of c)) else set_delete tr (js_set (transforms_of c)))
      in c\<lparr>col_transforms := (if nxt \<noteq> [] then Some nxt else None)\<rparr>)"

text \<open>\<open>text.split(",").map(trim).filter(Boolean)\<close>, and the text the box shows.\<close>

definition pg_types :: "string \<Rightarrow> string list" where
  "pg_types s = filter (\<lambda>x. x \<noteq> '''') (map trim (split_char CHR '','' s))"

definition pg_text :: "string list \<Rightarrow> string" where
  "pg_text ts = join_with '', '' ts"

definition is_scalar_column :: "column \<Rightarrow> bool" where
  "is_scalar_column c \<longleftrightarrow> (case col_ty c of Scalar _ \<Rightarrow> True | _ \<Rightarrow> False)"

definition suggestion_shown :: "flusso_type option \<Rightarrow> column \<Rightarrow> bool" where
  "suggestion_shown suggested c \<longleftrightarrow> (case suggested of Some (Scalar t) \<Rightarrow> Scalar t \<noteq> col_ty c | _ \<Rightarrow> False)"

fun edit_column :: "column_edit \<Rightarrow> column \<Rightarrow> column" where
  "edit_column (C_transform tr on) c = (if is_scalar_column c then toggle_transform tr on c else c)"
| "edit_column (C_type t) c = (if is_scalar_column c then c\<lparr>col_ty := Scalar t\<rparr> else c)"
| "edit_column (C_use ty) c =
     (if is_scalar_column c \<and> suggestion_shown (Some ty) c then c\<lparr>col_ty := ty\<rparr> else c)"
| "edit_column (C_add_variant draft) c = (if col_ty c = Scalar Enum_t then fst (variants_add draft c) else c)"
| "edit_column (C_rename_variant i v) c = (if col_ty c = Scalar Enum_t then variants_rename i v c else c)"
| "edit_column (C_remove_variant i) c = (if col_ty c = Scalar Enum_t then variants_remove i c else c)"
| "edit_column (C_move_variant i d) c = (if col_ty c = Scalar Enum_t then variants_move i d c else c)"
| "edit_column (C_required req) c = c\<lparr>col_nullable := \<not> req\<rparr>"
| "edit_column (C_default d) c = c\<lparr>col_default := d\<rparr>"
| "edit_column (C_column x) c = (if is_scalar_column c then c else c\<lparr>col_column := x\<rparr>)"
| "edit_column (C_map_values t) c =
     (case col_ty c of Map_t _ \<Rightarrow> c\<lparr>col_ty := Map_t (Scalar t)\<rparr> | _ \<Rightarrow> c)"
| "edit_column (C_pg_types s) c =
     (case col_ty c of Custom_t _ os \<Rightarrow> c\<lparr>col_ty := Custom_t (pg_types s) os\<rparr> | _ \<Rightarrow> c)"
| "edit_column (C_os_type s) c =
     (case col_ty c of Custom_t pg _ \<Rightarrow> c\<lparr>col_ty := Custom_t pg s\<rparr> | _ \<Rightarrow> c)"

text \<open>The flags of the required and default pair, from the nullability of the source column.\<close>

definition must_default :: "bool option \<Rightarrow> column \<Rightarrow> bool" where
  "must_default srcNullable c \<longleftrightarrow> srcNullable = Some True \<and> \<not> col_nullable c"

definition default_missing :: "bool option \<Rightarrow> column \<Rightarrow> bool" where
  "default_missing srcNullable c \<longleftrightarrow> must_default srcNullable c \<and> col_default c = None"

definition show_default :: "bool option \<Rightarrow> column \<Rightarrow> bool" where
  "show_default srcNullable c \<longleftrightarrow> must_default srcNullable c \<or> col_default c \<noteq> None"

definition from_source :: "bool option \<Rightarrow> column \<Rightarrow> bool" where
  "from_source srcNullable c \<longleftrightarrow> srcNullable = Some False \<and> \<not> col_nullable c"

lemma col_ty_variants [simp]:
  "col_ty (commit_variants vs c) = col_ty c" "col_column (commit_variants vs c) = col_column c"
  "col_ty (fst (variants_add d c)) = col_ty c" "col_ty (variants_rename i v c) = col_ty c"
  "col_ty (variants_remove i c) = col_ty c" "col_ty (variants_move i j c) = col_ty c"
  "col_ty (toggle_transform tr on c) = col_ty c"
  by (simp_all add: commit_variants_def variants_add_def variants_rename_def variants_remove_def variants_move_def
      toggle_transform_def Let_def)

text \<open>A column stays scalar, a map or custom, whatever is edited.\<close>

definition ty_family :: "flusso_type \<Rightarrow> string" where
  "ty_family ty = (case ty of Scalar _ \<Rightarrow> '''' | Map_t _ \<Rightarrow> ''map'' | Custom_t _ _ \<Rightarrow> ''custom'')"

lemma edit_column_class: "ty_family (col_ty (edit_column e c)) = ty_family (col_ty c)"
  by (cases e; cases "col_ty c")
     (auto simp: ty_family_def is_scalar_column_def suggestion_shown_def split: flusso_type.splits)

text \<open>The transforms are a set; a toggle adds or removes one and touches no other.\<close>

lemma transforms_of_set [simp]:
  "transforms_of (c\<lparr>col_transforms := x\<rparr>) = (case x of None \<Rightarrow> [] | Some ts \<Rightarrow> ts)"
  by (simp add: transforms_of_def)

lemma toggle_transform_list:
  "transforms_of (toggle_transform tr on c) =
     (if on then set_add tr (js_set (transforms_of c)) else set_delete tr (js_set (transforms_of c)))"
  by (simp add: toggle_transform_def Let_def)

lemma toggle_transform_set:
  "set (transforms_of (toggle_transform tr on c)) =
     (if on then insert tr (set (transforms_of c)) else set (transforms_of c) - {tr})"
  by (simp add: toggle_transform_list)

lemma toggle_transform_never_empty: "col_transforms (toggle_transform tr on c) \<noteq> Some []"
  by (auto simp: toggle_transform_def Let_def)

text \<open>A list of types comes back from its own text, but the comma in front of a next one does not.\<close>

definition clean_type :: "string \<Rightarrow> bool" where
  "clean_type x \<longleftrightarrow> x \<noteq> '''' \<and> CHR '','' \<notin> set x \<and> trim x = x"

lemma trim_space: "is_space c \<Longrightarrow> trim (c # s) = trim s"
  by (simp add: trim_def)

lemma pg_types_split: "pg_types (u @ CHR '','' # v) = pg_types u @ pg_types v"
  by (simp add: pg_types_def split_char_join_parts)

lemma pg_types_one: "clean_type x \<Longrightarrow> pg_types x = [x]"
  by (simp add: clean_type_def pg_types_def split_char_no_sep)

lemma pg_types_space: "is_space c \<Longrightarrow> c \<noteq> CHR '','' \<Longrightarrow> pg_types (c # s) = pg_types s"
  by (cases "split_char CHR '','' s") (auto simp: pg_types_def trim_space)

lemma is_space_blank [simp]: "is_space CHR '' ''"
  by (simp add: is_space_def code_unit_def)

lemma pg_types_text: "list_all clean_type ts \<Longrightarrow> pg_types (pg_text ts) = ts"
proof (induction ts rule: induct_list012)
  case 1
  show ?case by (simp add: pg_text_def pg_types_def trim_def)
next
  case (2 x)
  then show ?case by (simp add: pg_text_def pg_types_one)
next
  case (3 x y ts)
  then have "pg_types (pg_text (y # ts)) = y # ts" by simp
  then show ?case
    using 3 pg_types_split [of x "CHR '' '' # pg_text (y # ts)"]
    by (simp add: pg_text_def pg_types_space pg_types_one)
qed

lemma pg_types_comma: "list_all clean_type ts \<Longrightarrow> pg_types (pg_text ts @ '','') = ts"
  using pg_types_split [of "pg_text ts" "''''"] pg_types_text [of ts]
  by (simp add: pg_types_def trim_def)

section \<open>Options\<close>

definition string_seed :: js where
  "string_seed = JObj [(''String'', JStr '''')]"

definition KNOBS :: "(string \<times> js) list" where
  "KNOBS =
     [(''analyzer'', string_seed), (''search_analyzer'', string_seed),
      (''boost'', JObj [(''Double'', JNum (Fin 1))]), (''null_value'', string_seed),
      (''copy_to'', string_seed), (''scaling_factor'', JObj [(''Double'', JNum (Fin 100))])]"

definition options_of :: "field \<Rightarrow> js jobj" where
  "options_of f = (case f_options f of None \<Rightarrow> [] | Some os \<Rightarrow> os)"

definition with_options :: "field \<Rightarrow> js jobj option \<Rightarrow> field" where
  "with_options f os = Field (f_field f) os (f_source f)"

definition available_knobs :: "field \<Rightarrow> (string \<times> js) list" where
  "available_knobs f = filter (\<lambda>(k, _). \<not> has_key (options_of f) k) KNOBS"

definition setOpt :: "string \<Rightarrow> js \<Rightarrow> field \<Rightarrow> field" where
  "setOpt key v f = with_options f (Some (obj_put (options_of f) key v))"

definition renameOpt :: "string \<Rightarrow> string \<Rightarrow> field \<Rightarrow> field" where
  "renameOpt oldKey newKey f =
     with_options f (Some (obj_of (map (\<lambda>(k, v). (if k = oldKey then newKey else k, v)) (options_of f))))"

definition removeOpt :: "string \<Rightarrow> field \<Rightarrow> field" where
  "removeOpt key f =
     (let nxt = obj_delete (options_of f) key in with_options f (if nxt \<noteq> [] then Some nxt else None))"

definition addOpt :: "field \<Rightarrow> field" where
  "addOpt f = setOpt (''option'' @ show_nat (Suc (length (options_of f)))) string_seed f"

lemma with_options_simps [simp]:
  "f_field (with_options f os) = f_field f" "f_source (with_options f os) = f_source f"
  "f_options (with_options f os) = os"
  by (simp_all add: with_options_def)

lemma options_of_edits [simp]:
  "options_of (setOpt key v f) = obj_put (options_of f) key v"
  "options_of (renameOpt a b f) = obj_of (map (\<lambda>(k, v). (if k = a then b else k, v)) (options_of f))"
  "options_of (removeOpt key f) = obj_delete (options_of f) key"
  by (simp_all add: options_of_def setOpt_def renameOpt_def removeOpt_def Let_def)

text \<open>An option added and removed again leaves the options as they were.\<close>

lemma obj_delete_put:
  assumes "\<not> has_key ob k"
  shows "obj_delete (obj_put ob k v) k = ob"
proof -
  have absent: "filter (\<lambda>(k', v'). k' \<noteq> k) xs = xs" if "set xs \<subseteq> set ob" for xs
    using that assms by (auto simp: filter_id_conv has_key_iff obj_keys_def) (metis fst_conv image_eqI subsetD)
  have "set (takeWhile P ob) \<subseteq> set ob" "set (dropWhile P ob) \<subseteq> set ob" for P
    by (auto dest: set_takeWhileD set_dropWhileD)
  then show ?thesis
    using assms absent by (simp add: obj_put_def obj_delete_def)
qed

lemma knob_add_remove:
  assumes "(k, seed) \<in> set (available_knobs f)" and "f_options f \<noteq> Some []"
  shows "removeOpt k (setOpt k seed f) = f"
proof -
  have "obj_delete (obj_put (options_of f) k seed) k = options_of f"
    using assms(1) by (intro obj_delete_put) (auto simp: available_knobs_def)
  then show ?thesis
    using assms(2) by (cases f) (auto simp: removeOpt_def Let_def with_options_def setOpt_def options_of_def split: option.splits)
qed

lemma map_of_rev_keys: "distinct (map fst es) \<Longrightarrow> map_of (rev es) k = map_of es k"
  using map_of_inject_set [of "rev es" es] by (simp add: rev_map [symmetric])

lemma obj_keys_of: "set (obj_keys (obj_of es)) = fst ` set es"
proof -
  have "k \<in> set (obj_keys (obj_of es)) \<longleftrightarrow> k \<in> fst ` set es" for k
    unfolding has_key_iff [symmetric] has_key_def obj_get_of by (simp add: map_of_eq_None_iff)
  then show ?thesis by blast
qed

text \<open>A renaming to a key that is not there moves the value and keeps the order of the others.\<close>

lemma renameOpt_fresh:
  assumes "obj_wf (options_of f)" "\<not> has_key (options_of f) b" "obj_get (options_of f) a = Some v"
  shows "obj_get (options_of (renameOpt a b f)) k =
    (if k = b then Some v else if k = a then None else obj_get (options_of f) k)"
proof -
  let ?es = "options_of f"
  let ?ren = "\<lambda>(k, v). (if k = a then b else k, v)"
  have fst: "map fst (map ?ren ?es) = map (\<lambda>k. if k = a then b else k) (map fst ?es)" by auto
  have wf: "distinct (map fst ?es)" and b: "b \<notin> set (map fst ?es)"
    using assms by (simp_all add: obj_wf_def obj_keys_def has_key_iff)
  then have "inj_on (\<lambda>k. if k = a then b else k) (set (map fst ?es))" by (auto simp: inj_on_def)
  then have d: "distinct (map fst (map ?ren ?es))" unfolding fst using wf by (simp add: distinct_map del: map_map)
  have get: "obj_get (options_of (renameOpt a b f)) k = map_of (map ?ren ?es) k"
    by (simp add: obj_get_of map_of_rev_keys d del: map_map)
  have a: "(a, v) \<in> set ?es" using assms(3) by (rule obj_get_mem)
  have ab: "a \<noteq> b" using a b by force
  show ?thesis
  proof (cases "map_of (map ?ren ?es) k")
    case None
    then have none: "k \<notin> fst ` set (map ?ren ?es)" unfolding map_of_eq_None_iff .
    have mem: "(if k0 = a then b else k0) \<in> fst ` set (map ?ren ?es)" if "(k0, w) \<in> set ?es" for k0 w
    proof -
      have "((if k0 = a then b else k0), w) \<in> set (map ?ren ?es)" unfolding set_map using that by (rule rev_image_eqI) simp
      then show ?thesis by (rule rev_image_eqI) simp
    qed
    have "b \<in> fst ` set (map ?ren ?es)" using mem [OF a] by (simp only: simp_thms if_True)
    then have "k \<noteq> b" using none by blast
    moreover have "obj_get ?es k = None" if ka: "k \<noteq> a"
    proof (rule ccontr)
      assume "obj_get ?es k \<noteq> None"
      then obtain w where "obj_get ?es k = Some w" by (cases "obj_get ?es k") simp_all
      then have "(k, w) \<in> set ?es" by (rule obj_get_mem)
      from mem [OF this] show False using none ka by (simp only: if_False simp_thms)
    qed
    ultimately show ?thesis unfolding get None by simp
  next
    case (Some w)
    then obtain k0 where k0: "(k0, w) \<in> set ?es" "k = (if k0 = a then b else k0)" by (auto dest!: map_of_SomeD)
    have w: "obj_get ?es k0 = Some w" by (rule obj_get_in [OF assms(1) k0(1)])
    have "k0 \<noteq> b" using k0(1) b by force
    then show ?thesis unfolding get Some using k0(2) w assms(3) ab by (cases "k0 = a") simp_all
  qed
qed

text \<open>Renaming onto a key that is there loses one of the two values.\<close>

lemma renameOpt_onto:
  assumes "a \<noteq> b" "has_key (options_of f) a" "has_key (options_of f) b"
  shows "card (set (obj_keys (options_of (renameOpt a b f)))) < card (set (obj_keys (options_of f)))"
proof -
  let ?K = "set (obj_keys (options_of f))"
  have "set (obj_keys (options_of (renameOpt a b f))) = (\<lambda>k. if k = a then b else k) ` ?K"
    unfolding options_of_edits obj_keys_of unfolding obj_keys_def set_map image_image
    by (intro image_cong refl) (simp add: case_prod_unfold)
  also have "\<dots> \<subseteq> ?K - {a}" using assms by (auto simp: has_key_iff)
  finally have "set (obj_keys (options_of (renameOpt a b f))) \<subseteq> ?K - {a}" .
  then have "card (set (obj_keys (options_of (renameOpt a b f)))) \<le> card (?K - {a})" by (intro card_mono) auto
  also have "\<dots> < card ?K" using assms(2) by (intro card_Diff1_less) (auto simp: has_key_iff)
  finally show ?thesis .
qed

text \<open>The name a new option gets may be that of an option which then loses its value.\<close>

lemma addOpt_overwrites:
  assumes "has_key (options_of f) (''option'' @ show_nat (Suc (length (options_of f))))"
  shows "obj_keys (options_of (addOpt f)) = obj_keys (options_of f)"
  using assms keys_overwrite by (simp add: addOpt_def obj_put_def obj_keys_def del: map_map)

section \<open>Suggested names\<close>

text \<open>\<open>toUpperCase\<close> of one code unit: three of them leave the modelled range or grow.\<close>

definition to_upper_char :: "char \<Rightarrow> string res" where
  "to_upper_char c =
     (let n = code_unit c in
      if (97 \<le> n \<and> n \<le> 122) \<or> (224 \<le> n \<and> n \<le> 254 \<and> n \<noteq> 247) then Inr [char_of (n - 32)]
      else if n = 223 then Inr ''SS''
      else if n = 181 \<or> n = 255 then Inl Unrepresentable
      else Inr [c])"

definition is_sep :: "char \<Rightarrow> bool" where
  "is_sep c \<longleftrightarrow> c = CHR ''_'' \<or> is_space c"

text \<open>
  \<open>s.replace(/[_\s]+(.)/g, \<dots>)\<close>: a run of separators takes the next character. A run at the end of
  the text gives back its last character that is no line end, if that is not its first.
\<close>

definition trailing_run :: "char \<Rightarrow> string \<Rightarrow> string" where
  "trailing_run c run =
     (let ends = length (takeWhile is_line_end (rev run)) in
      if ends = length run then c # run else drop (length run - Suc ends) run)"

function camel_join :: "string \<Rightarrow> string res" where
  "camel_join [] = Inr []"
| "camel_join (c # s) =
     (if is_sep c then
        (case dropWhile is_sep s of
           [] \<Rightarrow> Inr (trailing_run c s)
         | d # t \<Rightarrow> bind_res (to_upper_char d) (\<lambda>u. map_res (append u) (camel_join t)))
      else map_res (Cons c) (camel_join s))"
  by pat_completeness auto
termination
proof (relation "measure length")
  fix c s d t
  assume "dropWhile is_sep s = d # t"
  then have "Suc (length t) \<le> length s" by (metis length_Cons length_dropWhile_le)
  then show "(t, c # s) \<in> measure length" by simp
qed simp_all

fun lower_first :: "string \<Rightarrow> string" where
  "lower_first (c # s) = (if is_line_end c then c else to_lower_char c) # s"
| "lower_first [] = []"

definition camel :: "string \<Rightarrow> string res" where
  "camel s = map_res lower_first (camel_join s)"

definition pascal :: "string \<Rightarrow> string res" where
  "pascal s =
     bind_res (camel s) (\<lambda>c. case c of [] \<Rightarrow> Inr [] | x # r \<Rightarrow> map_res (\<lambda>u. u @ r) (to_upper_char x))"

text \<open>\<open>singular\<close> and \<open>plural\<close> are the package \<open>pluralize\<close>.\<close>

definition agg_suggestions :: "(string \<Rightarrow> string) \<Rightarrow> aggregate \<Rightarrow> string list res" where
  "agg_suggestions singular agg =
     (let op = aggOpKind (agg_op agg);
          col = (case aggOpColumn (agg_op agg) of Some c \<Rightarrow> c | None \<Rightarrow> '''') in
      if op = ''count'' then
        bind_res (camel (singular (agg_table agg))) (\<lambda>a.
        map_res (\<lambda>b. [a @ ''Count'', b @ ''Count'']) (camel (agg_table agg)))
      else if op = ''ids'' then map_res (\<lambda>a. [a @ ''Ids'']) (camel (singular (agg_table agg)))
      else if col \<noteq> '''' then
        bind_res (camel col) (\<lambda>a. map_res (\<lambda>p. [a, a @ p]) (pascal op))
      else Inr [])"

definition nameSuggestions :: "(string \<Rightarrow> string) \<Rightarrow> (string \<Rightarrow> string) \<Rightarrow> field \<Rightarrow> string list res" where
  "nameSuggestions singular plural f =
     (case f_source f of
        Column_s c \<Rightarrow> map_res (\<lambda>x. [col_column c, x]) (camel (col_column c))
      | Geo_s g \<Rightarrow> map_res (\<lambda>x. [''location'', ''coordinates'', x]) (camel (geo_lat g))
      | Constant_s _ \<Rightarrow> Inr []
      | Relation_s (Join_r j _) \<Rightarrow>
          (let base = (if to_many j then plural (j_table j) else singular (j_table j)) in
           map_res (\<lambda>x. js_set [x, base, j_table j]) (camel base))
      | Relation_s (Aggregate_r a) \<Rightarrow> agg_suggestions singular a
      | Group_s _ \<Rightarrow> Inr [])"

fun first_occurrences :: "string list \<Rightarrow> string list \<Rightarrow> string list" where
  "first_occurrences seen [] = []"
| "first_occurrences seen (x # xs) =
     (if x \<in> set seen then first_occurrences seen xs else x # first_occurrences (x # seen) xs)"

definition name_chips :: "string \<Rightarrow> string list \<Rightarrow> string list" where
  "name_chips current names =
     take 3 (filter (\<lambda>n. n \<noteq> '''' \<and> n \<noteq> current) (first_occurrences [] names))"

lemma first_occurrences_distinct:
  "distinct (first_occurrences seen xs) \<and> set (first_occurrences seen xs) = set xs - set seen"
  by (induction seen xs rule: first_occurrences.induct) auto

text \<open>The chips: at most three, different, none empty and none the name the field has.\<close>

lemma name_chips_ok:
  "length (name_chips current names) \<le> 3 \<and> distinct (name_chips current names) \<and>
   set (name_chips current names) \<subseteq> set names - {'''', current}"
proof -
  let ?ns = "filter (\<lambda>n. n \<noteq> '''' \<and> n \<noteq> current) (first_occurrences [] names)"
  have "distinct ?ns" "set ?ns = set names - {'''', current}"
    using first_occurrences_distinct [of "[]" names] by auto
  then show ?thesis
    unfolding name_chips_def using set_take_subset [of 3 ?ns] distinct_take [of ?ns 3] by simp
qed

lemma camel_plain: "list_all (\<lambda>c. \<not> is_sep c) s \<Longrightarrow> camel s = Inr (lower_first s)"
proof -
  assume "list_all (\<lambda>c. \<not> is_sep c) s"
  then have "camel_join s = Inr s" by (induction s) auto
  then show ?thesis by (simp add: camel_def)
qed

section \<open>A leaf\<close>

datatype leaf_edit =
    L_name string
  | L_column column_edit
  | L_lat string
  | L_lon string
  | L_geo_required bool
  | L_constant js
  | L_aggregate agg_edit
  | L_set_option string js
  | L_rename_option string string
  | L_remove_option string
  | L_add_option

definition nullish_null :: "js \<Rightarrow> js" where
  "nullish_null v = (if v = JUndef \<or> v = JNull then JStr ''Null'' else v)"

fun edit_leaf :: "leaf_edit \<Rightarrow> field \<Rightarrow> field" where
  "edit_leaf (L_name n) f = with_name f n"
| "edit_leaf (L_column e) f =
     (case f_source f of Column_s c \<Rightarrow> with_source f (Column_s (edit_column e c)) | _ \<Rightarrow> f)"
| "edit_leaf (L_lat c) f =
     (case f_source f of Geo_s g \<Rightarrow> with_source f (Geo_s (g\<lparr>geo_lat := c\<rparr>)) | _ \<Rightarrow> f)"
| "edit_leaf (L_lon c) f =
     (case f_source f of Geo_s g \<Rightarrow> with_source f (Geo_s (g\<lparr>geo_lon := c\<rparr>)) | _ \<Rightarrow> f)"
| "edit_leaf (L_geo_required req) f =
     (case f_source f of Geo_s g \<Rightarrow> with_source f (Geo_s (g\<lparr>geo_nullable := \<not> req\<rparr>)) | _ \<Rightarrow> f)"
| "edit_leaf (L_constant v) f =
     (case f_source f of Constant_s _ \<Rightarrow> with_source f (Constant_s (nullish_null v)) | _ \<Rightarrow> f)"
| "edit_leaf (L_aggregate e) f =
     (case f_source f of
        Relation_s (Aggregate_r a) \<Rightarrow> with_source f (Relation_s (Aggregate_r (edit_agg e a)))
      | _ \<Rightarrow> f)"
| "edit_leaf (L_set_option k v) f = setOpt k v f"
| "edit_leaf (L_rename_option a b) f = renameOpt a b f"
| "edit_leaf (L_remove_option k) f = removeOpt k f"
| "edit_leaf L_add_option f = addOpt f"

fun edit_node_field :: "join_edit \<Rightarrow> field \<Rightarrow> field" where
  "edit_node_field e (Field n opts (Relation_s (Join_r j fs))) = Field n opts (Relation_s (Join_r (edit_join e j) fs))"
| "edit_node_field e f = f"

lemma childFields_option_edits [simp]:
  "childFields (with_options f os) = childFields f" "childFields (with_name f n) = childFields f"
  by (cases f rule: childFields.cases; simp add: with_options_def with_name_def)+

text \<open>
  What the form may and may not do to a leaf: it changes no child fields, it shows the same help
  afterwards, so the same body, and it keeps the invariant of an aggregate.
\<close>

definition leaf_ok :: "field \<Rightarrow> bool" where
  "leaf_ok f \<longleftrightarrow> (case f_source f of Relation_s (Aggregate_r a) \<Rightarrow> agg_ok a | _ \<Rightarrow> True)"

lemma edit_leaf_children: "childFields (edit_leaf e f) = childFields f"
  by (cases e; cases f rule: childFields.cases)
     (simp_all add: with_source_def setOpt_def renameOpt_def removeOpt_def addOpt_def Let_def)

lemma fieldHelpKind_column: "fieldHelpKind (Column_s c) = ty_family (col_ty c)"
  by (simp add: ty_family_def)

lemma edit_leaf_body: "fieldHelpKind (f_source (edit_leaf e f)) = fieldHelpKind (f_source f)"
  by (cases e; cases f rule: fieldKind.cases)
     (simp_all add: setOpt_def renameOpt_def removeOpt_def addOpt_def Let_def edit_agg_kind fieldHelpKind_column
        edit_column_class del: fieldHelpKind.simps(3))

lemma edit_leaf_ok: "leaf_ok f \<Longrightarrow> leaf_ok (edit_leaf e f)"
  by (cases e; cases f rule: fieldKind.cases)
     (simp_all add: leaf_ok_def setOpt_def renameOpt_def removeOpt_def addOpt_def Let_def edit_agg_ok)

lemma edit_node_field_children: "childFields (edit_node_field e f) = childFields f"
  by (cases "(e, f)" rule: edit_node_field.cases) simp_all

end
