(* ===== verification/Inspector_Panel.thy ===== *)
theory Inspector_Panel
  imports Inspector Node_View App_Shell Issues
begin

text \<open>
  \<^verbatim>\<open>components/Inspector.tsx\<close>, the panels: what is selected decides which form is shown, and the
  form's edits go through \<open>model/edit.ts\<close> into the active schema. The lemmas are about the panels
  as a whole: an edit of a form never changes the tree, the header's copy is what gets selected,
  the bulk panel does what its buttons count, and the form and the catalog checks agree.
\<close>

section \<open>The header\<close>

definition crumbs :: "index_schema \<Rightarrow> selection option \<Rightarrow> string list" where
  "crumbs schema sel =
     (let top = (if s_table schema \<noteq> '''' then s_table schema else ''(root)'') in
      case sel of
        None \<Rightarrow> []
      | Some (Field_sel path i) \<Rightarrow>
          top # pathLabels schema path @ [case js_get (nodeFields schema path) i of Some f \<Rightarrow> f_field f | None \<Rightarrow> ''?'']
      | Some (Node_sel path) \<Rightarrow> top # pathLabels schema path
      | Some _ \<Rightarrow> [top])"

definition canModify :: "selection \<Rightarrow> bool" where
  "canModify sel \<longleftrightarrow> (case sel of Node_sel path \<Rightarrow> path \<noteq> [] | Field_sel _ _ \<Rightarrow> True | _ \<Rightarrow> False)"

definition header_duplicate :: "design_state \<Rightarrow> design_state res" where
  "header_duplicate s =
     (case ds_selection s of
        Some (Node_sel path) \<Rightarrow>
          apply_select (\<lambda>sc. duplicateNode sc path) (\<lambda>_. Some (Node_sel (butlast path @ [Suc (last path)]))) s
      | Some (Field_sel path i) \<Rightarrow>
          apply_select (\<lambda>sc. duplicateAt sc path i) (\<lambda>_. Some (Field_sel path (Suc i))) s
      | _ \<Rightarrow> Inr s)"

definition header_remove :: "design_state \<Rightarrow> design_state res" where
  "header_remove s =
     (case ds_selection s of
        Some (Node_sel path) \<Rightarrow> apply_select (\<lambda>sc. removeNode sc path) (\<lambda>_. None) s
      | Some (Field_sel path i) \<Rightarrow> apply_select (\<lambda>sc. removeAt sc path i) (\<lambda>_. None) s
      | _ \<Rightarrow> Inr (setSelection None s))"

section \<open>The forms\<close>

text \<open>The schema is the one the panel was drawn from; a form whose field is gone has no controls.\<close>

definition edit_field :: "index_schema \<Rightarrow> path \<Rightarrow> nat \<Rightarrow> leaf_edit \<Rightarrow> index_schema \<Rightarrow> index_schema res" where
  "edit_field drawn path i e sc =
     (case js_get (nodeFields drawn path) i of
        None \<Rightarrow> Inr sc
      | Some f \<Rightarrow> setLeaf sc path i (edit_leaf e f))"

definition edit_join_at :: "index_schema \<Rightarrow> path \<Rightarrow> join_edit \<Rightarrow> index_schema \<Rightarrow> index_schema res" where
  "edit_join_at drawn path e sc =
     (case fieldAtPath drawn path of
        None \<Rightarrow> Inr sc
      | Some f \<Rightarrow> setNode sc path (edit_node_field e f))"

definition rename_node :: "index_schema \<Rightarrow> path \<Rightarrow> string \<Rightarrow> index_schema \<Rightarrow> index_schema res" where
  "rename_node drawn path n sc =
     (case fieldAtPath drawn path of None \<Rightarrow> Inr sc | Some f \<Rightarrow> setNode sc path (with_name f n))"

datatype root_edit =
    R_table string
  | R_db_schema string
  | R_primary_key string
  | R_soft_delete "soft_delete option"
  | R_filters "filter list option"

fun edit_root :: "root_edit \<Rightarrow> index_schema \<Rightarrow> index_schema" where
  "edit_root (R_table t) sc = setRootMeta sc \<lparr>rp_table = Some t, rp_db_schema = None, rp_primary_key = None\<rparr>"
| "edit_root (R_db_schema d) sc = setRootMeta sc \<lparr>rp_table = None, rp_db_schema = Some d, rp_primary_key = None\<rparr>"
| "edit_root (R_primary_key pk) sc =
     setRootMeta sc \<lparr>rp_table = None, rp_db_schema = None,
       rp_primary_key = Some (if pk \<noteq> '''' then Some pk else None)\<rparr>"
| "edit_root (R_soft_delete sd) sc = sc\<lparr>s_soft_delete := sd\<rparr>"
| "edit_root (R_filters fs) sc = sc\<lparr>s_filters := fs\<rparr>"

text \<open>The catalog's word on the source column, \<^const>\<open>None\<close> when it is not known.\<close>

definition source_column :: "catalog_response option \<Rightarrow> string \<Rightarrow> string \<Rightarrow> column_shape option" where
  "source_column catalog table name =
     (if name = '''' then None else find (\<lambda>c. cs_name c = name) (columnsFor catalog table))"

definition src_nullable :: "catalog_response option \<Rightarrow> string \<Rightarrow> column \<Rightarrow> bool option" where
  "src_nullable catalog table c = map_option cs_nullable (source_column catalog table (col_column c))"

definition fk_nullable_of :: "catalog_response option \<Rightarrow> index_schema \<Rightarrow> path \<Rightarrow> join \<Rightarrow> bool option" where
  "fk_nullable_of catalog schema path j =
     (case j_kind j of
        Belongs_to c \<Rightarrow> map_option cs_nullable (source_column catalog (effectiveTable schema (butlast path)) c)
      | _ \<Rightarrow> None)"

section \<open>The bulk panel\<close>

definition row_name :: "field \<Rightarrow> string" where
  "row_name f = (case scalar_column f of Some c \<Rightarrow> c | None \<Rightarrow> f_field f)"

definition shape_of :: "column_shape list \<Rightarrow> string \<Rightarrow> column_shape option" where
  "shape_of cols n = find (\<lambda>c. cs_name c = n) (rev cols)"

definition toInclude :: "column_shape list \<Rightarrow> index_schema \<Rightarrow> path \<Rightarrow> string list \<Rightarrow> string list" where
  "toInclude cols schema path names =
     filter (\<lambda>n. shape_of cols n \<noteq> None \<and> n \<notin> row_name ` set (nodeFields schema path)) names"

definition toRemove :: "index_schema \<Rightarrow> path \<Rightarrow> string list \<Rightarrow> string list" where
  "toRemove schema path names = filter (\<lambda>n. n \<in> row_name ` set (nodeFields schema path)) names"

definition shape_spec :: "column_shape list \<Rightarrow> string \<Rightarrow> column_spec" where
  "shape_spec cols n =
     \<lparr>cp_name = n,
      cp_ty = (case shape_of cols n of Some c \<Rightarrow> cs_suggested_type c | None \<Rightarrow> None),
      cp_nullable = map_option cs_nullable (shape_of cols n)\<rparr>"

definition includeAll :: "column_shape list \<Rightarrow> index_schema \<Rightarrow> path \<Rightarrow> string list \<Rightarrow> index_schema \<Rightarrow> index_schema res" where
  "includeAll cols drawn path names sc =
     includeColumns sc path (map (shape_spec cols) (toInclude cols drawn path names))"

definition removeAll :: "path \<Rightarrow> string list \<Rightarrow> design_state \<Rightarrow> design_state res" where
  "removeAll path names = apply_select (\<lambda>sc. removeFields sc path names) (\<lambda>_. None)"

section \<open>The tree is never touched\<close>

text \<open>Two lists of fields of one shape: the same paths lead to containers.\<close>

definition same_shape :: "field list \<Rightarrow> field list \<Rightarrow> bool" where
  "same_shape fs gs \<longleftrightarrow> length fs = length gs \<and> (\<forall>p. live_in fs p = live_in gs p)"

lemma same_shape_refl [simp]: "same_shape fs fs"
  by (simp add: same_shape_def)

lemma live_in_update:
  assumes "idx < length fs" "\<And>q. live_in (child_list f) q = live_in (child_list (fs ! idx)) q"
    and "is_container f = is_container (fs ! idx)"
  shows "live_in (fs[idx := f]) p = live_in fs p"
  using assms by (cases p) (auto simp: path_simps js_get_def nth_list_update)

lemma same_shape_update:
  assumes "idx < length fs" "childFields f = childFields (fs ! idx)"
  shows "same_shape (fs[idx := f]) fs"
  using assms by (simp add: same_shape_def live_in_update is_container_def child_list_def)

lemma rebuild_same_shape:
  "live_in fs path \<Longrightarrow> rebuild new fs path = Inr fs' \<Longrightarrow> same_shape new (walk_fields fs path) \<Longrightarrow> same_shape fs' fs"
proof (induction path arbitrary: fs fs')
  case (Cons i p)
  then obtain f x where f: "js_get fs i = Some f" "is_container f" "live_in (child_list f) p"
    and x: "rebuild new (child_list f) p = Inr x" and fs': "fs' = fs[i := setChildFields f x]"
    by (auto simp: path_simps)
  have "same_shape x (child_list f)"
    using Cons.IH [OF f(3) x] Cons.prems(3) f(1) by (simp add: path_simps)
  then show ?case
    using f unfolding fs' same_shape_def by (auto simp: js_get_eq_Some live_in_update)
qed (simp add: path_simps)

lemma withNodeFields_same_shape:
  assumes "live_path sc path" "withNodeFields sc path new = Inr sc'" "same_shape new (nodeFields sc path)"
  shows "live_path sc' p = live_path sc p"
proof -
  have "same_shape (s_fields sc') (s_fields sc)"
  proof (cases "path = []")
    case False
    then obtain fs' where "rebuild new (s_fields sc) path = Inr fs'" "sc' = sc\<lparr>s_fields := fs'\<rparr>"
      using assms(2) by (auto simp: withNodeFields_def)
    then show ?thesis
      using rebuild_same_shape [of "s_fields sc" path new fs'] assms(1,3) by (simp add: live_path_def nodeFields_def)
  qed (use assms in \<open>auto simp: withNodeFields_def nodeFields_def\<close>)
  then show ?thesis by (simp add: same_shape_def live_path_def)
qed

text \<open>
  A field set in place of one with the same child fields: the edit succeeds, every path is as live
  as before, and of the node's fields only this one changes.
\<close>

lemma setLeaf_in_place:
  assumes live: "live_path sc path" and i: "i < length (nodeFields sc path)"
    and same: "childFields f = childFields (nodeFields sc path ! i)"
  shows "\<exists>sc'. setLeaf sc path i f = Inr sc' \<and> nodeFields sc' path = (nodeFields sc path)[i := f] \<and>
    (\<forall>p. live_path sc' p = live_path sc p)"
proof -
  obtain sc' where sc': "withNodeFields sc path ((nodeFields sc path)[i := f]) = Inr sc'"
      "nodeFields sc' path = (nodeFields sc path)[i := f]"
    using tree.replace_total [OF live] tree.fetch_replace [OF live] by meson
  moreover have "live_path sc' p = live_path sc p" for p
    by (rule withNodeFields_same_shape [OF live sc'(1) same_shape_update [OF i same]])
  ultimately show ?thesis using i by (simp add: setLeaf_def js_store_in_range)
qed

lemma edit_field_in_place:
  assumes "live_path sc path" "i < length (nodeFields sc path)"
  shows "\<exists>sc'. edit_field sc path i e sc = Inr sc' \<and>
    nodeFields sc' path = (nodeFields sc path)[i := edit_leaf e (nodeFields sc path ! i)] \<and>
    (\<forall>p. live_path sc' p = live_path sc p)"
  using setLeaf_in_place [OF assms edit_leaf_children [of e "nodeFields sc path ! i"]] assms(2)
  by (simp add: edit_field_def js_get_def)

text \<open>
  A run of edits, the form drawn anew from the schema after each. It cannot fail; the field keeps its
  body and its invariant, its siblings and the tree are as they were.
\<close>

fun edit_fields :: "path \<Rightarrow> nat \<Rightarrow> leaf_edit list \<Rightarrow> index_schema \<Rightarrow> index_schema res" where
  "edit_fields path i [] sc = Inr sc"
| "edit_fields path i (e # es) sc = bind_res (edit_field sc path i e sc) (edit_fields path i es)"

lemma edit_fields_run:
  assumes "live_path sc path" "i < length (nodeFields sc path)"
  shows "\<exists>sc'. edit_fields path i es sc = Inr sc' \<and>
    nodeFields sc' path = (nodeFields sc path)[i := fold edit_leaf es (nodeFields sc path ! i)] \<and>
    (\<forall>p. live_path sc' p = live_path sc p)"
  using assms
proof (induction es arbitrary: sc)
  case (Cons e es)
  obtain sc1 where sc1: "edit_field sc path i e sc = Inr sc1"
      "nodeFields sc1 path = (nodeFields sc path)[i := edit_leaf e (nodeFields sc path ! i)]"
      "\<forall>p. live_path sc1 p = live_path sc p"
    using edit_field_in_place [OF Cons.prems] by blast
  then have "live_path sc1 path" "i < length (nodeFields sc1 path)" using Cons.prems by simp_all
  from Cons.IH [OF this] show ?case using sc1 Cons.prems by simp
qed simp

lemma fold_edit_leaf:
  "childFields (fold edit_leaf es f) = childFields f"
  "fieldHelpKind (f_source (fold edit_leaf es f)) = fieldHelpKind (f_source f)"
  "leaf_ok f \<Longrightarrow> leaf_ok (fold edit_leaf es f)"
  by (induction es arbitrary: f) (simp_all add: edit_leaf_children edit_leaf_body edit_leaf_ok)

text \<open>A node is set through its parent's list, so the same holds of the forms of a node.\<close>

lemma setNode_snoc: "setNode sc (p @ [i]) f = setLeaf sc p i f"
  by (simp add: setNode_def setNodeField_def setLeaf_def)

lemma fieldAtPath_snoc: "fieldAtPath sc (p @ [i]) = js_get (nodeFields sc p) i"
  by (simp add: fieldAtPath_def)

lemma edit_join_in_place:
  assumes "live_path sc p" "i < length (nodeFields sc p)"
  shows "\<exists>sc'. edit_join_at sc (p @ [i]) e sc = Inr sc' \<and>
    nodeFields sc' p = (nodeFields sc p)[i := edit_node_field e (nodeFields sc p ! i)] \<and>
    (\<forall>q. live_path sc' q = live_path sc q)"
  using setLeaf_in_place [OF assms edit_node_field_children [of e "nodeFields sc p ! i"]] assms(2)
  by (simp add: edit_join_at_def fieldAtPath_snoc setNode_snoc js_get_def)

lemma rename_node_in_place:
  assumes "live_path sc p" "i < length (nodeFields sc p)"
  shows "\<exists>sc'. rename_node sc (p @ [i]) n sc = Inr sc' \<and>
    nodeFields sc' p = (nodeFields sc p)[i := with_name (nodeFields sc p ! i) n] \<and>
    (\<forall>q. live_path sc' q = live_path sc q)"
  using setLeaf_in_place [OF assms, of "with_name (nodeFields sc p ! i) n"] assms(2)
  by (simp add: rename_node_def fieldAtPath_snoc setNode_snoc js_get_def)

lemma edit_root_live: "live_path (edit_root e sc) p = live_path sc p"
  by (cases e) (simp_all add: live_path_def setRootMeta_def)

section \<open>The copy is selected\<close>

lemma nth_insert_at: "i \<le> length xs \<Longrightarrow> insert_at i x xs ! i = x"
  by (simp add: insert_at_def nth_append)

lemma duplicateAt_copy:
  assumes "live_path sc path" "i < length (nodeFields sc path)" "duplicateAt sc path i = Inr sc'"
  shows "nodeFields sc' path ! Suc i =
    with_name (nodeFields sc path ! i)
      (uniqueName (map f_field (nodeFields sc path)) (f_field (nodeFields sc path ! i)))"
proof -
  let ?copy = "with_name (nodeFields sc path ! i)
      (uniqueName (map f_field (nodeFields sc path)) (f_field (nodeFields sc path ! i)))"
  have "withNodeFields sc path (insert_at (Suc i) ?copy (nodeFields sc path)) = Inr sc'"
    using assms(2,3) by (simp add: duplicateAt_def Let_def js_get_def)
  then have "nodeFields sc' path = insert_at (Suc i) ?copy (nodeFields sc path)"
    using tree.fetch_replace [OF assms(1)] by blast
  then show ?thesis using assms(2) by (simp add: nth_insert_at)
qed

lemma duplicateNode_snoc: "duplicateNode sc (p @ [i]) = duplicateAt sc p i"
  by (simp add: duplicateNode_def)

lemma header_remove_clears:
  "header_remove s = Inr s' \<Longrightarrow> ds_selection s' = None"
  by (auto simp: header_remove_def apply_select_def setSelection_def map_res_def
      split: option.splits selection.splits sum.splits)

section \<open>The bulk panel does what it counts\<close>

lemma row_names_included: "set (included_columns fs) \<subseteq> row_name ` set fs"
  by (force simp: included_columns_iff row_name_def image_iff)

lemma shape_of_Some: "shape_of cols n = Some c \<Longrightarrow> c \<in> set cols \<and> cs_name c = n"
  by (auto simp: shape_of_def find_Some_iff) (metis nth_mem set_rev length_rev)

definition scalar_shapes :: "column_shape list \<Rightarrow> bool" where
  "scalar_shapes cols \<longleftrightarrow>
     list_all (\<lambda>c. case cs_suggested_type c of None \<Rightarrow> True | Some (Scalar _) \<Rightarrow> True | _ \<Rightarrow> False) cols"

lemma shape_spec_scalar: "scalar_shapes cols \<Longrightarrow> spec_scalar (shape_spec cols n)"
  by (auto simp: spec_scalar_def shape_spec_def scalar_shapes_def list_all_iff dest!: shape_of_Some split: option.splits)

lemma spec_row_name: "spec_scalar c \<Longrightarrow> row_name (spec_field c) = cp_name c"
  by (simp add: row_name_def scalar_column_spec_field)

text \<open>After \<open>includeAll\<close> nothing of the selection is left to include.\<close>

lemma includeAll_complete:
  assumes live: "live_path sc path" and cols: "scalar_shapes cols"
  shows "\<exists>sc'. includeAll cols sc path names sc = Inr sc' \<and> toInclude cols sc' path names = [] \<and>
    set (toRemove sc' path names) = set (toRemove sc path names) \<union> set (toInclude cols sc path names)"
proof -
  let ?fs = "nodeFields sc path" and ?new = "toInclude cols sc path names"
  have fresh: "filter (\<lambda>c. cp_name c \<notin> set (included_columns ?fs)) (map (shape_spec cols) ?new) = map (shape_spec cols) ?new"
    using row_names_included [of ?fs] by (auto simp: filter_id_conv toInclude_def shape_spec_def)
  obtain sc' where sc': "includeAll cols sc path names sc = Inr sc'"
      "nodeFields sc' path = ?fs @ map spec_field (map (shape_spec cols) ?new)"
    using edit_node_total [OF live, of "\<lambda>fs. fs @ map spec_field (filter (\<lambda>c. cp_name c \<notin> set (included_columns fs)) (map (shape_spec cols) ?new))"]
    unfolding includeAll_def includeColumns_def fresh by blast
  have "row_name (spec_field (shape_spec cols n)) = n" for n
    using spec_row_name [OF shape_spec_scalar [OF cols]] by (simp add: shape_spec_def)
  then have "row_name ` set (nodeFields sc' path) = row_name ` set ?fs \<union> set ?new"
    unfolding sc'(2) by (simp add: image_Un image_image)
  then show ?thesis using sc'(1) by (auto simp: toInclude_def toRemove_def filter_empty_conv)
qed

text \<open>
  After \<open>removeAll\<close> nothing of the selection is left, but a field goes too when only its document
  name is selected and its row, that of its column, is not.
\<close>

lemma removeFields_complete:
  assumes live: "live_path sc path"
  shows "\<exists>sc'. removeFields sc path names = Inr sc' \<and> toRemove sc' path names = [] \<and>
    nodeFields sc' path = filter (\<lambda>f. \<not> drops_field names f) (nodeFields sc path)"
proof -
  obtain sc' where "removeFields sc path names = Inr sc'"
      "nodeFields sc' path = filter (\<lambda>f. \<not> drops_field names f) (nodeFields sc path)"
    using edit_node_total [OF live] unfolding removeFields_def by blast
  then show ?thesis
    by (auto simp: toRemove_def filter_empty_conv row_name_def drops_field_def split: option.splits)
qed

lemma removeFields_unselected:
  assumes "live_path sc path" "f \<in> set (nodeFields sc path)" "row_name f \<notin> set names" "f_field f \<in> set names"
    and "removeFields sc path names = Inr sc'"
  shows "f \<notin> set (nodeFields sc' path)"
  using removeFields_complete [OF assms(1), of names] assms(4,5) by (auto simp: drops_field_def)

section \<open>The form and the checks agree\<close>

lemma source_column_of:
  assumes "catalog_usable catalog = Some cat" "name \<noteq> ''''"
  shows "source_column catalog table name = sourceColOf cat table name"
proof -
  have "catalog = Some cat" using assms(1) by (auto simp: catalog_usable_def split: option.splits if_splits)
  then show ?thesis using assms(2)
    by (auto simp: source_column_def columnsFor_def sourceColOf_def split: option.splits)
qed

text \<open>The form flags a missing default exactly when the checks report one for the column.\<close>

lemma default_missing_issue:
  assumes "catalog_usable catalog = Some cat" "col_column c \<noteq> ''''"
  shows "default_missing (src_nullable catalog table c) c \<longleftrightarrow>
    (\<exists>d \<in> set (column_issues cat index t table name c). dg_severity d = ''error'')"
  using source_column_of [OF assms, of table]
  by (auto simp: default_missing_def must_default_def src_nullable_def column_issues_def Let_def split: option.splits)

end
