(* ===== verification/Widgets.thy ===== *)
theory Widgets
  imports Js_Value Theme
begin

text \<open>
  \<^verbatim>\<open>components/widgets.tsx\<close>: the inputs with behaviour of their own. The box for a JSON value
  keeps a text beside the model's value and follows it by an effect; the combobox offers the
  options and, if it may, what is typed. A typed text is a \<^typ>\<open>stored\<close> text: \<open>Json v\<close> when it
  parses to \<open>v\<close>, \<open>Text s\<close> when it does not.
\<close>

section \<open>The box for a JSON value\<close>

record json_box =
  jb_external :: stored
  jb_text :: stored

definition external_text :: "js option \<Rightarrow> stored" where
  "external_text v = (case v of None \<Rightarrow> Text '''' | Some g \<Rightarrow> json_stringify (fromGeneric g))"

definition json_box_init :: "js option \<Rightarrow> json_box" where
  "json_box_init v = \<lparr>jb_external = external_text v, jb_text = external_text v\<rparr>"

text \<open>The effect on \<open>[external]\<close>: it runs when the model's text is another one.\<close>

definition json_box_sync :: "js option \<Rightarrow> json_box \<Rightarrow> json_box" where
  "json_box_sync v b =
     (if external_text v = jb_external b then b else \<lparr>jb_external = external_text v, jb_text = external_text v\<rparr>)"

definition blank_text :: "stored \<Rightarrow> bool" where
  "blank_text t \<longleftrightarrow> (case t of Text s \<Rightarrow> trim s = '''' | Json _ \<Rightarrow> False)"

definition parseable :: "json_box \<Rightarrow> bool" where
  "parseable b \<longleftrightarrow> blank_text (jb_text b) \<or> (case json_parse (jb_text b) of Inr _ \<Rightarrow> True | Inl _ \<Rightarrow> False)"

text \<open>What \<open>handle\<close> passes to \<open>onChange\<close>, if it calls it.\<close>

definition json_emission :: "js option \<Rightarrow> stored \<Rightarrow> js option option" where
  "json_emission emptyTo s =
     (if blank_text s then Some emptyTo
      else case json_parse s of Inr v \<Rightarrow> Some (Some (toGeneric v)) | Inl _ \<Rightarrow> None)"

text \<open>One keystroke: the box, and the model's value behind it when the caller stores what it is given.\<close>

definition json_box_type :: "js option \<Rightarrow> stored \<Rightarrow> js option \<times> json_box \<Rightarrow> js option \<times> json_box" where
  "json_box_type emptyTo s mb =
     (let (m, b) = mb; b' = b\<lparr>jb_text := s\<rparr> in
      case json_emission emptyTo s of
        None \<Rightarrow> (m, b')
      | Some m' \<Rightarrow> (m', json_box_sync m' b'))"

definition json_invalid :: "bool \<Rightarrow> json_box \<Rightarrow> bool" where
  "json_invalid invalid b \<longleftrightarrow> invalid \<or> \<not> parseable b"

text \<open>The box always knows the model's text, whatever is typed.\<close>

definition in_step :: "js option \<times> json_box \<Rightarrow> bool" where
  "in_step mb \<longleftrightarrow> jb_external (snd mb) = external_text (fst mb)"

lemma json_box_init_in_step: "in_step (v, json_box_init v)"
  by (simp add: in_step_def json_box_init_def)

lemma json_box_type_in_step: "in_step mb \<Longrightarrow> in_step (json_box_type emptyTo s mb)"
  by (auto simp: in_step_def json_box_type_def json_box_sync_def Let_def split: prod.splits option.splits)

lemma json_box_typing_in_step: "in_step (foldl (\<lambda>mb s. json_box_type emptyTo s mb) (v, json_box_init v) ts)"
  by (induction ts rule: rev_induct) (simp_all add: json_box_init_in_step json_box_type_in_step)

text \<open>A text that does not parse stays in the box, is flagged, and the model keeps its value.\<close>

lemma type_unfinished:
  assumes "trim s \<noteq> ''''"
  shows "json_box_type emptyTo (Text s) (m, b) = (m, b\<lparr>jb_text := Text s\<rparr>) \<and>
    json_invalid invalid (b\<lparr>jb_text := Text s\<rparr>)"
  using assms
  by (simp add: json_box_type_def json_emission_def blank_text_def json_parse_def json_invalid_def parseable_def)

text \<open>
  A plain value that was typed is the model's value in its tagged form, the box keeps the text,
  and reading the model again shows the same text.
\<close>

definition writable :: "js \<Rightarrow> bool" where
  "writable v \<longleftrightarrow> plain v \<and> json_norm v = v"

lemma type_value:
  assumes "writable v" "in_step (m, b)"
  shows "json_box_type emptyTo (Json v) (m, b) =
      (Some (toGeneric v), \<lparr>jb_external = Json v, jb_text = Json v\<rparr>) \<and>
    json_box_init (Some (toGeneric v)) = \<lparr>jb_external = Json v, jb_text = Json v\<rparr>"
proof -
  have ext: "external_text (Some (toGeneric v)) = Json v"
    using assms(1) by (simp add: writable_def external_text_def json_stringify_def generic_roundtrip)
  then show ?thesis
    by (auto simp: json_box_type_def json_emission_def blank_text_def json_parse_def json_box_sync_def
        json_box_init_def Let_def)
qed

text \<open>So whatever was typed before, a plain value typed as JSON is the model's value and keeps its text.\<close>

lemma json_box_faithful:
  assumes "writable x"
  shows "json_box_type e (stored.Json x) (foldl (\<lambda>mb s. json_box_type e s mb) (v, json_box_init v) ts) =
    (Some (toGeneric x), json_box_init (Some (toGeneric x)))"
proof -
  obtain m b where mb: "foldl (\<lambda>mb s. json_box_type e s mb) (v, json_box_init v) ts = (m, b)" by (meson surj_pair)
  then have "in_step (m, b)" using json_box_typing_in_step [of e v ts] by simp
  from type_value [OF assms this, of e] show ?thesis by (simp add: mb)
qed

text \<open>An emptied box gives the caller's empty value.\<close>

lemma type_blank:
  assumes "trim s = ''''"
  shows "fst (json_box_type emptyTo (Text s) mb) = emptyTo"
  using assms by (auto simp: json_box_type_def json_emission_def blank_text_def Let_def split: prod.splits)

section \<open>Options\<close>

record opt =
  o_label :: string
  o_value :: string
  o_description :: "string option"
  o_class :: "string option"

text \<open>The list of a select: a plain string is its own label.\<close>

datatype option_spec = Plain_opt string | Rich opt

fun select_option :: "option_spec \<Rightarrow> opt" where
  "select_option (Plain_opt s) = \<lparr>o_label = s, o_value = s, o_description = None, o_class = None\<rparr>"
| "select_option (Rich o1) = o1"

text \<open>The text the select's root is given: an empty one counts as no choice.\<close>

definition select_value :: "string \<Rightarrow> string option" where
  "select_value v = (if v \<noteq> '''' then Some v else None)"

section \<open>The combobox\<close>

record combobox =
  cb_open :: bool
  cb_query :: string

definition combobox_init :: combobox where
  "combobox_init = \<lparr>cb_open = False, cb_query = ''''\<rparr>"

definition combobox_label :: "opt list \<Rightarrow> string \<Rightarrow> string" where
  "combobox_label options v = (case find (\<lambda>x. o_value x = v) options of Some x \<Rightarrow> o_label x | None \<Rightarrow> v)"

definition shows_placeholder :: "opt list \<Rightarrow> string \<Rightarrow> bool" where
  "shows_placeholder options v \<longleftrightarrow> find (\<lambda>x. o_value x = v) options = None \<and> v = ''''"

definition custom_row :: "bool \<Rightarrow> opt list \<Rightarrow> string \<Rightarrow> bool" where
  "custom_row allowCustom options query \<longleftrightarrow>
     allowCustom \<and> query \<noteq> '''' \<and> \<not> (\<exists>x \<in> set options. o_value x = query)"

text \<open>The values the rows give, before the list's own filter.\<close>

definition combobox_rows :: "bool \<Rightarrow> opt list \<Rightarrow> string \<Rightarrow> string list" where
  "combobox_rows allowCustom options query =
     (if custom_row allowCustom options query then [query] else []) @ map o_value options"

definition combobox_pick :: "string \<Rightarrow> combobox \<Rightarrow> string \<times> combobox" where
  "combobox_pick v cb = (v, \<lparr>cb_open = False, cb_query = ''''\<rparr>)"

text \<open>Every name can be entered, and no value is offered twice when the options are different.\<close>

lemma combobox_rows_ok:
  assumes "distinct (map o_value options)"
  shows "distinct (combobox_rows allowCustom options query) \<and>
    (allowCustom \<and> query \<noteq> '''' \<longrightarrow> query \<in> set (combobox_rows allowCustom options query))"
  using assms by (auto simp: combobox_rows_def custom_row_def)

text \<open>The class of a suggested type that is no string: \<open>label.replace\<close> is no function.\<close>

definition column_class :: "column_shape \<Rightarrow> string res" where
  "column_class c =
     (case cs_suggested_type c of
        None \<Rightarrow> Inr (typeClass (cs_sql_type c))
      | Some (Scalar t) \<Rightarrow> Inr (typeClass (scalar_name t))
      | Some _ \<Rightarrow> Inl TypeError)"

definition column_options :: "column_shape list \<Rightarrow> opt list res" where
  "column_options cols =
     mapM_res (\<lambda>c. map_res (\<lambda>cl. \<lparr>o_label = cs_name c, o_value = cs_name c,
                                  o_description = Some (cs_sql_type c), o_class = Some cl\<rparr>) (column_class c)) cols"

definition table_options :: "(string \<Rightarrow> string) \<Rightarrow> string list \<Rightarrow> string list \<Rightarrow> opt list" where
  "table_options t junctions tables =
     map (\<lambda>n. \<lparr>o_label = n, o_value = n,
               o_description = (if n \<in> set junctions then Some (t ''catalog.junction'') else None),
               o_class = None\<rparr>) tables"

lemma column_options_values:
  "column_options cols = Inr os \<Longrightarrow> map o_value os = map cs_name cols"
  unfolding column_options_def by (erule mapM_res_image) auto

lemma column_options_total:
  assumes "\<forall>c \<in> set cols. \<forall>ty. cs_suggested_type c = Some ty \<longrightarrow> (\<exists>t. ty = Scalar t)"
  shows "\<exists>os. column_options cols = Inr os"
proof -
  have "column_class c = Inr (case cs_suggested_type c of Some (Scalar t) \<Rightarrow> typeClass (scalar_name t) | _ \<Rightarrow> typeClass (cs_sql_type c))"
    if "c \<in> set cols" for c
    using assms that by (auto simp: column_class_def split: option.splits flusso_type.splits)
  then have "column_options cols = Inr (map (\<lambda>c. \<lparr>o_label = cs_name c, o_value = cs_name c,
      o_description = Some (cs_sql_type c),
      o_class = Some (case cs_suggested_type c of Some (Scalar t) \<Rightarrow> typeClass (scalar_name t) | _ \<Rightarrow> typeClass (cs_sql_type c))\<rparr>) cols)"
    unfolding column_options_def by (intro mapM_res_all) simp
  then show ?thesis by blast
qed

end
