(* ===== verification/Tables_Browser.thy ===== *)
theory Tables_Browser
  imports Schema
begin

text \<open>
  \<^verbatim>\<open>components/CatalogBrowser.tsx\<close>: the browser of the introspected tables. The relations are
  derived from the foreign keys into two maps, the filter goes over table and column names, and a
  reference can be followed, which is also asked to scroll once the list is drawn again.
\<close>

section \<open>The emphasised match\<close>

definition mark :: "string \<Rightarrow> string \<Rightarrow> string list" where
  "mark txt q =
     (case (if q \<noteq> '''' then index_of q (to_lower txt) else None) of
        None \<Rightarrow> [txt]
      | Some i \<Rightarrow> [take i txt, take (length q) (drop i txt), drop (i + length q) txt])"

lemma length_to_lower [simp]: "length (to_lower s) = length s"
  by (simp add: to_lower_def)

lemma to_lower_take_drop: "to_lower (take n (drop i s)) = take n (drop i (to_lower s))"
  by (simp add: to_lower_def take_map drop_map)

lemma mark_parts:
  "concat (mark txt q) = txt \<and>
   (\<forall>pre hit post. mark txt q = [pre, hit, post] \<longrightarrow> to_lower hit = q)"
proof (cases "if q \<noteq> '''' then index_of q (to_lower txt) else None")
  case None
  then show ?thesis by (simp add: mark_def)
next
  case (Some i)
  then have "index_of q (to_lower txt) = Some i" by (simp split: if_splits)
  then have "to_lower (take (length q) (drop i txt)) = q"
    using index_of_Some by (auto simp: to_lower_take_drop)
  moreover have "take i txt @ take (length q) (drop i txt) @ drop (i + length q) txt = txt"
    by (metis add.commute append_take_drop_id drop_drop)
  ultimately show ?thesis using Some by (simp add: mark_def)
qed

section \<open>Relations\<close>

record ref =
  rf_table :: string
  rf_column :: string

text \<open>A column's target: the column at its place, the first one, or none.\<close>

definition fk_target :: "foreign_key \<Rightarrow> nat \<Rightarrow> ref" where
  "fk_target fk i =
     \<lparr>rf_table = fk_references_table fk,
      rf_column = (case js_get (fk_references_columns fk) i of
                     Some c \<Rightarrow> c
                   | None \<Rightarrow> (case fk_references_columns fk of c # _ \<Rightarrow> c | [] \<Rightarrow> ''''))\<rparr>"

definition fk_refs :: "foreign_key \<Rightarrow> (string \<times> ref) list" where
  "fk_refs fk = map (\<lambda>i. (fk_columns fk ! i, fk_target fk i)) [0..<length (fk_columns fk)]"

definition table_targets :: "table_shape \<Rightarrow> (string \<times> ref) list" where
  "table_targets tbl = foldl (\<lambda>m (k, r). map_set m k r) [] (concat (map fk_refs (t_foreign_keys tbl)))"

definition fkTarget :: "table_shape list \<Rightarrow> (string \<times> (string \<times> ref) list) list" where
  "fkTarget tables = foldl (\<lambda>m tbl. map_set m (t_name tbl) (table_targets tbl)) [] tables"

definition outgoing :: "table_shape \<Rightarrow> (string \<times> ref) list" where
  "outgoing tbl =
     map (\<lambda>fk. (fk_references_table fk, \<lparr>rf_table = t_name tbl, rf_column = join_with '', '' (fk_columns fk)\<rparr>))
       (t_foreign_keys tbl)"

definition incoming_add :: "(string \<times> ref list) list \<Rightarrow> string \<times> ref \<Rightarrow> (string \<times> ref list) list" where
  "incoming_add m x =
     map_set m (fst x) ((case map_of m (fst x) of Some rs \<Rightarrow> rs | None \<Rightarrow> []) @ [snd x])"

definition incoming :: "table_shape list \<Rightarrow> (string \<times> ref list) list" where
  "incoming tables = foldl incoming_add [] (concat (map outgoing tables))"

text \<open>The maps against what they stand for.\<close>

lemma foldl_map_set:
  "map_of (foldl (\<lambda>m (k, v). map_set m k v) m es) j =
     (case map_of (rev es) j of None \<Rightarrow> map_of m j | Some v \<Rightarrow> Some v)"
proof (induction es arbitrary: m)
  case (Cons e es)
  obtain k v where "e = (k, v)" by (cases e)
  with Cons show ?case by (auto simp: map_of_map_set map_add_def split: option.splits)
qed simp

lemma map_of_incoming_add:
  "map_of (incoming_add m x) j =
     (if j = fst x then Some ((case map_of m j of Some rs \<Rightarrow> rs | None \<Rightarrow> []) @ [snd x]) else map_of m j)"
  by (simp add: incoming_add_def map_of_map_set)

definition refs_to :: "string \<Rightarrow> (string \<times> ref) list \<Rightarrow> ref list" where
  "refs_to T xs = map snd (filter (\<lambda>x. fst x = T) xs)"

lemma foldl_incoming:
  "(case map_of (foldl incoming_add m xs) j of Some rs \<Rightarrow> rs | None \<Rightarrow> []) =
     (case map_of m j of Some rs \<Rightarrow> rs | None \<Rightarrow> []) @ refs_to j xs"
  by (induction xs arbitrary: m) (auto simp: refs_to_def map_of_incoming_add)

definition incoming_of :: "table_shape list \<Rightarrow> string \<Rightarrow> ref list" where
  "incoming_of tables T = (case map_of (incoming tables) T of Some rs \<Rightarrow> rs | None \<Rightarrow> [])"

definition target_of :: "table_shape list \<Rightarrow> string \<Rightarrow> string \<Rightarrow> ref option" where
  "target_of tables T c = (case map_of (fkTarget tables) T of None \<Rightarrow> None | Some cols \<Rightarrow> map_of cols c)"

lemma incoming_of_refs: "incoming_of tables T = refs_to T (concat (map outgoing tables))"
  unfolding incoming_of_def incoming_def by (simp add: foldl_incoming)

lemma fkTarget_lookup:
  assumes "distinct (map t_name tables)" "tbl \<in> set tables"
  shows "map_of (fkTarget tables) (t_name tbl) = Some (table_targets tbl)"
proof -
  let ?es = "map (\<lambda>t. (t_name t, table_targets t)) tables"
  have fold: "fkTarget tables = foldl (\<lambda>m (k, v). map_set m k v) [] ?es"
    unfolding fkTarget_def foldl_map by simp
  have "map_of (rev ?es) (t_name tbl) = Some (table_targets tbl)"
    using assms by (intro map_of_is_SomeI) (auto simp: rev_map [symmetric] comp_def)
  then show ?thesis unfolding fold foldl_map_set by simp
qed

text \<open>A reference shown on a column is among those listed at the table it leads to.\<close>

lemma table_targets_Some:
  assumes "map_of (table_targets tbl) c = Some r"
  shows "\<exists>fk \<in> set (t_foreign_keys tbl). c \<in> set (fk_columns fk) \<and> rf_table r = fk_references_table fk"
proof -
  have "map_of (rev (concat (map fk_refs (t_foreign_keys tbl)))) c = Some r"
    using assms unfolding table_targets_def foldl_map_set by (simp split: option.splits)
  then have "(c, r) \<in> set (concat (map fk_refs (t_foreign_keys tbl)))"
    by (metis map_of_SomeD set_rev)
  then obtain fk i where "fk \<in> set (t_foreign_keys tbl)" "i < length (fk_columns fk)" "c = fk_columns fk ! i"
      "r = fk_target fk i"
    by (auto simp: fk_refs_def)
  then show ?thesis by (intro bexI [of _ fk]) (auto simp: fk_target_def)
qed

lemma target_is_incoming:
  assumes "distinct (map t_name tables)" "tbl \<in> set tables" "target_of tables (t_name tbl) c = Some r"
  shows "\<exists>ref \<in> set (incoming_of tables (rf_table r)). rf_table ref = t_name tbl"
proof -
  have "map_of (table_targets tbl) c = Some r"
    using assms by (simp add: target_of_def fkTarget_lookup)
  then obtain fk where "fk \<in> set (t_foreign_keys tbl)" "rf_table r = fk_references_table fk"
    using table_targets_Some by blast
  then show ?thesis using assms(2) by (force simp: incoming_of_refs refs_to_def outgoing_def)
qed

section \<open>Filter and selection\<close>

record tables_browser =
  br_q :: string
  br_selected :: string
  br_pending :: "string option"

definition browser_init :: "table_shape list \<Rightarrow> tables_browser" where
  "browser_init tables =
     \<lparr>br_q = '''', br_selected = (case tables of t # _ \<Rightarrow> t_name t | [] \<Rightarrow> ''''), br_pending = None\<rparr>"

definition needle :: "tables_browser \<Rightarrow> string" where
  "needle b = to_lower (trim (br_q b))"

definition matchesCol :: "tables_browser \<Rightarrow> table_shape \<Rightarrow> column_shape list" where
  "matchesCol b tbl =
     (if needle b \<noteq> '''' then filter (\<lambda>c. includes_str (needle b) (to_lower (cs_name c))) (t_columns tbl) else [])"

definition filtered :: "table_shape list \<Rightarrow> tables_browser \<Rightarrow> table_shape list" where
  "filtered tables b =
     filter (\<lambda>tbl. needle b = '''' \<or> includes_str (needle b) (to_lower (t_name tbl)) \<or>
                   (\<exists>c \<in> set (t_columns tbl). includes_str (needle b) (to_lower (cs_name c)))) tables"

definition selected_table :: "table_shape list \<Rightarrow> tables_browser \<Rightarrow> table_shape option" where
  "selected_table tables b =
     (case find (\<lambda>tbl. t_name tbl = br_selected b) (filtered tables b) of
        Some tbl \<Rightarrow> Some tbl
      | None \<Rightarrow> (case filtered tables b of tbl # _ \<Rightarrow> Some tbl | [] \<Rightarrow> None))"

text \<open>The effect on \<open>[selectedName]\<close>: the row it scrolls to, if it does.\<close>

definition scroll_effect :: "string \<Rightarrow> tables_browser \<Rightarrow> tables_browser \<times> string option" where
  "scroll_effect before b =
     (if br_selected b = before then (b, None)
      else case br_pending b of
             None \<Rightarrow> (b, None)
           | Some T \<Rightarrow> if T = '''' then (b, None) else (b\<lparr>br_pending := None\<rparr>, Some T))"

definition set_query :: "string \<Rightarrow> tables_browser \<Rightarrow> tables_browser" where
  "set_query q b = b\<lparr>br_q := q\<rparr>"

definition choose_row :: "string \<Rightarrow> tables_browser \<Rightarrow> tables_browser \<times> string option" where
  "choose_row n b = scroll_effect (br_selected b) (b\<lparr>br_selected := n\<rparr>)"

definition goto :: "string \<Rightarrow> tables_browser \<Rightarrow> tables_browser \<times> string option" where
  "goto T b = scroll_effect (br_selected b) (b\<lparr>br_pending := Some T, br_q := '''', br_selected := T\<rparr>)"

lemma needle_empty [simp]: "needle (b\<lparr>br_q := ''''\<rparr>) = ''''"
  by (simp add: needle_def trim_def to_lower_def)

lemma selected_is_filtered: "selected_table tables b = Some tbl \<Longrightarrow> tbl \<in> set (filtered tables b)"
  by (auto simp: selected_table_def find_Some_iff split: option.splits list.splits)

lemma selected_exists: "selected_table tables b = None \<longleftrightarrow> filtered tables b = []"
  by (auto simp: selected_table_def split: option.splits list.splits)

text \<open>A table that the filter keeps for its columns shows at least one of them.\<close>

lemma filtered_reason:
  assumes "tbl \<in> set (filtered tables b)" "needle b \<noteq> ''''"
  shows "includes_str (needle b) (to_lower (t_name tbl)) \<or> matchesCol b tbl \<noteq> []"
  using assms by (auto simp: filtered_def matchesCol_def filter_empty_conv)

lemma needle_goto: "needle (fst (goto T b)) = ''''"
  by (auto simp: goto_def scroll_effect_def needle_def trim_def to_lower_def split: option.splits)

lemma selected_goto: "br_selected (fst (goto T b)) = T"
  by (auto simp: goto_def scroll_effect_def split: option.splits)

text \<open>
  Following a reference shows the table it leads to, whatever the filter was; when the catalog
  has no table of that name the first one is shown.
\<close>

lemma goto_shows:
  "selected_table tables (fst (goto T b)) =
     (case find (\<lambda>tbl. t_name tbl = T) tables of
        Some tbl \<Rightarrow> Some tbl
      | None \<Rightarrow> (case tables of tbl # _ \<Rightarrow> Some tbl | [] \<Rightarrow> None))"
proof -
  have all: "filtered tables (fst (goto T b)) = tables" by (simp add: filtered_def needle_goto)
  show ?thesis unfolding selected_table_def selected_goto all ..
qed

text \<open>A choice the filter hides comes back when the filter is cleared.\<close>

lemma filter_and_clear:
  "br_q b = '''' \<Longrightarrow> selected_table tables (set_query '''' (set_query q b)) = selected_table tables b"
  by (cases b) (simp add: set_query_def)

text \<open>
  Following a reference to the table that is shown changes no selection, so nothing scrolls; the
  request is kept, and the next row chosen scrolls back to this table.
\<close>

lemma goto_self_pending:
  assumes "br_selected b = T" "T \<noteq> ''''" "n \<noteq> T"
  shows "snd (goto T b) = None \<and> snd (choose_row n (fst (goto T b))) = Some T"
  using assms by (simp add: goto_def choose_row_def scroll_effect_def)

text \<open>Otherwise the row that scrolls is the one the reference leads to.\<close>

lemma goto_scrolls:
  assumes "br_selected b \<noteq> T" "T \<noteq> ''''"
  shows "snd (goto T b) = Some T \<and> br_pending (fst (goto T b)) = None"
  using assms by (simp add: goto_def scroll_effect_def)

end
