(* ===== verification/Code_View.thy ===== *)
theory Code_View
  imports Anchors Highlight
begin

text \<open>
  \<^verbatim>\<open>components/CodeView.tsx\<close> and \<^verbatim>\<open>model/format.ts\<close>: the problems the Code view lists, squiggles and
  counts, the formatter and the caret jump. The package \<^verbatim>\<open>yaml\<close> is a parameter: a parse is the
  document with its errors and warnings, each with offsets, a first position and a message; the
  re-emitted text is what \<open>toString\<close> gives. CodeMirror itself is outside.
\<close>

section \<open>The YAML package\<close>

record yaml_error =
  ye_pos :: "nat \<times> nat"
  ye_line_pos :: "(nat \<times> nat) option"
  ye_message :: string

record parsed =
  ya_doc :: ydoc
  ya_errors :: "yaml_error list"
  ya_warnings :: "yaml_error list"
  ya_string :: string

section \<open>Problems\<close>

datatype severity = Error_s | Warning_s

record problem =
  pb_from :: nat
  pb_to :: nat
  pb_label :: string
  pb_severity :: severity
  pb_message :: string

text \<open>\<open>/ at line \d+, column \d+:?$/\<close> from here to the end.\<close>

definition position_suffix :: "string \<Rightarrow> bool" where
  "position_suffix s \<longleftrightarrow>
     starts_with '' at line '' s \<and>
     (let (l, r) = digits (drop 9 s) in
      l \<noteq> '''' \<and> starts_with '', column '' r \<and>
      (let (c, r') = digits (drop 9 r) in c \<noteq> '''' \<and> (r' = '''' \<or> r' = '':'')))"

fun strip_position :: "string \<Rightarrow> string" where
  "strip_position [] = []"
| "strip_position (c # s) = (if position_suffix (c # s) then [] else c # strip_position s)"

definition strip_colon :: "string \<Rightarrow> string" where
  "strip_colon s = (if ends_with '':'' s then butlast s else s)"

definition summary :: "string \<Rightarrow> string" where
  "summary msg = strip_colon (strip_position (hd (split_char line_break msg)))"

definition line_col :: "yaml_error \<Rightarrow> string" where
  "line_col e =
     (case ye_line_pos e of
        Some (l, c) \<Rightarrow> show_nat l @ '':'' @ show_nat c
      | None \<Rightarrow> show_nat 1 @ '':'' @ show_nat 1)"

definition toProblem :: "string \<Rightarrow> severity \<Rightarrow> yaml_error \<Rightarrow> problem" where
  "toProblem txt sev e =
     (let from = min (fst (ye_pos e)) (length txt);
          to = min (max (snd (ye_pos e)) (from + 1)) (max (length txt) from)
      in \<lparr>pb_from = from, pb_to = to, pb_label = line_col e, pb_severity = sev,
          pb_message = summary (ye_message e)\<rparr>)"

definition syntaxProblemsOf :: "parsed \<Rightarrow> string \<Rightarrow> problem list" where
  "syntaxProblemsOf y txt =
     sort_by (\<lambda>a b. pb_from a \<le> pb_from b)
       (map (toProblem txt Error_s) (ya_errors y) @ map (toProblem txt Warning_s) (ya_warnings y))"

definition spanned :: "span \<Rightarrow> string \<Rightarrow> severity \<Rightarrow> string \<Rightarrow> problem" where
  "spanned sp label sev msg =
     \<lparr>pb_from = sp_from sp, pb_to = sp_to sp, pb_label = label, pb_severity = sev, pb_message = msg\<rparr>"

definition diagnostic_problem :: "ydoc \<Rightarrow> diagnostic \<Rightarrow> problem" where
  "diagnostic_problem y d =
     spanned (case anchorField y (dg_field d) None of Some (sp, _) \<Rightarrow> sp | None \<Rightarrow> \<lparr>sp_from = 0, sp_to = 0\<rparr>)
       (dg_field d) (if dg_severity d = ''warning'' then Warning_s else Error_s) (dg_message d)"

definition parse_error_problem :: "ydoc \<Rightarrow> string \<Rightarrow> parse_error_info \<Rightarrow> problem" where
  "parse_error_problem y txt e =
     spanned (anchorParseError y txt e) (case pe_field e of Some f \<Rightarrow> f | None \<Rightarrow> ''schema'') Error_s (pe_message e)"

definition problems :: "parsed \<Rightarrow> string \<Rightarrow> diagnostic list \<Rightarrow> parse_error_info option \<Rightarrow> problem list" where
  "problems y txt ds err =
     syntaxProblemsOf y txt @ map (diagnostic_problem (ya_doc y)) ds @
     (case err of Some e \<Rightarrow> [parse_error_problem (ya_doc y) txt e] | None \<Rightarrow> [])"

definition jumpTo :: "string \<Rightarrow> problem \<Rightarrow> nat" where
  "jumpTo txt p = min (pb_from p) (length txt)"

section \<open>Formatting\<close>

definition formatYaml :: "(string \<Rightarrow> parsed) \<Rightarrow> string \<Rightarrow> string res" where
  "formatYaml parse txt =
     (case ya_errors (parse txt) of
        e # _ \<Rightarrow> Inl (Thrown (ye_message e))
      | [] \<Rightarrow> Inr (ya_string (parse txt)))"

text \<open>The text passed to \<open>onChange\<close>, if it is called.\<close>

definition format_buffer :: "(string \<Rightarrow> parsed) \<Rightarrow> string \<Rightarrow> string option" where
  "format_buffer parse txt =
     (if syntaxProblemsOf (parse txt) txt \<noteq> [] then None
      else case formatYaml parse txt of
             Inr txt' \<Rightarrow> if txt' \<noteq> txt then Some txt' else None
           | Inl _ \<Rightarrow> None)"

text \<open>How a plain scalar is painted in the editor; keys and quoted scalars are left to the grammar.\<close>

definition scalar_class :: "string \<Rightarrow> css" where
  "scalar_class txt =
     (if yaml_number txt then Num
      else if txt = ''true'' \<or> txt = ''false'' \<or> txt = ''null'' then Bool else Str)"

section \<open>Every problem is in the text\<close>

definition in_buffer :: "string \<Rightarrow> problem \<Rightarrow> bool" where
  "in_buffer txt p \<longleftrightarrow> pb_from p \<le> pb_to p \<and> pb_to p \<le> length txt"

lemma toProblem_in: "in_buffer txt (toProblem txt sev e)"
  by (auto simp: in_buffer_def toProblem_def Let_def)

text \<open>A syntax problem underlines at least one character, unless it is at the end of the text.\<close>

lemma toProblem_visible:
  "pb_from (toProblem txt sev e) < length txt \<Longrightarrow> pb_from (toProblem txt sev e) < pb_to (toProblem txt sev e)"
  by (auto simp: toProblem_def Let_def)

lemma syntax_sorted: "sorted_wrt (\<lambda>a b. pb_from a \<le> pb_from b) (syntaxProblemsOf y txt)"
  unfolding syntaxProblemsOf_def by (rule sorted_sort_by) auto

lemma syntax_set:
  "set (syntaxProblemsOf y txt) = toProblem txt Error_s ` set (ya_errors y) \<union> toProblem txt Warning_s ` set (ya_warnings y)"
  by (simp add: syntaxProblemsOf_def)

lemma problems_length:
  "length (problems y txt ds err) =
     length (ya_errors y) + length (ya_warnings y) + length ds + (case err of None \<Rightarrow> 0 | Some _ \<Rightarrow> 1)"
proof -
  have "length (syntaxProblemsOf y txt) = length (ya_errors y) + length (ya_warnings y)"
    unfolding syntaxProblemsOf_def by (metis length_append length_map mset_sort_by size_mset)
  then show ?thesis by (simp add: problems_def split: option.splits)
qed

section \<open>The formatter\<close>

text \<open>The two guards agree but for warnings: a text with a warning only is left as it is.\<close>

lemma format_runs_iff:
  "format_buffer parse txt \<noteq> None \<longleftrightarrow>
     ya_errors (parse txt) = [] \<and> ya_warnings (parse txt) = [] \<and> ya_string (parse txt) \<noteq> txt"
proof -
  have "syntaxProblemsOf (parse txt) txt = [] \<longleftrightarrow> ya_errors (parse txt) = [] \<and> ya_warnings (parse txt) = []"
    using syntax_set [of "parse txt" "txt"] by (metis Un_empty image_is_empty set_empty2)
  then show ?thesis by (auto simp: format_buffer_def formatYaml_def split: list.splits)
qed

text \<open>The editor's paint and the read-only block's are one rule.\<close>

lemma scalar_class_yamlValue: "scalar_class txt = fst (yamlValue txt)"
proof -
  have "\<not> yaml_number ''true''" "\<not> yaml_number ''false''" "\<not> yaml_number ''null''" by code_simp+
  then show ?thesis by (auto simp: scalar_class_def yamlValue_def)
qed

section \<open>The summary\<close>

lemma strip_position_suffix:
  assumes "position_suffix s" "\<And>u v. m = u @ v \<Longrightarrow> v \<noteq> [] \<Longrightarrow> \<not> position_suffix (v @ s)"
  shows "strip_position (m @ s) = m"
  using assms
proof (induction m)
  case Nil
  then show ?case by (cases s) simp_all
next
  case (Cons c m)
  have "\<not> position_suffix ((c # m) @ s)" using Cons.prems(2) [of "[]" "c # m"] by simp
  moreover have "strip_position (m @ s) = m"
  proof (rule Cons.IH [OF Cons.prems(1)])
    fix u v
    assume "m = u @ v" "v \<noteq> []"
    then show "\<not> position_suffix (v @ s)" using Cons.prems(2) [of "c # u" v] by simp
  qed
  ultimately show ?case by simp
qed

section \<open>All problems together\<close>

text \<open>
  A field's problem underlines its name, the text's start when the field is not found; a parse
  error may be placed one past the end.
\<close>

definition near_buffer :: "string \<Rightarrow> problem \<Rightarrow> bool" where
  "near_buffer txt p \<longleftrightarrow>
     pb_from p \<le> pb_to p \<and> pb_from p \<le> length txt \<and> pb_to p \<le> max (length txt) (Suc (pb_from p))"

lemma in_near_buffer: "in_buffer txt p \<Longrightarrow> near_buffer txt p"
  unfolding in_buffer_def near_buffer_def by linarith

lemma anchorField_in:
  assumes "doc_in n y" "anchorField y name tag = Some (sp, parent)"
  shows "sp_from sp \<le> sp_to sp \<and> sp_to sp \<le> n"
proof -
  obtain e where e: "e \<in> set y" "field_hit name tag e = Some (sp, parent)"
    using assms(2) first_some_Some unfolding anchorField_def by metis
  then obtain key r val r' p where "e = ((Yscalar key r, Yscalar val r'), p)" "spanOf (Yscalar val r') = Some sp"
    by (cases "(name, tag, e)" rule: field_hit.cases) (auto split: if_splits option.splits)
  then show ?thesis using assms(1) e(1) doc_in_members(1) in_text_span by metis
qed

lemma diagnostic_problem_in: "doc_in (length txt) y \<Longrightarrow> in_buffer txt (diagnostic_problem y d)"
  using anchorField_in [of "length txt" y "dg_field d" None]
  by (auto simp: diagnostic_problem_def in_buffer_def spanned_def split: option.splits)

lemma parse_error_problem_near: "doc_in (length txt) y \<Longrightarrow> near_buffer txt (parse_error_problem y txt e)"
  using anchorParseError_bounds [of "txt" y e] by (simp add: parse_error_problem_def near_buffer_def spanned_def)

lemma problems_near:
  assumes "doc_in (length txt) (ya_doc y)" "p \<in> set (problems y txt ds err)"
  shows "near_buffer txt p"
  using assms
  by (auto simp: problems_def syntax_set parse_error_problem_near toProblem_in diagnostic_problem_in
      intro: in_near_buffer split: option.splits)

text \<open>A jump lands in the text, on the problem's start.\<close>

lemma jump_lands: "near_buffer txt p \<Longrightarrow> jumpTo txt p = pb_from p"
  by (simp add: near_buffer_def jumpTo_def)

end
