(* ===== verification/Preview_View.thy ===== *)
theory Preview_View
  imports Schema Highlight
begin

text \<open>
  \<^verbatim>\<open>components/Preview.tsx\<close>: the drawer over the server's preview. The document tree is drawn row
  by row, the tabs depend on what is there, and the sample tab fetches a document on demand: its
  state is a small machine of clicks and replies, keyed by the index.
\<close>

section \<open>The document tree\<close>

definition suffix_of :: "document_node \<Rightarrow> string" where
  "suffix_of n = (if dn_array n then ''[]'' else '''') @ (if dn_nullable n then ''?'' else '''')"

text \<open>A row: its depth, the name and the text beside it. A container's row counts its children.\<close>

fun node_rows :: "nat \<Rightarrow> document_node \<Rightarrow> (nat \<times> string \<times> string) list" where
  "node_rows d (Document_node n ty nullable arr children) =
     (let sfx = (if arr then ''[]'' else '''') @ (if nullable then ''?'' else '''') in
      case children of
        None \<Rightarrow> [(d, n, ty @ sfx)]
      | Some cs \<Rightarrow> (d, n, ty @ sfx @ '' '' @ [CHR 0xB7] @ '' '' @ show_nat (length cs)) # concat (map (node_rows (Suc d)) cs))"

definition nested_stripe :: "document_node \<Rightarrow> bool" where
  "nested_stripe n \<longleftrightarrow> dn_children n \<noteq> None \<and> starts_with ''nested'' (dn_type n)"

section \<open>Tabs\<close>

datatype tab = Document_tab | Yaml_tab | Mapping_tab | Sample_tab

definition tabs :: "diagnostic list option \<Rightarrow> bool \<Rightarrow> (tab \<times> nat option) list" where
  "tabs ds onSample =
     (let n = (case ds of None \<Rightarrow> 0 | Some xs \<Rightarrow> length xs) in
      [(Document_tab, if n \<noteq> 0 then Some n else None), (Yaml_tab, None), (Mapping_tab, None)] @
      (if onSample then [(Sample_tab, None)] else []))"

section \<open>The sample\<close>

record sample_state =
  sa_result :: "sample_response option"
  sa_loading :: bool
  sa_error :: "string option"

definition sample_init :: sample_state where
  "sample_init = \<lparr>sa_result = None, sa_loading = False, sa_error = None\<rparr>"

definition fetch_sample :: "sample_state \<Rightarrow> sample_state" where
  "fetch_sample s = s\<lparr>sa_loading := True, sa_error := None\<rparr>"

text \<open>\<open>.then(setResult).catch(setError).finally(setLoading(false))\<close>.\<close>

definition sample_reply :: "string + sample_response \<Rightarrow> sample_state \<Rightarrow> sample_state" where
  "sample_reply r s =
     (case r of
        Inr x \<Rightarrow> s\<lparr>sa_result := Some x, sa_loading := False\<rparr>
      | Inl e \<Rightarrow> s\<lparr>sa_error := Some e, sa_loading := False\<rparr>)"

datatype sample_screen =
    Shown js bool bool                       \<comment> \<open>the document, a caption, the spinner of the refresh\<close>
  | Prompt "string option" bool              \<comment> \<open>an error text, the spinner of the button\<close>

definition error_text :: "sample_state \<Rightarrow> string option" where
  "error_text s =
     (case sa_error s of
        Some e \<Rightarrow> Some e
      | None \<Rightarrow> (case sa_result s of Some r \<Rightarrow> if sm_db_reachable r then None else sm_error r | None \<Rightarrow> None))"

definition sample_view :: "sample_state \<Rightarrow> sample_screen" where
  "sample_view s =
     (case sa_result s of
        Some r \<Rightarrow>
          (case sm_document r of
             Some d \<Rightarrow>
               if d \<noteq> JNull \<and> d \<noteq> JUndef \<and> sm_db_reachable r
               then Shown d (sm_synthetic r \<or> sm_note r \<notin> {None, Some ''''}) (sa_loading s)
               else Prompt (error_text s) (sa_loading s)
           | None \<Rightarrow> Prompt (error_text s) (sa_loading s))
      | None \<Rightarrow> Prompt (error_text s) (sa_loading s))"

text \<open>
  The component with its requests: \<open>sx_open\<close> are those of the mounted component that wait for a
  reply. Both buttons are disabled while it loads; another index, or the panel opened again, is a new component, which
  starts empty and does not hear of the old requests.
\<close>

record sample_run =
  sx_state :: sample_state
  sx_index :: string
  sx_open :: nat

inductive sample_step :: "sample_run \<Rightarrow> sample_run \<Rightarrow> bool" where
  fetch: "\<not> sa_loading (sx_state x) \<Longrightarrow>
     sample_step x (x\<lparr>sx_state := fetch_sample (sx_state x), sx_open := Suc (sx_open x)\<rparr>)"
| reply: "sx_open x = Suc n \<Longrightarrow>
     sample_step x (x\<lparr>sx_state := sample_reply r (sx_state x), sx_open := n\<rparr>)"
| remount: "sample_step x \<lparr>sx_state = sample_init, sx_index = index, sx_open = 0\<rparr>"

inductive sample_reachable :: "sample_run \<Rightarrow> bool" where
  mount: "sample_reachable \<lparr>sx_state = sample_init, sx_index = index, sx_open = 0\<rparr>"
| step: "sample_reachable x \<Longrightarrow> sample_step x y \<Longrightarrow> sample_reachable y"

inductive_cases sample_stepE [elim!]: "sample_step x y"

text \<open>One request at a time, and the spinner turns exactly while it is open.\<close>

lemma sample_one_request:
  "sample_reachable x \<Longrightarrow> sx_open x = (if sa_loading (sx_state x) then 1 else 0)"
  by (induction rule: sample_reachable.induct)
    (auto simp: sample_init_def fetch_sample_def sample_reply_def split: sum.splits if_splits)

text \<open>A document is shown only when a reply of this index brought it.\<close>

lemma sample_step_result:
  "sample_step x y \<Longrightarrow> sa_result (sx_state y) = Some r \<Longrightarrow>
     (sx_index y = sx_index x \<and> sa_result (sx_state x) = Some r) \<or>
     (\<exists>n. sx_open x = Suc n \<and> sx_index y = sx_index x \<and> y = x\<lparr>sx_state := sample_reply (Inr r) (sx_state x), sx_open := n\<rparr>)"
  by (auto simp: sample_init_def fetch_sample_def sample_reply_def split: sum.splits)

text \<open>A refresh that fails while a document is shown says nothing: the old document stays.\<close>

lemma failed_refresh_silent:
  assumes "sample_view s = Shown d c False"
  shows "sample_view (sample_reply (Inl e) (fetch_sample s)) = Shown d c False"
  using assms by (auto simp: sample_view_def sample_reply_def fetch_sample_def split: option.splits if_splits)

text \<open>Without one the error is shown.\<close>

lemma failed_fetch_shown:
  "sa_result s = None \<Longrightarrow> sample_view (sample_reply (Inl e) (fetch_sample s)) = Prompt (Some e) False"
  by (simp add: sample_view_def sample_reply_def fetch_sample_def error_text_def)

section \<open>Every node has its row\<close>

fun node_count :: "document_node \<Rightarrow> nat" where
  "node_count (Document_node n ty nullable arr children) =
     Suc (case children of None \<Rightarrow> 0 | Some cs \<Rightarrow> sum_list (map node_count cs))"

lemma node_rows_count: "length (node_rows d n) = node_count n"
proof (induction n arbitrary: d)
  case (Document_node n ty nullable arr children)
  show ?case
  proof (cases children)
    case (Some cs)
    have "sum_list (map (\<lambda>c. length (node_rows (Suc d) c)) cs) = sum_list (map node_count cs)"
      using Document_node Some by (intro arg_cong [of _ _ sum_list] map_cong) auto
    then show ?thesis using Some by (simp add: length_concat comp_def Let_def)
  qed simp
qed

lemma tabs_badge: "(Document_tab, Some n) \<in> set (tabs ds s) \<Longrightarrow> n > 0 \<and> (\<exists>xs. ds = Some xs \<and> length xs = n)"
  by (auto simp: tabs_def Let_def split: option.splits if_splits)

end
