(* ===== verification/App_View.thy ===== *)
theory App_View
  imports App_Shell Theme I18n
begin

text \<open>
  What \<^verbatim>\<open>App.tsx\<close> draws, as data: the loading screen, the top bar with what is disabled, the banners,
  the context bar, the sidebar, the main area and the drawer, each a function of the stores, with
  the click handlers of the sidebar and of the top bar. Colours and class names are left out.
\<close>

section \<open>The top bar\<close>

datatype save_icon = Saving_spinner | Dirty_dot | Save_icon

record top_bar =
  tb_sidebar :: string
  tb_path :: string
  tb_db_ok :: bool
  tb_db_label :: string
  tb_undo_disabled :: bool
  tb_redo_disabled :: bool
  tb_shows_sun :: bool
  tb_langs :: "(string \<times> string \<times> bool) list"
  tb_code :: bool
  tb_code_disabled :: bool
  tb_validate_disabled :: bool
  tb_reset_disabled :: bool
  tb_save_hint :: string
  tb_save_icon :: save_icon
  tb_save_disabled :: bool

definition db_connected :: "catalog_response option \<Rightarrow> bool" where
  "db_connected catalog \<longleftrightarrow> (case catalog of None \<Rightarrow> False | Some c \<Rightarrow> \<not> truthy (cat_error c))"

definition app_dirty :: "app \<Rightarrow> bool" where
  "app_dirty a \<longleftrightarrow> dirty (app_doc a) (app_saved a)"

definition top_bar_of :: "shell_env \<Rightarrow> string \<Rightarrow> project \<Rightarrow> app \<Rightarrow> top_bar" where
  "top_bar_of en lang p a =
     (let t = en_t en; u = ap_ui a; s = ap_design a in
      \<lparr>tb_sidebar = (if ui_leftOpen u then t ''topbar.hideSidebar'' [] else t ''topbar.showSidebar'' []),
       tb_path = p_config_path p,
       tb_db_ok = db_connected (ds_catalog s),
       tb_db_label = (if db_connected (ds_catalog s) then t ''topbar.dbConnected'' [] else t ''topbar.dbOffline'' []),
       tb_undo_disabled = (\<not> en_canUndo en),
       tb_redo_disabled = (\<not> en_canRedo en),
       tb_shows_sun = (ui_theme u = ''dark''),
       tb_langs = map (\<lambda>(code, label). (code, label, code = lang)) LANGS,
       tb_code = ui_rawMode u,
       tb_code_disabled = (ds_active s = ''config''),
       tb_validate_disabled = ui_validating u,
       tb_reset_disabled = (\<not> app_dirty a \<or> ui_saving u),
       tb_save_hint = (if app_dirty a then t ''topbar.unsaved'' [] else t ''topbar.upToDate'' []),
       tb_save_icon = (if ui_saving u then Saving_spinner else if app_dirty a then Dirty_dot else Save_icon),
       tb_save_disabled = (ui_saving u \<or> \<not> app_dirty a)\<rparr>)"

text \<open>The handlers of the bar's buttons, which a disabled button does not call.\<close>

datatype button =
    Sidebar_b | Palette_b | Undo_b | Redo_b | Theme_b | Mode_b bool | Validate_b | Reset_b | Save_b

fun press :: "shell_env \<Rightarrow> button \<Rightarrow> shell \<Rightarrow> shell" where
  "press en Sidebar_b sh = on_shell_app (on_ui toggleLeft) sh"
| "press en Palette_b sh = sh\<lparr>sh_paletteOpen := True\<rparr>"
| "press en Undo_b sh = on_shell_app (on_design (en_undo en)) sh"
| "press en Redo_b sh = on_shell_app (on_design (en_redo en)) sh"
| "press en Theme_b sh = on_shell_app (on_ui toggleTheme) sh"
| "press en (Mode_b on) sh = (if on then on_code openRaw sh else on_shell_app (on_ui (setRawMode False)) sh)"
| "press en Validate_b sh = on_shell_app (validate (en_t en) (en_validate en)) sh"
| "press en Reset_b sh = on_code reset_code sh"
| "press en Save_b sh = on_shell_app (save (en_t en) (en_diff en)) sh"

fun button_disabled :: "top_bar \<Rightarrow> button \<Rightarrow> bool" where
  "button_disabled b Undo_b \<longleftrightarrow> tb_undo_disabled b"
| "button_disabled b Redo_b \<longleftrightarrow> tb_redo_disabled b"
| "button_disabled b (Mode_b _) \<longleftrightarrow> tb_code_disabled b"
| "button_disabled b Validate_b \<longleftrightarrow> tb_validate_disabled b"
| "button_disabled b Reset_b \<longleftrightarrow> tb_reset_disabled b"
| "button_disabled b Save_b \<longleftrightarrow> tb_save_disabled b"
| "button_disabled b _ \<longleftrightarrow> False"

section \<open>Banners and the context bar\<close>

definition banners :: "translate \<Rightarrow> app \<Rightarrow> string list" where
  "banners t a =
     (if ui_error (ap_ui a) \<noteq> '''' then [ui_error (ap_ui a)] else []) @
     (case ds_catalog (ap_design a) of
        Some c \<Rightarrow> if truthy (cat_error c) then [t ''topbar.offlineBanner'' []] else []
      | None \<Rightarrow> [])"

record context_bar =
  cb_index :: string
  cb_schema :: string
  cb_table :: string
  cb_key :: "string option"
  cb_code_tools :: bool

definition context_bar_of :: "app \<Rightarrow> context_bar option" where
  "context_bar_of a =
     (case shown_schema a of
        None \<Rightarrow> None
      | Some schema \<Rightarrow>
          if ui_browseCatalog (ap_ui a) then None
          else Some
            \<lparr>cb_index = ds_active (ap_design a),
             cb_schema = (if s_db_schema schema \<noteq> '''' \<and> s_db_schema schema \<noteq> ''public''
                          then s_db_schema schema @ ''.'' else ''''),
             cb_table = s_table schema,
             cb_key = (case s_primary_key schema of Some k \<Rightarrow> if k \<noteq> '''' then Some k else None | None \<Rightarrow> None),
             cb_code_tools = ui_rawMode (ap_ui a)\<rparr>)"

section \<open>The sidebar\<close>

datatype nav_target = Nav_deployment | Nav_tables | Nav_index string

record nav_item =
  nv_target :: nav_target
  nv_label :: string
  nv_active :: bool
  nv_dirty :: bool
  nv_off :: bool

definition index_item :: "app \<Rightarrow> index_entry \<Rightarrow> nav_item" where
  "index_item a e =
     \<lparr>nv_target = Nav_index (e_name e), nv_label = e_name e,
      nv_active = (ds_active (ap_design a) = e_name e \<and> \<not> ui_browseCatalog (ap_ui a)),
      nv_dirty = indexDirty (app_doc a) (app_saved a) (e_name e), nv_off = (\<not> e_enabled e)\<rparr>"

definition nav_items :: "translate \<Rightarrow> config_toml \<Rightarrow> app \<Rightarrow> nav_item list" where
  "nav_items t config a =
     \<lparr>nv_target = Nav_deployment, nv_label = t ''sidebar.deployment'' [],
      nv_active = (ds_active (ap_design a) = ''config'' \<and> \<not> ui_browseCatalog (ap_ui a)),
      nv_dirty = False, nv_off = False\<rparr> #
     \<lparr>nv_target = Nav_tables, nv_label = t ''topbar.tables'' [], nv_active = ui_browseCatalog (ap_ui a),
      nv_dirty = False, nv_off = False\<rparr> #
     map (index_item a) (entries_of config)"

fun nav_click :: "nav_target \<Rightarrow> app \<Rightarrow> app" where
  "nav_click Nav_deployment a = on_design (setActive ''config'') (on_ui (setBrowseCatalog False) a)"
| "nav_click Nav_tables a = on_ui (setBrowseCatalog True) a"
| "nav_click (Nav_index name) a = on_design (openIndex name) (on_ui (setBrowseCatalog False) a)"

definition legend_rows :: "translate \<Rightarrow> (string \<times> string \<times> string) list" where
  "legend_rows t =
     map (\<lambda>k. (''--k-'' @ k, k, kindDesc t k)) KIND_ROWS @
     map (\<lambda>(varKey, label). (''--t-'' @ varKey, label, typeDesc t varKey)) TYPE_FAMILIES"

section \<open>The main area\<close>

datatype main_view =
    Tables_pane catalog_response
  | Tables_loading
  | Config_pane config_toml
  | Code_pane string bool            \<comment> \<open>the file's name and whether it is dirty\<close>
  | Canvas_pane "nat option" bool    \<comment> \<open>the count of the mismatch banner; the inspector\<close>
  | Empty_pane

definition file_name :: "config_toml \<Rightarrow> string \<Rightarrow> string" where
  "file_name config name =
     (case find (\<lambda>e. e_name e = name) (entries_of config) of
        Some e \<Rightarrow> e_schema e | None \<Rightarrow> name @ ''.schema.yml'')"

text \<open>\<open>ignored\<close>: the mismatch banner was dismissed, which an effect takes back on another index.\<close>

definition main_view_of :: "bool \<Rightarrow> config_toml \<Rightarrow> app \<Rightarrow> main_view" where
  "main_view_of ignored config a =
     (let name = ds_active (ap_design a) in
      if ui_browseCatalog (ap_ui a) then
        (case ds_catalog (ap_design a) of Some c \<Rightarrow> Tables_pane c | None \<Rightarrow> Tables_loading)
      else if name = ''config'' then Config_pane config
      else if ui_rawMode (ap_ui a) then
        Code_pane (file_name config name) (indexDirty (app_doc a) (app_saved a) name)
      else if shown_schema a \<noteq> None then
        Canvas_pane (if typeMismatches a > 0 \<and> \<not> ignored then Some (typeMismatches a) else None) (inspectorOpen a)
      else Empty_pane)"

text \<open>The columns the grid reserves beside the main area: the sidebar's and the inspector's.\<close>

definition grid_columns :: "app \<Rightarrow> bool \<times> bool" where
  "grid_columns a = (ui_leftOpen (ap_ui a), inspectorOpen a)"

section \<open>The drawer\<close>

record drawer =
  dw_open :: bool
  dw_diagnostics :: "diagnostic list"
  dw_sample :: "request option"

definition drawer_of :: "translate \<Rightarrow> app \<Rightarrow> drawer option" where
  "drawer_of t a =
     (case (shown_schema a, app_doc a) of
        (Some schema, Some d) \<Rightarrow>
          Some \<lparr>dw_open = ui_drawer (ap_ui a),
                dw_diagnostics = filter (\<lambda>x. dg_index x = ds_active (ap_design a)) (allDiagnostics t a),
                dw_sample = Some (api_sample (doc_config d) (ds_active (ap_design a)) schema)\<rparr>
      | _ \<Rightarrow> None)"

section \<open>The screen\<close>

datatype screen =
    Loading string
  | Screen top_bar "string list" "context_bar option" "nav_item list option" main_view "drawer option"

definition screen_of :: "shell_env \<Rightarrow> string \<Rightarrow> bool \<Rightarrow> app \<Rightarrow> screen" where
  "screen_of en lang ignored a =
     (case (ds_project (ap_design a), app_doc a) of
        (Some p, Some d) \<Rightarrow>
          Screen (top_bar_of en lang p a) (banners (en_t en) a) (context_bar_of a)
            (if ui_leftOpen (ap_ui a) then Some (nav_items (en_t en) (doc_config d) a) else None)
            (main_view_of ignored (doc_config d) a) (drawer_of (en_t en) a)
      | _ \<Rightarrow> Loading (if ui_error (ap_ui a) \<noteq> '''' then ui_error (ap_ui a) else en_t en ''common.loading'' []))"

text \<open>Leaving the page asks back while there is something to save.\<close>

definition warns_on_leave :: "app \<Rightarrow> bool" where
  "warns_on_leave a \<longleftrightarrow> app_dirty a"


section \<open>The sidebar and the screen agree\<close>

lemma entries_names: "map e_name (entries_of c) = names_of c"
  by (simp add: names_of_def comp_def)

lemma filter_by_name:
  assumes "distinct (map e_name es)" "e \<in> set es"
  shows "filter (\<lambda>x. e_name x = e_name e) es = [e]"
  using assms by (induction es) (force simp: filter_empty_conv image_iff)+

lemma index_items_active:
  "filter nv_active (map (index_item a) es) =
     (if ui_browseCatalog (ap_ui a) then []
      else map (index_item a) (filter (\<lambda>e. e_name e = ds_active (ap_design a)) es))"
  by (induction es) (auto simp: index_item_def)

definition nav_ok :: "doc \<Rightarrow> bool" where
  "nav_ok d \<longleftrightarrow> distinct (names_of (doc_config d)) \<and> ''config'' \<notin> set (names_of (doc_config d))"

text \<open>Exactly one item is highlighted.\<close>

definition shown_target :: "app \<Rightarrow> nav_target" where
  "shown_target a =
     (if ui_browseCatalog (ap_ui a) then Nav_tables
      else if ds_active (ap_design a) = ''config'' then Nav_deployment
      else Nav_index (ds_active (ap_design a)))"

lemma nav_one_active:
  assumes doc: "app_doc a = Some d" and ok: "active_ok (ap_design a)" "nav_ok d"
  shows "map nv_target (filter nv_active (nav_items t (doc_config d) a)) = [shown_target a]"
proof -
  let ?es = "entries_of (doc_config d)" and ?n = "ds_active (ap_design a)"
  have names: "distinct (map e_name ?es)" "''config'' \<notin> e_name ` set ?es"
    using ok(2) by (simp_all add: nav_ok_def names_of_def comp_def)
  consider "ui_browseCatalog (ap_ui a)" | "\<not> ui_browseCatalog (ap_ui a)" "?n = ''config''"
    | "\<not> ui_browseCatalog (ap_ui a)" "?n \<noteq> ''config''" by blast
  then show ?thesis
  proof cases
    case 2
    then have "filter (\<lambda>e. e_name e = ?n) ?es = []" using names(2) by (force simp: filter_empty_conv)
    with 2 show ?thesis by (simp add: nav_items_def index_items_active shown_target_def)
  next
    case 3
    then obtain e where e: "e \<in> set ?es" "e_name e = ?n"
      using ok(1) doc by (auto simp: active_ok_def names_of_def)
    then have "filter (\<lambda>e. e_name e = ?n) ?es = [e]" using filter_by_name [OF names(1) e(1)] by simp
    with 3 e show ?thesis by (simp add: nav_items_def index_items_active shown_target_def) (simp add: index_item_def)
  qed (simp add: nav_items_def index_items_active shown_target_def)
qed

text \<open>A click on an item shows it, keeps the document, and leaves it the highlighted one.\<close>

lemma nav_click_frame [simp]:
  "app_doc (nav_click x a) = app_doc a" "app_saved (nav_click x a) = app_saved a"
  "ui_rawMode (ap_ui (nav_click x a)) = ui_rawMode (ap_ui a)"
  by (cases x; simp add: app_frames)+

lemma nav_items_targets:
  "map nv_target (nav_items t c a) = Nav_deployment # Nav_tables # map Nav_index (names_of c)"
  by (simp add: nav_items_def index_item_def names_of_def comp_def)

lemma nav_click_shows:
  assumes "x \<in> set (map nv_target (nav_items t (doc_config d) a))" "nav_ok d"
  shows "shown_target (nav_click x a) = x"
  using assms unfolding nav_items_targets
  by (auto simp: shown_target_def app_frames nav_ok_def)

lemma nav_click_ok:
  assumes "app_doc a = Some d" "x \<in> set (map nv_target (nav_items t (doc_config d) a))" "active_ok (ap_design a)"
  shows "active_ok (ap_design (nav_click x a))"
  using assms unfolding nav_items_targets by (cases x) (auto simp: active_ok_def app_frames)

lemma nav_click_lands:
  assumes doc: "app_doc a = Some d" and ok: "active_ok (ap_design a)" "nav_ok d"
    and x: "x \<in> set (map nv_target (nav_items t (doc_config d) a))"
  shows "map nv_target (filter nv_active (nav_items t (doc_config d) (nav_click x a))) = [x]"
  using nav_one_active [of "nav_click x a" d t] nav_click_ok [OF doc x ok(1)] nav_click_shows [OF x ok(2)] doc ok(2)
  by simp

text \<open>The main area is that of the route in the address bar.\<close>

fun view_of_route :: "route \<Rightarrow> main_view \<Rightarrow> bool" where
  "view_of_route Tables v \<longleftrightarrow> v = Tables_loading \<or> (\<exists>c. v = Tables_pane c)"
| "view_of_route Deployment v \<longleftrightarrow> (\<exists>c. v = Config_pane c)"
| "view_of_route (Index n code) v \<longleftrightarrow>
     (if code then \<exists>f dirty. v = Code_pane f dirty else v = Empty_pane \<or> (\<exists>b i. v = Canvas_pane b i))"

lemma main_view_route: "view_of_route (shownRoute a) (main_view_of ignored config a)"
  by (simp add: shownRoute_def main_view_of_def Let_def split: option.splits)

lemma main_view_empty:
  "main_view_of ignored config a = Empty_pane \<longleftrightarrow>
     (\<exists>n. shownRoute a = Index n False \<and> schema_at a n = None)"
  by (auto simp: main_view_of_def Let_def shownRoute_def shown_schema_def split: option.splits)

lemma context_bar_shown:
  "context_bar_of a \<noteq> None \<longleftrightarrow> (\<exists>n code. shownRoute a = Index n code \<and> schema_at a n \<noteq> None)"
  by (auto simp: context_bar_of_def shownRoute_def shown_schema_def split: option.splits if_splits)

text \<open>
  The inspector's column is reserved for the tables browser too, which does not draw it; Code mode
  is taken care of.
\<close>

lemma inspector_column_empty:
  assumes "inspectorOpen a"
  shows "snd (grid_columns (nav_click Nav_tables a))"
    and "view_of_route Tables (main_view_of ignored config (nav_click Nav_tables a))"
proof -
  show "snd (grid_columns (nav_click Nav_tables a))"
    using assms by (auto simp: grid_columns_def inspectorOpen_def shown_schema_def schema_at_def app_frames)
  show "view_of_route Tables (main_view_of ignored config (nav_click Nav_tables a))"
    by (simp add: main_view_of_def Let_def app_frames split: option.splits)
qed

text \<open>An index named \<open>config\<close> cannot be opened: its item shows the deployment.\<close>

lemma config_index_unreachable:
  "shownRoute (nav_click (Nav_index ''config'') a) = Deployment"
  by (simp add: shownRoute_def app_frames)

section \<open>The buttons and the palette's commands\<close>

fun action_of :: "button \<Rightarrow> bool \<Rightarrow> action option" where
  "action_of Sidebar_b raw = Some Sidebar_a"
| "action_of Palette_b raw = None"
| "action_of Undo_b raw = Some Undo_a"
| "action_of Redo_b raw = Some Redo_a"
| "action_of Theme_b raw = Some Theme_a"
| "action_of (Mode_b on) raw = (if on = raw then None else Some Mode_a)"
| "action_of Validate_b raw = Some Validate_a"
| "action_of Reset_b raw = Some Reset_a"
| "action_of Save_b raw = Some Save_a"

text \<open>An enabled button does what the palette's command of its name does.\<close>

lemma press_is_command:
  assumes "action_of b (ui_rawMode (ap_ui (sh_app sh))) = Some c"
    and "\<not> button_disabled (top_bar_of en lang p (sh_app sh)) b"
  shows "press en b sh = run_action en c sh"
  using assms by (cases b) (auto simp: top_bar_of_def Let_def split: if_splits)

text \<open>The save button asks twice: it is disabled without changes, and a save that plans nothing says so.\<close>

lemma save_enabled_iff:
  "tb_save_disabled (top_bar_of en lang p a) \<longleftrightarrow> ui_saving (ap_ui a) \<or> \<not> app_dirty a"
  "tb_reset_disabled (top_bar_of en lang p a) \<longleftrightarrow> tb_save_disabled (top_bar_of en lang p a)"
  by (auto simp: top_bar_of_def Let_def)

text \<open>One language is marked, and it is a language of the table.\<close>

lemma one_language:
  assumes "has_key LANGS lang"
  shows "\<exists>l. filter (\<lambda>(code, label, on). on) (tb_langs (top_bar_of en lang p a)) = [(lang, l, True)]"
  using assms by (auto simp: top_bar_of_def Let_def LANGS_def has_key_def obj_get_def split: if_splits)

end
