(* ===== verification/Node_Rows.thy ===== *)
theory Node_Rows
  imports Node_View Inspector
begin

text \<open>
  What \<^verbatim>\<open>components/DocNodeView.tsx\<close> draws of a node, as data: the header with its inline rename, the
  row of a column and of another leaf with everything they show, the body of a node, and the menus
  of the footer. The rows are drawn from the projected node, the edits go to the schema; the lemmas
  say that the two agree.
\<close>

section \<open>The rows\<close>

record col_row =
  cr_text :: string
  cr_from :: "string option"
  cr_on :: bool
  cr_selected :: bool
  cr_severity :: "string option"
  cr_title :: "string option"
  cr_required :: bool
  cr_override :: bool
  cr_default :: bool
  cr_type :: string
  cr_class :: string

text \<open>\<open>new Map(\<dots>)\<close>: the last diagnostic of a field is the one looked up.\<close>

definition diagByField :: "diagnostic list \<Rightarrow> string \<Rightarrow> diagnostic option" where
  "diagByField ds name = find (\<lambda>d. dg_field d = name) (rev ds)"

definition row_column :: "field list \<Rightarrow> leaf_field option \<Rightarrow> column option" where
  "row_column fs inc =
     (case inc of
        None \<Rightarrow> None
      | Some l \<Rightarrow>
          (case js_get fs (lf_index l) of
             Some f \<Rightarrow> (case f_source f of Column_s col \<Rightarrow> Some col | _ \<Rightarrow> None)
           | None \<Rightarrow> None))"

definition leaf_type :: "leaf_field \<Rightarrow> string" where
  "leaf_type l = (case lf_ty l of Some t \<Rightarrow> scalar_name t | None \<Rightarrow> '''')"

definition col_row_of ::
  "diagnostic list \<Rightarrow> selection option \<Rightarrow> field list \<Rightarrow> doc_node \<Rightarrow> column_shape \<Rightarrow> col_row" where
  "col_row_of ds sel fs node c =
     (let inc = included_leaf node (cs_name c);
          renamed = (case inc of Some l \<Rightarrow> lf_name l \<noteq> cs_name c | None \<Rightarrow> False);
          diag = (case inc of Some l \<Rightarrow> diagByField ds (lf_name l) | None \<Rightarrow> None);
          col = row_column fs inc;
          required = (case col of Some x \<Rightarrow> \<not> col_nullable x | None \<Rightarrow> False);
          label = (case inc of Some l \<Rightarrow> leaf_type l | None \<Rightarrow> typeLabel (cs_suggested_type c))
      in \<lparr>cr_text = (case inc of Some l \<Rightarrow> lf_name l | None \<Rightarrow> cs_name c),
          cr_from = (if renamed then Some (cs_name c) else None),
          cr_on = (inc \<noteq> None),
          cr_selected = (cs_name c \<in> set (rowsSelected sel node) \<or>
                         (case inc of Some l \<Rightarrow> fieldSelected sel node (lf_index l) | None \<Rightarrow> False)),
          cr_severity = map_option dg_severity diag, cr_title = map_option dg_message diag,
          cr_required = required, cr_override = (required \<and> cs_nullable c),
          cr_default = (case col of Some x \<Rightarrow> col_default x \<noteq> None | None \<Rightarrow> False),
          cr_type = label, cr_class = typeClass label\<rparr>)"

record leaf_row =
  lr_kind :: string
  lr_text :: string
  lr_selected :: bool
  lr_severity :: "string option"
  lr_incomplete :: bool
  lr_title :: "string option"

definition leaf_row_of ::
  "translate \<Rightarrow> diagnostic list \<Rightarrow> selection option \<Rightarrow> field list \<Rightarrow> doc_node \<Rightarrow> leaf_field \<Rightarrow> leaf_row" where
  "leaf_row_of t ds sel fs node l =
     (let diag = diagByField ds (lf_name l); incomplete = aggregateIncomplete (js_get fs (lf_index l)) in
      \<lparr>lr_kind = lf_kind l, lr_text = lf_name l,
       lr_selected = (lf_name l \<in> set (rowsSelected sel node) \<or> fieldSelected sel node (lf_index l)),
       lr_severity = map_option dg_severity diag, lr_incomplete = incomplete,
       lr_title = (case diag of Some d \<Rightarrow> Some (dg_message d)
                   | None \<Rightarrow> if incomplete then Some (t ''node.incomplete'' []) else None)\<rparr>)"

section \<open>The header and the inline rename\<close>

record node_head =
  hd_kind :: string
  hd_title :: string
  hd_renamable :: bool
  hd_removable :: bool
  hd_collapsed :: bool
  hd_issues :: "nat option"
  hd_incomplete :: bool
  hd_table :: string
  hd_key :: "string option"
  hd_fields :: "nat option"

definition positive :: "nat \<Rightarrow> nat option" where
  "positive n = (if n > 0 then Some n else None)"

definition node_head_of :: "index_schema \<Rightarrow> diagnostic list \<Rightarrow> string list \<Rightarrow> doc_node \<Rightarrow> node_head" where
  "node_head_of schema ds collapsed node =
     \<lparr>hd_kind = n_kind node,
      hd_title = (case n_name node of Some n \<Rightarrow> n | None \<Rightarrow> n_table node),
      hd_renamable = (length (n_path node) > 0), hd_removable = (length (n_path node) > 0),
      hd_collapsed = (n_id node \<in> set collapsed), hd_issues = positive (nodeIssues ds node),
      hd_incomplete = joinIncomplete (fieldAtPath schema (n_path node)),
      hd_table = n_table node,
      hd_key = (case n_primaryKey node of Some k \<Rightarrow> if k \<noteq> '''' then Some k else None | None \<Rightarrow> None),
      hd_fields = positive (length (n_leaves node))\<rparr>"

definition click_header :: "doc_node \<Rightarrow> selection" where
  "click_header node = (if length (n_path node) > 0 then Node_sel (n_path node) else Root_sel)"

record rename =
  rn_open :: bool
  rn_draft :: string

datatype rename_event = Double_click | Type_draft string | Enter_key | Escape_key | Blur

text \<open>Leaving the field commits like Enter does; the form that is closed gets no more events.\<close>

definition rename_step ::
  "doc_node \<Rightarrow> rename_event \<Rightarrow> rename \<Rightarrow> design_state \<Rightarrow> (rename \<times> design_state) res" where
  "rename_step node e r s =
     (case e of
        Double_click \<Rightarrow>
          if \<not> rn_open r \<and> length (n_path node) > 0
          then Inr (\<lparr>rn_open = True, rn_draft = (case n_name node of Some n \<Rightarrow> n | None \<Rightarrow> '''')\<rparr>, s)
          else Inr (r, s)
      | Type_draft d \<Rightarrow> if rn_open r then Inr (r\<lparr>rn_draft := d\<rparr>, s) else Inr (r, s)
      | Escape_key \<Rightarrow> Inr (r\<lparr>rn_open := False\<rparr>, s)
      | _ \<Rightarrow>
          if rn_open r then map_res (Pair (r\<lparr>rn_open := False\<rparr>)) (commitRename node (rn_draft r) s)
          else Inr (r, s))"

section \<open>The body\<close>

datatype check_state = Checked | Unchecked | Indeterminate

definition master_check :: "column_shape list \<Rightarrow> doc_node \<Rightarrow> check_state" where
  "master_check cols node =
     (if allIncluded cols node then Checked
      else if includedCount cols node = 0 then Unchecked else Indeterminate)"

datatype node_body =
    Choose_root "string list"
  | Enter_root
  | Rows "check_state option" "col_row list" "leaf_row list" bool "suggestion list"

text \<open>The arguments of \<open>Rows\<close>: the master box, the rows, whether a column is typed by hand, the relations.\<close>

definition node_body_of ::
  "translate \<Rightarrow> catalog_response option \<Rightarrow> column_shape list \<Rightarrow> diagnostic list \<Rightarrow> selection option \<Rightarrow> string \<Rightarrow>
     field list \<Rightarrow> doc_node \<Rightarrow> node_body" where
  "node_body_of t catalog cols ds sel flt fs node =
     (if n_kind node = ''root'' \<and> n_table node = '''' then
        (case catalog of
           Some c \<Rightarrow> if length (cat_tables c) > 0 then Choose_root (map t_name (cat_tables c)) else Enter_root
         | None \<Rightarrow> Enter_root)
      else
        Rows (if length cols > 0 then Some (master_check cols node) else None)
          (map (col_row_of ds sel fs node) (visibleCols flt cols))
          (map (leaf_row_of t ds sel fs node) (visibleLeaves flt cols node))
          (length cols = 0)
          (case catalog of Some c \<Rightarrow> suggestRelations c (n_table node) | None \<Rightarrow> []))"

section \<open>The menus\<close>

record menu_entry =
  me_key :: string
  me_label :: string
  me_detail :: "string option"
  me_class :: string

definition FIELD_KINDS :: "string list" where
  "FIELD_KINDS = [''object'', ''geo'', ''map'', ''custom'', ''constant'']"

definition AGG_KINDS :: "string list" where
  "AGG_KINDS = [''count'', ''sum'', ''avg'', ''min'', ''max'', ''ids'']"

definition kind_help :: "translate \<Rightarrow> string \<Rightarrow> string option" where
  "kind_help t k = map_option (\<lambda>key. t key []) (obj_get KIND_HELP k)"

definition kind_entry :: "translate \<Rightarrow> string \<Rightarrow> menu_entry" where
  "kind_entry t k = \<lparr>me_key = k, me_label = k, me_detail = kind_help t k, me_class = kindColorClass k\<rparr>"

definition add_menu :: "translate \<Rightarrow> menu_entry list" where
  "add_menu t = map (kind_entry t) JOIN_KINDS"

definition field_menu :: "translate \<Rightarrow> (string \<times> menu_entry list) list" where
  "field_menu t =
     [(t ''node.fieldGroup'' [], map (kind_entry t) FIELD_KINDS), (t ''node.aggGroup'' [], map (kind_entry t) AGG_KINDS)]"

text \<open>The searchable menu's own state; a choice runs its action, closes the menu and clears the query.\<close>

record search_menu =
  mn_open :: bool
  mn_query :: string

definition dismiss :: "('s \<Rightarrow> 's) \<Rightarrow> search_menu \<times> 's \<Rightarrow> search_menu \<times> 's" where
  "dismiss act ms = (\<lparr>mn_open = False, mn_query = ''''\<rparr>, act (snd ms))"

text \<open>The box for a column the catalog does not list: the text it keeps after Enter.\<close>

definition manual_enter :: "doc_node \<Rightarrow> string \<Rightarrow> design_state \<Rightarrow> (string \<times> design_state) res" where
  "manual_enter node name s =
     map_res (Pair (if trim name \<noteq> '''' then '''' else name)) (manualColumn node name s)"


section \<open>A row shows its field\<close>

text \<open>
  A row stands for the fields that map its column with a type of the type list. Such a type is any
  scalar but \<^const>\<open>Geo_point_t\<close>, which a schema file may name but the list does not have.
\<close>

definition row_field :: "string \<Rightarrow> field \<Rightarrow> bool" where
  "row_field c f \<longleftrightarrow> scalar_column f = Some c \<and> c \<noteq> '''' \<and> fieldKind f \<noteq> ''geo_point''"

lemma leafOf_column: "lf_column (leafOf f i) = scalar_column f"
  by (simp add: scalar_column_def split: field_source.splits flusso_type.splits)

lemma scalar_column_kind:
  assumes "scalar_column f = Some c"
  shows "fieldKind f \<in> set SCALAR_NAMES \<longleftrightarrow> fieldKind f \<noteq> ''geo_point''"
proof -
  obtain n opts col t where f: "f = Field n opts (Column_s col)" "col_ty col = Scalar t"
    using assms by (cases f rule: fieldKind.cases) (auto simp: scalar_column_def split: flusso_type.splits)
  have "scalar_name t = ''geo_point'' \<longleftrightarrow> t = Geo_point_t" by (metis scalar_name.simps(17) scalar_name_inject)
  moreover have "scalar_name t \<in> set SCALAR_NAMES \<longleftrightarrow> t \<noteq> Geo_point_t"
    using SCALAR_TYPES_all [of t] by (auto simp: SCALAR_NAMES_def) (auto simp: SCALAR_TYPES_def)
  ultimately show ?thesis using f by simp
qed

lemma leafOf_row: "is_scalar_leaf (leafOf f i) \<and> lf_column (leafOf f i) = Some c \<longleftrightarrow> row_field c f"
  unfolding is_scalar_leaf_def leafOf_column row_field_def
  using scalar_column_kind [of f] by (auto simp del: leafOf.simps)

lemma node_leaf_of:
  assumes "l \<in> set (node_leaves fs)"
  shows "lf_index l < length fs \<and> l = leafOf (fs ! lf_index l) (lf_index l)"
  using assms by (auto simp: node_leaves_def simp del: leafOf.simps)

lemma row_field_leaf: "row_field c f \<Longrightarrow> \<not> is_container f"
  by (cases f rule: fieldKind.cases) (auto simp: row_field_def scalar_column_def is_container_def)

lemma row_leaf_mem:
  assumes "row_field c (fs ! i)" "i < length fs"
  shows "leafOf (fs ! i) i \<in> set (node_leaves fs)"
  using assms row_field_leaf isContainerKind_fieldKind by (auto simp: node_leaves_def simp del: leafOf.simps)

lemma included_leaf_Some:
  assumes leaves: "n_leaves node = node_leaves fs" and inc: "included_leaf node c = Some l"
  shows "lf_index l < length fs" and "l = leafOf (fs ! lf_index l) (lf_index l)" and "row_field c (fs ! lf_index l)"
proof -
  have l: "l \<in> set (node_leaves fs)" "is_scalar_leaf l \<and> lf_column l = Some c"
    using inc leaves by (auto simp: included_leaf_def find_Some_iff) (metis nth_mem set_rev length_rev)
  then show "lf_index l < length fs" "l = leafOf (fs ! lf_index l) (lf_index l)" using node_leaf_of by simp_all
  then show "row_field c (fs ! lf_index l)" using l(2) leafOf_row by metis
qed

lemma included_leaf_None:
  assumes leaves: "n_leaves node = node_leaves fs"
  shows "included_leaf node c = None \<longleftrightarrow> (\<forall>f \<in> set fs. \<not> row_field c f)"
proof
  assume none: "included_leaf node c = None"
  show "\<forall>f \<in> set fs. \<not> row_field c f"
  proof
    fix f
    assume "f \<in> set fs"
    then obtain i where i: "i < length fs" "f = fs ! i" by (metis in_set_conv_nth)
    show "\<not> row_field c f"
    proof
      assume "row_field c f"
      then have "leafOf f i \<in> set (n_leaves node)" "is_scalar_leaf (leafOf f i) \<and> lf_column (leafOf f i) = Some c"
        using row_leaf_mem [of c fs i] i leaves leafOf_row by (simp_all del: leafOf.simps)
      with none show False by (auto simp: included_leaf_def find_None_iff simp del: leafOf.simps)
    qed
  qed
next
  assume "\<forall>f \<in> set fs. \<not> row_field c f"
  then show "included_leaf node c = None"
    using included_leaf_Some(1,3) [OF leaves, of c] by (metis not_None_eq nth_mem)
qed

text \<open>The row is ticked exactly when the node has such a field, and it shows the field it found.\<close>

lemma row_on_iff:
  assumes "n_leaves node = node_leaves fs"
  shows "cr_on (col_row_of ds sel fs node c) \<longleftrightarrow> (\<exists>f \<in> set fs. row_field (cs_name c) f)"
proof -
  have "cr_on (col_row_of ds sel fs node c) \<longleftrightarrow> included_leaf node (cs_name c) \<noteq> None"
    by (simp add: col_row_of_def Let_def)
  then show ?thesis using included_leaf_None [OF assms, of "cs_name c"] by metis
qed

lemma row_shows_field:
  assumes "n_leaves node = node_leaves fs" "cr_on (col_row_of ds sel fs node c)"
  shows "\<exists>f col. f \<in> set fs \<and> row_field (cs_name c) f \<and> f_source f = Column_s col \<and>
    cr_text (col_row_of ds sel fs node c) = f_field f \<and> cr_type (col_row_of ds sel fs node c) = fieldKind f \<and>
    (cr_required (col_row_of ds sel fs node c) \<longleftrightarrow> \<not> col_nullable col) \<and>
    (cr_default (col_row_of ds sel fs node c) \<longleftrightarrow> col_default col \<noteq> None)"
proof -
  obtain l where l: "included_leaf node (cs_name c) = Some l"
    using assms(2) by (auto simp: col_row_of_def Let_def)
  let ?f = "fs ! lf_index l"
  note at = included_leaf_Some [OF assms(1) l]
  obtain n opts col t where f: "?f = Field n opts (Column_s col)" "col_ty col = Scalar t"
    using at(3) by (cases ?f rule: fieldKind.cases) (auto simp: row_field_def scalar_column_def split: flusso_type.splits)
  have "leaf_type l = fieldKind ?f" "lf_name l = f_field ?f"
    using f by (subst at(2); simp add: leaf_type_def)+
  then show ?thesis
    using at(1,3) l f nth_mem [OF at(1)]
    by (intro exI [of _ ?f] exI [of _ col]) (simp add: col_row_of_def Let_def row_column_def js_get_def)
qed

text \<open>A column of the type \<open>geo_point\<close> has no row that is ticked, so ticking adds it again.\<close>

lemma geo_point_unticked:
  assumes "n_leaves node = node_leaves fs" "\<forall>f \<in> set fs. scalar_column f = Some (cs_name c) \<longrightarrow> fieldKind f = ''geo_point''"
  shows "\<not> cr_on (col_row_of ds sel fs node c)"
  using assms by (auto simp: row_on_iff row_field_def)

section \<open>Ticking a row\<close>

lemma mk_node_simps [simp]:
  "n_leaves (mk_node sc path par d) = node_leaves (nodeFields sc path)" "n_path (mk_node sc path par d) = path"
  by (simp_all add: mk_node_def Let_def)

text \<open>
  A row that is ticked is, drawn again, ticked and selected, with the type of the column; a row
  that is unticked is free again. Both leave every other field of the node as it is.
\<close>

lemma tick_shows:
  assumes live: "live_path sc path" and name: "cs_name c \<noteq> ''''"
    and ty: "suggested_or_keyword c = Scalar ty" "ty \<noteq> Geo_point_t"
    and free: "\<forall>f \<in> set (nodeFields sc path). \<not> row_field (cs_name c) f"
  shows "\<exists>sc'. toggleColumn sc path (cs_name c) True (suggested_or_keyword c) (cs_nullable c) = Inr sc' \<and>
    (let n = length (nodeFields sc path);
         row = col_row_of ds (Some (Field_sel path n)) (nodeFields sc' path) (mk_node sc' path par d) c
     in nodeFields sc' path = nodeFields sc path @ [column_field (cs_name c) (Scalar ty) (cs_nullable c)] \<and>
        cr_on row \<and> cr_selected row \<and> cr_type row = scalar_name ty \<and> cr_from row = None \<and>
        cr_required row = (\<not> cs_nullable c) \<and> \<not> cr_override row \<and> \<not> cr_default row)"
proof -
  let ?new = "column_field (cs_name c) (Scalar ty) (cs_nullable c)" and ?fs = "nodeFields sc path"
  obtain sc' where sc': "toggleColumn sc path (cs_name c) True (suggested_or_keyword c) (cs_nullable c) = Inr sc'"
      "nodeFields sc' path = ?fs @ [?new]"
    using edit_node_total [OF live, of "\<lambda>fs. fs @ [?new]"] by (auto simp: toggleColumn_def ty(1))
  have "scalar_name ty \<noteq> ''geo_point''" using ty(2) by (metis scalar_name.simps(17) scalar_name_inject)
  then have new: "row_field (cs_name c) ?new" using name by (simp add: row_field_def column_field_def plain_column_def scalar_column_def)
  then obtain l where l: "included_leaf (mk_node sc' path par d) (cs_name c) = Some l"
    using included_leaf_None [of "mk_node sc' path par d" "nodeFields sc' path" "cs_name c"] sc'(2) by auto
  note at = included_leaf_Some [OF mk_node_simps(1) l]
  have idx: "lf_index l = length ?fs"
  proof (rule ccontr)
    assume "lf_index l \<noteq> length ?fs"
    then have "lf_index l < length ?fs" using at(1) sc'(2) by simp
    then show False using at(3) free nth_mem [of "lf_index l" ?fs] by (simp add: sc'(2) nth_append)
  qed
  have nth: "nodeFields sc' path ! length ?fs = ?new" by (simp add: sc'(2))
  have "l = leafOf ?new (length ?fs)" using at(2) unfolding idx nth .
  then show ?thesis
    using l sc'
    by (intro exI [of _ sc'])
       (simp add: Let_def col_row_of_def row_column_def js_get_def column_field_def plain_column_def leaf_type_def
          fieldSelected_def)
qed

lemma untick_frees:
  assumes live: "live_path sc path"
  shows "\<exists>sc'. toggleColumn sc path (cs_name c) False ty b = Inr sc' \<and>
    \<not> cr_on (col_row_of ds sel (nodeFields sc' path) (mk_node sc' path par d) c) \<and>
    nodeFields sc' path = filter (\<lambda>f. scalar_column f \<noteq> Some (cs_name c)) (nodeFields sc path)"
proof -
  obtain sc' where "toggleColumn sc path (cs_name c) False ty b = Inr sc'"
      "nodeFields sc' path = filter (\<lambda>f. scalar_column f \<noteq> Some (cs_name c)) (nodeFields sc path)"
    using edit_node_total [OF live, of "filter (\<lambda>f. scalar_column f \<noteq> Some (cs_name c))"] by (auto simp: toggleColumn_def)
  then show ?thesis by (auto simp: row_on_iff row_field_def)
qed

text \<open>A plain click selects the row it is on.\<close>

lemma click_selects:
  assumes "\<not> ck_shift e" "\<not> ck_modkey e" "row = col_row_of ds sel0 fs node c"
    and "selectRow node order sel anchor (cs_name c) e (map_option lf_index (included_leaf node (cs_name c))) = (sel', a')"
  shows "cr_selected (col_row_of ds (Some sel') fs node c)"
  using assms by (cases "included_leaf node (cs_name c)")
    (auto simp: selectRow_def col_row_of_def Let_def rowsSelected_def fieldSelected_def)

section \<open>The master box\<close>

lemma full_filter: "length (filter P xs) = length xs \<longleftrightarrow> (\<forall>x \<in> set xs. P x)"
proof (induction xs)
  case (Cons x xs)
  have "length (filter P xs) \<noteq> Suc (length xs)" using length_filter_le [of P xs] by linarith
  then show ?case using Cons.IH by simp
qed simp

lemma master_checked_iff:
  "master_check cols node = Checked \<longleftrightarrow> cols \<noteq> [] \<and> (\<forall>c \<in> set cols. included_leaf node (cs_name c) \<noteq> None)"
  "master_check cols node = Unchecked \<longleftrightarrow> (\<forall>c \<in> set cols. included_leaf node (cs_name c) = None)"
proof -
  have all: "includedCount cols node = length cols \<longleftrightarrow> (\<forall>c \<in> set cols. included_leaf node (cs_name c) \<noteq> None)"
    unfolding includedCount_def by (rule full_filter)
  have none: "includedCount cols node = 0 \<longleftrightarrow> (\<forall>c \<in> set cols. included_leaf node (cs_name c) = None)"
    by (simp add: includedCount_def filter_empty_conv)
  show "master_check cols node = Checked \<longleftrightarrow> cols \<noteq> [] \<and> (\<forall>c \<in> set cols. included_leaf node (cs_name c) \<noteq> None)"
    unfolding master_check_def allIncluded_def all by simp
  show "master_check cols node = Unchecked \<longleftrightarrow> (\<forall>c \<in> set cols. included_leaf node (cs_name c) = None)"
    unfolding master_check_def allIncluded_def all none by (cases cols) auto
qed

section \<open>Renaming\<close>

text \<open>Escape and an unchanged or blank draft leave the document; the form is closed after every commit.\<close>

lemma rename_escape: "rename_step node Escape_key r s = Inr (r\<lparr>rn_open := False\<rparr>, s)"
  by (simp add: rename_step_def)

lemma rename_unchanged:
  assumes "rn_open r" "trim (rn_draft r) = '''' \<or> Some (trim (rn_draft r)) = n_name node" "e \<in> {Enter_key, Blur}"
  shows "rename_step node e r s = Inr (r\<lparr>rn_open := False\<rparr>, s)"
  using assms by (auto simp: rename_step_def commitRename_def Let_def)

text \<open>The blur that closing the field brings about does nothing more.\<close>

lemma rename_once:
  "rename_step node Enter_key r s = Inr (r', s') \<Longrightarrow> rename_step node Blur r' s' = Inr (r', s')"
  by (auto simp: rename_step_def map_res_def split: if_splits sum.splits)

section \<open>The menus lead somewhere\<close>

text \<open>The field menu offers only kinds that make a field of that kind, each with its help.\<close>

lemma menu_kinds:
  "k \<in> set (FIELD_KINDS @ AGG_KINDS @ JOIN_KINDS) \<Longrightarrow> fieldKind (defaultField n k table) = k \<and> has_key KIND_HELP k"
proof -
  assume k: "k \<in> set (FIELD_KINDS @ AGG_KINDS @ JOIN_KINDS)"
  have "list_all (\<lambda>k. k \<in> set all_kinds \<and> has_key KIND_HELP k) (FIELD_KINDS @ AGG_KINDS @ JOIN_KINDS)" by code_simp
  then show ?thesis using k fieldKind_defaultField unfolding list_all_iff by blast
qed

section \<open>What opens on a new field\<close>

text \<open>The body the inspector shows for a field that is selected as a leaf.\<close>

datatype leaf_body = Scalar_body | Map_body | Custom_body | Geo_body | Constant_body | Aggregate_body

definition leaf_body_of :: "field \<Rightarrow> leaf_body option" where
  "leaf_body_of f =
     (case f_source f of
        Column_s c \<Rightarrow>
          Some (case col_ty c of Scalar _ \<Rightarrow> Scalar_body | Map_t _ \<Rightarrow> Map_body | Custom_t _ _ \<Rightarrow> Custom_body)
      | Geo_s _ \<Rightarrow> Some Geo_body
      | Constant_s _ \<Rightarrow> Some Constant_body
      | Relation_s (Aggregate_r _) \<Rightarrow> Some Aggregate_body
      | _ \<Rightarrow> None)"

lemma leaf_body_iff: "leaf_body_of f = None \<longleftrightarrow> is_container f"
  by (cases f rule: fieldKind.cases) (auto simp: leaf_body_of_def is_container_def)

text \<open>
  The menus select what they added as a leaf. A new leaf gets its body; a new join or object, which is
  a node, gets none of the forms.
\<close>

lemma picked_field:
  assumes live: "live_path sc (n_path node)" and kind: "k \<in> set (FIELD_KINDS @ AGG_KINDS @ JOIN_KINDS)"
    and pick: "pickSpecial node (length (nodeFields sc (n_path node))) k s = Inr s'"
    and add: "addSpecial sc (n_path node) k = Inr sc'"
  shows "ds_selection s' = Some (Field_sel (n_path node) (length (nodeFields sc (n_path node))))"
    and "leaf_body_of (nodeFields sc' (n_path node) ! length (nodeFields sc (n_path node))) = None \<longleftrightarrow>
      k \<in> set (''object'' # JOIN_KINDS)"
proof -
  show "ds_selection s' = Some (Field_sel (n_path node) (length (nodeFields sc (n_path node))))"
    using pick by (auto simp: pickSpecial_def dest: apply_select_sel)
  let ?fs = "nodeFields sc (n_path node)" and ?f = "defaultField (specialName (map f_field (nodeFields sc (n_path node))) k) k ''''"
  have "nodeFields sc' (n_path node) = ?fs @ [?f]"
    using edit_node_total [OF live, of "\<lambda>fs. fs @ [?f]"] add by (auto simp: addSpecial_def addField_def Let_def)
  then have "leaf_body_of (nodeFields sc' (n_path node) ! length ?fs) = None \<longleftrightarrow> isContainerKind k"
    using conjunct1 [OF menu_kinds [OF kind]] by (simp add: leaf_body_iff isContainerKind_fieldKind [symmetric])
  then show "leaf_body_of (nodeFields sc' (n_path node) ! length ?fs) = None \<longleftrightarrow> k \<in> set (''object'' # JOIN_KINDS)"
    by (auto simp: isContainerKind_def JOIN_KINDS_def)
qed

end
