(* ===== verification/Diff_Pane.thy ===== *)
theory Diff_Pane
  imports Line_Diff
begin

text \<open>
  What \<^verbatim>\<open>components/DiffView.tsx\<close> paints of the rows that \<open>DiffView\<close> shows: the two gutters, the sign
  and the text of a line with what is emphasised, and the header. The lemmas read the painted pane
  back: with every gap expanded each layout spells out the two files.
\<close>

section \<open>Lines\<close>

datatype paint = Plain_p | Strong_p | Removed_p | Added_p

record cell =
  cl_old :: "nat option"
  cl_new :: "nat option"
  cl_sign :: string
  cl_text :: "(paint \<times> string) list"

datatype pane_line = Bar nat | Line cell | Filler

text \<open>\<open>LineText\<close>: \<open>strong\<close> is whether the row has a tint for its changed tokens.\<close>

definition line_text :: "row \<Rightarrow> bool \<Rightarrow> (paint \<times> string) list" where
  "line_text r strong =
     (case r_seg r of
        None \<Rightarrow> [(Plain_p, if r_text r \<noteq> '''' then r_text r else '' '')]
      | Some segs \<Rightarrow> map (\<lambda>s. (if sg_changed s \<and> strong then Strong_p else Plain_p, sg_text s)) segs)"

definition diff_row :: "row \<Rightarrow> cell" where
  "diff_row r =
     (let add = (r_type r = Add); del = (r_type r = Del) in
      \<lparr>cl_old = r_oldNo r, cl_new = r_newNo r,
       cl_sign = (if add then ''+'' else if del then ''-'' else '' ''), cl_text = line_text r (add \<or> del)\<rparr>)"

definition inline_row :: "mseg list \<Rightarrow> nat option \<Rightarrow> nat option \<Rightarrow> cell" where
  "inline_row merged oldNo newNo =
     \<lparr>cl_old = oldNo, cl_new = newNo, cl_sign = ''~'',
      cl_text = map (\<lambda>s. (case ms_kind s of Eq \<Rightarrow> Plain_p | Del \<Rightarrow> Removed_p | Add \<Rightarrow> Added_p, ms_text s)) merged\<rparr>"

text \<open>The sign of an unchanged cell is there, in a transparent colour.\<close>

definition side_cell :: "diff_mode \<Rightarrow> row \<Rightarrow> cell" where
  "side_cell side r =
     (let changed = (if side = OldSide then r_type r = Del else r_type r = Add) in
      \<lparr>cl_old = (if side = OldSide then r_oldNo r else None), cl_new = (if side = OldSide then None else r_newNo r),
       cl_sign = (if side = OldSide then ''-'' else ''+''), cl_text = line_text r changed\<rparr>)"

fun paint_shown :: "diff_mode \<Rightarrow> shown \<Rightarrow> pane_line" where
  "paint_shown side (GapBar i n) = Bar n"
| "paint_shown side (InlineRow m a b) = Line (inline_row m a b)"
| "paint_shown side (DiffRow r) = Line (diff_row r)"
| "paint_shown side (SideCell None) = Filler"
| "paint_shown side (SideCell (Some r)) = Line (side_cell side r)"

definition pane :: "string \<Rightarrow> string \<Rightarrow> diff_mode \<Rightarrow> nat list \<Rightarrow> pane_line list list" where
  "pane current new mode expanded =
     (case DiffView current new mode expanded of
        [l, r] \<Rightarrow> [map (paint_shown OldSide) l, map (paint_shown NewSide) r]
      | cols \<Rightarrow> map (map (paint_shown mode)) cols)"

section \<open>The header\<close>

record diff_header =
  dh_path :: string
  dh_new_file :: bool
  dh_adds :: nat
  dh_dels :: nat

definition diff_header_of :: "string \<Rightarrow> string \<Rightarrow> string \<Rightarrow> diff_header" where
  "diff_header_of path current new =
     (let rows = diffLines current new in
      \<lparr>dh_path = path, dh_new_file = (current = ''''),
       dh_adds = length (filter (\<lambda>r. r_type r = Add) rows),
       dh_dels = length (filter (\<lambda>r. r_type r = Del) rows)\<rparr>)"

lemma header_counts: "(dh_adds (diff_header_of p c n), dh_dels (diff_header_of p c n)) = diffStats c n"
  by (simp add: diff_header_of_def diffStats_def Let_def)

text \<open>A file that is there and empty is marked as new.\<close>

lemma header_new_empty: "dh_new_file (diff_header_of p '''' n)"
  by (simp add: diff_header_of_def Let_def)

section \<open>Reading a line back\<close>

definition spelled :: "(paint \<times> string) list \<Rightarrow> string" where
  "spelled ps = concat (map snd ps)"

text \<open>A line reads as its text; an empty one may be shown as a blank.\<close>

definition reads :: "nat option \<times> string \<Rightarrow> nat option \<times> string \<Rightarrow> bool" where
  "reads x y \<longleftrightarrow> fst x = fst y \<and> (snd x = snd y \<or> snd y = '''' \<and> snd x = '' '')"

fun read_old :: "pane_line \<Rightarrow> (nat option \<times> string) list" where
  "read_old (Line c) =
     (if cl_sign c = ''+'' then []
      else [(cl_old c, spelled (filter (\<lambda>x. fst x \<noteq> Added_p) (cl_text c)))])"
| "read_old _ = []"

fun read_new :: "pane_line \<Rightarrow> (nat option \<times> string) list" where
  "read_new (Line c) =
     (if cl_sign c = ''-'' then []
      else [(cl_new c, spelled (filter (\<lambda>x. fst x \<noteq> Removed_p) (cl_text c)))])"
| "read_new _ = []"

definition old_of :: "row list \<Rightarrow> (nat option \<times> string) list" where
  "old_of rows = map (\<lambda>r. (r_oldNo r, r_text r)) (old_rows rows)"

definition new_of :: "row list \<Rightarrow> (nat option \<times> string) list" where
  "new_of rows = map (\<lambda>r. (r_newNo r, r_text r)) (new_rows rows)"

definition row_seg_ok :: "row \<Rightarrow> bool" where
  "row_seg_ok r \<longleftrightarrow> (\<forall>ss. r_seg r = Some ss \<longrightarrow> seg_text ss = r_text r)"

lemma segs_ok_row: "segs_ok rows \<Longrightarrow> r \<in> set rows \<Longrightarrow> row_seg_ok r"
  by (simp add: segs_ok_def row_seg_ok_def)

lemma line_text_keeps: "filter (\<lambda>x. fst x \<noteq> Added_p) (line_text r s) = line_text r s"
  "filter (\<lambda>x. fst x \<noteq> Removed_p) (line_text r s) = line_text r s"
  by (auto simp: line_text_def filter_id_conv split: option.splits)

lemma line_text_reads: "row_seg_ok r \<Longrightarrow> reads (n, spelled (line_text r s)) (n, r_text r)"
  by (cases "r_seg r") (auto simp: line_text_def reads_def spelled_def row_seg_ok_def seg_text_def comp_def)

lemma inline_reads:
  "spelled (filter (\<lambda>x. fst x \<noteq> Added_p) (cl_text (inline_row m a b))) = old_text m"
  "spelled (filter (\<lambda>x. fst x \<noteq> Removed_p) (cl_text (inline_row m a b))) = new_text m"
  unfolding inline_row_def spelled_def side_text
  by (induction m) (auto split: row_type.splits)

section \<open>Once every gap is expanded\<close>

definition no_bar :: "shown list \<Rightarrow> bool" where
  "no_bar xs \<longleftrightarrow> (\<forall>i n. GapBar i n \<notin> set xs)"

lemma no_bar_simps [simp]:
  "no_bar []" "no_bar (xs @ ys) \<longleftrightarrow> no_bar xs \<and> no_bar ys" "\<not> no_bar (GapBar i n # xs)"
  by (auto simp: no_bar_def)

lemma show_blocks_expanded:
  "no_bar (concat (map (show_block expanded f) bs)) \<Longrightarrow>
     concat (map (show_block expanded f) bs) = concat (map (f \<circ> bl_items) bs)"
proof (induction bs)
  case (Cons b bs)
  then have b: "show_block expanded f b = f (bl_items b)" by (auto simp: show_block_def split: if_splits)
  with Cons show ?case by simp
qed simp

lemma collapsed_items: "concat (map (f \<circ> bl_items) (collapse items P)) = concat (map f (map bl_items (collapse items P)))"
  by simp

lemma unifiedBody_expanded:
  assumes "no_bar (unifiedBody rows expanded)"
  shows "unifiedBody rows expanded = concat (map (show_urow rows) (unifyRows rows))"
proof -
  have "concat (map (\<lambda>us. concat (map (show_urow rows) us)) uss) = concat (map (show_urow rows) (concat uss))" for uss
    by (induction uss) simp_all
  then show ?thesis
    using show_blocks_expanded [OF assms [unfolded unifiedBody_def]]
    by (simp add: unifiedBody_def collapsed_items collapse_concat del: map_map)
qed

lemma splitColumn_expanded:
  assumes "no_bar (splitColumn rows ps side expanded)"
  shows "splitColumn rows ps side expanded =
    map (\<lambda>p. SideCell (map_option ((!) rows) (if side = OldSide then pr_left p else pr_right p))) ps"
proof -
  have "concat (map (map g) xss) = map g (concat xss)" for g :: "pair \<Rightarrow> shown" and xss
    by (simp add: map_concat)
  then show ?thesis
    using show_blocks_expanded [OF assms [unfolded splitColumn_def]]
    by (simp add: splitColumn_def collapsed_items collapse_concat del: map_map)
qed

lemma singleSide_no_bar:
  assumes "no_bar (singleSide rows mode expanded)"
  shows "singleSide rows mode expanded = map DiffRow (filter (\<lambda>r. rowVisible (r_type r) mode) rows)"
proof -
  have "concat (map (\<lambda>rs. map DiffRow (filter P rs)) xss) = map DiffRow (filter P (concat xss))" for P and xss :: "row list list"
    by (induction xss) simp_all
  then show ?thesis
    using show_blocks_expanded [OF assms [unfolded singleSide_def]]
    by (simp add: singleSide_def collapsed_items collapse_concat del: map_map)
qed

section \<open>Each layout reads back\<close>

definition reads_as :: "(nat option \<times> string) list \<Rightarrow> (nat option \<times> string) list \<Rightarrow> bool" where
  "reads_as xs ys \<longleftrightarrow> list_all2 reads xs ys"

lemma reads_as_append: "reads_as xs ys \<Longrightarrow> reads_as xs' ys' \<Longrightarrow> reads_as (xs @ xs') (ys @ ys')"
  unfolding reads_as_def by (rule list_all2_appendI)

lemma reads_as_concat:
  assumes "\<And>x. x \<in> set xs \<Longrightarrow> reads_as (f x) (g x)"
  shows "reads_as (concat (map f xs)) (concat (map g xs))"
  using assms
proof (induction xs)
  case (Cons x xs)
  then show ?case by (simp add: reads_as_append)
qed (simp add: reads_as_def)

lemma diff_row_reads:
  assumes "row_seg_ok r"
  shows "reads_as (read_old (Line (diff_row r))) (if r_type r = Add then [] else [(r_oldNo r, r_text r)])"
    and "reads_as (read_new (Line (diff_row r))) (if r_type r = Del then [] else [(r_newNo r, r_text r)])"
  using line_text_reads [OF assms]
  by (cases "r_type r"; simp add: diff_row_def Let_def line_text_keeps reads_as_def)+

lemma unify_index:
  "u \<in> set (unify_from rows k) \<Longrightarrow> u_row u = Some x \<Longrightarrow> x < length rows"
proof (induction rows k rule: pairs_from.induct)
  case (1 rows k)
  show ?case
  proof (cases "k < length rows")
    case False
    with "1.prems" show ?thesis by (simp add: unify_from_end)
  next
    case True
    show ?thesis
    proof (cases "r_type (rows ! k) = Eq")
      case eq: True
      with "1.IH" (1) "1.prems" True show ?thesis by (auto simp: unify_from_eq)
    next
      case neq: False
      obtain ds as k' where run: "take_run rows k [] [] = (ds, as, k')" by (metis prod_cases3)
      note spec = take_run_spec [OF run]
      have idx: "\<forall>y \<in> set (ds @ as). y < length rows" using spec True by auto
      note IH = "1.IH" (2) [OF True neq run [symmetric] refl refl]
      from unify_from_run [OF True neq run] show ?thesis
        using "1.prems" idx IH by (cases; auto)
    qed
  qed
qed

lemma show_urow_reads:
  assumes ok: "segs_ok rows" and u: "u \<in> set (unifyRows rows)"
  shows "reads_as (concat (map (read_old \<circ> paint_shown side) (show_urow rows u))) (urow_old rows u)"
    and "reads_as (concat (map (read_new \<circ> paint_shown side) (show_urow rows u))) (urow_new rows u)"
proof -
  have row: "row_seg_ok (rows ! x)" if "u_row u = Some x" for x
    using that u segs_ok_row [OF ok] nth_mem [OF unify_index [of u rows 0 x]] by (simp add: unifyRows_def)
  show "reads_as (concat (map (read_old \<circ> paint_shown side) (show_urow rows u))) (urow_old rows u)"
    using diff_row_reads(1) [OF row]
    by (auto simp: show_urow_def urow_old_def inline_reads reads_as_def reads_def split: option.splits)
       (simp_all add: inline_row_def)
  show "reads_as (concat (map (read_new \<circ> paint_shown side) (show_urow rows u))) (urow_new rows u)"
    using diff_row_reads(2) [OF row]
    by (auto simp: show_urow_def urow_new_def inline_reads reads_as_def reads_def split: option.splits)
       (simp_all add: inline_row_def)
qed

lemma bare_same:
  assumes "bare_rows rows = bare_rows rows0" "x < length rows0"
  shows "r_text (rows ! x) = r_text (rows0 ! x)" "r_type (rows ! x) = r_type (rows0 ! x)"
    "r_oldNo (rows ! x) = r_oldNo (rows0 ! x)" "r_newNo (rows ! x) = r_newNo (rows0 ! x)"
proof -
  have "length rows = length rows0" using assms(1) by (metis bare_rows_def length_map)
  then have "(rows ! x)\<lparr>r_seg := None\<rparr> = (rows0 ! x)\<lparr>r_seg := None\<rparr>"
    using assms by (metis bare_rows_def nth_map)
  then show "r_text (rows ! x) = r_text (rows0 ! x)" "r_type (rows ! x) = r_type (rows0 ! x)"
    "r_oldNo (rows ! x) = r_oldNo (rows0 ! x)" "r_newNo (rows ! x) = r_newNo (rows0 ! x)"
    by (metis row.surjective row.update_convs(5) row.select_convs(1-4))+
qed

lemma bare_sides: "old_of (bare_rows rows) = old_of rows" "new_of (bare_rows rows) = new_of rows"
  by (induction rows) (simp_all add: old_of_def new_of_def old_rows_def new_rows_def bare_rows_def)

text \<open>The rows with their word diff, as \<open>DiffView\<close> has them.\<close>

definition painted_rows :: "string \<Rightarrow> string \<Rightarrow> row list \<times> pair list" where
  "painted_rows c n = attachWordDiff (diffLines c n) (buildPairs (diffLines c n))"

lemma painted_rows_ok:
  assumes "painted_rows c n = (rows, ps)"
  shows "segs_ok rows" "old_of rows = old_of (diffLines c n)" "new_of rows = new_of (diffLines c n)"
    "map pr_left ps = map pr_left (buildPairs (diffLines c n))" "map pr_right ps = map pr_right (buildPairs (diffLines c n))"
    "bare_rows rows = bare_rows (diffLines c n)"
proof -
  have inv: "segs_ok rows \<and> bare_rows rows = bare_rows (diffLines c n) \<and> bare_pairs ps = bare_pairs (buildPairs (diffLines c n))"
    using attachWordDiff_inv [OF assms [unfolded painted_rows_def] diffLines_segs_ok] .
  then show "segs_ok rows" "bare_rows rows = bare_rows (diffLines c n)" by simp_all
  show "old_of rows = old_of (diffLines c n)" "new_of rows = new_of (diffLines c n)"
    using inv bare_sides by metis+
  have "map pr_left (bare_pairs qs) = map pr_left qs" "map pr_right (bare_pairs qs) = map pr_right qs" for qs
    by (simp_all add: bare_pairs_def comp_def)
  then show "map pr_left ps = map pr_left (buildPairs (diffLines c n))" "map pr_right ps = map pr_right (buildPairs (diffLines c n))"
    using inv by metis+
qed

lemma files_of_diff:
  "old_of (diffLines c n) = zip (map Some [1..<Suc (length (splitLines c))]) (splitLines c)"
  "new_of (diffLines c n) = zip (map Some [1..<Suc (length (splitLines n))]) (splitLines n)"
  unfolding old_of_def new_of_def by (simp_all only: map_pair_zip diffLines_old diffLines_new diffLines_oldNo diffLines_newNo)

text \<open>A column of cells reads as the rows its pairs name.\<close>

lemma side_cell_reads:
  "row_seg_ok r \<Longrightarrow> reads_as (read_old (Line (side_cell OldSide r))) [(r_oldNo r, r_text r)]"
  "row_seg_ok r \<Longrightarrow> reads_as (read_new (Line (side_cell NewSide r))) [(r_newNo r, r_text r)]"
  using line_text_reads [of r] by (simp_all add: side_cell_def Let_def line_text_keeps reads_as_def)

lemma column_reads:
  assumes ok: "\<And>i. Some i \<in> set xs \<Longrightarrow> row_seg_ok (rows ! i)"
  shows "reads_as (concat (map (read_old \<circ> paint_shown OldSide) (map (\<lambda>x. SideCell (map_option ((!) rows) x)) xs)))
      (map (\<lambda>r. (r_oldNo r, r_text r)) (map ((!) rows) (somes xs)))"
    and "reads_as (concat (map (read_new \<circ> paint_shown NewSide) (map (\<lambda>x. SideCell (map_option ((!) rows) x)) xs)))
      (map (\<lambda>r. (r_newNo r, r_text r)) (map ((!) rows) (somes xs)))"
  using ok
proof (induction xs)
  case (Cons x xs)
  {
    case 1
    then show ?case using Cons.IH(1) reads_as_append [OF side_cell_reads(1)] by (cases x) auto
  next
    case 2
    then show ?case using Cons.IH(2) reads_as_append [OF side_cell_reads(2)] by (cases x) auto
  }
qed (simp_all add: reads_as_def)

section \<open>The pane reads back\<close>

definition file_lines :: "string \<Rightarrow> (nat option \<times> string) list" where
  "file_lines s = zip (map Some [1..<Suc (length (splitLines s))]) (splitLines s)"

definition no_gap :: "pane_line list list \<Rightarrow> bool" where
  "no_gap cols \<longleftrightarrow> list_all (list_all (\<lambda>l. case l of Bar n \<Rightarrow> False | _ \<Rightarrow> True)) cols"

lemma shown_no_bar: "list_all (\<lambda>l. case l of Bar n \<Rightarrow> False | _ \<Rightarrow> True) (map (paint_shown side) xs) \<Longrightarrow> no_bar xs"
  by (auto simp: list_all_iff no_bar_def)

lemma concat_map_comp: "concat (map f (concat (map g xs))) = concat (map (\<lambda>x. concat (map f (g x))) xs)"
  by (induction xs) simp_all
lemma file_rows:
  assumes "painted_rows c n = (rows, ps)"
  shows "file_lines c = map (\<lambda>r. (r_oldNo r, r_text r)) (old_rows rows)"
    and "file_lines n = map (\<lambda>r. (r_newNo r, r_text r)) (new_rows rows)"
  using painted_rows_ok(2,3) [OF assms] files_of_diff [of c n] by (simp_all add: file_lines_def old_of_def new_of_def)

lemma unified_reads:
  assumes "painted_rows c n = (rows, ps)" and "no_bar (unifiedBody rows expanded)"
  shows "reads_as (concat (map (read_old \<circ> paint_shown Unified) (unifiedBody rows expanded))) (file_lines c)"
    and "reads_as (concat (map (read_new \<circ> paint_shown Unified) (unifiedBody rows expanded))) (file_lines n)"
  unfolding unifiedBody_expanded [OF assms(2)] concat_map_comp file_rows [OF assms(1)] unifyRows_old [symmetric] unifyRows_new [symmetric]
  by (intro reads_as_concat show_urow_reads painted_rows_ok(1) [OF assms(1)]; assumption)+

lemma concat_one: "concat (map (\<lambda>r. [f r]) xs) = map f xs"
  by (induction xs) simp_all

lemma single_reads:
  assumes "painted_rows c n = (rows, ps)"
  shows "no_bar (singleSide rows OldSide expanded) \<Longrightarrow>
      reads_as (concat (map (read_old \<circ> paint_shown OldSide) (singleSide rows OldSide expanded))) (file_lines c)"
    and "no_bar (singleSide rows NewSide expanded) \<Longrightarrow>
      reads_as (concat (map (read_new \<circ> paint_shown NewSide) (singleSide rows NewSide expanded))) (file_lines n)"
proof -
  have row: "row_seg_ok r" if "r \<in> set rows" for r using segs_ok_row [OF painted_rows_ok(1) [OF assms] that] .
  have "reads_as (concat (map (\<lambda>r. read_old (Line (diff_row r))) (old_rows rows)))
      (concat (map (\<lambda>r. [(r_oldNo r, r_text r)]) (old_rows rows)))"
    using diff_row_reads(1) [OF row] by (intro reads_as_concat) (fastforce simp: old_rows_def)
  then show "no_bar (singleSide rows OldSide expanded) \<Longrightarrow>
      reads_as (concat (map (read_old \<circ> paint_shown OldSide) (singleSide rows OldSide expanded))) (file_lines c)"
    by (subst singleSide_no_bar) (simp_all add: rowVisible_sides comp_def concat_one file_rows [OF assms])
  have "reads_as (concat (map (\<lambda>r. read_new (Line (diff_row r))) (new_rows rows)))
      (concat (map (\<lambda>r. [(r_newNo r, r_text r)]) (new_rows rows)))"
    using diff_row_reads(2) [OF row] by (intro reads_as_concat) (fastforce simp: new_rows_def)
  then show "no_bar (singleSide rows NewSide expanded) \<Longrightarrow>
      reads_as (concat (map (read_new \<circ> paint_shown NewSide) (singleSide rows NewSide expanded))) (file_lines n)"
    by (subst singleSide_no_bar) (simp_all add: rowVisible_sides comp_def concat_one file_rows [OF assms])
qed

lemma somes_set: "i \<in> set (somes xs) \<longleftrightarrow> Some i \<in> set xs"
  by (induction xs rule: somes.induct) auto

lemma pairs_in_range:
  assumes "p \<in> set (buildPairs rows)"
  shows "pr_left p = Some i \<Longrightarrow> i < length rows" "pr_right p = Some i \<Longrightarrow> i < length rows"
  using bspec [OF buildPairs_ok assms] by (auto simp: pair_ok_def split: if_splits)

lemma bare_nth:
  assumes "bare_rows rows = bare_rows rows0" and "\<forall>i \<in> set xs. i < length rows0"
  shows "map (\<lambda>i. (r_oldNo (rows ! i), r_text (rows ! i))) xs = map (\<lambda>i. (r_oldNo (rows0 ! i), r_text (rows0 ! i))) xs"
    and "map (\<lambda>i. (r_newNo (rows ! i), r_text (rows ! i))) xs = map (\<lambda>i. (r_newNo (rows0 ! i), r_text (rows0 ! i))) xs"
  using assms(2) bare_same [OF assms(1)] by simp_all

lemma split_reads:
  assumes "painted_rows c n = (rows, ps)"
  shows "no_bar (splitColumn rows ps OldSide expanded) \<Longrightarrow>
      reads_as (concat (map (read_old \<circ> paint_shown OldSide) (splitColumn rows ps OldSide expanded))) (file_lines c)"
    and "no_bar (splitColumn rows ps NewSide expanded) \<Longrightarrow>
      reads_as (concat (map (read_new \<circ> paint_shown NewSide) (splitColumn rows ps NewSide expanded))) (file_lines n)"
proof -
  note ok = painted_rows_ok [OF assms]
  define rows0 ps0 where "rows0 = diffLines c n" and "ps0 = buildPairs rows0"
  have len: "length rows = length rows0" using ok(6) by (metis bare_rows_def length_map rows0_def)
  have range: "x < length rows0" if "Some x \<in> set (map pr_left ps) \<or> Some x \<in> set (map pr_right ps)" for x
    using that pairs_in_range [of _ rows0 x] unfolding ok(4,5) rows0_def by auto
  then have seg: "row_seg_ok (rows ! x)" if "Some x \<in> set (map pr_left ps) \<or> Some x \<in> set (map pr_right ps)" for x
    using that segs_ok_row [OF ok(1) nth_mem] len by simp
  have col: "splitColumn rows ps OldSide expanded = map (\<lambda>x. SideCell (map_option ((!) rows) x)) (map pr_left ps)"
    if "no_bar (splitColumn rows ps OldSide expanded)"
    using splitColumn_expanded [OF that] by simp
  have col': "splitColumn rows ps NewSide expanded = map (\<lambda>x. SideCell (map_option ((!) rows) x)) (map pr_right ps)"
    if "no_bar (splitColumn rows ps NewSide expanded)"
    using splitColumn_expanded [OF that] by simp
  have left: "map ((!) rows0) (somes (map pr_left ps)) = old_rows rows0"
    "map ((!) rows0) (somes (map pr_right ps)) = new_rows rows0"
    unfolding ok(4,5) rows0_def by (rule buildPairs_left buildPairs_right)+
  have fl: "file_lines c = map (\<lambda>r. (r_oldNo r, r_text r)) (old_rows rows0)"
    "file_lines n = map (\<lambda>r. (r_newNo r, r_text r)) (new_rows rows0)"
    using files_of_diff [of c n] by (simp_all only: file_lines_def old_of_def new_of_def rows0_def)
  have "map (\<lambda>r. (r_oldNo r, r_text r)) (map ((!) rows) (somes (map pr_left ps))) =
      map (\<lambda>r. (r_oldNo r, r_text r)) (map ((!) rows0) (somes (map pr_left ps)))"
    using bare_nth(1) [OF ok(6), folded rows0_def, of "somes (map pr_left ps)"] range by (simp add: somes_set comp_def)
  then have cur: "map (\<lambda>r. (r_oldNo r, r_text r)) (map ((!) rows) (somes (map pr_left ps))) = file_lines c"
    by (simp only: fl left)
  show "no_bar (splitColumn rows ps OldSide expanded) \<Longrightarrow>
      reads_as (concat (map (read_old \<circ> paint_shown OldSide) (splitColumn rows ps OldSide expanded))) (file_lines c)"
    using column_reads(1) [of "map pr_left ps" rows] seg unfolding cur by (subst col) simp_all
  have "map (\<lambda>r. (r_newNo r, r_text r)) (map ((!) rows) (somes (map pr_right ps))) =
      map (\<lambda>r. (r_newNo r, r_text r)) (map ((!) rows0) (somes (map pr_right ps)))"
    using bare_nth(2) [OF ok(6), folded rows0_def, of "somes (map pr_right ps)"] range by (simp add: somes_set comp_def)
  then have new: "map (\<lambda>r. (r_newNo r, r_text r)) (map ((!) rows) (somes (map pr_right ps))) = file_lines n"
    by (simp only: fl left)
  show "no_bar (splitColumn rows ps NewSide expanded) \<Longrightarrow>
      reads_as (concat (map (read_new \<circ> paint_shown NewSide) (splitColumn rows ps NewSide expanded))) (file_lines n)"
    using column_reads(2) [of "map pr_right ps" rows] seg unfolding new by (subst col') simp_all
qed

text \<open>The first column shows the current file unless the new side alone is shown, the last column the
  next one unless the old side alone is.\<close>

lemma pane_reads:
  assumes gap: "no_gap (pane c n mode expanded)"
  shows "mode \<noteq> NewSide \<Longrightarrow> reads_as (concat (map read_old (hd (pane c n mode expanded)))) (file_lines c)"
    and "mode \<noteq> OldSide \<Longrightarrow> reads_as (concat (map read_new (last (pane c n mode expanded)))) (file_lines n)"
proof -
  obtain rows ps where rows: "painted_rows c n = (rows, ps)" by (metis surj_pair)
  have view: "DiffView c n mode expanded =
      (if mode = Split then [splitColumn rows ps OldSide expanded, splitColumn rows ps NewSide expanded]
       else if mode = Unified then [unifiedBody rows expanded] else [singleSide rows mode expanded])"
    using rows by (simp add: DiffView_def painted_rows_def)
  have cols: "pane c n mode expanded =
      (if mode = Split then [map (paint_shown OldSide) (splitColumn rows ps OldSide expanded),
          map (paint_shown NewSide) (splitColumn rows ps NewSide expanded)]
       else if mode = Unified then [map (paint_shown Unified) (unifiedBody rows expanded)]
       else [map (paint_shown mode) (singleSide rows mode expanded)])"
    by (simp add: pane_def view)
  have bars: "no_bar (splitColumn rows ps OldSide expanded)" "no_bar (splitColumn rows ps NewSide expanded)" if "mode = Split"
    using gap that unfolding no_gap_def cols by (auto intro: shown_no_bar)
  have bar: "no_bar (unifiedBody rows expanded)" if "mode = Unified"
    using gap that unfolding no_gap_def cols by (auto intro: shown_no_bar)
  have side: "no_bar (singleSide rows mode expanded)" if "mode = OldSide \<or> mode = NewSide"
    using gap that unfolding no_gap_def cols by (auto intro: shown_no_bar)
  note reading = unified_reads [OF rows] single_reads [OF rows] split_reads [OF rows]
  show "mode \<noteq> NewSide \<Longrightarrow> reads_as (concat (map read_old (hd (pane c n mode expanded)))) (file_lines c)"
    unfolding cols using reading bars bar side by (cases mode) simp_all
  show "mode \<noteq> OldSide \<Longrightarrow> reads_as (concat (map read_new (last (pane c n mode expanded)))) (file_lines n)"
    unfolding cols using reading bars bar side by (cases mode) simp_all
qed

end
