(* ===== verification/Catalogs.thy ===== *)
theory Catalogs
  imports I18n
begin

text \<open>
  The two message catalogs (\<^verbatim>\<open>locales/en.ts\<close>, \<^verbatim>\<open>locales/it.ts\<close>) and what the formatter of \<open>I18n\<close>
  makes of them. A character of the catalogs above 255 stands here as one of the control characters
  from 128 on, which no text uses, so that a string keeps its length. \<open>pieces\<close> reads a message from
  left to right instead of by index; \<open>format_loop_pieces\<close> shows that the formatter does the same.
\<close>

section \<open>The texts\<close>

abbreviation em_dash :: string where "em_dash \<equiv> [CHR 0x97]"
abbreviation ellipsis :: string where "ellipsis \<equiv> [CHR 0x85]"
abbreviation cmd_key :: string where "cmd_key \<equiv> [CHR 0x91]"
abbreviation shift_key :: string where "shift_key \<equiv> [CHR 0x92]"
abbreviation arrow :: string where "arrow \<equiv> [CHR 0x90]"
abbreviation hook :: string where "hook \<equiv> [CHR 0x93]"

definition en_1 :: "string jobj" where
  \<open>en_1 =
    [(''topbar.hideSidebar'', ''Hide sidebar''),
     (''topbar.showSidebar'', ''Show sidebar''),
     (''topbar.tables'', ''Tables''),
     (''topbar.visual'', ''Visual''),
     (''topbar.code'', ''Code''),
     (''topbar.modeHint'', ''Switch between the visual canvas and the YAML editor''),
     (''topbar.undo'', ''Undo ('' @ cmd_key @ ''Z)''),
     (''topbar.redo'', ''Redo ('' @ shift_key @ cmd_key @ ''Z)''),
     (''topbar.toggleTheme'', ''Toggle theme''),
     (''topbar.retestDb'', ''Re-test the database connection''),
     (''topbar.dbConnected'', ''DB connected''),
     (''topbar.dbOffline'', ''DB offline''),
     (''topbar.offlineBanner'', ''Database not reachable '' @ em_dash @ '' offline authoring only.''),
     (''topbar.yaml'', ''Preview''),
     (''topbar.validate'', ''Validate''),
     (''topbar.save'', ''Save''),
     (''topbar.reset'', ''Reset''),
     (''topbar.resetHint'', ''Discard unsaved changes''),
     (''topbar.unsaved'', ''Unsaved changes''),
     (''typeWarn.banner'', ''{n, plural, one {# field maps a column to a sharply different type} other {# fields map columns to sharply different types}}.''),
     (''typeWarn.fixAll'', ''Fix all''),
     (''typeWarn.ignore'', ''Ignore''),
     (''diag.requiredDefault'', ''required, but its source column "{col}" is nullable '' @ em_dash @ '' set a default value''),
     (''diag.typeMismatch'', ''type "{ty}" is a sharp change from source column "{col}" ({src}) '' @ em_dash @ '' values may fail to index''),
     (''topbar.upToDate'', ''Up to date''),
     (''topbar.language'', ''Language''),
     (''toast.saved'', ''{n, plural, one {Saved # file} other {Saved # files}}''),
     (''toast.saveFailed'', ''Save failed: {err}''),
     (''toast.validateFailed'', ''Validate failed: {err}''),
     (''toast.issues'', ''{n, plural, one {# issue '' @ em_dash @ '' see the highlighted field} other {# issues '' @ em_dash @ '' see the highlighted fields}}''),
     (''toast.dbNotReachable'', ''Database not reachable''),
     (''toast.dbConnected'', ''Database connected''),
     (''toast.alreadyUpToDate'', ''Already up to date''),
     (''toast.diffFailed'', ''Diff failed: {err}''),
     (''toast.dbNotReachableErr'', ''Database not reachable: {err}''),
     (''toast.schemasMatch'', ''Schemas match the database''),
     (''sidebar.deployment'', ''Deployment''),
     (''sidebar.indexes'', ''Indexes''),
     (''sidebar.off'', ''(off)''),
     (''sidebar.kinds'', ''Node kinds''),
     (''sidebar.types'', ''Field types''),
     (''sidebar.legend'', ''Legend''),
     (''legend.kindRoot'', ''The index root '' @ em_dash @ '' the document's primary table.''),
     (''legend.kindObject'', ''A nested object grouping columns from the same table.''),
     (''legend.kindBelongsTo'', ''This row points at one parent row (foreign key on this table).''),
     (''legend.kindHasOne'', ''One child row points back here '' @ em_dash @ '' a single nested object.''),
     (''legend.kindHasMany'', ''Many child rows point back here '' @ em_dash @ '' an array of objects.''),
     (''legend.kindManyToMany'', ''Related rows linked through a junction table.''),
     (''legend.typeString'', ''Text and keyword fields '' @ em_dash @ '' text, keyword, identifier, enum.''),
     (''legend.typeNumber'', ''Numbers '' @ em_dash @ '' integer, long, float, double, decimal'' @ ellipsis),
     (''legend.typeDate'', ''Dates and timestamps.''),
     (''legend.typeBoolean'', ''True / false.''),
     (''legend.typeUuid'', ''A UUID identifier.''),
     (''legend.typeGeo'', ''A geographic point (latitude / longitude).''),
     (''sidebar.newIndex'', ''New index''),
     (''sidebar.newIndexTitle'', ''New index''),
     (''sidebar.newIndexDesc'', ''Name the index, pick its root table, then choose where its schema file lands.''),
     (''sidebar.indexName'', ''index name''),
     (''sidebar.rootTable'', ''root table''),
     (''sidebar.schemaDir'', ''Directory''),
     (''sidebar.rootDir'', ''(root '' @ em_dash @ '' flusso.toml directory)''),
     (''sidebar.schemaFile'', ''Schema file''),
     (''sidebar.schemaFileHint'', ''Pick a directory (or type a new one) and a file name.''),
     (''sidebar.overrideName'', ''Override the full file name''),
     (''sidebar.lockSuffix'', ''Use the standard .schema.yml suffix''),
     (''sidebar.stepDetails'', ''Details''),
     (''sidebar.stepFile'', ''File''),
     (''sidebar.create'', ''Create''),
     (''raw.help'', ''Edits sync into the project as you type '' @ em_dash @ '' Save (top right) reviews and writes the files.''),
     (''raw.editorAria'', ''Raw YAML editor''),
     (''raw.format'', ''Format''),
     (''raw.vimHint'', ''VIM keybindings''),
     (''code.problems'', ''Problems''),
     (''code.problemsN'', ''{n, plural, one {# problem} other {# problems}}''),
     (''code.noProblems'', ''valid YAML''),
     (''code.validYaml'', ''valid YAML''),
     (''code.shortcuts'', ''Shortcuts''),
     (''code.search'', ''Search''),
     (''code.fold'', ''Fold block''),
     (''code.cursor'', ''Ln {l}, Col {c}''),
     (''code.autoFormat'', ''Auto-format''),
     (''code.autoFormatHint'', ''Format the buffer on focus loss whenever the YAML is valid''),
     (''diff.aria'', ''Review changes''),
     (''diff.reviewTitle'', ''Review changes''),
     (''diff.selected'', ''{n} of {m} selected''),
     (''diff.filterFiles'', ''Filter files'' @ ellipsis),
     (''diff.noFiles'', ''No matching files''),
     (''diff.kbdNavigate'', ''Navigate''),
     (''diff.kbdToggle'', ''Toggle file''),
     (''diff.kbdToggleAll'', ''Toggle all''),
     (''diff.kbdSave'', ''Save''),
     (''diff.kbdClear'', ''Clear filter''),
     (''diff.newFile'', ''New''),
     (''diff.opMove'', ''Move''),
     (''diff.opDelete'', ''Delete''),
     (''diff.movedFrom'', ''Moved from {path}''),
     (''diff.warnOutside'', ''This path resolves outside the config directory.''),
     (''diff.write'', ''{n, plural, one {Write # file} other {Write # files}}''),
     (''diff.unchanged'', ''{n, plural, one {# unchanged line} other {# unchanged lines}}''),
     (''diff.validating'', ''Validating'' @ ellipsis),
     (''diff.allGood'', ''All checks passed''),
     (''diff.dbOffline'', ''Database offline''),
     (''diff.validateFailed'', ''Validation failed''),
     (''diff.issues'', ''{n, plural, one {# issue found} other {# issues found}}''),
     (''diff.viewUnified'', ''Unified''),
     (''diff.viewSplit'', ''Split''),
     (''diff.viewOld'', ''Old''),
     (''diff.viewNew'', ''New''),
     (''common.cancel'', ''Cancel''),
     (''common.next'', ''Next''),
     (''common.back'', ''Back''),
     (''common.remove'', ''remove''),
     (''common.clear'', ''Clear''),
     (''common.close'', ''Close''),
     (''common.column'', ''column''),
     (''common.noMatch'', ''No match''),
     (''common.useValue'', ''Use "{v}"'')]\<close>

definition en_2 :: "string jobj" where
  \<open>en_2 =
    [(''common.loading'', ''Loading project'' @ ellipsis),
     (''inspector.selectPrompt'', ''Select a node or field to edit its details.''),
     (''inspector.indexRoot'', ''Index root''),
     (''inspector.rootTable'', ''root table''),
     (''inspector.schema'', ''schema''),
     (''inspector.rootFilters'', ''root filters''),
     (''inspector.objectGroup'', ''Object group''),
     (''inspector.duplicate'', ''Duplicate''),
     (''inspector.delete'', ''Delete''),
     (''inspector.close'', ''Close''),
     (''inspector.columnsSelected'', ''{n, plural, one {# row selected} other {# rows selected}}''),
     (''inspector.includeSelected'', ''{n, plural, one {Include # column} other {Include # columns}}''),
     (''inspector.removeSelected'', ''{n, plural, one {Remove # row} other {Remove # rows}}''),
     (''inspector.groupHint'', ''A group nests columns of the same table. Add fields on its node.''),
     (''inspector.join'', ''Join''),
     (''inspector.field'', ''Field''),
     (''inspector.fieldName'', ''field name''),
     (''inspector.verb'', ''verb''),
     (''inspector.table'', ''table''),
     (''inspector.btColumn'', ''column (this table '' @ arrow @ '' target)''),
     (''inspector.fkOnTarget'', ''foreign_key (on target)''),
     (''inspector.fkNullable'', ''FK column {col} is nullable '' @ em_dash @ '' the target may be absent, so this join is optional.''),
     (''inspector.fkNotNull'', ''FK column {col} is NOT NULL '' @ em_dash @ '' the target is always present.''),
     (''inspector.filters'', ''filters''),
     (''inspector.valueJson'', ''value (JSON)''),
     (''inspector.required'', ''required''),
     (''inspector.fromSource'', ''from source''),
     (''inspector.type'', ''type''),
     (''inspector.use'', ''use''),
     (''inspector.lowercase'', ''lowercase''),
     (''inspector.trim'', ''trim''),
     (''inspector.variants'', ''Variants (ordered)''),
     (''inspector.variantsHint'', ''List the values in rank order '' @ em_dash @ '' the field sorts by this order instead of alphabetically. Leave empty for a unmarked enum.''),
     (''inspector.variantsAdd'', ''Add a variant'' @ ellipsis),
     (''inspector.add'', ''Add''),
     (''inspector.variantUp'', ''Move up''),
     (''inspector.variantDown'', ''Move down''),
     (''inspector.variantRemove'', ''Remove variant''),
     (''inspector.defaultRequired'', ''default (required)''),
     (''inspector.defaultOptional'', ''default (optional, JSON)''),
     (''inspector.defaultPlaceholder'', ''e.g. 0 or "n/a"''),
     (''inspector.colNotNull'', ''NOT NULL''),
     (''inspector.colNullable'', ''nullable''),
     (''inspector.suggested'', ''suggested''),
     (''inspector.typeMismatch'', ''{ty} is a sharp change from the source column ({col}) '' @ em_dash @ '' values may fail to index.''),
     (''typeDesc.text'', ''Analyzed full-text search''),
     (''typeDesc.identifier'', ''Exact ID; not analyzed''),
     (''typeDesc.keyword'', ''Exact match; filter & sort''),
     (''typeDesc.enum'', ''Fixed set of values''),
     (''typeDesc.uuid'', ''UUID, stored as keyword''),
     (''typeDesc.boolean'', ''True or false''),
     (''typeDesc.short'', ''16-bit integer''),
     (''typeDesc.integer'', ''32-bit integer''),
     (''typeDesc.long'', ''64-bit integer''),
     (''typeDesc.float'', ''32-bit floating point''),
     (''typeDesc.double'', ''64-bit floating point''),
     (''typeDesc.decimal'', ''Exact decimal number''),
     (''typeDesc.date'', ''Calendar date''),
     (''typeDesc.timestamp'', ''Date and time''),
     (''typeDesc.binary'', ''Base64-encoded bytes''),
     (''typeDesc.json'', ''Arbitrary JSON object''),
     (''inspector.fromDb'', ''From the database''),
     (''inspector.inDoc'', ''In the document''),
     (''inspector.aggFrom'', ''Aggregated from''),
     (''inspector.relationship'', ''The relationship''),
     (''inspector.advanced'', ''Advanced '' @ [CHR 0xB7] @ '' index tuning''),
     (''inspector.renameTo'', ''rename to''),
     (''inspector.noSource'', ''No database source '' @ em_dash @ '' a fixed value in every document.''),
     (''inspector.nestedNote'', hook @ '' a nested object '' @ em_dash @ '' choose its columns & sub-joins on the node.''),
     (''inspector.countResult'', ''Counts the related rows into an integer.''),
     (''inspector.bridgeNotNull'', ''NOT NULL '' @ arrow @ '' required by default. Uncheck to make it optional in the document.''),
     (''inspector.bridgeNullable'', ''Nullable '' @ arrow @ '' optional by default. Mark it required and a default becomes mandatory.''),
     (''inspector.defaultError'', ''A required field over a nullable column must set a default, or the document field could be missing.''),
     (''inspector.optionsHelp'', ''Extra OpenSearch mapping properties merged beside the derived type. Pick a common one or add your own. Each value is JSON.''),
     (''inspector.optKey'', ''key''),
     (''inspector.optValue'', ''value (JSON, e.g. "english" or 2)''),
     (''inspector.option'', ''option''),
     (''inspector.values'', ''values''),
     (''inspector.columnJson'', ''column (json/jsonb)''),
     (''inspector.pgTypes'', ''postgres types (comma)''),
     (''inspector.osType'', ''opensearch type''),
     (''inspector.latColumn'', ''lat column''),
     (''inspector.lonColumn'', ''lon column''),
     (''inspector.geoHint'', ''A point is absent when either column is null (never sent as '{'lat:null'}'). Mark required to forbid that absence.''),
     (''inspector.relatedTable'', ''related table''),
     (''inspector.aggColumn'', ''column (to aggregate)''),
     (''inspector.junctionTable'', ''junction table''),
     (''inspector.junctionFilters'', ''Junction filters''),
     (''inspector.junctionFiltersHint'', ''Narrow the junction rows (e.g. skip cancelled lines). The filters above apply to the target table.''),
     (''inspector.distinct'', ''Count each target row once''),
     (''inspector.distinctOn'', ''Each target row counts once, however many junction rows point at it.''),
     (''inspector.distinctOff'', ''One value per junction row: a target linked twice counts twice.''),
     (''inspector.softDelete'', ''soft delete''),
     (''inspector.documentField'', ''document field''),
     (''kindHelp.belongs_to'', ''This row points at one target row (single nested object).''),
     (''kindHelp.has_one'', ''One related row points back here (single nested object).''),
     (''kindHelp.has_many'', ''Many related rows point back here (array of objects).''),
     (''kindHelp.many_to_many'', ''Related rows linked through a junction table (array of objects).''),
     (''kindHelp.object'', ''Groups columns of the same table under a nested object '' @ em_dash @ '' no new table.''),
     (''kindHelp.count'', ''Counts the related rows into a number.''),
     (''kindHelp.sum'', ''Sums a column of the related rows.''),
     (''kindHelp.avg'', ''Averages a column of the related rows (result is a double).''),
     (''kindHelp.min'', ''Smallest value of a column across the related rows.''),
     (''kindHelp.max'', ''Largest value of a column across the related rows.''),
     (''kindHelp.ids'', ''Collects the related table's primary keys into an array.''),
     (''kindHelp.geo'', ''A geo point from two columns (lat/lon).''),
     (''kindHelp.map'', ''A dynamic-key object over a json/jsonb column; keys stay searchable.''),
     (''kindHelp.custom'', ''A type flusso doesn't model '' @ em_dash @ '' you give the Postgres + OpenSearch types.''),
     (''kindHelp.constant'', ''A fixed value baked into every document.''),
     (''preview.title'', ''Preview''),
     (''preview.empty'', ''Select or edit an index to preview it.''),
     (''preview.parseError'', ''This schema does not parse:''),
     (''preview.document'', ''Document''),
     (''preview.tabYaml'', ''YAML''),
     (''preview.tabMapping'', ''Mapping''),
     (''preview.tabSample'', ''Sample'')]\<close>

definition en_3 :: "string jobj" where
  \<open>en_3 =
    [(''preview.copy'', ''copy''),
     (''preview.selectAll'', ''select all''),
     (''preview.copied'', ''copied''),
     (''preview.example'', ''example''),
     (''preview.building'', ''building'' @ ellipsis),
     (''preview.refresh'', ''refresh''),
     (''preview.fetch'', ''Build sample''),
     (''preview.sampleTitle'', ''Sample document''),
     (''preview.sampleHint'', ''Build a document from a live database row '' @ em_dash @ '' exactly what the sink writes.''),
     (''catalog.title'', ''{n, plural, one {Database (# table)} other {Database (# tables)}}''),
     (''catalog.dbError'', ''Database not reachable '' @ em_dash @ '' {err}''),
     (''catalog.filter'', ''Filter tables & columns'' @ ellipsis),
     (''catalog.junction'', ''junction''),
     (''catalog.cols'', ''{n, plural, one {# col} other {# cols}}''),
     (''catalog.pk'', ''primary key''),
     (''catalog.matchCount'', ''{n, plural, one {# table} other {# tables}}''),
     (''catalog.referencedBy'', ''Referenced by''),
     (''catalog.noMatch'', ''No matching tables or columns''),
     (''node.expand'', ''Expand''),
     (''node.collapse'', ''Collapse''),
     (''node.renameHint'', ''Double-click to rename''),
     (''node.renameField'', ''Field name''),
     (''node.pk'', ''pk''),
     (''node.fields'', ''{n, plural, one {# field} other {# fields}}''),
     (''node.diagCount'', ''{n, plural, one {# field disagrees with the database} other {# fields disagree with the database}}''),
     (''node.joinIncomplete'', ''This join is missing a required key '' @ em_dash @ '' set it in the inspector''),
     (''node.pickRoot'', ''Pick a root table to begin''),
     (''node.chooseTable'', ''choose a table'' @ ellipsis),
     (''node.rootTableEnter'', ''root table name, Enter''),
     (''node.filterCols'', ''filter columns'' @ ellipsis),
     (''node.includeAll'', ''include all columns''),
     (''node.clearAll'', ''clear all columns''),
     (''node.columnOf'', ''column: {name}''),
     (''node.reqAligned'', ''required (the column is NOT NULL)''),
     (''node.reqOverride'', ''required '' @ em_dash @ '' overrides a nullable column''),
     (''node.colDefault'', ''has a default value''),
     (''node.incomplete'', ''incomplete '' @ em_dash @ '' set its key/column in the inspector''),
     (''node.addJoin'', ''+ join''),
     (''node.addField'', ''+ field''),
     (''node.addColumn'', ''+ column name, Enter''),
     (''node.fieldGroup'', ''fields''),
     (''node.aggGroup'', ''aggregates''),
     (''node.addRelation'', ''{n, plural, one {# suggested relation} other {# suggested relations}}''),
     (''node.addRelationHint'', ''Pull in a related table as a join '' @ em_dash @ '' search the foreign keys pointing to and from this table''),
     (''node.searchRelations'', ''search relations'' @ ellipsis),
     (''node.searchFields'', ''search fields'' @ ellipsis),
     (''config.indexPrefix'', ''index prefix''),
     (''config.none'', ''(none)''),
     (''config.source'', ''Source''),
     (''config.stageIndexesHint'', ''synced documents''),
     (''config.stageSinksHint'', ''destinations''),
     (''config.backfill'', ''Backfill''),
     (''config.backfillHint'', ''Seed unseeded indexes from a snapshot. Off: live changes only, for a stateless sink.''),
     (''config.sinks'', ''Sinks''),
     (''config.sink'', ''sink''),
     (''config.name'', ''name''),
     (''config.schemaFile'', ''schema file''),
     (''config.onError'', ''on error''),
     (''config.state'', ''state''),
     (''config.enabled'', ''enabled''),
     (''config.disabled'', ''disabled''),
     (''config.duplicate'', ''duplicate''),
     (''config.index'', ''index''),
     (''config.removeIndexTitle'', ''Remove index?''),
     (''config.removeIndex'', ''Remove index "{name}"? (the schema file is left on disk)''),
     (''config.connection'', ''connection''),
     (''config.stream'', ''Stream''),
     (''config.streamHint'', ''between the source and the sinks''),
     (''config.options'', ''options''),
     (''config.required'', ''required''),
     (''config.default'', ''default''),
     (''config.literal'', ''literal''),
     (''config.env'', ''env var''),
     (''config.parts'', ''parts''),
     (''config.loadingAdapters'', ''loading adapters'' @ ellipsis),
     (''config.unknownAdapter'', ''No adapter is registered for type "{kind}"''),
     (''filters.value'', ''value''),
     (''filters.rangeFrom'', ''from''),
     (''filters.rangeTo'', ''to''),
     (''filters.and'', ''and''),
     (''filters.filter'', ''filter''),
     (''filters.kindRaw'', ''Raw SQL''),
     (''filters.kindRawDesc'', ''Verbatim SQL condition''),
     (''filters.kindNullCheck'', ''Null check''),
     (''filters.kindNullCheckDesc'', ''Column is (not) null''),
     (''filters.kindValueOp'', ''Column comparison''),
     (''filters.kindValueOpDesc'', ''Compare a column to a value''),
     (''filters.opEq'', ''equals''),
     (''filters.opNeq'', ''not equal''),
     (''filters.opLt'', ''less than''),
     (''filters.opLte'', ''less than or equal''),
     (''filters.opGt'', ''greater than''),
     (''filters.opGte'', ''greater than or equal''),
     (''filters.opIn'', ''in a list''),
     (''filters.opNotIn'', ''not in a list''),
     (''filters.opLike'', ''pattern match''),
     (''filters.opIlike'', ''case-insensitive match''),
     (''filters.opBetween'', ''within a range''),
     (''filters.opIsNull'', ''no value''),
     (''filters.opIsNotNull'', ''has a value''),
     (''filters.rawPlaceholder'', ''e.g. status <> 'archived'' @ [CHR 0x27]),
     (''filters.help'', ''Restrict which rows feed this field '' @ em_dash @ '' a raw SQL condition, a null check, or a column/operator/value test. All must hold.''),
     (''canvas.zoomIn'', ''Zoom in''),
     (''canvas.zoomOut'', ''Zoom out''),
     (''canvas.fitView'', ''Fit to view''),
     (''canvas.lock'', ''Lock layout''),
     (''canvas.unlock'', ''Unlock layout''),
     (''canvas.resetLayout'', ''Reset layout''),
     (''canvas.showMinimap'', ''Show minimap'')]\<close>

definition en_4 :: "string jobj" where
  \<open>en_4 =
    [(''canvas.hideMinimap'', ''Hide minimap''),
     (''canvas.collapseAll'', ''Collapse all''),
     (''canvas.expandAll'', ''Expand all''),
     (''search.placeholder'', ''Search everything'' @ ellipsis),
     (''search.empty'', ''No results''),
     (''search.emptyDetail'', ''Select a result to preview it.''),
     (''search.resultCount'', ''{n, plural, one {# result} other {# results}}''),
     (''search.title'', ''Global search''),
     (''search.actions'', ''Actions''),
     (''search.indexes'', ''Indexes''),
     (''search.fields'', ''Fields''),
     (''search.settings'', ''Settings''),
     (''search.legendKinds'', ''Legend '' @ [CHR 0xB7] @ '' Node kinds''),
     (''search.legendTypes'', ''Legend '' @ [CHR 0xB7] @ '' Field types''),
     (''search.tables'', ''Tables & columns''),
     (''search.reference'', ''Reference''),
     (''search.undo'', ''Undo''),
     (''search.redo'', ''Redo''),
     (''search.toVisual'', ''Switch to Visual''),
     (''search.toCode'', ''Switch to Code''),
     (''search.serverAddresses'', ''Server addresses''),
     (''search.navigate'', ''navigate''),
     (''search.selectHint'', ''select''),
     (''search.closeHint'', ''close''),
     (''search.complete'', ''complete''),
     (''search.recent'', ''Recent''),
     (''search.removeRecent'', ''Remove from recent''),
     (''search.onScreenFirst'', ''on-screen results rank first''),
     (''search.runAction'', ''Run action''),
     (''search.openIndex'', ''Open index''),
     (''search.jumpField'', ''Jump to field '' @ [CHR 0xB7] @ '' pans the canvas''),
     (''search.jumpNode'', ''Jump to node '' @ [CHR 0xB7] @ '' pans the canvas''),
     (''search.openSettings'', ''Open in deployment settings''),
     (''search.browseTables'', ''Open the table browser''),
     (''search.descValidate'', ''Check schemas against the database''),
     (''search.descSave'', ''Write schema & config changes to disk''),
     (''search.descReset'', ''Discard unsaved changes''),
     (''search.descDeployment'', ''Edit connection, sinks & options''),
     (''search.descTables'', ''Open the database catalog''),
     (''search.descYaml'', ''Toggle the schema & document preview''),
     (''search.descTheme'', ''Switch between dark and light''),
     (''search.descSidebar'', ''Show or hide the index list''),
     (''search.descNewIndex'', ''Create a new index''),
     (''search.descUndo'', ''Undo the last change''),
     (''search.descRedo'', ''Redo the last undone change''),
     (''search.descMode'', ''Switch between the visual canvas and the YAML editor''),
     (''search.descPrefix'', ''A prefix prepended to every index name.''),
     (''search.descConnection'', ''The Postgres source connection.''),
     (''search.descOnError'', ''Global policy when a document fails to index.''),
     (''search.descServer'', ''HTTP addresses for metrics, status & admin.''),
     (''search.descSink'', ''An output destination (OpenSearch or stdout).'')]\<close>

definition en_catalog :: "string jobj" where
  "en_catalog = en_1 @ en_2 @ en_3 @ en_4"

definition it_1 :: "string jobj" where
  \<open>it_1 =
    [(''topbar.hideSidebar'', ''Nascondi pannello''),
     (''topbar.showSidebar'', ''Mostra pannello''),
     (''topbar.tables'', ''Tabelle''),
     (''topbar.visual'', ''Visuale''),
     (''topbar.code'', ''Codice''),
     (''topbar.modeHint'', ''Passa dal canvas visivo all'editor YAML e viceversa''),
     (''topbar.undo'', ''Annulla ('' @ cmd_key @ ''Z)''),
     (''topbar.redo'', ''Ripeti ('' @ shift_key @ cmd_key @ ''Z)''),
     (''topbar.toggleTheme'', ''Cambia tema''),
     (''topbar.retestDb'', ''Riprova la connessione al database''),
     (''topbar.dbConnected'', ''DB connesso''),
     (''topbar.dbOffline'', ''DB offline''),
     (''topbar.offlineBanner'', ''Database non raggiungibile '' @ em_dash @ '' solo modifica offline.''),
     (''topbar.yaml'', ''Anteprima''),
     (''topbar.validate'', ''Convalida''),
     (''topbar.save'', ''Salva''),
     (''topbar.reset'', ''Ripristina''),
     (''topbar.resetHint'', ''Scarta le modifiche non salvate''),
     (''topbar.unsaved'', ''Modifiche non salvate''),
     (''typeWarn.banner'', ''{n, plural, one {# campo mappa una colonna a un tipo nettamente diverso} other {# campi mappano colonne a tipi nettamente diversi}}.''),
     (''typeWarn.fixAll'', ''Correggi tutto''),
     (''typeWarn.ignore'', ''Ignora''),
     (''diag.requiredDefault'', ''obbligatorio, ma la colonna sorgente "{col}" ammette null '' @ em_dash @ '' imposta un valore predefinito''),
     (''diag.typeMismatch'', ''il tipo "{ty}" '' @ [CHR 0xE8] @ '' un cambiamento netto rispetto alla colonna sorgente "{col}" ({src}) '' @ em_dash @ '' i valori potrebbero non indicizzarsi''),
     (''topbar.upToDate'', ''Aggiornato''),
     (''topbar.language'', ''Lingua''),
     (''toast.saved'', ''{n, plural, one {Salvato # file} other {Salvati # file}}''),
     (''toast.saveFailed'', ''Salvataggio non riuscito: {err}''),
     (''toast.validateFailed'', ''Convalida non riuscita: {err}''),
     (''toast.issues'', ''{n, plural, one {# problema '' @ em_dash @ '' vedi il campo evidenziato} other {# problemi '' @ em_dash @ '' vedi i campi evidenziati}}''),
     (''toast.dbNotReachable'', ''Database non raggiungibile''),
     (''toast.dbConnected'', ''Database connesso''),
     (''toast.alreadyUpToDate'', ''Gi'' @ [CHR 0xE0] @ '' aggiornato''),
     (''toast.diffFailed'', ''Confronto non riuscito: {err}''),
     (''toast.dbNotReachableErr'', ''Database non raggiungibile: {err}''),
     (''toast.schemasMatch'', ''Gli schemi corrispondono al database''),
     (''sidebar.deployment'', ''Distribuzione''),
     (''sidebar.indexes'', ''Indici''),
     (''sidebar.off'', ''(disattivo)''),
     (''sidebar.kinds'', ''Tipi di nodo''),
     (''sidebar.types'', ''Tipi di campo''),
     (''sidebar.legend'', ''Legenda''),
     (''legend.kindRoot'', ''La radice dell'indice '' @ em_dash @ '' la tabella principale del documento.''),
     (''legend.kindObject'', ''Un oggetto annidato che raggruppa colonne della stessa tabella.''),
     (''legend.kindBelongsTo'', ''Questa riga punta a una riga padre (chiave esterna su questa tabella).''),
     (''legend.kindHasOne'', ''Una riga figlia punta qui '' @ em_dash @ '' un singolo oggetto annidato.''),
     (''legend.kindHasMany'', ''Molte righe figlie puntano qui '' @ em_dash @ '' un array di oggetti.''),
     (''legend.kindManyToMany'', ''Righe correlate collegate tramite una tabella di giunzione.''),
     (''legend.typeString'', ''Campi testo e keyword '' @ em_dash @ '' text, keyword, identifier, enum.''),
     (''legend.typeNumber'', ''Numeri '' @ em_dash @ '' integer, long, float, double, decimal'' @ ellipsis),
     (''legend.typeDate'', ''Date e timestamp.''),
     (''legend.typeBoolean'', ''Vero / falso.''),
     (''legend.typeUuid'', ''Un identificatore UUID.''),
     (''legend.typeGeo'', ''Un punto geografico (latitudine / longitudine).''),
     (''sidebar.newIndex'', ''Nuovo indice''),
     (''sidebar.newIndexTitle'', ''Nuovo indice''),
     (''sidebar.newIndexDesc'', ''Assegna un nome all'indice, scegli la tabella radice, poi scegli dove salvare il file schema.''),
     (''sidebar.indexName'', ''nome indice''),
     (''sidebar.rootTable'', ''tabella radice''),
     (''sidebar.schemaDir'', ''Directory''),
     (''sidebar.rootDir'', ''(radice '' @ em_dash @ '' directory di flusso.toml)''),
     (''sidebar.schemaFile'', ''File schema''),
     (''sidebar.schemaFileHint'', ''Scegli una directory (o scrivine una nuova) e un nome file.''),
     (''sidebar.overrideName'', ''Personalizza il nome completo del file''),
     (''sidebar.lockSuffix'', ''Usa il suffisso standard .schema.yml''),
     (''sidebar.stepDetails'', ''Dettagli''),
     (''sidebar.stepFile'', ''File''),
     (''sidebar.create'', ''Crea''),
     (''raw.help'', ''Le modifiche si sincronizzano nel progetto mentre scrivi '' @ em_dash @ '' Salva (in alto a destra) rivede e scrive i file.''),
     (''raw.editorAria'', ''Editor YAML grezzo''),
     (''raw.format'', ''Formatta''),
     (''raw.vimHint'', ''Comandi VIM''),
     (''code.problems'', ''Problemi''),
     (''code.problemsN'', ''{n, plural, one {# problema} other {# problemi}}''),
     (''code.noProblems'', ''YAML valido''),
     (''code.validYaml'', ''YAML valido''),
     (''code.shortcuts'', ''Scorciatoie''),
     (''code.search'', ''Cerca''),
     (''code.fold'', ''Comprimi blocco''),
     (''code.cursor'', ''Riga {l}, Col {c}''),
     (''code.autoFormat'', ''Formattazione automatica''),
     (''code.autoFormatHint'', ''Formatta il buffer quando perde il focus, se lo YAML '' @ [CHR 0xE8] @ '' valido''),
     (''diff.aria'', ''Rivedi le modifiche''),
     (''diff.reviewTitle'', ''Rivedi le modifiche''),
     (''diff.selected'', ''{n} di {m} selezionati''),
     (''diff.filterFiles'', ''Filtra file'' @ ellipsis),
     (''diff.noFiles'', ''Nessun file corrispondente''),
     (''diff.kbdNavigate'', ''Naviga''),
     (''diff.kbdToggle'', ''Attiva/disattiva file''),
     (''diff.kbdToggleAll'', ''Attiva/disattiva tutti''),
     (''diff.kbdSave'', ''Salva''),
     (''diff.kbdClear'', ''Cancella filtro''),
     (''diff.newFile'', ''Nuovo''),
     (''diff.opMove'', ''Sposta''),
     (''diff.opDelete'', ''Elimina''),
     (''diff.movedFrom'', ''Spostato da {path}''),
     (''diff.warnOutside'', ''Questo percorso '' @ [CHR 0xE8] @ '' fuori dalla cartella di configurazione.''),
     (''diff.write'', ''{n, plural, one {Scrivi # file} other {Scrivi # file}}''),
     (''diff.unchanged'', ''{n, plural, one {# riga invariata} other {# righe invariate}}''),
     (''diff.validating'', ''Convalida'' @ ellipsis),
     (''diff.allGood'', ''Tutti i controlli superati''),
     (''diff.dbOffline'', ''Database offline''),
     (''diff.validateFailed'', ''Convalida fallita''),
     (''diff.issues'', ''{n, plural, one {# problema trovato} other {# problemi trovati}}''),
     (''diff.viewUnified'', ''Unificata''),
     (''diff.viewSplit'', ''Affiancata''),
     (''diff.viewOld'', ''Prima''),
     (''diff.viewNew'', ''Dopo''),
     (''common.cancel'', ''Annulla''),
     (''common.next'', ''Avanti''),
     (''common.back'', ''Indietro''),
     (''common.remove'', ''rimuovi''),
     (''common.clear'', ''Cancella''),
     (''common.close'', ''Chiudi''),
     (''common.column'', ''colonna''),
     (''common.noMatch'', ''Nessun risultato''),
     (''common.useValue'', ''Usa "{v}"'')]\<close>

definition it_2 :: "string jobj" where
  \<open>it_2 =
    [(''common.loading'', ''Caricamento del progetto'' @ ellipsis),
     (''inspector.selectPrompt'', ''Seleziona un nodo o un campo per modificarne i dettagli.''),
     (''inspector.indexRoot'', ''Radice dell'indice''),
     (''inspector.rootTable'', ''tabella radice''),
     (''inspector.schema'', ''schema''),
     (''inspector.rootFilters'', ''filtri di radice''),
     (''inspector.objectGroup'', ''Gruppo oggetto''),
     (''inspector.duplicate'', ''Duplica''),
     (''inspector.delete'', ''Elimina''),
     (''inspector.close'', ''Chiudi''),
     (''inspector.columnsSelected'', ''{n, plural, one {# riga selezionata} other {# righe selezionate}}''),
     (''inspector.includeSelected'', ''{n, plural, one {Includi # colonna} other {Includi # colonne}}''),
     (''inspector.removeSelected'', ''{n, plural, one {Rimuovi # riga} other {Rimuovi # righe}}''),
     (''inspector.groupHint'', ''Un gruppo annida colonne della stessa tabella. Aggiungi campi sul suo nodo.''),
     (''inspector.join'', ''Relazione''),
     (''inspector.field'', ''Campo''),
     (''inspector.fieldName'', ''nome campo''),
     (''inspector.verb'', ''verbo''),
     (''inspector.table'', ''tabella''),
     (''inspector.btColumn'', ''colonna (questa tabella '' @ arrow @ '' destinazione)''),
     (''inspector.fkOnTarget'', ''foreign_key (sulla destinazione)''),
     (''inspector.fkNullable'', ''La colonna FK {col} ammette null '' @ em_dash @ '' la destinazione pu'' @ [CHR 0xF2] @ '' mancare, quindi questa relazione '' @ [CHR 0xE8] @ '' facoltativa.''),
     (''inspector.fkNotNull'', ''La colonna FK {col} '' @ [CHR 0xE8] @ '' NOT NULL '' @ em_dash @ '' la destinazione '' @ [CHR 0xE8] @ '' sempre presente.''),
     (''inspector.filters'', ''filtri''),
     (''inspector.valueJson'', ''valore (JSON)''),
     (''inspector.required'', ''obbligatorio''),
     (''inspector.fromSource'', ''dall'origine''),
     (''inspector.type'', ''tipo''),
     (''inspector.use'', ''usa''),
     (''inspector.lowercase'', ''minuscolo''),
     (''inspector.trim'', ''ritaglia''),
     (''inspector.variants'', ''Varianti (ordinate)''),
     (''inspector.variantsHint'', ''Elenca i valori in ordine di rango '' @ em_dash @ '' il campo viene ordinato secondo questo ordine anzich'' @ [CHR 0xE9] @ '' alfabeticamente. Lascia vuoto per un enum semplice.''),
     (''inspector.variantsAdd'', ''Aggiungi una variante'' @ ellipsis),
     (''inspector.add'', ''Aggiungi''),
     (''inspector.variantUp'', ''Sposta su''),
     (''inspector.variantDown'', ''Sposta gi'' @ [CHR 0xF9]),
     (''inspector.variantRemove'', ''Rimuovi variante''),
     (''inspector.defaultRequired'', ''valore predefinito (obbligatorio)''),
     (''inspector.defaultOptional'', ''valore predefinito (facoltativo, JSON)''),
     (''inspector.defaultPlaceholder'', ''es. 0 o "n/a"''),
     (''inspector.colNotNull'', ''NOT NULL''),
     (''inspector.colNullable'', ''ammette null''),
     (''inspector.suggested'', ''suggerito''),
     (''inspector.typeMismatch'', ''{ty} '' @ [CHR 0xE8] @ '' un cambiamento netto rispetto alla colonna sorgente ({col}) '' @ em_dash @ '' i valori potrebbero non indicizzarsi.''),
     (''typeDesc.text'', ''Ricerca full-text analizzata''),
     (''typeDesc.identifier'', ''ID esatto; non analizzato''),
     (''typeDesc.keyword'', ''Match esatto; filtra e ordina''),
     (''typeDesc.enum'', ''Insieme fisso di valori''),
     (''typeDesc.uuid'', ''UUID, salvato come keyword''),
     (''typeDesc.boolean'', ''Vero o falso''),
     (''typeDesc.short'', ''Intero a 16 bit''),
     (''typeDesc.integer'', ''Intero a 32 bit''),
     (''typeDesc.long'', ''Intero a 64 bit''),
     (''typeDesc.float'', ''Virgola mobile a 32 bit''),
     (''typeDesc.double'', ''Virgola mobile a 64 bit''),
     (''typeDesc.decimal'', ''Numero decimale esatto''),
     (''typeDesc.date'', ''Data di calendario''),
     (''typeDesc.timestamp'', ''Data e ora''),
     (''typeDesc.binary'', ''Byte in base64''),
     (''typeDesc.json'', ''Oggetto JSON arbitrario''),
     (''inspector.fromDb'', ''Dal database''),
     (''inspector.inDoc'', ''Nel documento''),
     (''inspector.aggFrom'', ''Aggregato da''),
     (''inspector.relationship'', ''La relazione''),
     (''inspector.advanced'', ''Avanzate '' @ [CHR 0xB7] @ '' ottimizzazione indice''),
     (''inspector.renameTo'', ''rinomina in''),
     (''inspector.noSource'', ''Nessuna origine dal database '' @ em_dash @ '' un valore fisso in ogni documento.''),
     (''inspector.nestedNote'', hook @ '' un oggetto annidato '' @ em_dash @ '' scegli le sue colonne e sotto-relazioni sul nodo.''),
     (''inspector.countResult'', ''Conta le righe correlate in un intero.''),
     (''inspector.bridgeNotNull'', ''NOT NULL '' @ arrow @ '' obbligatorio per impostazione predefinita. Deseleziona per renderlo facoltativo nel documento.''),
     (''inspector.bridgeNullable'', ''Ammette null '' @ arrow @ '' facoltativo per impostazione predefinita. Segnalo obbligatorio e un valore predefinito diventa necessario.''),
     (''inspector.defaultError'', ''Un campo obbligatorio su una colonna che ammette null deve impostare un valore predefinito, altrimenti il campo del documento potrebbe mancare.''),
     (''inspector.optionsHelp'', ''Propriet'' @ [CHR 0xE0] @ '' di mappatura OpenSearch aggiuntive, unite accanto al tipo derivato. Scegline una comune o aggiungi la tua. Ogni valore '' @ [CHR 0xE8] @ '' JSON.''),
     (''inspector.optKey'', ''chiave''),
     (''inspector.optValue'', ''valore (JSON, es. "english" o 2)''),
     (''inspector.option'', ''opzione''),
     (''inspector.values'', ''valori''),
     (''inspector.columnJson'', ''colonna (json/jsonb)''),
     (''inspector.pgTypes'', ''tipi postgres (virgola)''),
     (''inspector.osType'', ''tipo opensearch''),
     (''inspector.latColumn'', ''colonna lat''),
     (''inspector.lonColumn'', ''colonna lon''),
     (''inspector.geoHint'', ''Un punto '' @ [CHR 0xE8] @ '' assente quando una delle colonne '' @ [CHR 0xE8] @ '' null (mai inviato come '{'lat:null'}'). Segna obbligatorio per vietare tale assenza.''),
     (''inspector.relatedTable'', ''tabella correlata''),
     (''inspector.aggColumn'', ''colonna (da aggregare)''),
     (''inspector.junctionTable'', ''tabella di giunzione''),
     (''inspector.junctionFilters'', ''Filtri di giunzione''),
     (''inspector.junctionFiltersHint'', ''Restringono le righe della giunzione (es. escludere le righe annullate). I filtri sopra si applicano alla tabella di destinazione.''),
     (''inspector.distinct'', ''Conta ogni riga di destinazione una volta''),
     (''inspector.distinctOn'', ''Ogni riga di destinazione conta una volta, indipendentemente da quante righe di giunzione la collegano.''),
     (''inspector.distinctOff'', ''Un valore per riga di giunzione: una destinazione collegata due volte conta due volte.''),
     (''inspector.softDelete'', ''eliminazione logica''),
     (''inspector.documentField'', ''campo del documento''),
     (''kindHelp.belongs_to'', ''Questa riga punta a una riga di destinazione (un oggetto annidato).''),
     (''kindHelp.has_one'', ''Una riga correlata punta qui (un oggetto annidato).''),
     (''kindHelp.has_many'', ''Molte righe correlate puntano qui (array di oggetti).''),
     (''kindHelp.many_to_many'', ''Righe correlate collegate tramite una tabella di giunzione (array di oggetti).''),
     (''kindHelp.object'', ''Raggruppa colonne della stessa tabella in un oggetto annidato '' @ em_dash @ '' nessuna nuova tabella.''),
     (''kindHelp.count'', ''Conta le righe correlate in un numero.''),
     (''kindHelp.sum'', ''Somma una colonna delle righe correlate.''),
     (''kindHelp.avg'', ''Calcola la media di una colonna delle righe correlate (il risultato '' @ [CHR 0xE8] @ '' un double).''),
     (''kindHelp.min'', ''Il valore minimo di una colonna tra le righe correlate.''),
     (''kindHelp.max'', ''Il valore massimo di una colonna tra le righe correlate.''),
     (''kindHelp.ids'', ''Raccoglie le chiavi primarie della tabella correlata in un array.''),
     (''kindHelp.geo'', ''Un punto geografico da due colonne (lat/lon).''),
     (''kindHelp.map'', ''Un oggetto a chiavi dinamiche su una colonna json/jsonb; le chiavi restano ricercabili.''),
     (''kindHelp.custom'', ''Un tipo che flusso non modella '' @ em_dash @ '' indichi tu i tipi Postgres + OpenSearch.''),
     (''kindHelp.constant'', ''Un valore fisso incluso in ogni documento.''),
     (''preview.title'', ''Anteprima''),
     (''preview.empty'', ''Seleziona o modifica un indice per visualizzarne l'anteprima.''),
     (''preview.parseError'', ''Questo schema non '' @ [CHR 0xE8] @ '' analizzabile:''),
     (''preview.document'', ''Documento''),
     (''preview.tabYaml'', ''YAML''),
     (''preview.tabMapping'', ''Mappatura''),
     (''preview.tabSample'', ''Esempio'')]\<close>

definition it_3 :: "string jobj" where
  \<open>it_3 =
    [(''preview.copy'', ''copia''),
     (''preview.selectAll'', ''seleziona tutto''),
     (''preview.copied'', ''copiato''),
     (''preview.example'', ''esempio''),
     (''preview.building'', ''costruzione'' @ ellipsis),
     (''preview.refresh'', ''aggiorna''),
     (''preview.fetch'', ''Costruisci esempio''),
     (''preview.sampleTitle'', ''Documento di esempio''),
     (''preview.sampleHint'', ''Costruisci un documento da una riga reale del database '' @ em_dash @ '' esattamente ci'' @ [CHR 0xF2] @ '' che scrive il sink.''),
     (''catalog.title'', ''{n, plural, one {Database (# tabella)} other {Database (# tabelle)}}''),
     (''catalog.dbError'', ''Database non raggiungibile '' @ em_dash @ '' {err}''),
     (''catalog.filter'', ''Filtra tabelle e colonne'' @ ellipsis),
     (''catalog.junction'', ''giunzione''),
     (''catalog.cols'', ''{n, plural, one {# colonna} other {# colonne}}''),
     (''catalog.pk'', ''chiave primaria''),
     (''catalog.matchCount'', ''{n, plural, one {# tabella} other {# tabelle}}''),
     (''catalog.referencedBy'', ''Referenziata da''),
     (''catalog.noMatch'', ''Nessuna tabella o colonna corrispondente''),
     (''node.expand'', ''Espandi''),
     (''node.collapse'', ''Comprimi''),
     (''node.renameHint'', ''Doppio clic per rinominare''),
     (''node.renameField'', ''Nome campo''),
     (''node.pk'', ''pk''),
     (''node.fields'', ''{n, plural, one {# campo} other {# campi}}''),
     (''node.diagCount'', ''{n, plural, one {# campo non concorda con il database} other {# campi non concordano con il database}}''),
     (''node.joinIncomplete'', ''A questa relazione manca una chiave obbligatoria '' @ em_dash @ '' impostala nell'ispettore''),
     (''node.pickRoot'', ''Scegli una tabella radice per iniziare''),
     (''node.chooseTable'', ''scegli una tabella'' @ ellipsis),
     (''node.rootTableEnter'', ''nome tabella radice, Invio''),
     (''node.filterCols'', ''filtra colonne'' @ ellipsis),
     (''node.includeAll'', ''includi tutte le colonne''),
     (''node.clearAll'', ''rimuovi tutte le colonne''),
     (''node.columnOf'', ''colonna: {name}''),
     (''node.reqAligned'', ''obbligatorio (la colonna '' @ [CHR 0xE8] @ '' NOT NULL)''),
     (''node.reqOverride'', ''obbligatorio '' @ em_dash @ '' forza una colonna che ammette null''),
     (''node.colDefault'', ''ha un valore predefinito''),
     (''node.incomplete'', ''incompleto '' @ em_dash @ '' imposta la sua chiave/colonna nell'ispettore''),
     (''node.addJoin'', ''+ relazione''),
     (''node.addField'', ''+ campo''),
     (''node.addColumn'', ''+ nome colonna, Invio''),
     (''node.fieldGroup'', ''campi''),
     (''node.aggGroup'', ''aggregati''),
     (''node.addRelation'', ''{n, plural, one {# relazione suggerita} other {# relazioni suggerite}}''),
     (''node.addRelationHint'', ''Aggiungi una tabella correlata come join '' @ em_dash @ '' cerca tra le chiavi esterne da e verso questa tabella''),
     (''node.searchRelations'', ''cerca relazioni'' @ ellipsis),
     (''node.searchFields'', ''cerca campi'' @ ellipsis),
     (''config.indexPrefix'', ''prefisso indice''),
     (''config.none'', ''(nessuno)''),
     (''config.source'', ''Origine''),
     (''config.stageIndexesHint'', ''documenti sincronizzati''),
     (''config.stageSinksHint'', ''dove scrivere i documenti''),
     (''config.backfill'', ''Backfill''),
     (''config.backfillHint'', ''Popola gli indici non ancora inizializzati da uno snapshot. Off: solo modifiche live, per una destinazione senza stato.''),
     (''config.sinks'', ''Destinazioni''),
     (''config.sink'', ''destinazione''),
     (''config.name'', ''nome''),
     (''config.schemaFile'', ''file schema''),
     (''config.onError'', ''in caso di errore''),
     (''config.state'', ''stato''),
     (''config.enabled'', ''abilitato''),
     (''config.disabled'', ''disabilitato''),
     (''config.duplicate'', ''duplica''),
     (''config.index'', ''indice''),
     (''config.removeIndexTitle'', ''Rimuovere l'indice?''),
     (''config.removeIndex'', ''Rimuovere l'indice "{name}"? (il file schema resta su disco)''),
     (''config.connection'', ''connessione''),
     (''config.stream'', ''Stream''),
     (''config.streamHint'', ''tra l'origine e le destinazioni''),
     (''config.options'', ''opzioni''),
     (''config.required'', ''obbligatorio''),
     (''config.default'', ''predefinito''),
     (''config.literal'', ''letterale''),
     (''config.env'', ''variabile env''),
     (''config.parts'', ''componenti''),
     (''config.loadingAdapters'', ''caricamento adapter'' @ ellipsis),
     (''config.unknownAdapter'', ''Nessun adapter registrato per il tipo "{kind}"''),
     (''filters.value'', ''valore''),
     (''filters.rangeFrom'', ''da''),
     (''filters.rangeTo'', ''a''),
     (''filters.and'', ''e''),
     (''filters.filter'', ''filtro''),
     (''filters.kindRaw'', ''SQL grezzo''),
     (''filters.kindRawDesc'', ''Condizione SQL letterale''),
     (''filters.kindNullCheck'', ''Controllo null''),
     (''filters.kindNullCheckDesc'', ''La colonna '' @ [CHR 0xE8] @ '' (non) null''),
     (''filters.kindValueOp'', ''Confronto colonna''),
     (''filters.kindValueOpDesc'', ''Confronta una colonna con un valore''),
     (''filters.opEq'', ''uguale''),
     (''filters.opNeq'', ''diverso''),
     (''filters.opLt'', ''minore di''),
     (''filters.opLte'', ''minore o uguale''),
     (''filters.opGt'', ''maggiore di''),
     (''filters.opGte'', ''maggiore o uguale''),
     (''filters.opIn'', ''in un elenco''),
     (''filters.opNotIn'', ''non in un elenco''),
     (''filters.opLike'', ''corrispondenza pattern''),
     (''filters.opIlike'', ''corrispondenza senza maiuscole''),
     (''filters.opBetween'', ''in un intervallo''),
     (''filters.opIsNull'', ''nessun valore''),
     (''filters.opIsNotNull'', ''ha un valore''),
     (''filters.rawPlaceholder'', ''es. status <> 'archived'' @ [CHR 0x27]),
     (''filters.help'', ''Limita quali righe alimentano questo campo '' @ em_dash @ '' una condizione SQL grezza, un controllo null, o un test colonna/operatore/valore. Devono valere tutte.''),
     (''canvas.zoomIn'', ''Ingrandisci''),
     (''canvas.zoomOut'', ''Rimpicciolisci''),
     (''canvas.fitView'', ''Adatta alla vista''),
     (''canvas.lock'', ''Blocca layout''),
     (''canvas.unlock'', ''Sblocca layout''),
     (''canvas.resetLayout'', ''Reimposta layout''),
     (''canvas.showMinimap'', ''Mostra minimappa'')]\<close>

definition it_4 :: "string jobj" where
  \<open>it_4 =
    [(''canvas.collapseAll'', ''Comprimi tutto''),
     (''canvas.expandAll'', ''Espandi tutto''),
     (''canvas.hideMinimap'', ''Nascondi minimappa''),
     (''search.placeholder'', ''Cerca ovunque'' @ ellipsis),
     (''search.empty'', ''Nessun risultato''),
     (''search.emptyDetail'', ''Seleziona un risultato per l'anteprima.''),
     (''search.resultCount'', ''{n, plural, one {# risultato} other {# risultati}}''),
     (''search.title'', ''Ricerca globale''),
     (''search.actions'', ''Azioni''),
     (''search.indexes'', ''Indici''),
     (''search.fields'', ''Campi''),
     (''search.settings'', ''Impostazioni''),
     (''search.legendKinds'', ''Legenda '' @ [CHR 0xB7] @ '' Tipi di nodo''),
     (''search.legendTypes'', ''Legenda '' @ [CHR 0xB7] @ '' Tipi di campo''),
     (''search.tables'', ''Tabelle e colonne''),
     (''search.reference'', ''Riferimento''),
     (''search.undo'', ''Annulla''),
     (''search.redo'', ''Ripeti''),
     (''search.toVisual'', ''Passa a Visuale''),
     (''search.toCode'', ''Passa a Codice''),
     (''search.serverAddresses'', ''Indirizzi server''),
     (''search.navigate'', ''naviga''),
     (''search.selectHint'', ''seleziona''),
     (''search.closeHint'', ''chiudi''),
     (''search.complete'', ''completa''),
     (''search.recent'', ''Recenti''),
     (''search.removeRecent'', ''Rimuovi dai recenti''),
     (''search.onScreenFirst'', ''i risultati a schermo hanno priorit'' @ [CHR 0xE0]),
     (''search.runAction'', ''Esegui azione''),
     (''search.openIndex'', ''Apri indice''),
     (''search.jumpField'', ''Vai al campo '' @ [CHR 0xB7] @ '' sposta il canvas''),
     (''search.jumpNode'', ''Vai al nodo '' @ [CHR 0xB7] @ '' sposta il canvas''),
     (''search.openSettings'', ''Apri nelle impostazioni''),
     (''search.browseTables'', ''Apri l'esploratore tabelle''),
     (''search.descValidate'', ''Verifica gli schemi rispetto al database''),
     (''search.descSave'', ''Scrivi le modifiche di schema e configurazione su disco''),
     (''search.descReset'', ''Annulla le modifiche non salvate''),
     (''search.descDeployment'', ''Modifica connessione, sink e opzioni''),
     (''search.descTables'', ''Apri il catalogo del database''),
     (''search.descYaml'', ''Mostra/nascondi l'anteprima di schema e documento''),
     (''search.descTheme'', ''Alterna tema chiaro e scuro''),
     (''search.descSidebar'', ''Mostra o nascondi l'elenco degli indici''),
     (''search.descNewIndex'', ''Crea un nuovo indice''),
     (''search.descUndo'', ''Annulla l'ultima modifica''),
     (''search.descRedo'', ''Ripeti l'ultima modifica annullata''),
     (''search.descMode'', ''Passa dal canvas visivo all'editor YAML e viceversa''),
     (''search.descPrefix'', ''Un prefisso anteposto al nome di ogni indice.''),
     (''search.descConnection'', ''La connessione alla sorgente Postgres.''),
     (''search.descOnError'', ''Politica globale quando un documento non viene indicizzato.''),
     (''search.descServer'', ''Indirizzi HTTP per metriche, stato e amministrazione.''),
     (''search.descSink'', ''Una destinazione di output (OpenSearch o stdout).'')]\<close>

definition it_catalog :: "string jobj" where
  "it_catalog = it_1 @ it_2 @ it_3 @ it_4"

definition catalogs_shipped :: catalogs where
  "catalogs_shipped = [(''en'', en_catalog), (''it'', it_catalog)]"

section \<open>A message in pieces\<close>

datatype piece = Words string | Hole string

fun brace_body :: "nat \<Rightarrow> string \<Rightarrow> string \<times> string" where
  "brace_body d [] = ([], [])"
| "brace_body d (c # cs) =
     (if c = CHR ''}'' \<and> d = 0 then ([], cs)
      else let (a, r) = brace_body (if c = CHR ''{'' then Suc d else if c = CHR ''}'' then d - 1 else d) cs
           in (c # a, r))"

lemma brace_body_shorter: "length (snd (brace_body d cs)) \<le> length cs"
proof (induction d cs rule: brace_body.induct)
  case (2 d c cs)
  then show ?case by (fastforce simp: Let_def case_prod_beta)
qed simp

function pieces :: "string \<Rightarrow> piece list" where
  "pieces [] = []"
| "pieces (c # cs) =
     (if c = CHR 0x27 then
        (if take 1 cs = [CHR 0x27] then Words [CHR 0x27] # pieces (drop 1 cs)
         else Words (takeWhile (\<lambda>x. x \<noteq> CHR 0x27) cs) # pieces (drop 1 (dropWhile (\<lambda>x. x \<noteq> CHR 0x27) cs)))
      else if c = CHR ''{'' then Hole (fst (brace_body 0 cs)) # pieces (snd (brace_body 0 cs))
      else Words [c] # pieces cs)"
  by pat_completeness auto
termination
proof (relation "measure length")
  fix c :: char and cs :: string
  show "(drop 1 (dropWhile (\<lambda>x. x \<noteq> CHR 0x27) cs), c # cs) \<in> measure length"
    using length_dropWhile_le [of "\<lambda>x. x \<noteq> CHR 0x27" cs] by simp
  show "(snd (brace_body 0 cs), c # cs) \<in> measure length"
    using brace_body_shorter [of 0 cs] by simp
qed simp_all

definition piece_text :: "(string \<Rightarrow> string option) \<Rightarrow> intl \<Rightarrow> vars \<Rightarrow> string \<Rightarrow> piece \<Rightarrow> string option" where
  "piece_text rec il vs lang p = (case p of Words w \<Rightarrow> Some w | Hole a \<Rightarrow> formatArg rec il a vs lang)"

fun joined :: "string option list \<Rightarrow> string option" where
  "joined [] = Some ''''"
| "joined (x # xs) = (case x of None \<Rightarrow> None | Some s \<Rightarrow> app_opt s (joined xs))"

lemma brace_body_match:
  "brace_body d s = (take (match_from s (int d + 1) i - i) s, drop (Suc (match_from s (int d + 1) i - i)) s)"
proof (induction s arbitrary: d i)
  case (Cons c s)
  have suc: "match_from s x (Suc i) - i = Suc (match_from s x (Suc i) - Suc i)" for x
    using match_from_ge [of "Suc i" s x] by simp
  show ?case
    using Cons.IH [of "Suc d" "Suc i"] Cons.IH [of "d - 1" "Suc i"] Cons.IH [of d "Suc i"]
    by (cases d) (simp_all add: suc algebra_simps)
qed simp

lemma brace_body_slice:
  assumes "i < length s" and "s ! i = CHR ''{''"
  shows "brace_body 0 (drop (Suc i) s) = (slice s (Suc i) (matchBrace s i), drop (Suc (matchBrace s i)) s)"
proof -
  have "drop i s = CHR ''{'' # drop (Suc i) s" using assms by (simp add: Cons_nth_drop_Suc [symmetric])
  then have m: "matchBrace s i = match_from (drop (Suc i) s) 1 (Suc i)" by (simp add: matchBrace_def)
  have "Suc i \<le> matchBrace s i" unfolding m by (rule match_from_ge)
  then show ?thesis
    using brace_body_match [of 0 "drop (Suc i) s" "Suc i"] by (simp add: m [symmetric] slice_def add.commute)
qed

lemma index_of_one: "index_of [c] s = (if c \<in> set s then Some (length (takeWhile (\<lambda>x. x \<noteq> c) s)) else None)"
proof (induction s)
  case (Cons x s)
  then show ?case by (auto simp: starts_with_def)
qed simp

lemma format_loop_pieces:
  "format_loop rec il vs lang m i = joined (map (piece_text rec il vs lang) (pieces (drop i m)))"
proof (induction "length m - i" arbitrary: i rule: less_induct)
  case less
  show ?case
  proof (cases "i < length m")
    case False
    then show ?thesis by (subst format_loop.simps) simp
  next
    case True
    then have d: "drop i m = m ! i # drop (Suc i) m" by (simp add: Cons_nth_drop_Suc)
    have IH: "format_loop rec il vs lang m j = joined (map (piece_text rec il vs lang) (pieces (drop j m)))" if "i < j" for j
      using less that True by simp
    show ?thesis
    proof (rule format_cases [of m i])
      assume br: "m ! i = CHR ''{''"
      have "i < Suc (matchBrace m i)" using matchBrace_ge [of i m] by simp
      then show ?thesis
        using IH [of "Suc (matchBrace m i)"]
        by (simp add: format_step(4) [OF True br] d br brace_body_slice [OF True br] piece_text_def split: option.split)
    next
      assume q: "m ! i = CHR 0x27" "js_get m (i + 1) = Some CHR 0x27"
      then have "drop (Suc i) m = CHR 0x27 # drop (Suc (Suc i)) m"
        using Cons_nth_drop_Suc [of "Suc i" m] by (auto simp: js_get_def split: if_splits)
      then show ?thesis using IH [of "i + 2"] by (simp add: format_step(1) [OF True q] d q(1) piece_text_def)
    next
      assume q: "m ! i = CHR 0x27" "js_get m (i + 1) \<noteq> Some CHR 0x27" "index_of_from [CHR 0x27] m (i + 1) = None"
      have none: "CHR 0x27 \<notin> set (drop (Suc i) m)"
        using q(3) by (auto simp: index_of_from_def index_of_one split: if_splits)
      then have "take 1 (drop (Suc i) m) \<noteq> [CHR 0x27]" by (cases "drop (Suc i) m") auto
      moreover have "takeWhile (\<lambda>x. x \<noteq> CHR 0x27) (drop (Suc i) m) = drop (Suc i) m"
        "dropWhile (\<lambda>x. x \<noteq> CHR 0x27) (drop (Suc i) m) = []"
        using none by (auto simp: takeWhile_eq_all_conv dropWhile_eq_Nil_conv)
      ultimately show ?thesis
        by (simp add: format_step(2) [OF True q] d q(1) piece_text_def app_opt_def del: takeWhile_eq_all_conv dropWhile_eq_Nil_conv)
    next
      fix e
      assume q: "m ! i = CHR 0x27" "js_get m (i + 1) \<noteq> Some CHR 0x27" "index_of_from [CHR 0x27] m (i + 1) = Some e"
      let ?w = "takeWhile (\<lambda>x. x \<noteq> CHR 0x27) (drop (Suc i) m)"
      have e: "e = Suc i + length ?w" "CHR 0x27 \<in> set (drop (Suc i) m)"
        using q(3) True by (auto simp: index_of_from_def index_of_one split: if_splits)
      have "take 1 (drop (Suc i) m) \<noteq> [CHR 0x27]"
        using q(2) by (cases "drop (Suc i) m") (auto simp: js_get_def nth_via_drop split: if_splits)
      moreover have "slice m (Suc i) e = ?w" by (simp add: slice_def e(1) takeWhile_eq_take [symmetric])
      moreover have "drop 1 (dropWhile (\<lambda>x. x \<noteq> CHR 0x27) (drop (Suc i) m)) = drop (Suc e) m"
        by (simp add: e(1) dropWhile_eq_drop add.commute)
      moreover have "i < Suc e" using e(1) by simp
      ultimately show ?thesis using IH [of "Suc e"]
        by (simp add: format_step(3) [OF True q] d q(1) piece_text_def)
    next
      assume "m ! i \<noteq> CHR 0x27" "m ! i \<noteq> CHR ''{''"
      then show ?thesis using IH [of "Suc i"] by (simp add: format_step(5) [OF True] d piece_text_def)
    qed
  qed
qed

section \<open>What a message names\<close>

definition arg_name :: "string \<Rightarrow> string" where
  "arg_name a = trim (case index_of '','' a of None \<Rightarrow> a | Some c \<Rightarrow> slice a 0 c)"

definition args_of :: "string \<Rightarrow> string list" where
  "args_of m = concat (map (\<lambda>p. case p of Words w \<Rightarrow> [] | Hole a \<Rightarrow> [arg_name a]) (pieces m))"

definition wording :: "string \<Rightarrow> string" where
  "wording m = concat (map (\<lambda>p. case p of Words w \<Rightarrow> w | Hole a \<Rightarrow> '''') (pieces m))"

lemma joined_words: "\<forall>p \<in> set ps. \<exists>w. p = Words w \<Longrightarrow>
  joined (map (piece_text rec il vs lang) ps) = Some (concat (map (\<lambda>p. case p of Words w \<Rightarrow> w | Hole a \<Rightarrow> '''') ps))"
  by (induction ps) (auto simp: piece_text_def app_opt_def)

lemma words_only: "args_of m = [] \<Longrightarrow> format_message il vs lang m = Some (wording m)"
  unfolding format_message_def format.simps format_loop_pieces drop_0 wording_def
  by (rule joined_words) (auto simp: args_of_def split: piece.splits, metis piece.exhaust)

text \<open>Text without an apostrophe and without a brace is shown as it is.\<close>

definition unmarked :: "string \<Rightarrow> bool" where
  "unmarked m \<longleftrightarrow> list_all (\<lambda>c. c \<noteq> CHR 0x27 \<and> c \<noteq> CHR ''{'') m"

lemma unmarked_pieces: "unmarked m \<Longrightarrow> pieces m = map (\<lambda>c. Words [c]) m"
  by (induction m) (auto simp: unmarked_def)

lemma unmarked_shown: "unmarked m \<Longrightarrow> format_message il vs lang m = Some m"
  by (subst words_only) (simp_all add: args_of_def wording_def unmarked_pieces comp_def)

text \<open>The messages that are not shown as they are, with the arguments they name.\<close>

definition marked :: "string jobj \<Rightarrow> (string \<times> string list) list" where
  "marked cat = map (\<lambda>(k, m). (k, args_of m)) (filter (\<lambda>(k, m). \<not> unmarked m) cat)"

lemma marked_append [simp]: "marked (xs @ ys) = marked xs @ marked ys"
  by (simp add: marked_def)

lemma marked_en_1:
  "marked en_1 =
    [(''typeWarn.banner'', [''n'']), (''diag.requiredDefault'', [''col'']),
     (''diag.typeMismatch'', [''ty'', ''col'', ''src'']), (''toast.saved'', [''n'']),
     (''toast.saveFailed'', [''err'']), (''toast.validateFailed'', [''err'']), (''toast.issues'', [''n'']),
     (''toast.diffFailed'', [''err'']), (''toast.dbNotReachableErr'', [''err'']), (''legend.kindRoot'', []),
     (''code.problemsN'', [''n'']), (''code.cursor'', [''l'', ''c'']), (''diff.selected'', [''n'', ''m'']),
     (''diff.movedFrom'', [''path'']), (''diff.write'', [''n'']), (''diff.unchanged'', [''n'']),
     (''diff.issues'', [''n'']), (''common.useValue'', [''v''])]"
  by code_simp

lemma marked_en_2:
  "marked en_2 =
    [(''inspector.columnsSelected'', [''n'']), (''inspector.includeSelected'', [''n'']),
     (''inspector.removeSelected'', [''n'']), (''inspector.fkNullable'', [''col'']),
     (''inspector.fkNotNull'', [''col'']), (''inspector.typeMismatch'', [''ty'', ''col'']),
     (''inspector.geoHint'', []), (''kindHelp.ids'', []), (''kindHelp.custom'', [])]"
  by code_simp

lemma marked_en_3:
  "marked en_3 =
    [(''catalog.title'', [''n'']), (''catalog.dbError'', [''err'']), (''catalog.cols'', [''n'']),
     (''catalog.matchCount'', [''n'']), (''node.fields'', [''n'']), (''node.diagCount'', [''n'']),
     (''node.columnOf'', [''name'']), (''node.addRelation'', [''n'']), (''config.removeIndex'', [''name'']),
     (''config.unknownAdapter'', [''kind'']), (''filters.rawPlaceholder'', [])]"
  by code_simp

lemma marked_en_4:
  "marked en_4 =
    [(''search.resultCount'', [''n''])]"
  by code_simp

lemma marked_it_1:
  "marked it_1 =
    [(''topbar.modeHint'', []), (''typeWarn.banner'', [''n'']), (''diag.requiredDefault'', [''col'']),
     (''diag.typeMismatch'', [''ty'', ''col'', ''src'']), (''toast.saved'', [''n'']),
     (''toast.saveFailed'', [''err'']), (''toast.validateFailed'', [''err'']), (''toast.issues'', [''n'']),
     (''toast.diffFailed'', [''err'']), (''toast.dbNotReachableErr'', [''err'']), (''legend.kindRoot'', []),
     (''sidebar.newIndexDesc'', []), (''code.problemsN'', [''n'']), (''code.cursor'', [''l'', ''c'']),
     (''diff.selected'', [''n'', ''m'']), (''diff.movedFrom'', [''path'']), (''diff.write'', [''n'']),
     (''diff.unchanged'', [''n'']), (''diff.issues'', [''n'']), (''common.useValue'', [''v''])]"
  by code_simp

lemma marked_it_2:
  "marked it_2 =
    [(''inspector.indexRoot'', []), (''inspector.columnsSelected'', [''n'']),
     (''inspector.includeSelected'', [''n'']), (''inspector.removeSelected'', [''n'']),
     (''inspector.fkNullable'', [''col'']), (''inspector.fkNotNull'', [''col'']),
     (''inspector.fromSource'', []), (''inspector.typeMismatch'', [''ty'', ''col'']),
     (''inspector.geoHint'', []), (''preview.empty'', [])]"
  by code_simp

lemma marked_it_3:
  "marked it_3 =
    [(''catalog.title'', [''n'']), (''catalog.dbError'', [''err'']), (''catalog.cols'', [''n'']),
     (''catalog.matchCount'', [''n'']), (''node.fields'', [''n'']), (''node.diagCount'', [''n'']),
     (''node.joinIncomplete'', []), (''node.columnOf'', [''name'']), (''node.incomplete'', []),
     (''node.addRelation'', [''n'']), (''config.removeIndexTitle'', []), (''config.removeIndex'', []),
     (''config.streamHint'', []), (''config.unknownAdapter'', [''kind'']), (''filters.rawPlaceholder'', [])]"
  by code_simp

lemma marked_it_4:
  "marked it_4 =
    [(''search.emptyDetail'', []), (''search.resultCount'', [''n'']), (''search.browseTables'', []),
     (''search.descYaml'', []), (''search.descSidebar'', []), (''search.descUndo'', []),
     (''search.descRedo'', []), (''search.descMode'', [])]"
  by code_simp



lemma keys_aligned:
  "map fst it_1 = map fst en_1" "map fst it_2 = map fst en_2" "map fst it_3 = map fst en_3"
  by (simp_all add: en_1_def it_1_def en_2_def it_2_def en_3_def it_3_def)

lemma keys_swapped: "\<exists>a b c ks. map fst en_4 = a # b # c # ks \<and> map fst it_4 = b # c # a # ks"
  by (simp add: en_4_def it_4_def)

lemma same_keys: "set (map fst it_catalog) = set (map fst en_catalog)"
proof -
  obtain a b c ks where k: "map fst en_4 = a # b # c # ks" "map fst it_4 = b # c # a # ks"
    by (insert keys_swapped) (elim exE conjE, rule that)
  have "set (map fst it_4) = set (map fst en_4)" unfolding k by auto
  then show ?thesis by (simp only: en_catalog_def it_catalog_def map_append set_append keys_aligned)
qed

definition arguments :: "string jobj \<Rightarrow> (string \<times> string list) list" where
  "arguments cat = filter (\<lambda>(k, names). names \<noteq> []) (marked cat)"

lemma marked_en: "marked en_catalog = marked en_1 @ marked en_2 @ marked en_3 @ marked en_4"
  by (simp only: en_catalog_def marked_append append.assoc)

lemma marked_it: "marked it_catalog = marked it_1 @ marked it_2 @ marked it_3 @ marked it_4"
  by (simp only: it_catalog_def marked_append append.assoc)

lemma arguments_differ:
  "arguments it_catalog = filter (\<lambda>(k, names). k \<noteq> ''config.removeIndex'') (arguments en_catalog)"
  unfolding arguments_def marked_en marked_it marked_en_1 marked_en_2 marked_en_3 marked_en_4
    marked_it_1 marked_it_2 marked_it_3 marked_it_4
  by code_simp

text \<open>The apostrophe of \<open>l'indice\<close> opens a quotation that nothing closes, so the name is not put in.\<close>

lemma obj_get_append: "obj_get (xs @ ys) k = (case obj_get xs k of None \<Rightarrow> obj_get ys k | Some v \<Rightarrow> Some v)"
  by (simp add: obj_get_def map_add_def split: option.splits)

lemma removal_rows:
  "obj_get it_1 ''config.removeIndex'' = None" "obj_get it_2 ''config.removeIndex'' = None"
  "obj_get en_1 ''config.removeIndex'' = None" "obj_get en_2 ''config.removeIndex'' = None"
  "obj_get it_3 ''config.removeIndex'' = Some ''Rimuovere l'indice \"{name}\"? (il file schema resta su disco)''"
  "obj_get en_3 ''config.removeIndex'' = Some ''Remove index \"{name}\"? (the schema file is left on disk)''"
  by code_simp+

lemma removal_messages:
  "obj_get it_catalog ''config.removeIndex'' = Some ''Rimuovere l'indice \"{name}\"? (il file schema resta su disco)''"
  "obj_get en_catalog ''config.removeIndex'' = Some ''Remove index \"{name}\"? (the schema file is left on disk)''"
  by (simp_all only: it_catalog_def en_catalog_def obj_get_append removal_rows option.case)

lemma removal_args:
  "args_of ''Rimuovere l'indice \"{name}\"? (il file schema resta su disco)'' = []"
  "wording ''Rimuovere l'indice \"{name}\"? (il file schema resta su disco)'' =
     ''Rimuovere lindice \"{name}\"? (il file schema resta su disco)''"
  by code_simp+

lemma removal_pieces:
  "pieces ''Remove index \"{name}\"? (the schema file is left on disk)'' =
     map (\<lambda>c. Words [c]) ''Remove index \"'' @ Hole ''name'' # map (\<lambda>c. Words [c]) ''\"? (the schema file is left on disk)''"
  by code_simp

lemma joined_append:
  "joined (xs @ ys) = (case joined xs of None \<Rightarrow> None | Some s \<Rightarrow> app_opt s (joined ys))"
  by (induction xs; cases "joined ys") (auto simp: app_opt_def split: option.splits)

lemma joined_chars: "joined (map (piece_text rec il vs lang) (map (\<lambda>c. Words [c]) s)) = Some s"
  by (induction s) (simp_all add: piece_text_def app_opt_def)

lemma one_hole:
  assumes "pieces m = map (\<lambda>c. Words [c]) a @ Hole n # map (\<lambda>c. Words [c]) b"
    and "index_of '','' n = None" and "trim n = n" and "obj_get vs n = Some v"
  shows "format_message il vs lang m = Some (a @ js_text il (Some v) @ b)"
proof -
  have "formatArg rec il n vs lang = Some (js_text il (Some v))" for rec
    using assms(2-4) by (simp add: formatArg_def Let_def has_key_def)
  then have "piece_text rec il vs lang (Hole n) = Some (js_text il (Some v))" for rec
    by (simp add: piece_text_def)
  then show ?thesis
    unfolding format_message_def format.simps format_loop_pieces drop_0 assms(1) map_append list.map(2) joined_append joined_chars
    by (simp add: joined_chars app_opt_def del: list.map map_map)
qed

lemma message_en: "obj_get en_catalog k = Some m \<Longrightarrow> message_of catalogs_shipped ''en'' k = m"
  and message_it: "obj_get it_catalog k = Some m \<Longrightarrow> message_of catalogs_shipped ''it'' k = m"
  by (simp_all add: message_of_def catalogs_shipped_def obj_get_def)

lemma removal_in_italian:
  "t_of il catalogs_shipped ''it'' ''config.removeIndex'' vs =
     Some ''Rimuovere lindice \"{name}\"? (il file schema resta su disco)''"
  unfolding t_of_def message_it [OF removal_messages(1)] words_only [OF removal_args(1)] removal_args(2) ..

lemma removal_in_english:
  "t_of il catalogs_shipped ''en'' ''config.removeIndex'' [(''name'', v)] =
     Some (''Remove index \"'' @ js_text il (Some v) @ ''\"? (the schema file is left on disk)'')"
  unfolding t_of_def message_en [OF removal_messages(2)]
  by (rule one_hole [OF removal_pieces]) (code_simp, code_simp, simp add: obj_get_def)

end
