(* ===== verification/Editor_Pane.thy ===== *)
theory Editor_Pane
  imports Code_View I18n
begin

text \<open>
  The editor of the Code view (\<^verbatim>\<open>components/CodeView.tsx\<close>: \<open>YamlEditor\<close>, \<open>Rail\<close>, the status bar).
  CodeMirror holds a text of its own; the parent's \<open>value\<close> is written into it by an effect, and what
  is typed is handed back by \<open>onChange\<close>. React runs the effect of a render some time after its commit
  and at the latest before the next one, so keystrokes may come in between: the steps below are one
  keystroke, one change by the parent, one commit, one effect, in any order. Of CodeMirror two
  functions are arguments: \<open>lf\<close>, the text a document has that was made of a string (it splits lines
  at any line ending and joins them by newlines), and \<open>remap\<close>, where the caret goes when the whole
  text is replaced.
\<close>

section \<open>The caret\<close>

text \<open>\<open>lineAt(head)\<close>: the line's number and the column behind the last line break.\<close>

definition cursor_at :: "string \<Rightarrow> nat \<Rightarrow> nat \<times> nat" where
  "cursor_at txt head =
     (let before = take head txt in
      (Suc (count_list before line_break), Suc (length (takeWhile (\<lambda>c. c \<noteq> line_break) (rev before)))))"

section \<open>The editor and its value\<close>

record yaml_editor =
  ed_value :: string
  ed_committed :: string
  ed_pending :: bool
  ed_doc :: string
  ed_head :: nat
  ed_cursor :: "nat \<times> nat"

text \<open>The update listener: \<open>onChange\<close> when the text changed, then the caret.\<close>

definition listener :: "bool \<Rightarrow> yaml_editor \<Rightarrow> yaml_editor" where
  "listener docChanged s =
     s\<lparr>ed_value := (if docChanged then ed_doc s else ed_value s), ed_cursor := cursor_at (ed_doc s) (ed_head s)\<rparr>"

definition mount_editor :: "(string \<Rightarrow> string) \<Rightarrow> string \<Rightarrow> yaml_editor" where
  "mount_editor lf v =
     \<lparr>ed_value = v, ed_committed = v, ed_pending = True, ed_doc = lf v, ed_head = 0, ed_cursor = (1, 1)\<rparr>"

definition type_text :: "string \<Rightarrow> nat \<Rightarrow> yaml_editor \<Rightarrow> yaml_editor" where
  "type_text txt head s = listener True (s\<lparr>ed_doc := txt, ed_head := head\<rparr>)"

definition move_caret :: "nat \<Rightarrow> yaml_editor \<Rightarrow> yaml_editor" where
  "move_caret head s = listener False (s\<lparr>ed_head := head\<rparr>)"

text \<open>\<open>jumpTo\<close> of the editor's handle.\<close>

definition editor_jump :: "nat \<Rightarrow> yaml_editor \<Rightarrow> yaml_editor" where
  "editor_jump offset s = move_caret (min offset (length (ed_doc s))) s"

text \<open>The parent sets another value: the formatter's, or one of another source.\<close>

definition set_value :: "string \<Rightarrow> yaml_editor \<Rightarrow> yaml_editor" where
  "set_value v s = s\<lparr>ed_value := v\<rparr>"

definition run_effect :: "(string \<Rightarrow> string) \<Rightarrow> (nat \<Rightarrow> nat \<Rightarrow> nat \<Rightarrow> nat) \<Rightarrow> yaml_editor \<Rightarrow> yaml_editor" where
  "run_effect lf remap s =
     (if \<not> ed_pending s then s
      else let s = s\<lparr>ed_pending := False\<rparr> in
        if ed_doc s \<noteq> ed_committed s then
          listener True
            (s\<lparr>ed_doc := lf (ed_committed s),
               ed_head := remap (ed_head s) (length (ed_doc s)) (length (lf (ed_committed s)))\<rparr>)
        else s)"

definition commit_render :: "(string \<Rightarrow> string) \<Rightarrow> (nat \<Rightarrow> nat \<Rightarrow> nat \<Rightarrow> nat) \<Rightarrow> yaml_editor \<Rightarrow> yaml_editor" where
  "commit_render lf remap s =
     (let s = run_effect lf remap s in
      if ed_value s = ed_committed s then s else s\<lparr>ed_committed := ed_value s, ed_pending := True\<rparr>)"

text \<open>The parent's handlers belong to a render, so they run when what it set before is on the screen.\<close>

inductive editor_step :: "(string \<Rightarrow> string) \<Rightarrow> (nat \<Rightarrow> nat \<Rightarrow> nat \<Rightarrow> nat) \<Rightarrow> yaml_editor \<Rightarrow> yaml_editor \<Rightarrow> bool"
  for lf remap where
  typed: "lf txt = txt \<Longrightarrow> editor_step lf remap s (type_text txt head s)"
| moved: "editor_step lf remap s (move_caret head s)"
| handed: "ed_committed s = ed_value s \<Longrightarrow> editor_step lf remap s (set_value v s)"
| committed: "editor_step lf remap s (commit_render lf remap s)"
| effect: "editor_step lf remap s (run_effect lf remap s)"

inductive editor_reachable :: "(string \<Rightarrow> string) \<Rightarrow> (nat \<Rightarrow> nat \<Rightarrow> nat \<Rightarrow> nat) \<Rightarrow> yaml_editor \<Rightarrow> bool"
  for lf remap where
  mounted: "editor_reachable lf remap (mount_editor lf v)"
| stepped: "editor_reachable lf remap s \<Longrightarrow> editor_step lf remap s s' \<Longrightarrow> editor_reachable lf remap s'"

section \<open>The rail and the status bar\<close>

record rail_row =
  rr_error :: bool
  rr_label :: string
  rr_message :: string

record rail =
  rl_badge :: "nat option"
  rl_all_clear :: bool
  rl_rows :: "rail_row list"
  rl_shortcuts :: "(string \<times> string list) list"

definition rail_row_of :: "problem \<Rightarrow> rail_row" where
  "rail_row_of p = \<lparr>rr_error = (pb_severity p = Error_s), rr_label = pb_label p, rr_message = pb_message p\<rparr>"

text \<open>The keys of a shortcut are spelled by their names.\<close>

definition rail_of :: "(string \<Rightarrow> string) \<Rightarrow> problem list \<Rightarrow> rail" where
  "rail_of t ps =
     \<lparr>rl_badge = (if length ps > 0 then Some (length ps) else None), rl_all_clear = (length ps = 0),
      rl_rows = map rail_row_of ps,
      rl_shortcuts =
        [(t ''code.search'', [''cmd'', ''F'']), (t ''raw.format'', [''shift'', ''alt'', ''F'']),
         (t ''topbar.save'', [''cmd'', ''S'']), (t ''code.fold'', [''alt'', ''cmd'', ''['' ])]\<rparr>"

record status_bar =
  sb_file :: string
  sb_dirty :: bool
  sb_problems :: "nat option"
  sb_cursor :: "nat \<times> nat"
  sb_format_disabled :: bool

definition status_bar_of ::
  "(string \<Rightarrow> parsed) \<Rightarrow> string \<Rightarrow> bool \<Rightarrow> string \<Rightarrow> diagnostic list \<Rightarrow> parse_error_info option \<Rightarrow> yaml_editor \<Rightarrow> status_bar" where
  "status_bar_of parse fileName dirty txt ds err s =
     (let ps = problems (parse txt) txt ds err in
      \<lparr>sb_file = fileName, sb_dirty = dirty, sb_problems = (if length ps > 0 then Some (length ps) else None),
       sb_cursor = ed_cursor s, sb_format_disabled = (length (syntaxProblemsOf (parse txt) txt) > 0)\<rparr>)"

text \<open>A click on the status bar's count, and the blur with auto-format on.\<close>

definition jump_first :: "problem list \<Rightarrow> yaml_editor \<Rightarrow> yaml_editor" where
  "jump_first ps s = (case ps of [] \<Rightarrow> s | p # _ \<Rightarrow> editor_jump (pb_from p) s)"

definition blur_editor :: "(string \<Rightarrow> parsed) \<Rightarrow> bool \<Rightarrow> yaml_editor \<Rightarrow> yaml_editor" where
  "blur_editor parse autoFormat s =
     (if autoFormat
      then (case format_buffer parse (ed_committed s) of Some txt \<Rightarrow> set_value txt s | None \<Rightarrow> s)
      else s)"

section \<open>The caret's place\<close>

text \<open>Line and column name one place of the text.\<close>

lemma cursor_at_less:
  assumes "a < b" "b \<le> length txt"
  shows "cursor_at txt a \<noteq> cursor_at txt b"
proof -
  define u where "u = drop a (take b txt)"
  have split: "take b txt = take a txt @ u" and u: "u \<noteq> []"
    using assms by (simp_all add: u_def) (metis append_take_drop_id less_imp_le min.absorb1 take_take)
  show ?thesis
  proof (cases "line_break \<in> set u")
    case True
    then have "count_list u line_break > 0" by (metis count_notin neq0_conv count_list_0_iff)
    then show ?thesis by (simp add: cursor_at_def Let_def split)
  next
    case False
    then have "takeWhile (\<lambda>c. c \<noteq> line_break) (rev u @ rev (take a txt)) =
        rev u @ takeWhile (\<lambda>c. c \<noteq> line_break) (rev (take a txt))"
      by (subst takeWhile_append2) auto
    then show ?thesis using u by (simp add: cursor_at_def Let_def split)
  qed
qed

lemma cursor_at_inject:
  "a \<le> length txt \<Longrightarrow> b \<le> length txt \<Longrightarrow> cursor_at txt a = cursor_at txt b \<longleftrightarrow> a = b"
  using cursor_at_less [of a b "txt"] cursor_at_less [of b a "txt"] by (metis linorder_neqE_nat)

lemma cursor_at_start: "cursor_at txt 0 = (1, 1)"
  by (simp add: cursor_at_def)

section \<open>At rest the editor shows its value\<close>

definition at_rest :: "yaml_editor \<Rightarrow> bool" where
  "at_rest s \<longleftrightarrow> \<not> ed_pending s \<and> ed_committed s = ed_value s"

definition editor_inv :: "(string \<Rightarrow> string) \<Rightarrow> yaml_editor \<Rightarrow> bool" where
  "editor_inv lf s \<longleftrightarrow> lf (ed_doc s) = ed_doc s \<and> (at_rest s \<longrightarrow> ed_doc s = lf (ed_value s))"

lemmas editor_defs = type_text_def move_caret_def set_value_def listener_def editor_inv_def at_rest_def

lemma run_effect_inv:
  assumes "\<And>x. lf (lf x) = lf x" "editor_inv lf s"
  shows "editor_inv lf (run_effect lf remap s)" "\<not> ed_pending (run_effect lf remap s)"
    "ed_committed (run_effect lf remap s) = ed_committed s"
  using assms by (auto simp: run_effect_def Let_def editor_defs)

lemma commit_inv:
  assumes lf: "\<And>x. lf (lf x) = lf x" and inv: "editor_inv lf s"
  shows "editor_inv lf (commit_render lf remap s)" "ed_committed (commit_render lf remap s) = ed_value (commit_render lf remap s)"
  using run_effect_inv [where remap = remap, OF lf inv] by (auto simp: commit_render_def Let_def editor_defs)

lemma editor_step_inv:
  assumes "editor_step lf remap s s'" "\<And>x. lf (lf x) = lf x" "editor_inv lf s"
  shows "editor_inv lf s'"
  using assms
proof cases
  case committed
  then show ?thesis using commit_inv(1) assms by blast
next
  case effect
  then show ?thesis using run_effect_inv(1) assms by blast
qed (use assms in \<open>auto simp: editor_defs\<close>)

lemma editor_reachable_inv:
  assumes "editor_reachable lf remap s" "\<And>x. lf (lf x) = lf x"
  shows "editor_inv lf s"
  using assms
proof (induction rule: editor_reachable.induct)
  case (mounted v)
  then show ?case by (simp add: mount_editor_def editor_inv_def at_rest_def)
next
  case (stepped s s')
  then show ?case using editor_step_inv by blast
qed

text \<open>Without further input two renders bring it to rest, whatever is pending.\<close>

definition settle_editor :: "(string \<Rightarrow> string) \<Rightarrow> (nat \<Rightarrow> nat \<Rightarrow> nat \<Rightarrow> nat) \<Rightarrow> yaml_editor \<Rightarrow> yaml_editor" where
  "settle_editor lf remap s = run_effect lf remap (commit_render lf remap s)"

lemma settle_rests:
  assumes "\<And>x. lf (lf x) = lf x" "lf (ed_doc s) = ed_doc s"
  shows "at_rest (settle_editor lf remap (settle_editor lf remap s))"
  using assms by (auto simp: settle_editor_def commit_render_def run_effect_def Let_def editor_defs)

text \<open>A change of the parent arrives, and comes back in the form the editor gives it.\<close>

lemma set_value_arrives:
  assumes "\<And>x. lf (lf x) = lf x" "at_rest s" "ed_doc s = lf (ed_value s)"
  shows "let s' = settle_editor lf remap (settle_editor lf remap (set_value v s)) in
    ed_doc s' = lf v \<and> at_rest s' \<and> ed_value s' \<in> {v, lf v}"
  using assms by (auto simp: settle_editor_def commit_render_def run_effect_def Let_def editor_defs)

text \<open>A keystroke that has its render to itself stays, and its caret with it.\<close>

lemma keystroke_stays:
  assumes "at_rest s" "lf txt = txt"
  shows "settle_editor lf remap (type_text txt head s) = (type_text txt head s)\<lparr>ed_committed := txt\<rparr>"
    "at_rest (settle_editor lf remap (type_text txt head s))"
  using assms by (auto simp: settle_editor_def commit_render_def run_effect_def Let_def editor_defs)

text \<open>
  A known fault: a keystroke that comes between the commit of the one before and its effect is undone.
  The effect takes the older value for a change from outside and writes it back, and hands it back.
\<close>

lemma keystroke_lost:
  assumes "at_rest s" "lf t1 = t1" "t1 \<noteq> ed_value s" "t2 \<noteq> t1"
  shows "let s' = settle_editor lf remap (type_text t2 h2 (commit_render lf remap (type_text t1 h1 s))) in
    ed_doc s' = t1 \<and> ed_value s' = t1 \<and> at_rest s'"
  using assms by (auto simp: settle_editor_def commit_render_def run_effect_def Let_def editor_defs)

section \<open>One list of problems\<close>

text \<open>The rail, the status bar and the squiggles count the same; Format is on when no syntax problem is.\<close>

lemma status_agrees:
  "sb_problems (status_bar_of parse n d txt ds err s) = rl_badge (rail_of t (problems (parse txt) txt ds err))"
  "rl_all_clear (rail_of t (problems (parse txt) txt ds err)) \<longleftrightarrow> sb_problems (status_bar_of parse n d txt ds err s) = None"
  "\<not> sb_format_disabled (status_bar_of parse n d txt ds err s) \<longleftrightarrow> ya_errors (parse txt) = [] \<and> ya_warnings (parse txt) = []"
proof -
  have "length (syntaxProblemsOf (parse txt) txt) = length (ya_errors (parse txt)) + length (ya_warnings (parse txt))"
    using arg_cong [OF mset_sort_by, of size "\<lambda>a b. pb_from a \<le> pb_from b"
        "map (toProblem txt Error_s) (ya_errors (parse txt)) @ map (toProblem txt Warning_s) (ya_warnings (parse txt))"]
    by (simp add: syntaxProblemsOf_def)
  then show "\<not> sb_format_disabled (status_bar_of parse n d txt ds err s) \<longleftrightarrow> ya_errors (parse txt) = [] \<and> ya_warnings (parse txt) = []"
    by (simp add: status_bar_of_def Let_def)
qed (simp_all add: status_bar_of_def rail_of_def Let_def)

text \<open>A click on a row of the rail puts the caret on the problem, as long as the text is the one it was found in.\<close>

lemma rail_jump_lands:
  assumes "near_buffer (ed_doc s) p"
  shows "ed_head (editor_jump (pb_from p) s) = pb_from p"
    "ed_cursor (editor_jump (pb_from p) s) = cursor_at (ed_doc s) (pb_from p)"
    "ed_doc (editor_jump (pb_from p) s) = ed_doc s"
  using assms by (simp_all add: editor_jump_def move_caret_def listener_def near_buffer_def)

text \<open>Leaving the editor formats only with the switch on, and a formatted text is formatted once.\<close>

lemma blur_off: "blur_editor parse False s = s"
  by (simp add: blur_editor_def)

end
