(* ===== verification/Inspector_Forms.thy ===== *)
theory Inspector_Forms
  imports Inspector_Panel Widgets
begin

text \<open>
  The forms of \<^verbatim>\<open>components/Inspector.tsx\<close> as data: what \<open>ScalarBody\<close>, \<open>MapBody\<close>, \<open>CustomBody\<close>,
  \<open>GeoBody\<close>, \<open>ConstantBody\<close>, \<open>AggregateBody\<close>, \<open>NodeInspector\<close> and \<open>RootInspector\<close> show of the part they
  edit, and which controls they offer. With the edits of \<open>Inspector\<close> a form and its part are a lens:
  a control that is offered shows afterwards what it was set to.
\<close>

section \<open>Columns\<close>

record source_line =
  sl_name :: string
  sl_sql_type :: "string option"
  sl_family :: "string res"
  sl_nullable :: "bool option"

text \<open>A suggested type that is no string makes \<open>typeClass\<close> throw.\<close>

definition source_line_of :: "string \<Rightarrow> column_shape option \<Rightarrow> source_line" where
  "source_line_of name src =
     \<lparr>sl_name = name,
      sl_sql_type = (case src of Some s \<Rightarrow> if cs_sql_type s \<noteq> '''' then Some (cs_sql_type s) else None | None \<Rightarrow> None),
      sl_family = (case src of Some s \<Rightarrow> column_class s | None \<Rightarrow> Inr (typeClass '''')),
      sl_nullable = map_option cs_nullable src\<rparr>"

record default_row =
  df_mandatory :: bool
  df_invalid :: bool
  df_value :: "js option"

record required_form =
  rf_required :: bool
  rf_from_source :: bool
  rf_default :: "default_row option"

definition required_form_of :: "bool option \<Rightarrow> column \<Rightarrow> required_form" where
  "required_form_of srcNullable c =
     \<lparr>rf_required = (\<not> col_nullable c), rf_from_source = from_source srcNullable c,
      rf_default =
        (if show_default srcNullable c
         then Some \<lparr>df_mandatory = must_default srcNullable c, df_invalid = default_missing srcNullable c,
                    df_value = col_default c\<rparr>
         else None)\<rparr>"

record variant_row =
  vr_rank :: nat
  vr_text :: string
  vr_up_disabled :: bool
  vr_down_disabled :: bool

definition variant_rows :: "column \<Rightarrow> variant_row list" where
  "variant_rows c =
     map (\<lambda>(i, v). \<lparr>vr_rank = i, vr_text = v, vr_up_disabled = (i = 0),
                    vr_down_disabled = (Suc i = length (variants_of c))\<rparr>)
       (zip [0..<length (variants_of c)] (variants_of c))"

record scalar_form =
  sf_source :: source_line
  sf_type :: string
  sf_suggested :: "scalar option"
  sf_mismatch :: "string option"
  sf_lowercase :: bool
  sf_trim :: bool
  sf_variants :: "variant_row list option"

definition scalar_form_of :: "column_shape option \<Rightarrow> scalar \<Rightarrow> column \<Rightarrow> scalar_form" where
  "scalar_form_of src ty c =
     (let suggested = (case src of Some s \<Rightarrow> cs_suggested_type s | None \<Rightarrow> None) in
      \<lparr>sf_source = source_line_of (col_column c) src, sf_type = scalar_name ty,
       sf_suggested = (case suggested of Some (Scalar t) \<Rightarrow> if t \<noteq> ty then Some t else None | _ \<Rightarrow> None),
       sf_mismatch =
         (case suggested of
            Some (Scalar t) \<Rightarrow>
              if drasticTypeChange (scalar_name t) (scalar_name ty)
              then Some (case src of Some s \<Rightarrow> cs_sql_type s | None \<Rightarrow> scalar_name t) else None
          | _ \<Rightarrow> None),
       sf_lowercase = (Lowercase \<in> set (transforms_of c)), sf_trim = (Trim \<in> set (transforms_of c)),
       sf_variants = (if ty = Enum_t then Some (variant_rows c) else None)\<rparr>)"

datatype column_part =
    Scalar_part scalar_form
  | Map_part string flusso_type
  | Custom_part string string string   \<comment> \<open>the column, the Postgres types' text, the OpenSearch type\<close>

record column_form =
  cf_bridge :: "bool option"
  cf_part :: column_part
  cf_required :: required_form

definition column_form_of :: "column_shape option \<Rightarrow> column \<Rightarrow> column_form" where
  "column_form_of src c =
     (let srcNullable = map_option cs_nullable src in
      \<lparr>cf_bridge = srcNullable,
       cf_part = (case col_ty c of
           Scalar ty \<Rightarrow> Scalar_part (scalar_form_of src ty c)
         | Map_t values \<Rightarrow> Map_part (col_column c) values
         | Custom_t pg os \<Rightarrow> Custom_part (col_column c) (pg_text pg) os),
       cf_required = required_form_of srcNullable c\<rparr>)"

text \<open>The controls a form offers: a disabled button and an option that is not in the list are none.\<close>

fun column_offers :: "column_form \<Rightarrow> column_edit \<Rightarrow> bool" where
  "column_offers fm (C_transform _ _) \<longleftrightarrow> (case cf_part fm of Scalar_part _ \<Rightarrow> True | _ \<Rightarrow> False)"
| "column_offers fm (C_type t) \<longleftrightarrow> (case cf_part fm of Scalar_part _ \<Rightarrow> t \<in> set SCALAR_TYPES | _ \<Rightarrow> False)"
| "column_offers fm (C_use ty) \<longleftrightarrow>
     (case cf_part fm of Scalar_part sf \<Rightarrow> map_option Scalar (sf_suggested sf) = Some ty | _ \<Rightarrow> False)"
| "column_offers fm (C_add_variant draft) \<longleftrightarrow>
     (case cf_part fm of Scalar_part sf \<Rightarrow> sf_variants sf \<noteq> None \<and> trim draft \<noteq> '''' | _ \<Rightarrow> False)"
| "column_offers fm (C_rename_variant i v) \<longleftrightarrow>
     (case cf_part fm of Scalar_part sf \<Rightarrow> (case sf_variants sf of Some rows \<Rightarrow> i < length rows | None \<Rightarrow> False) | _ \<Rightarrow> False)"
| "column_offers fm (C_remove_variant i) \<longleftrightarrow>
     (case cf_part fm of Scalar_part sf \<Rightarrow> (case sf_variants sf of Some rows \<Rightarrow> i < length rows | None \<Rightarrow> False) | _ \<Rightarrow> False)"
| "column_offers fm (C_move_variant i d) \<longleftrightarrow>
     (case cf_part fm of
        Scalar_part sf \<Rightarrow>
          (case sf_variants sf of
             Some rows \<Rightarrow> i < length rows \<and>
               (d = - 1 \<and> \<not> vr_up_disabled (rows ! i) \<or> d = 1 \<and> \<not> vr_down_disabled (rows ! i))
           | None \<Rightarrow> False)
      | _ \<Rightarrow> False)"
| "column_offers fm (C_required _) \<longleftrightarrow> True"
| "column_offers fm (C_default _) \<longleftrightarrow> rf_default (cf_required fm) \<noteq> None"
| "column_offers fm (C_column _) \<longleftrightarrow> (case cf_part fm of Scalar_part _ \<Rightarrow> False | _ \<Rightarrow> True)"
| "column_offers fm (C_map_values t) \<longleftrightarrow> (case cf_part fm of Map_part _ _ \<Rightarrow> t \<in> set LEAF_TYPES | _ \<Rightarrow> False)"
| "column_offers fm (C_pg_types _) \<longleftrightarrow> (case cf_part fm of Custom_part _ _ _ \<Rightarrow> True | _ \<Rightarrow> False)"
| "column_offers fm (C_os_type _) \<longleftrightarrow> (case cf_part fm of Custom_part _ _ _ \<Rightarrow> True | _ \<Rightarrow> False)"

text \<open>What a control is set to can be read off the form; removing and moving a variant set nothing.\<close>

definition variant_texts :: "column_form \<Rightarrow> string list" where
  "variant_texts fm =
     (case cf_part fm of
        Scalar_part sf \<Rightarrow> (case sf_variants sf of Some rows \<Rightarrow> map vr_text rows | None \<Rightarrow> [])
      | _ \<Rightarrow> [])"

fun column_reads :: "column_form \<Rightarrow> column_edit \<Rightarrow> bool" where
  "column_reads fm (C_transform tr on) \<longleftrightarrow>
     (case cf_part fm of
        Scalar_part sf \<Rightarrow> (case tr of Lowercase \<Rightarrow> sf_lowercase sf | Trim \<Rightarrow> sf_trim sf) = on
      | _ \<Rightarrow> False)"
| "column_reads fm (C_type t) \<longleftrightarrow> (case cf_part fm of Scalar_part sf \<Rightarrow> sf_type sf = scalar_name t | _ \<Rightarrow> False)"
| "column_reads fm (C_use ty) \<longleftrightarrow>
     (case (cf_part fm, ty) of
        (Scalar_part sf, Scalar t) \<Rightarrow> sf_type sf = scalar_name t \<and> sf_suggested sf = None \<and> sf_mismatch sf = None
      | _ \<Rightarrow> False)"
| "column_reads fm (C_add_variant draft) \<longleftrightarrow> trim draft \<in> set (variant_texts fm)"
| "column_reads fm (C_rename_variant i v) \<longleftrightarrow> js_get (variant_texts fm) i = Some v"
| "column_reads fm (C_required req) \<longleftrightarrow> rf_required (cf_required fm) = req"
| "column_reads fm (C_default d) \<longleftrightarrow>
     (case rf_default (cf_required fm) of
        Some row \<Rightarrow> df_value row = d \<and> (df_invalid row \<longleftrightarrow> df_mandatory row \<and> d = None)
      | None \<Rightarrow> d = None)"
| "column_reads fm (C_column x) \<longleftrightarrow>
     (case cf_part fm of Map_part c _ \<Rightarrow> c = x | Custom_part c _ _ \<Rightarrow> c = x | Scalar_part _ \<Rightarrow> False)"
| "column_reads fm (C_map_values t) \<longleftrightarrow> (case cf_part fm of Map_part _ v \<Rightarrow> v = Scalar t | _ \<Rightarrow> False)"
| "column_reads fm (C_pg_types s) \<longleftrightarrow> (case cf_part fm of Custom_part _ pg _ \<Rightarrow> pg = pg_text (pg_types s) | _ \<Rightarrow> False)"
| "column_reads fm (C_os_type s) \<longleftrightarrow> (case cf_part fm of Custom_part _ _ os \<Rightarrow> os = s | _ \<Rightarrow> False)"
| "column_reads fm _ \<longleftrightarrow> True"

section \<open>Junctions and aggregates\<close>

record through_form =
  tf_table :: string
  tf_left :: string
  tf_right :: string
  tf_columns :: "column_shape list"

definition through_form_of :: "catalog_response option \<Rightarrow> through \<Rightarrow> through_form" where
  "through_form_of catalog th =
     \<lparr>tf_table = th_table th, tf_left = th_left_key th, tf_right = th_right_key th,
      tf_columns = columnsFor catalog (th_table th)\<rparr>"

definition filters_shown :: "filter list option \<Rightarrow> filter list" where
  "filters_shown fs = (case fs of Some xs \<Rightarrow> xs | None \<Rightarrow> [])"

datatype key_form = Direct_key string | Through_key through_form bool "filter list"

record agg_form =
  af_table :: string
  af_columns :: "column_shape list"
  af_column :: "string option"
  af_key :: key_form
  af_value_type :: "flusso_type option"
  af_element_type :: "flusso_type option"
  af_count_hint :: bool
  af_filters :: "filter list"

text \<open>The select of the value type shows \<open>integer\<close> when there is none.\<close>

definition agg_form_of :: "catalog_response option \<Rightarrow> aggregate \<Rightarrow> agg_form" where
  "agg_form_of catalog a =
     \<lparr>af_table = agg_table a, af_columns = columnsFor catalog (agg_table a), af_column = aggOpColumn (agg_op a),
      af_key = (case agg_key a of
          Direct k \<Rightarrow> Direct_key k
        | Through th \<Rightarrow>
            Through_key (through_form_of catalog th) (agg_distinct a = Some True) (filters_shown (th_filters th))),
      af_value_type =
        (if aggOpKind (agg_op a) \<in> {''sum'', ''min'', ''max''}
         then Some (case agg_value_type a of Some t \<Rightarrow> t | None \<Rightarrow> Scalar Integer_t) else None),
      af_element_type = (case agg_op a of Ids_op t \<Rightarrow> Some t | _ \<Rightarrow> None),
      af_count_hint = (\<not> hasMappingType a), af_filters = filters_shown (agg_filters a)\<rparr>"

fun through_reads :: "through_form \<Rightarrow> through_edit \<Rightarrow> bool" where
  "through_reads tf (Th_table t) \<longleftrightarrow> tf_table tf = t"
| "through_reads tf (Th_left k) \<longleftrightarrow> tf_left tf = k"
| "through_reads tf (Th_right k) \<longleftrightarrow> tf_right tf = k"
| "through_reads tf (Th_filters _) \<longleftrightarrow> True"

fun agg_offers :: "agg_form \<Rightarrow> agg_edit \<Rightarrow> bool" where
  "agg_offers fm (A_column _) \<longleftrightarrow> af_column fm \<noteq> None"
| "agg_offers fm (A_key_kind k) \<longleftrightarrow> k \<in> {''direct'', ''through''}"
| "agg_offers fm (A_foreign_key _) \<longleftrightarrow> (case af_key fm of Direct_key _ \<Rightarrow> True | _ \<Rightarrow> False)"
| "agg_offers fm (A_through e) \<longleftrightarrow>
     (case (af_key fm, e) of (Through_key _ _ _, Th_filters _) \<Rightarrow> False | (Through_key _ _ _, _) \<Rightarrow> True | _ \<Rightarrow> False)"
| "agg_offers fm (A_distinct _) \<longleftrightarrow> (case af_key fm of Through_key _ _ _ \<Rightarrow> True | _ \<Rightarrow> False)"
| "agg_offers fm (A_value_type t) \<longleftrightarrow> af_value_type fm \<noteq> None \<and> t \<in> set SCALAR_TYPES"
| "agg_offers fm (A_element_type t) \<longleftrightarrow> af_element_type fm \<noteq> None \<and> t \<in> set SCALAR_TYPES"
| "agg_offers fm (A_junction_filters _) \<longleftrightarrow> (case af_key fm of Through_key _ _ _ \<Rightarrow> True | _ \<Rightarrow> False)"
| "agg_offers fm _ \<longleftrightarrow> True"

fun agg_reads :: "agg_form \<Rightarrow> agg_edit \<Rightarrow> bool" where
  "agg_reads fm (A_table t) \<longleftrightarrow> af_table fm = t"
| "agg_reads fm (A_column c) \<longleftrightarrow> af_column fm = Some c"
| "agg_reads fm (A_key_kind k) \<longleftrightarrow>
     (case af_key fm of Direct_key x \<Rightarrow> k = ''direct'' \<and> x = '''' | Through_key _ _ _ \<Rightarrow> k = ''through'')"
| "agg_reads fm (A_foreign_key c) \<longleftrightarrow> af_key fm = Direct_key c"
| "agg_reads fm (A_through e) \<longleftrightarrow> (case af_key fm of Through_key tf _ _ \<Rightarrow> through_reads tf e | _ \<Rightarrow> False)"
| "agg_reads fm (A_distinct d) \<longleftrightarrow> (case af_key fm of Through_key _ x _ \<Rightarrow> x = d | _ \<Rightarrow> False)"
| "agg_reads fm (A_value_type t) \<longleftrightarrow> af_value_type fm = Some (Scalar t)"
| "agg_reads fm (A_element_type t) \<longleftrightarrow> af_element_type fm = Some (Scalar t)"
| "agg_reads fm (A_filters fs) \<longleftrightarrow> af_filters fm = filters_shown fs"
| "agg_reads fm (A_junction_filters fs) \<longleftrightarrow>
     (case af_key fm of Through_key _ _ x \<Rightarrow> x = filters_shown fs | _ \<Rightarrow> False)"

section \<open>Leaf fields\<close>

datatype leaf_part =
    Column_part column_form
  | Geo_part string string bool        \<comment> \<open>the two columns; required\<close>
  | Constant_part js
  | Aggregate_part agg_form
  | No_part

record leaf_form =
  lf_title :: string
  lf_help :: "string option"
  lf_chips :: "string list res"
  lf_part :: leaf_part
  lf_knobs :: "string list"
  lf_options :: "js jobj"

definition help_text :: "translate \<Rightarrow> string \<Rightarrow> string option" where
  "help_text t k = map_option (\<lambda>key. t key []) (obj_get KIND_HELP k)"

text \<open>\<open>sg\<close> and \<open>pl\<close> are the package's \<open>singular\<close> and \<open>plural\<close>.\<close>

definition name_chips_of :: "(string \<Rightarrow> string) \<Rightarrow> (string \<Rightarrow> string) \<Rightarrow> field \<Rightarrow> string list res" where
  "name_chips_of sg pl f = map_res (name_chips (f_field f)) (nameSuggestions sg pl f)"

definition leaf_part_of :: "catalog_response option \<Rightarrow> string \<Rightarrow> field \<Rightarrow> leaf_part" where
  "leaf_part_of catalog table f =
     (case f_source f of
        Column_s c \<Rightarrow> Column_part (column_form_of (source_column catalog table (col_column c)) c)
      | Geo_s g \<Rightarrow> Geo_part (geo_lat g) (geo_lon g) (\<not> geo_nullable g)
      | Constant_s v \<Rightarrow> Constant_part v
      | Relation_s (Aggregate_r a) \<Rightarrow> Aggregate_part (agg_form_of catalog a)
      | _ \<Rightarrow> No_part)"

definition leaf_form_of ::
  "translate \<Rightarrow> (string \<Rightarrow> string) \<Rightarrow> (string \<Rightarrow> string) \<Rightarrow> catalog_response option \<Rightarrow> string \<Rightarrow> field \<Rightarrow> leaf_form" where
  "leaf_form_of t sg pl catalog table f =
     \<lparr>lf_title = f_field f, lf_help = help_text t (fieldHelpKind (f_source f)), lf_chips = name_chips_of sg pl f,
      lf_part = leaf_part_of catalog table f, lf_knobs = map fst (available_knobs f), lf_options = options_of f\<rparr>"

fun leaf_offers :: "leaf_form \<Rightarrow> leaf_edit \<Rightarrow> bool" where
  "leaf_offers fm (L_name _) \<longleftrightarrow> lf_part fm \<noteq> No_part"
| "leaf_offers fm (L_column e) \<longleftrightarrow> (case lf_part fm of Column_part cf \<Rightarrow> column_offers cf e | _ \<Rightarrow> False)"
| "leaf_offers fm (L_aggregate e) \<longleftrightarrow> (case lf_part fm of Aggregate_part af \<Rightarrow> agg_offers af e | _ \<Rightarrow> False)"
| "leaf_offers fm (L_constant _) \<longleftrightarrow> (case lf_part fm of Constant_part _ \<Rightarrow> True | _ \<Rightarrow> False)"
| "leaf_offers fm (L_set_option k _) \<longleftrightarrow> k \<in> set (obj_keys (lf_options fm)) \<union> set (lf_knobs fm)"
| "leaf_offers fm (L_rename_option k _) \<longleftrightarrow> k \<in> set (obj_keys (lf_options fm))"
| "leaf_offers fm (L_remove_option k) \<longleftrightarrow> k \<in> set (obj_keys (lf_options fm))"
| "leaf_offers fm L_add_option \<longleftrightarrow> True"
| "leaf_offers fm _ \<longleftrightarrow> (case lf_part fm of Geo_part _ _ _ \<Rightarrow> True | _ \<Rightarrow> False)"

fun leaf_reads :: "leaf_form \<Rightarrow> leaf_edit \<Rightarrow> bool" where
  "leaf_reads fm (L_name n) \<longleftrightarrow> lf_title fm = n"
| "leaf_reads fm (L_column e) \<longleftrightarrow> (case lf_part fm of Column_part cf \<Rightarrow> column_reads cf e | _ \<Rightarrow> False)"
| "leaf_reads fm (L_aggregate e) \<longleftrightarrow> (case lf_part fm of Aggregate_part af \<Rightarrow> agg_reads af e | _ \<Rightarrow> False)"
| "leaf_reads fm (L_constant v) \<longleftrightarrow> lf_part fm = Constant_part (nullish_null v)"
| "leaf_reads fm (L_lat c) \<longleftrightarrow> (case lf_part fm of Geo_part x _ _ \<Rightarrow> x = c | _ \<Rightarrow> False)"
| "leaf_reads fm (L_lon c) \<longleftrightarrow> (case lf_part fm of Geo_part _ x _ \<Rightarrow> x = c | _ \<Rightarrow> False)"
| "leaf_reads fm (L_geo_required r) \<longleftrightarrow> (case lf_part fm of Geo_part _ _ x \<Rightarrow> x = r | _ \<Rightarrow> False)"
| "leaf_reads fm (L_set_option k v) \<longleftrightarrow> obj_get (lf_options fm) k = Some v"
| "leaf_reads fm (L_rename_option k k') \<longleftrightarrow> k' \<in> set (obj_keys (lf_options fm))"
| "leaf_reads fm (L_remove_option k) \<longleftrightarrow> k \<notin> set (obj_keys (lf_options fm))"
| "leaf_reads fm L_add_option \<longleftrightarrow> obj_keys (lf_options fm) \<noteq> []"

section \<open>Joins and the root\<close>

datatype join_keys =
    Bt_keys string "column_shape list"
  | Fk_keys string
  | M2m_keys through_form "filter list"

record join_form =
  jf_verb :: string
  jf_help :: "string option"
  jf_chips :: "string list res"
  jf_table :: string
  jf_columns :: "column_shape list"
  jf_primary_key :: string
  jf_keys :: join_keys
  jf_bridge :: "(bool \<times> string) option"
  jf_required :: "bool option"
  jf_order_by :: "(string \<times> direction) list option"
  jf_limit :: "js_num option option"
  jf_filters :: "filter list"

definition order_rows :: "order_by list option \<Rightarrow> (string \<times> direction) list" where
  "order_rows obs =
     map (\<lambda>ob. (ob_column ob, case ob_direction ob of Some d \<Rightarrow> d | None \<Rightarrow> Asc)) (case obs of Some xs \<Rightarrow> xs | None \<Rightarrow> [])"

definition join_form_of ::
  "translate \<Rightarrow> (string \<Rightarrow> string) \<Rightarrow> (string \<Rightarrow> string) \<Rightarrow> catalog_response option \<Rightarrow> index_schema \<Rightarrow> path \<Rightarrow>
     field \<Rightarrow> join \<Rightarrow> join_form" where
  "join_form_of t sg pl catalog schema path f j =
     (let verb = join_verb (j_kind j); toMany = to_many j; fk = fk_nullable_of catalog schema path j in
      \<lparr>jf_verb = verb, jf_help = help_text t verb, jf_chips = name_chips_of sg pl f, jf_table = j_table j,
       jf_columns = columnsFor catalog (j_table j), jf_primary_key = j_primary_key j,
       jf_keys = (case j_kind j of
           Belongs_to c \<Rightarrow> Bt_keys c (columnsFor catalog (effectiveTable schema (butlast path)))
         | Has_one k \<Rightarrow> Fk_keys k
         | Has_many k \<Rightarrow> Fk_keys k
         | Many_to_many th \<Rightarrow> M2m_keys (through_form_of catalog th) (filters_shown (th_filters th))),
       jf_bridge = (if toMany then None
                    else (case (fk, j_kind j) of (Some b, Belongs_to c) \<Rightarrow> Some (b, c) | _ \<Rightarrow> None)),
       jf_required = (if toMany then None else Some (\<not> j_nullable j)),
       jf_order_by = (if verb = ''belongs_to'' then None else Some (order_rows (j_order_by j))),
       jf_limit = (if toMany then Some (j_limit j) else None),
       jf_filters = filters_shown (j_filters j)\<rparr>)"

fun join_reads :: "join_form \<Rightarrow> join_edit \<Rightarrow> bool" where
  "join_reads fm (J_verb v) \<longleftrightarrow> jf_verb fm = v"
| "join_reads fm (J_table x) \<longleftrightarrow> jf_table fm = x"
| "join_reads fm (J_primary_key k) \<longleftrightarrow> jf_primary_key fm = k"
| "join_reads fm (J_column c) \<longleftrightarrow> (case jf_keys fm of Bt_keys x _ \<Rightarrow> x = c | _ \<Rightarrow> False)"
| "join_reads fm (J_foreign_key k) \<longleftrightarrow> jf_keys fm = Fk_keys k"
| "join_reads fm (J_through e) \<longleftrightarrow>
     (case jf_keys fm of
        M2m_keys tf fs \<Rightarrow> (case e of Th_filters gs \<Rightarrow> fs = filters_shown gs | _ \<Rightarrow> through_reads tf e)
      | _ \<Rightarrow> False)"
| "join_reads fm (J_required r) \<longleftrightarrow> jf_required fm = Some r"
| "join_reads fm (J_order_by obs) \<longleftrightarrow> jf_order_by fm = Some (order_rows obs)"
| "join_reads fm (J_limit n) \<longleftrightarrow> jf_limit fm = Some n"
| "join_reads fm (J_filters fs) \<longleftrightarrow> jf_filters fm = filters_shown fs"

record root_form =
  of_table :: string
  of_db_schema :: string
  of_primary_key :: string
  of_columns :: "column_shape list"
  of_soft_delete :: "string \<times> string"   \<comment> \<open>the kind and the name beside it\<close>
  of_filters :: "filter list"

definition soft_delete_form :: "soft_delete option \<Rightarrow> string \<times> string" where
  "soft_delete_form sd =
     (soft_delete_kind sd, case sd of Some (Sd_field x _) \<Rightarrow> x | Some (Sd_column x _) \<Rightarrow> x | None \<Rightarrow> '''')"

definition root_form_of :: "catalog_response option \<Rightarrow> index_schema \<Rightarrow> root_form" where
  "root_form_of catalog sc =
     \<lparr>of_table = s_table sc, of_db_schema = s_db_schema sc,
      of_primary_key = (case s_primary_key sc of Some k \<Rightarrow> k | None \<Rightarrow> ''''),
      of_columns = columnsFor catalog (s_table sc), of_soft_delete = soft_delete_form (s_soft_delete sc),
      of_filters = filters_shown (s_filters sc)\<rparr>"

fun root_reads :: "root_form \<Rightarrow> root_edit \<Rightarrow> bool" where
  "root_reads fm (R_table x) \<longleftrightarrow> of_table fm = x"
| "root_reads fm (R_db_schema x) \<longleftrightarrow> of_db_schema fm = x"
| "root_reads fm (R_primary_key k) \<longleftrightarrow> of_primary_key fm = k"
| "root_reads fm (R_soft_delete sd) \<longleftrightarrow> of_soft_delete fm = soft_delete_form sd"
| "root_reads fm (R_filters fs) \<longleftrightarrow> of_filters fm = filters_shown fs"

section \<open>The panel\<close>

datatype inspector_panel =
    Prompt_panel
  | Columns_panel "(string \<times> bool) list" nat nat  \<comment> \<open>the names, each in or not; how many to add, to remove\<close>
  | Root_panel "string list" root_form
  | Group_panel "string list" string
  | Join_panel "string list" string join_form
  | Leaf_panel "string list" leaf_form
  | Empty_panel "string list"

definition columns_panel :: "catalog_response option \<Rightarrow> index_schema \<Rightarrow> path \<Rightarrow> string list \<Rightarrow> inspector_panel" where
  "columns_panel catalog schema path names =
     (let cols = columnsFor catalog (effectiveTable schema path) in
      Columns_panel (map (\<lambda>n. (n, n \<in> row_name ` set (nodeFields schema path))) names)
        (length (toInclude cols schema path names)) (length (toRemove schema path names)))"

definition inspector_panel_of ::
  "translate \<Rightarrow> (string \<Rightarrow> string) \<Rightarrow> (string \<Rightarrow> string) \<Rightarrow> catalog_response option \<Rightarrow> index_schema \<Rightarrow>
     selection option \<Rightarrow> inspector_panel" where
  "inspector_panel_of t sg pl catalog schema sel =
     (case sel of
        None \<Rightarrow> Prompt_panel
      | Some (Columns_sel path names) \<Rightarrow>
          columns_panel catalog schema path names
      | Some Root_sel \<Rightarrow> Root_panel (crumbs schema sel) (root_form_of catalog schema)
      | Some (Node_sel path) \<Rightarrow>
          (case fieldAtPath schema path of
             None \<Rightarrow> Empty_panel (crumbs schema sel)
           | Some f \<Rightarrow>
               (case f_source f of
                  Group_s _ \<Rightarrow> Group_panel (crumbs schema sel) (f_field f)
                | Relation_s (Join_r j _) \<Rightarrow>
                    Join_panel (crumbs schema sel) (f_field f) (join_form_of t sg pl catalog schema path f j)
                | _ \<Rightarrow> Empty_panel (crumbs schema sel)))
      | Some (Field_sel path i) \<Rightarrow>
          (case js_get (nodeFields schema path) i of
             None \<Rightarrow> Empty_panel (crumbs schema sel)
           | Some f \<Rightarrow> Leaf_panel (crumbs schema sel) (leaf_form_of t sg pl catalog (effectiveTable schema path) f)))"

section \<open>What is set is what is shown\<close>

lemma variant_rows_texts [simp]: "map vr_text (variant_rows c) = variants_of c" "length (variant_rows c) = length (variants_of c)"
  by (auto simp: variant_rows_def comp_def case_prod_beta intro: nth_equalityI)

lemma variant_rows_set [simp]: "vr_text ` set (variant_rows c) = set (variants_of c)"
  by (metis set_map variant_rows_texts(1))

lemma column_form_part:
  "cf_part (column_form_of src c) = (case col_ty c of
      Scalar ty \<Rightarrow> Scalar_part (scalar_form_of src ty c)
    | Map_t values \<Rightarrow> Map_part (col_column c) values
    | Custom_t pg os \<Rightarrow> Custom_part (col_column c) (pg_text pg) os)"
  "cf_required (column_form_of src c) = required_form_of (map_option cs_nullable src) c"
  by (simp_all add: column_form_of_def Let_def)

lemma scalar_form_simps:
  "sf_type (scalar_form_of src ty c) = scalar_name ty"
  "sf_lowercase (scalar_form_of src ty c) \<longleftrightarrow> Lowercase \<in> set (transforms_of c)"
  "sf_trim (scalar_form_of src ty c) \<longleftrightarrow> Trim \<in> set (transforms_of c)"
  "sf_variants (scalar_form_of src ty c) = (if ty = Enum_t then Some (variant_rows c) else None)"
  by (simp_all add: scalar_form_of_def Let_def)

lemma suggestion_taken:
  "sf_suggested (scalar_form_of src ty c) = Some t \<Longrightarrow> sf_suggested (scalar_form_of src t c') = None"
  "sf_suggested (scalar_form_of src ty c) = Some t \<Longrightarrow> sf_mismatch (scalar_form_of src t c') = None"
  by (auto simp: scalar_form_of_def Let_def split: option.splits flusso_type.splits if_splits)

lemma suggestion_shown_form:
  "sf_suggested (scalar_form_of src ty c) = Some t \<Longrightarrow> col_ty c = Scalar ty \<Longrightarrow> suggestion_shown (Some (Scalar t)) c"
  by (auto simp: scalar_form_of_def Let_def suggestion_shown_def split: option.splits flusso_type.splits if_splits)

lemma required_form_shows:
  "rf_required (required_form_of n (edit_column (C_required r) c)) = r"
  "case rf_default (required_form_of n (edit_column (C_default d) c)) of
     Some row \<Rightarrow> df_value row = d \<and> (df_invalid row \<longleftrightarrow> df_mandatory row \<and> d = None)
   | None \<Rightarrow> d = None"
  by (auto simp: required_form_of_def show_default_def must_default_def default_missing_def)

text \<open>\<open>src'\<close>: the form drawn again looks its column up anew, which only matters when the name changed.\<close>

lemma column_put_get:
  assumes "column_offers (column_form_of src c) e" and "(\<And>x. e \<noteq> C_column x) \<Longrightarrow> src' = src"
  shows "column_reads (column_form_of src' (edit_column e c)) e"
proof (cases e)
  case (C_transform tr on)
  obtain ty where ty: "col_ty c = Scalar ty"
    using assms(1) C_transform by (auto simp: column_form_part split: flusso_type.splits)
  then have "col_ty (toggle_transform tr on c) = Scalar ty" by (simp add: toggle_transform_def Let_def)
  then show ?thesis using C_transform ty assms(2)
    by (cases tr) (auto simp: column_form_part scalar_form_simps is_scalar_column_def toggle_transform_set)
next
  case (C_use ty)
  then show ?thesis using assms
    by (cases "col_ty c") (auto simp: column_form_part is_scalar_column_def scalar_form_simps suggestion_taken suggestion_shown_form)
next
  case (C_add_variant draft)
  then show ?thesis using assms
    by (cases "col_ty c")
      (auto simp: column_form_part scalar_form_simps variant_texts_def variants_add_def Let_def split: if_splits)
next
  case (C_rename_variant i v)
  then show ?thesis using assms
    by (cases "col_ty c")
      (auto simp: column_form_part scalar_form_simps variant_texts_def variants_rename_def js_get_def split: if_splits)
next
  case (C_required r)
  then show ?thesis by (simp only: column_reads.simps column_form_part required_form_shows)
next
  case (C_default d)
  then show ?thesis by (simp only: column_reads.simps column_form_part required_form_shows)
qed (use assms in \<open>auto simp: column_form_part scalar_form_simps is_scalar_column_def split: flusso_type.splits\<close>)

lemma through_put_get:
  "(\<And>fs. e \<noteq> Th_filters fs) \<Longrightarrow> through_reads (through_form_of catalog (edit_through e th)) e"
  by (cases e) (simp_all add: through_form_of_def)

lemma agg_put_get:
  assumes "agg_offers (agg_form_of catalog a) e"
  shows "agg_reads (agg_form_of catalog (edit_agg e a)) e"
proof (cases e)
  case (A_column c)
  then show ?thesis using assms
    by (cases "agg_op a") (simp_all add: agg_form_of_def withAggColumn_def)
next
  case (A_through x)
  then show ?thesis using assms
    by (cases x; cases "agg_key a") (simp_all add: agg_form_of_def set_key_def through_form_of_def)
next
  case (A_key_kind k)
  then show ?thesis using assms by (auto simp: agg_form_of_def set_key_def blank_key_def)
next
  case (A_value_type v)
  then show ?thesis using assms by (auto simp: agg_form_of_def split: if_splits)
qed (use assms in \<open>auto simp: agg_form_of_def set_key_def split: aggregate_key.splits aggregate_op.splits\<close>)

lemma leaf_part_put_get:
  assumes part: "leaf_part_of catalog table f = Column_part (column_form_of src c)"
    and c: "f_source f = Column_s c" and src: "src = source_column catalog table (col_column c)"
    and "column_offers (column_form_of src c) e"
  shows "leaf_part_of catalog table (edit_leaf (L_column e) f) =
      Column_part (column_form_of (source_column catalog table (col_column (edit_column e c))) (edit_column e c)) \<and>
    column_reads (column_form_of (source_column catalog table (col_column (edit_column e c))) (edit_column e c)) e"
proof
  show "leaf_part_of catalog table (edit_leaf (L_column e) f) =
      Column_part (column_form_of (source_column catalog table (col_column (edit_column e c))) (edit_column e c))"
    using c by (simp add: leaf_part_of_def)
  have "col_column (edit_column e c) = col_column c" if "\<And>x. e \<noteq> C_column x"
    using that by (cases e)
      (auto simp: toggle_transform_def variants_add_def variants_rename_def variants_remove_def variants_move_def
        commit_variants_def Let_def split: flusso_type.splits)
  then show "column_reads (column_form_of (source_column catalog table (col_column (edit_column e c))) (edit_column e c)) e"
    using assms(4) src by (intro column_put_get [where src = src]) simp_all
qed

lemma leaf_part_cases:
  "leaf_part_of catalog table f = Column_part cf \<longleftrightarrow>
     (\<exists>c. f_source f = Column_s c \<and> cf = column_form_of (source_column catalog table (col_column c)) c)"
  "leaf_part_of catalog table f = Aggregate_part af \<longleftrightarrow>
     (\<exists>a. f_source f = Relation_s (Aggregate_r a) \<and> af = agg_form_of catalog a)"
  "leaf_part_of catalog table f = Geo_part x y r \<longleftrightarrow>
     (\<exists>g. f_source f = Geo_s g \<and> geo_lat g = x \<and> geo_lon g = y \<and> r = (\<not> geo_nullable g))"
  "leaf_part_of catalog table f = Constant_part v \<longleftrightarrow> f_source f = Constant_s v"
  by (auto simp: leaf_part_of_def split: field_source.splits relation.splits)

lemma leaf_form_simps [simp]:
  "lf_part (leaf_form_of t sg pl catalog table f) = leaf_part_of catalog table f"
  "lf_title (leaf_form_of t sg pl catalog table f) = f_field f"
  "lf_options (leaf_form_of t sg pl catalog table f) = options_of f"
  by (simp_all add: leaf_form_of_def)

text \<open>Every control of a leaf's form, whatever the leaf is.\<close>

lemma leaf_put_get:
  assumes offer: "leaf_offers (leaf_form_of t sg pl catalog table f) e" and wf: "obj_wf (options_of f)"
  shows "leaf_reads (leaf_form_of t sg pl catalog table (edit_leaf e f)) e"
proof (cases e)
  case (L_column x)
  then obtain c where c: "f_source f = Column_s c"
      "column_offers (column_form_of (source_column catalog table (col_column c)) c) x"
    using offer by (auto simp: leaf_part_cases split: leaf_part.splits)
  then have part: "leaf_part_of catalog table f = Column_part (column_form_of (source_column catalog table (col_column c)) c)"
    by (simp add: leaf_part_of_def)
  from leaf_part_put_get [OF part c(1) refl c(2)] show ?thesis using L_column by simp
next
  case (L_aggregate x)
  then obtain a where "f_source f = Relation_s (Aggregate_r a)" "agg_offers (agg_form_of catalog a) x"
    using offer by (auto simp: leaf_part_cases split: leaf_part.splits)
  then show ?thesis using L_aggregate agg_put_get by (simp add: leaf_part_of_def)
next
  case (L_rename_option k k')
  let ?m = "map (\<lambda>(n, v). (if n = k then k' else n, v)) (options_of f)"
  have "k \<in> fst ` set (options_of f)" using offer L_rename_option by (simp add: obj_keys_def)
  then have "k' \<in> fst ` set ?m" by force
  then have "k' \<in> set (obj_keys (obj_of ?m))" by (simp only: obj_keys_of)
  then show ?thesis using L_rename_option by simp
next
  case (L_set_option k v)
  then show ?thesis by (simp add: obj_get_put)
next
  case (L_remove_option k)
  then show ?thesis using wf by (auto simp: obj_delete_def obj_keys_def)
next
  case L_add_option
  then show ?thesis by (simp add: addOpt_def) (metis has_key_put has_key_iff empty_iff list.set(1))
next
  case (L_constant v)
  then obtain x where "f_source f = Constant_s x" using offer by (auto simp: leaf_part_cases split: leaf_part.splits)
  then show ?thesis using L_constant by (simp add: leaf_part_of_def)
next
  case (L_name n)
  then show ?thesis by simp
qed (use offer in \<open>auto simp: leaf_part_cases leaf_part_of_def split: leaf_part.splits field_source.splits relation.splits\<close>)

section \<open>Joins and the root\<close>

lemma join_put_get:
  assumes "join_control j e" and "(\<And>v. e = J_verb v \<Longrightarrow> v \<in> set JOIN_KINDS)"
  shows "join_reads (join_form_of t sg pl catalog schema path f (edit_join e j)) e"
proof (cases e)
  case (J_verb v)
  then show ?thesis using assms by (simp add: join_form_of_def Let_def join_verb_blank)
next
  case (J_through x)
  then show ?thesis using assms
    by (cases x) (auto simp: join_form_of_def Let_def through_form_of_def split: join_kind.splits)
next
  case (J_required r)
  then show ?thesis using assms by (simp add: join_form_of_def Let_def to_many_def)
next
  case (J_limit n)
  then show ?thesis using assms by (simp add: join_form_of_def Let_def to_many_def)
qed (use assms in \<open>auto simp: join_form_of_def Let_def split: join_kind.splits\<close>)

lemma root_put_get: "root_reads (root_form_of catalog (edit_root e sc)) e"
  by (cases e) (simp_all add: root_form_of_def setRootMeta_def)

section \<open>What is shown and set again changes nothing\<close>

text \<open>
  Setting a control to what it shows leaves the column as it is. Two controls are excepted: the boxes
  of the transforms drop duplicates of the list, and the box of the Postgres types parses its own text.
\<close>

lemma column_get_put:
  assumes "column_offers (column_form_of src c) e" "column_reads (column_form_of src c) e"
    and "\<And>tr on. e \<noteq> C_transform tr on" "\<And>i. e \<noteq> C_remove_variant i" "\<And>i d. e \<noteq> C_move_variant i d"
    and "\<And>pg os. col_ty c = Custom_t pg os \<Longrightarrow> list_all clean_type pg \<and> (\<forall>s. e = C_pg_types s \<longrightarrow> s = pg_text pg)"
  shows "edit_column e c = c"
proof (cases e)
  case (C_type t)
  then show ?thesis using assms(1,2)
    by (cases "col_ty c") (auto simp: column_form_part scalar_form_simps scalar_name_inject)
next
  case (C_use ty)
  then show ?thesis using assms(1,2)
    by (cases "col_ty c") (auto simp: column_form_part split: flusso_type.splits)
next
  case (C_add_variant d)
  then show ?thesis using assms(1,2)
    by (cases "col_ty c")
      (auto simp: column_form_part scalar_form_simps variant_texts_def variants_add_def Let_def split: if_splits)
next
  case (C_rename_variant i v)
  then have "variants_rename i v c = c" if t: "col_ty c = Scalar Enum_t"
  proof -
    have i: "i < length (variants_of c)" and v: "variants_of c ! i = v"
      using assms(1,2) C_rename_variant t by (simp_all add: column_form_part scalar_form_simps variant_texts_def js_get_def)
    have "col_enum_order c \<noteq> Some []" using i by (auto simp: variants_of_def)
    then show ?thesis using v [symmetric] commit_variants_id by (simp add: variants_rename_def)
  qed
  then show ?thesis using C_rename_variant by simp
next
  case (C_default d)
  then show ?thesis using assms(1,2)
    by (auto simp: column_form_part required_form_of_def split: if_splits)
next
  case (C_required r)
  then show ?thesis using assms(2) by (auto simp: column_form_part required_form_of_def)
next
  case (C_pg_types s)
  then show ?thesis using assms(6) pg_types_text by (auto split: flusso_type.splits)
qed (use assms in \<open>auto simp: column_form_part split: flusso_type.splits\<close>)

text \<open>
  The select of the value type is not so: without a type it shows \<open>integer\<close>, and it takes another
  choice and back to store what it showed all along.
\<close>

lemma value_type_shown_unset:
  assumes "agg_op a = Sum_op c" "agg_value_type a = None"
  shows "agg_reads (agg_form_of catalog a) (A_value_type Integer_t)" "aggregateIncomplete (Some (Field n opts (Relation_s (Aggregate_r a))))"
  using assms by (simp_all add: agg_form_of_def aggregateIncomplete_def agg_incomplete_def)

end
