(* ===== verification/Palette_Pane.thy ===== *)
theory Palette_Pane
  imports Palette
begin

text \<open>
  What \<^verbatim>\<open>components/CommandPalette.tsx\<close> shows, as data: the glyph of a record, the preview of the
  highlighted one, the groups of rows with their headings, the recent picks, the ghost completion and
  the hints of the footer. Class names are left out; keys are spelled by their names.
\<close>

section \<open>A record's glyph and preview\<close>

datatype glyph = Dot_glyph string | Tile_glyph "string option" string

text \<open>An optional string that is empty shows nothing.\<close>

definition shown_text :: "string option \<Rightarrow> string option" where
  "shown_text s = (case s of Some x \<Rightarrow> if x \<noteq> '''' then Some x else None | None \<Rightarrow> None)"

definition CAT_ICON :: "category \<Rightarrow> string option" where
  "CAT_ICON c =
     (case c of Action_c \<Rightarrow> Some ''Zap'' | Index_c \<Rightarrow> Some ''Boxes'' | Setting_c \<Rightarrow> Some ''Settings2''
      | Catalog_c \<Rightarrow> Some ''Table2'' | Legend_kind_c \<Rightarrow> Some ''BookOpen'' | Legend_type_c \<Rightarrow> Some ''BookOpen''
      | Field_c \<Rightarrow> None)"

definition CAT_COLOR :: "category \<Rightarrow> string option" where
  "CAT_COLOR c =
     (case c of Action_c \<Rightarrow> Some ''var(--warn)'' | Index_c \<Rightarrow> Some ''var(--k-root)'' | Setting_c \<Rightarrow> Some ''var(--slate)''
      | Catalog_c \<Rightarrow> Some ''var(--accent-2)'' | Legend_kind_c \<Rightarrow> Some ''var(--k-object)''
      | Legend_type_c \<Rightarrow> Some ''var(--k-object)'' | Field_c \<Rightarrow> None)"

definition glyph_of :: "search_record \<Rightarrow> glyph" where
  "glyph_of r =
     (case shown_text (rc_color r) of
        Some color \<Rightarrow> Dot_glyph color
      | None \<Rightarrow>
          Tile_glyph (CAT_ICON (rc_category r))
            (case CAT_COLOR (rc_category r) of Some color \<Rightarrow> color | None \<Rightarrow> ''var(--muted)''))"

record detail_pane =
  dp_crumbs :: "string list"
  dp_glyph :: glyph
  dp_title :: string
  dp_head_kind :: "string option"
  dp_shortcut :: "string option"
  dp_mapping :: "(string option \<times> string option) option"   \<comment> \<open>an arrow stands between two\<close>
  dp_body :: "string option"
  dp_meta :: "string option"
  dp_flags :: "(bool \<times> string) list"
  dp_enter :: string

text \<open>\<open>d.source ?? d.target\<close>: an empty source hides the target too.\<close>

definition mapping_of :: "search_detail \<Rightarrow> (string option \<times> string option) option" where
  "mapping_of d =
     (if shown_text (case sd_source d of Some s \<Rightarrow> Some s | None \<Rightarrow> sd_target d) \<noteq> None
      then Some (shown_text (sd_source d), shown_text (sd_target d)) else None)"

definition detail_pane_of :: "search_record \<Rightarrow> detail_pane" where
  "detail_pane_of r =
     (let d = rc_detail r in
      \<lparr>dp_crumbs = (case sd_crumb d of Some cs \<Rightarrow> cs | None \<Rightarrow> []), dp_glyph = glyph_of r, dp_title = rc_title r,
       dp_head_kind = shown_text (sd_headKind d), dp_shortcut = shown_text (rc_shortcut r),
       dp_mapping = mapping_of d, dp_body = shown_text (sd_body d), dp_meta = shown_text (sd_meta d),
       dp_flags = (case sd_flags d of Some fs \<Rightarrow> map (\<lambda>f. (fl_ok f, fl_text f)) fs | None \<Rightarrow> []),
       dp_enter = sd_enter d\<rparr>)"

section \<open>Rows\<close>

record palette_row =
  pr_value :: string
  pr_glyph :: glyph
  pr_title :: "(bool \<times> string) list"
  pr_subtitle :: "string option"
  pr_kind :: "(string \<times> string) option"
  pr_shortcut :: "string option"

definition palette_row_of :: "ranked \<Rightarrow> palette_row" where
  "palette_row_of x =
     (let r = rk_record x in
      \<lparr>pr_value = rc_id r, pr_glyph = glyph_of r, pr_title = highlighted (rc_title r) (rk_positions x),
       pr_subtitle = shown_text (rc_subtitle r),
       pr_kind = (case (shown_text (rc_color r), shown_text (rc_kind r)) of (Some c, Some k) \<Rightarrow> Some (c, k) | _ \<Rightarrow> None),
       pr_shortcut = shown_text (rc_shortcut r)\<rparr>)"

record palette_group =
  pg_heading :: string
  pg_count :: nat
  pg_rows :: "palette_row list"

definition palette_groups :: "translate \<Rightarrow> ranked list \<Rightarrow> palette_group list" where
  "palette_groups t ranked =
     map (\<lambda>(cat, n, rows). \<lparr>pg_heading = headings t cat, pg_count = n, pg_rows = map palette_row_of rows\<rparr>)
       (row_groups ranked)"

text \<open>A recent pick: the value of its row and the title it had when it was picked.\<close>

definition recent_row_of :: "pick \<Rightarrow> string \<times> string" where
  "recent_row_of p = (''recent:'' @ pk_id p, pk_title p)"

section \<open>The palette\<close>

datatype hint = Navigate_h | Select_h | Close_h | Complete_h | Remove_h

definition hint_keys :: "hint \<Rightarrow> string list" where
  "hint_keys h =
     (case h of Navigate_h \<Rightarrow> [''up'', ''down''] | Select_h \<Rightarrow> [''enter''] | Close_h \<Rightarrow> [''esc'']
      | Complete_h \<Rightarrow> [''tab''] | Remove_h \<Rightarrow> [''cmd'', ''backspace''])"

definition hint_text :: "translate \<Rightarrow> hint \<Rightarrow> string" where
  "hint_text t h =
     (case h of Navigate_h \<Rightarrow> t ''search.navigate'' [] | Select_h \<Rightarrow> t ''search.selectHint'' []
      | Close_h \<Rightarrow> t ''search.closeHint'' [] | Complete_h \<Rightarrow> t ''search.complete'' []
      | Remove_h \<Rightarrow> t ''search.removeRecent'' [])"

definition palette_hints :: "bool \<Rightarrow> pick list \<Rightarrow> string \<Rightarrow> hint list" where
  "palette_hints completing recent value =
     [Navigate_h, Select_h, Close_h] @ (if completing then [Complete_h] else []) @
     (if recent \<noteq> [] \<and> starts_with ''recent:'' value then [Remove_h] else [])"

record palette_pane =
  pp_ghost :: "(string \<times> string) option"
  pp_count :: "string option"
  pp_empty :: bool
  pp_recent :: "(string \<times> string) list"
  pp_groups :: "palette_group list"
  pp_detail :: "detail_pane option"
  pp_hints :: "hint list"

definition palette_pane_of ::
  "translate \<Rightarrow> (string \<Rightarrow> (string \<times> rat) list) \<Rightarrow> (string \<Rightarrow> string option) \<Rightarrow> search_record list \<Rightarrow> string \<Rightarrow>
     rat jobj \<Rightarrow> storage \<Rightarrow> bool \<Rightarrow> string \<Rightarrow> string \<Rightarrow> palette_pane" where
  "palette_pane_of t search suggest records active frecency st opened q val =
     (let ranked = ranked_rows search q records active frecency;
          recent = recent_rows opened q records st;
          ghost = completion suggest q in
      \<lparr>pp_ghost = (if ghost \<noteq> '''' then Some (q, ghost) else None),
       pp_count = (if trim q \<noteq> '''' then Some (t ''search.resultCount'' [(''n'', JNum (Fin (of_nat (length ranked))))]) else None),
       pp_empty = (recent = [] \<and> row_groups ranked = []),
       pp_recent = map recent_row_of recent, pp_groups = palette_groups t ranked,
       pp_detail = map_option detail_pane_of (current_record records ranked val),
       pp_hints = palette_hints (ghost \<noteq> '''') recent val\<rparr>)"

text \<open>What a chosen row runs: \<open>onSelect\<close> of its record, looked up by id for a recent pick.\<close>

definition chosen_record :: "search_record list \<Rightarrow> ranked list \<Rightarrow> string \<Rightarrow> search_record option" where
  "chosen_record records ranked val =
     (if starts_with ''recent:'' val then by_id records (drop (length ''recent:'') val)
      else map_option rk_record (find (\<lambda>x. rc_id (rk_record x) = val) ranked))"

definition pane_values :: "palette_pane \<Rightarrow> string list" where
  "pane_values p = map fst (pp_recent p) @ concat (map (\<lambda>g. map pr_value (pg_rows g)) (pp_groups p))"

section \<open>The rows shown\<close>

lemma shown_text_simps [simp]: "shown_text None = None" "shown_text (Some s) = (if s = '''' then None else Some s)"
  by (simp_all add: shown_text_def)

lemma palette_row_simps [simp]:
  "pr_value (palette_row_of x) = rc_id (rk_record x)"
  "concat (map snd (pr_title (palette_row_of x))) = rc_title (rk_record x)"
  by (simp_all add: palette_row_of_def Let_def highlighted_text)

lemma pane_group:
  "g \<in> set (palette_groups t ranked) \<longleftrightarrow>
     (\<exists>c. let all = filter (\<lambda>x. rc_category (rk_record x) = c) ranked in
        all \<noteq> [] \<and> g = \<lparr>pg_heading = headings t c, pg_count = length all, pg_rows = map palette_row_of (take 8 all)\<rparr>)"
proof -
  have "g \<in> set (palette_groups t ranked) \<longleftrightarrow>
      (\<exists>c n rows. (c, n, rows) \<in> set (row_groups ranked) \<and>
         g = \<lparr>pg_heading = headings t c, pg_count = n, pg_rows = map palette_row_of rows\<rparr>)"
    by (force simp: palette_groups_def)
  then show ?thesis by (auto simp: row_groups_mem Let_def)
qed

text \<open>No group shows more than eight rows; its heading counts them all, and the counts add up.\<close>

lemma group_rows:
  assumes "g \<in> set (palette_groups t ranked)"
  shows "0 < length (pg_rows g)" "length (pg_rows g) = min 8 (pg_count g)"
  using assms by (auto simp: pane_group Let_def)

lemma group_counts: "sum_list (map pg_count (palette_groups t ranked)) = length ranked"
proof -
  have "map pg_count (palette_groups t ranked) = map (\<lambda>(c, n, rows). n) (row_groups ranked)"
    by (simp add: palette_groups_def case_prod_beta comp_def)
  then show ?thesis by (simp only: row_groups_counts)
qed

lemma no_groups: "palette_groups t ranked = [] \<longleftrightarrow> ranked = []"
proof
  assume "palette_groups t ranked = []"
  then show "ranked = []" using group_counts [of t ranked] by simp
qed (simp add: palette_groups_def row_groups_def Let_def group_order_def)

lemma pane_empty:
  "pp_empty (palette_pane_of t search suggest records active frecency st opened q val) \<longleftrightarrow>
     pane_values (palette_pane_of t search suggest records active frecency st opened q val) = []"
proof -
  have "row_groups ranked = [] \<longleftrightarrow> palette_groups t ranked = []" for ranked by (simp add: palette_groups_def)
  moreover have "concat (map (\<lambda>g. map pr_value (pg_rows g)) (palette_groups t ranked)) = [] \<longleftrightarrow> palette_groups t ranked = []"
    for ranked
    using group_rows(1) [of _ t ranked] by (cases "palette_groups t ranked") force+
  ultimately show ?thesis by (simp add: palette_pane_of_def Let_def pane_values_def)
qed

section \<open>Choosing what is shown\<close>

text \<open>The rows carry their records' ids, so no record's id may look like a recent pick's row.\<close>

definition plain_ids :: "search_record list \<Rightarrow> bool" where
  "plain_ids records \<longleftrightarrow> distinct (map rc_id records) \<and> (\<forall>r \<in> set records. \<not> starts_with ''recent:'' (rc_id r))"

lemma by_id_in: "by_id records i = Some r \<Longrightarrow> r \<in> set records \<and> rc_id r = i"
  by (auto simp: by_id_def find_Some_iff) (metis nth_mem set_rev length_rev)

lemma ranked_rows_in:
  "x \<in> set (ranked_rows search q records active frecency) \<Longrightarrow> rk_record x \<in> set records"
proof (cases "trim q = ''''")
  case True
  then show "x \<in> set (ranked_rows search q records active frecency) \<Longrightarrow> ?thesis"
    using ranked_rows_empty_query(1) [OF True, of search records active frecency] by auto
next
  case False
  assume "x \<in> set (ranked_rows search q records active frecency)"
  then have "x \<in> set (runSearch search (trim q) (map (\<lambda>r. (rc_id r, r)) (rev records)) (pick_weight active frecency))"
    using False by (simp add: ranked_rows_def Let_def)
  then have "\<exists>i. map_of (map (\<lambda>r. (rc_id r, r)) (rev records)) i = Some (rk_record x)"
    by (auto simp: runSearch_members scored_hits_def obj_get_def split: option.splits)
  then show ?thesis by (auto dest!: map_of_SomeD)
qed

lemma pane_row:
  assumes "g \<in> set (palette_groups t ranked)" "row \<in> set (pg_rows g)"
  shows "\<exists>x \<in> set ranked. row = palette_row_of x"
proof -
  obtain xs where "pg_rows g = map palette_row_of xs" "set xs \<subseteq> set ranked"
    using assms(1) unfolding pane_group Let_def by (metis (no_types, lifting) filter_is_subset palette_group.select_convs(3) set_take_subset subset_trans)
  then show ?thesis using assms(2) by auto
qed

lemma chosen_row:
  assumes "plain_ids records" "\<And>y. y \<in> set ranked \<Longrightarrow> rk_record y \<in> set records" "x \<in> set ranked"
  shows "chosen_record records ranked (rc_id (rk_record x)) = Some (rk_record x)"
proof -
  obtain y where y: "find (\<lambda>y. rc_id (rk_record y) = rc_id (rk_record x)) ranked = Some y"
    using assms(3) by (cases "find (\<lambda>y. rc_id (rk_record y) = rc_id (rk_record x)) ranked") (auto simp: find_None_iff)
  then have "y \<in> set ranked" "rc_id (rk_record y) = rc_id (rk_record x)" by (auto simp: find_Some_iff)
  then have "rk_record y = rk_record x"
    using assms unfolding plain_ids_def distinct_map by (meson inj_onD)
  then show ?thesis using y assms by (simp add: chosen_record_def plain_ids_def)
qed

text \<open>Every row shown leads somewhere: its value is that of a record.\<close>

lemma pane_values_chosen:
  assumes "plain_ids records"
    and "v \<in> set (pane_values (palette_pane_of t search suggest records active frecency st opened q val))"
  shows "\<exists>r \<in> set records. chosen_record records (ranked_rows search q records active frecency) v = Some r"
proof -
  let ?ranked = "ranked_rows search q records active frecency"
  consider p where "p \<in> set (recent_rows opened q records st)" "v = ''recent:'' @ pk_id p"
    | g row where "g \<in> set (palette_groups t ?ranked)" "row \<in> set (pg_rows g)" "v = pr_value row"
    using assms(2) by (auto simp: pane_values_def palette_pane_of_def Let_def recent_row_of_def)
  then show ?thesis
  proof cases
    case 1
    then obtain r where "by_id records (pk_id p) = Some r" by (auto simp: recent_rows_def split: if_splits)
    then show ?thesis using by_id_in 1(2) by (force simp: chosen_record_def starts_with_def)
  next
    case 2
    then obtain x where "x \<in> set ?ranked" "v = rc_id (rk_record x)" using pane_row by fastforce
    then show ?thesis using chosen_row [OF assms(1), of ?ranked x] ranked_rows_in by blast
  qed
qed

text \<open>With a row highlighted the preview is that of the record the row opens, under the same title.\<close>

lemma pane_previews_row:
  assumes "plain_ids records" "g \<in> set (pp_groups (palette_pane_of t search suggest records active frecency st opened q val))"
    and "row \<in> set (pg_rows g)" "val = pr_value row"
  shows "\<exists>r. chosen_record records (ranked_rows search q records active frecency) val = Some r \<and>
    pp_detail (palette_pane_of t search suggest records active frecency st opened q val) = Some (detail_pane_of r) \<and>
    concat (map snd (pr_title row)) = dp_title (detail_pane_of r) \<and> pr_glyph row = dp_glyph (detail_pane_of r)"
proof -
  let ?ranked = "ranked_rows search q records active frecency"
  have "g \<in> set (palette_groups t ?ranked)" using assms(2) by (simp add: palette_pane_of_def Let_def)
  then obtain x where x: "x \<in> set ?ranked" "row = palette_row_of x" using pane_row assms(3) by blast
  have r: "rk_record x \<in> set records" using ranked_rows_in x(1) by blast
  have "current_record records ?ranked val = Some (rk_record x)"
    using current_record_of_row [OF _ r] assms(1,4) x(2) by (simp add: plain_ids_def)
  then show ?thesis using x assms(4) chosen_row [OF assms(1) ranked_rows_in x(1)]
    by (intro exI [of _ "rk_record x"])
      (simp add: palette_pane_of_def Let_def detail_pane_of_def, simp add: palette_row_of_def Let_def)
qed

section \<open>What the footer promises\<close>

text \<open>The completion's hint is there when Tab does something, and Tab types what stands behind the query.\<close>

lemma complete_hint:
  assumes "ke_key e = ''Tab''"
  shows "Complete_h \<in> set (pp_hints (palette_pane_of t search suggest records active frecency st opened q val)) \<longleftrightarrow>
      fst (input_key suggest e val q st) \<noteq> q"
    and "pp_ghost (palette_pane_of t search suggest records active frecency st opened q val) = Some (a, b) \<Longrightarrow>
      input_key suggest e val q st = (a @ b, st)"
  using assms by (auto simp: palette_pane_of_def Let_def palette_hints_def input_key_def split: if_splits)

text \<open>Where the removal's hint is shown its keys take the highlighted row away and no other.\<close>

lemma remove_hint:
  assumes "Remove_h \<in> set (pp_hints (palette_pane_of t search suggest records active frecency st opened q val))"
    and "st_usable st" "ke_key e = ''Backspace''" "ke_meta e \<or> ke_ctrl e"
  shows "pp_recent (palette_pane_of t search suggest records active frecency (snd (input_key suggest e val q st)) opened q val) =
    filter (\<lambda>row. fst row \<noteq> val) (pp_recent (palette_pane_of t search suggest records active frecency st opened q val))"
proof -
  have "take 7 val = ''recent:''"
    using assms(1) by (simp add: palette_pane_of_def Let_def palette_hints_def starts_with_def numeral_eq_Suc split: if_splits)
  then obtain i where i: "val = ''recent:'' @ i" by (metis append_take_drop_id)
  have picks: "recentPicks (snd (input_key suggest e val q st)) = filter (\<lambda>p. pk_id p \<noteq> i) (recentPicks st)"
    unfolding i by (rule backspace_forgets [OF assms(2-4)])
  have row: "(\<lambda>row. fst row \<noteq> val) \<circ> recent_row_of = (\<lambda>p. pk_id p \<noteq> i)"
    by (rule ext) (simp add: i recent_row_of_def)
  show ?thesis
    by (simp add: palette_pane_of_def Let_def recent_rows_def picks filter_map row conj_commute)
qed

end
