(* ===== verification/Deployment_View.thy ===== *)
theory Deployment_View
  imports Config_Panel Search_Palette
begin

text \<open>
  What \<^verbatim>\<open>components/ConfigPanel.tsx\<close> and \<^verbatim>\<open>components/AdapterForm.tsx\<close> show, as data: the settings of
  the deployment, the adapters' forms, the table of indexes, the cards of the sinks and the dialog in
  front of a removal; with every edit of the screen as one function. Class names are left out.
\<close>

section \<open>An adapter's form\<close>

record option_field =
  fd_name :: string
  fd_label :: string
  fd_title :: "string option"
  fd_value :: js
  fd_editor :: editor

definition option_field_of :: "translate \<Rightarrow> js jobj \<Rightarrow> bool \<Rightarrow> bool \<Rightarrow> string \<Rightarrow> js \<Rightarrow> js \<Rightarrow> option_field" where
  "option_field_of t base req secret name schema v =
     (let resolved = resolve_schema (as_obj schema) base in
      \<lparr>fd_name = name, fd_label = (if req then name @ middot @ t ''config.required'' [] else name),
       fd_title = (case js_prop resolved ''description'' of JStr s \<Rightarrow> Some s | _ \<Rightarrow> None), fd_value = v,
       fd_editor = option_editor base (secret \<or> isSecret resolved) resolved v\<rparr>)"

record adapter_view =
  adv_primary :: "option_field list"
  adv_tuning :: "option_field list"
  adv_count :: "nat option"

definition adapter_view_of :: "translate \<Rightarrow> adapter_description \<Rightarrow> js jobj \<Rightarrow> adapter_view" where
  "adapter_view_of t d value =
     (let base = ad_schema d;
          field = (\<lambda>req (key, schema). option_field_of t base req (key \<in> set (ad_secrets d)) key schema (js_prop value key)) in
      \<lparr>adv_primary = map (\<lambda>(key, schema). field (key \<in> set (required_keys base)) (key, schema)) (primary_entries d),
       adv_tuning = map (field False) (tuning_entries d),
       adv_count = (if setCount d value = 0 then None else Some (setCount d value))\<rparr>)"

text \<open>The inputs of a nested table. Its edits spread the value it has, which may be a string.\<close>

definition object_fields :: "translate \<Rightarrow> js jobj \<Rightarrow> js jobj \<Rightarrow> js \<Rightarrow> option_field list" where
  "object_fields t base schema v =
     map (\<lambda>(key, property).
         option_field_of t base (key \<in> set (required_keys schema)) False key property (js_prop (as_obj v) key))
       (as_obj (js_prop schema ''properties''))"

definition js_spread :: "js \<Rightarrow> js jobj" where
  "js_spread v =
     (case v of JObj ob \<Rightarrow> ob
      | JStr s \<Rightarrow> map (\<lambda>(i, c). (show_nat i, JStr [c])) (zip [0..<length s] s)
      | JArr vs \<Rightarrow> map (\<lambda>(i, x). (show_nat i, x)) (zip [0..<length vs] vs)
      | _ \<Rightarrow> [])"

definition object_set :: "string \<Rightarrow> js \<Rightarrow> js \<Rightarrow> js jobj" where
  "object_set key x v = form_set key x (js_spread v)"

text \<open>The pickers of a secret: the modes with the pressed one, and the box beside them.\<close>

definition secret_input :: "js \<Rightarrow> (mode \<times> bool) list \<times> string" where
  "secret_input v =
     (map (\<lambda>m. (m, if is_env v then m = Env_m else m = Literal_m)) [Literal_m, Env_m],
      if is_env v then secret_env v else secret_literal v)"

definition choice_options :: "translate \<Rightarrow> js jobj \<Rightarrow> string list \<Rightarrow> (string \<times> string) list" where
  "choice_options t schema tokens =
     (case js_prop schema ''default'' of JStr d \<Rightarrow> [('''', t ''config.default'' [] @ middot @ d)] | _ \<Rightarrow> []) @
     map (\<lambda>x. (x, x)) tokens"

definition mode_options :: "translate \<Rightarrow> (mode \<times> string) list" where
  "mode_options t =
     [(Literal_m, t ''config.literal'' []), (Env_m, t ''config.env'' []), (Parts_m, t ''config.parts'' [])]"

definition check_label :: "translate \<Rightarrow> js \<Rightarrow> string" where
  "check_label t v = (if v = JUndef then t ''config.default'' [] else '''')"

section \<open>Kinds\<close>

definition kindIcon :: "string \<Rightarrow> string" where
  "kindIcon kind = (if kind = ''opensearch'' then ''Search'' else if kind = ''stdout'' then ''Terminal'' else ''Plug'')"

datatype kind_picker = Toggle_k "(string \<times> string \<times> bool) list" | Badge_k string

definition kind_toggle :: "string list \<Rightarrow> string \<Rightarrow> kind_picker" where
  "kind_toggle kinds v = Toggle_k (map (\<lambda>k. (k, kindIcon k, v = k)) kinds)"

definition port_adapters :: "adapter_description list \<Rightarrow> string \<Rightarrow> adapter_description list" where
  "port_adapters adapters port = filter (\<lambda>a. ad_port a = port) adapters"

definition port_picker :: "adapter_description list \<Rightarrow> string \<Rightarrow> string \<Rightarrow> kind_picker" where
  "port_picker adapters port v =
     (if length (port_adapters adapters port) > 1 then kind_toggle (map ad_kind (port_adapters adapters port)) v
      else Badge_k v)"

definition picks_kind :: "kind_picker \<Rightarrow> string \<Rightarrow> bool" where
  "picks_kind p k \<longleftrightarrow> (case p of Toggle_k bs \<Rightarrow> list_all (\<lambda>(x, _, on). on \<longleftrightarrow> x = k) bs | Badge_k x \<Rightarrow> x = k)"

section \<open>Rows and cards\<close>

record index_row =
  ir_name :: string
  ir_schema :: string
  ir_suggestions :: "string list"
  ir_placeholder :: string
  ir_on_error :: js
  ir_inherited :: js
  ir_enabled :: bool

definition policy_of :: "config_toml \<Rightarrow> js" where
  "policy_of config = nullish_or (case cfg_on_error config of Some v \<Rightarrow> v | None \<Rightarrow> JUndef) (JStr ''stop'')"

definition index_row_of :: "config_toml \<Rightarrow> index_entry \<Rightarrow> index_row" where
  "index_row_of config e =
     \<lparr>ir_name = e_name e, ir_schema = e_schema e, ir_suggestions = schemaList config e,
      ir_placeholder = (if row_suggestion e = '''' then ''x.schema.yml'' else row_suggestion e),
      ir_on_error = nullish_or (case e_on_error e of Some v \<Rightarrow> v | None \<Rightarrow> JUndef) (JStr ''default''),
      ir_inherited = policy_of config, ir_enabled = e_enabled e\<rparr>"

record sink_card =
  sk_draft :: string
  sk_invalid :: bool
  sk_kinds :: kind_picker
  sk_form :: "adapter_view option"
  sk_warning :: "string option"
  sk_backfill :: bool

definition sink_card_of ::
  "translate \<Rightarrow> adapter_description list \<Rightarrow> string list \<Rightarrow> string \<Rightarrow> string \<Rightarrow> js jobj \<Rightarrow> sink_card" where
  "sink_card_of t adapters names draft name sink =
     (let kind = fst (splitEntry (Some sink)); description = find_adapter adapters ''sink'' kind in
      \<lparr>sk_draft = draft, sk_invalid = (trim draft \<in> set (filter (\<lambda>n. n \<noteq> name) names) \<and> trim draft \<noteq> name),
       sk_kinds = kind_toggle (map ad_kind (port_adapters adapters ''sink'')) kind,
       sk_form = map_option (\<lambda>d. adapter_view_of t d (sink_options sink)) description,
       sk_warning = (if description = None then Some (t ''config.unknownAdapter'' [(''kind'', JStr kind)]) else None),
       sk_backfill = sink_backfill sink\<rparr>)"

section \<open>The screen\<close>

record deployment_view =
  dv_prefix :: string
  dv_on_error :: js
  dv_max_changes :: "js_num option"
  dv_max_delay :: "js_num option"
  dv_public :: js
  dv_private :: js
  dv_source_hint :: string
  dv_source_kinds :: kind_picker
  dv_source_form :: "adapter_view option"
  dv_stream_count :: "nat option"
  dv_stream_kinds :: kind_picker
  dv_stream_form :: "adapter_view option"
  dv_indexes :: "index_row list"
  dv_sinks :: "(string \<times> sink_card) list"
  dv_pending :: "string option"

definition address_of :: "string \<Rightarrow> config_toml \<Rightarrow> js" where
  "address_of which config =
     nullish_or (js_prop (case cfg_server config of Some s \<Rightarrow> s | None \<Rightarrow> []) which) (JStr '''')"

definition removing_text :: "translate \<Rightarrow> config_toml \<Rightarrow> nat option \<Rightarrow> string option" where
  "removing_text t config pending =
     map_option (\<lambda>i. t ''config.removeIndex''
       [(''name'', JStr (case js_get (entries_of config) i of Some e \<Rightarrow> e_name e | None \<Rightarrow> ''''))]) pending"

text \<open>\<open>drafts\<close>: what the name box of each card holds.\<close>

definition deployment_view_of ::
  "translate \<Rightarrow> adapter_description list \<Rightarrow> (string \<Rightarrow> string) \<Rightarrow> nat option \<Rightarrow> config_toml \<Rightarrow> deployment_view" where
  "deployment_view_of t adapters drafts pending config =
     (let source = splitEntry (Some (cfg_source config)); stream = splitEntry (cfg_stream config);
          kind = stream_kind config; names = obj_keys (sinks_of config) in
      \<lparr>dv_prefix = (case cfg_prefix config of Some p \<Rightarrow> p | None \<Rightarrow> ''''), dv_on_error = policy_of config,
       dv_max_changes = fst (batch_of config), dv_max_delay = snd (batch_of config),
       dv_public = address_of ''public_address'' config, dv_private = address_of ''private_address'' config,
       dv_source_hint = (if fst source = '''' then t ''config.loadingAdapters'' [] else fst source),
       dv_source_kinds = port_picker adapters ''source'' (fst source),
       dv_source_form = map_option (\<lambda>d. adapter_view_of t d (snd source)) (find_adapter adapters ''source'' (fst source)),
       dv_stream_count = (if snd stream = [] then None else Some (length (obj_keys (snd stream)))),
       dv_stream_kinds = port_picker adapters ''stream'' kind,
       dv_stream_form = map_option (\<lambda>d. adapter_view_of t d (snd stream)) (find_adapter adapters ''stream'' kind),
       dv_indexes = map (index_row_of config) (entries_of config),
       dv_sinks = map (\<lambda>(name, sink). (name, sink_card_of t adapters names (drafts name) name (as_obj sink))) (sinks_of config),
       dv_pending = removing_text t config pending\<rparr>)"

section \<open>Every edit of the screen\<close>

datatype table_edit = Row_name string | Row_schema string | Row_on_error string | Row_toggle

datatype sink_edit = Sink_kind string | Sink_option string js | Sink_backfill bool

datatype deploy_edit =
    D_prefix string | D_on_error string | D_max_changes "js_num option" | D_max_delay "js_num option"
  | D_public string | D_private string
  | D_source_kind string | D_source_option string js
  | D_stream_kind string | D_stream_option string js
  | D_row nat table_edit | D_add_index | D_remove_index nat
  | D_sink string sink_edit | D_rename_sink string string | D_remove_sink string | D_add_sink

fun edit_row_entry :: "table_edit \<Rightarrow> index_entry \<Rightarrow> index_entry" where
  "edit_row_entry (Row_name n) e = e\<lparr>e_name := n\<rparr>"
| "edit_row_entry (Row_schema s) e = e\<lparr>e_schema := s\<rparr>"
| "edit_row_entry (Row_on_error v) e = row_on_error v e"
| "edit_row_entry Row_toggle e = row_toggle e"

fun edit_sink :: "adapter_description list \<Rightarrow> sink_edit \<Rightarrow> js jobj \<Rightarrow> js jobj" where
  "edit_sink adapters (Sink_kind k) sink = sink_kind_change (port_adapters adapters ''sink'') k sink"
| "edit_sink adapters (Sink_option key v) sink = sink_options_change (form_set key v (sink_options sink)) sink"
| "edit_sink adapters (Sink_backfill on) sink = sink_backfill_change on sink"

fun edit_deployment :: "adapter_description list \<Rightarrow> deploy_edit \<Rightarrow> config_toml \<Rightarrow> config_toml" where
  "edit_deployment ads (D_prefix p) c = set_prefix p c"
| "edit_deployment ads (D_on_error v) c = set_on_error v c"
| "edit_deployment ads (D_max_changes n) c = set_max_changes n c"
| "edit_deployment ads (D_max_delay n) c = set_max_delay_ms n c"
| "edit_deployment ads (D_public v) c = set_address ''public_address'' v c"
| "edit_deployment ads (D_private v) c = set_address ''private_address'' v c"
| "edit_deployment ads (D_source_kind k) c = set_source_kind k c"
| "edit_deployment ads (D_source_option key v) c =
     set_source_options (form_set key v (snd (splitEntry (Some (cfg_source c))))) c"
| "edit_deployment ads (D_stream_kind k) c = set_stream_kind k c"
| "edit_deployment ads (D_stream_option key v) c =
     (case find_adapter ads ''stream'' (stream_kind c) of
        Some d \<Rightarrow> set_stream_options d (form_set key v (snd (splitEntry (cfg_stream c)))) c
      | None \<Rightarrow> c)"
| "edit_deployment ads (D_row i e) c =
     (case js_get (entries_of c) i of Some x \<Rightarrow> setEntry i (edit_row_entry e x) c | None \<Rightarrow> c)"
| "edit_deployment ads D_add_index c = add_index c"
| "edit_deployment ads (D_remove_index i) c = remove_index i c"
| "edit_deployment ads (D_sink name e) c =
     (case obj_get (sinks_of c) name of
        Some sink \<Rightarrow> setSink name (edit_sink ads e (as_obj sink)) c
      | None \<Rightarrow> c)"
| "edit_deployment ads (D_rename_sink old to) c = renameSink old to c"
| "edit_deployment ads (D_remove_sink name) c = removeSink name c"
| "edit_deployment ads D_add_sink c = add_sink ads c"

text \<open>The controls the screen offers, and what one shows that was set.\<close>

definition field_value :: "adapter_view \<Rightarrow> string \<Rightarrow> js option" where
  "field_value f key = map_of (map (\<lambda>x. (fd_name x, fd_value x)) (adv_primary f @ adv_tuning f)) key"

definition offers_option :: "adapter_view option \<Rightarrow> string \<Rightarrow> bool" where
  "offers_option form key \<longleftrightarrow> (case form of Some f \<Rightarrow> field_value f key \<noteq> None | None \<Rightarrow> False)"

definition shown_option :: "adapter_view option \<Rightarrow> string \<Rightarrow> js" where
  "shown_option form key =
     (case form of Some f \<Rightarrow> (case field_value f key of Some x \<Rightarrow> x | None \<Rightarrow> JUndef) | None \<Rightarrow> JUndef)"

definition offers_kind :: "kind_picker \<Rightarrow> string \<Rightarrow> bool" where
  "offers_kind p k \<longleftrightarrow> (case p of Toggle_k bs \<Rightarrow> k \<in> fst ` set bs | Badge_k _ \<Rightarrow> False)"

text \<open>An empty text is stored as no value.\<close>

definition kept_value :: "js \<Rightarrow> js" where
  "kept_value v = (if v = JStr '''' then JUndef else v)"

fun sink_offers :: "sink_card \<Rightarrow> sink_edit \<Rightarrow> bool" where
  "sink_offers crd (Sink_kind k) \<longleftrightarrow> offers_kind (sk_kinds crd) k"
| "sink_offers crd (Sink_option key _) \<longleftrightarrow> offers_option (sk_form crd) key"
| "sink_offers crd (Sink_backfill _) \<longleftrightarrow> True"

fun sink_reads :: "sink_card \<Rightarrow> sink_edit \<Rightarrow> bool" where
  "sink_reads crd (Sink_kind k) \<longleftrightarrow> picks_kind (sk_kinds crd) k"
| "sink_reads crd (Sink_option key v) \<longleftrightarrow> shown_option (sk_form crd) key = kept_value v"
| "sink_reads crd (Sink_backfill on) \<longleftrightarrow> sk_backfill crd = on"

fun row_offers :: "table_edit \<Rightarrow> bool" where
  "row_offers (Row_on_error v) \<longleftrightarrow> v \<in> {''default'', ''stop'', ''skip''}"
| "row_offers _ \<longleftrightarrow> True"

fun row_reads :: "index_row \<Rightarrow> table_edit \<Rightarrow> bool" where
  "row_reads r (Row_name n) \<longleftrightarrow> ir_name r = n"
| "row_reads r (Row_schema s) \<longleftrightarrow> ir_schema r = s \<and> (s \<noteq> '''' \<longrightarrow> s \<in> set (ir_suggestions r))"
| "row_reads r (Row_on_error v) \<longleftrightarrow> ir_on_error r = JStr v"
| "row_reads r Row_toggle \<longleftrightarrow> True"

fun deploy_offers :: "deployment_view \<Rightarrow> deploy_edit \<Rightarrow> bool" where
  "deploy_offers dv (D_on_error v) \<longleftrightarrow> v \<in> {''stop'', ''skip''}"
| "deploy_offers dv (D_source_kind k) \<longleftrightarrow> offers_kind (dv_source_kinds dv) k"
| "deploy_offers dv (D_source_option key _) \<longleftrightarrow> offers_option (dv_source_form dv) key"
| "deploy_offers dv (D_stream_kind k) \<longleftrightarrow> offers_kind (dv_stream_kinds dv) k"
| "deploy_offers dv (D_stream_option key _) \<longleftrightarrow> offers_option (dv_stream_form dv) key"
| "deploy_offers dv (D_row i e) \<longleftrightarrow> i < length (dv_indexes dv) \<and> row_offers e"
| "deploy_offers dv (D_remove_index i) \<longleftrightarrow> i < length (dv_indexes dv)"
| "deploy_offers dv (D_sink name e) \<longleftrightarrow>
     (case map_of (dv_sinks dv) name of Some crd \<Rightarrow> sink_offers crd e | None \<Rightarrow> False)"
| "deploy_offers dv (D_rename_sink old _) \<longleftrightarrow> old \<in> fst ` set (dv_sinks dv)"
| "deploy_offers dv (D_remove_sink name) \<longleftrightarrow> name \<in> fst ` set (dv_sinks dv)"
| "deploy_offers dv _ \<longleftrightarrow> True"

fun deploy_reads :: "deployment_view \<Rightarrow> deploy_edit \<Rightarrow> bool" where
  "deploy_reads dv (D_prefix p) \<longleftrightarrow> dv_prefix dv = p"
| "deploy_reads dv (D_on_error v) \<longleftrightarrow> dv_on_error dv = JStr v \<and> list_all (\<lambda>r. ir_inherited r = JStr v) (dv_indexes dv)"
| "deploy_reads dv (D_max_changes n) \<longleftrightarrow> dv_max_changes dv = n"
| "deploy_reads dv (D_max_delay n) \<longleftrightarrow> dv_max_delay dv = n"
| "deploy_reads dv (D_public v) \<longleftrightarrow> dv_public dv = JStr v"
| "deploy_reads dv (D_private v) \<longleftrightarrow> dv_private dv = JStr v"
| "deploy_reads dv (D_source_kind k) \<longleftrightarrow> picks_kind (dv_source_kinds dv) k"
| "deploy_reads dv (D_source_option key v) \<longleftrightarrow> shown_option (dv_source_form dv) key = kept_value v"
| "deploy_reads dv (D_stream_kind k) \<longleftrightarrow> picks_kind (dv_stream_kinds dv) k"
| "deploy_reads dv (D_stream_option key v) \<longleftrightarrow> shown_option (dv_stream_form dv) key = kept_value v"
| "deploy_reads dv (D_row i e) \<longleftrightarrow> (case js_get (dv_indexes dv) i of Some r \<Rightarrow> row_reads r e | None \<Rightarrow> False)"
| "deploy_reads dv D_add_index \<longleftrightarrow> dv_indexes dv \<noteq> [] \<and> ir_name (last (dv_indexes dv)) = ''new_index'' \<and> ir_enabled (last (dv_indexes dv))"
| "deploy_reads dv (D_sink name e) \<longleftrightarrow>
     (case map_of (dv_sinks dv) name of Some crd \<Rightarrow> sink_reads crd e | None \<Rightarrow> False)"
| "deploy_reads dv (D_remove_sink name) \<longleftrightarrow> name \<notin> fst ` set (dv_sinks dv)"
| "deploy_reads dv _ \<longleftrightarrow> True"

section \<open>What an option's editor emits is what it shows\<close>

datatype option_input =
    In_text string | In_check bool | In_num "js_num option" | In_choice string
  | In_secret string | In_secret_mode mode | In_mode mode

fun emits :: "editor \<Rightarrow> js \<Rightarrow> option_input \<Rightarrow> js option" where
  "emits (Text_e _ _) v (In_text s) = Some (choice_change s)"
| "emits (Check_e _) v (In_check b) = Some (JBool b)"
| "emits (Num_e _ _) v (In_num n) = Some (case n of Some x \<Rightarrow> JNum x | None \<Rightarrow> JUndef)"
| "emits (Choice_e _ tokens dflt) v (In_choice s) =
     (if s \<in> set tokens \<or> dflt \<and> s = '''' then Some (choice_change s) else None)"
| "emits Secret_e v (In_secret s) = Some (secret_type s v)"
| "emits Secret_e v (In_secret_mode m) = (if m = Parts_m then None else Some (secret_switch m v))"
| "emits (Mode_e m obj) v (In_secret s) = (if m = Parts_m then None else Some (secret_type s v))"
| "emits (Mode_e m obj) v (In_secret_mode m') = (if m = Parts_m \<or> m' = Parts_m then None else Some (secret_switch m' v))"
| "emits (Mode_e m obj) v (In_mode m') = Some (mode_change obj m')"
| "emits _ v _ = None"

fun editor_shows :: "editor \<Rightarrow> js \<Rightarrow> option_input \<Rightarrow> bool" where
  "editor_shows (Text_e x _) v (In_text s) \<longleftrightarrow> x = s"
| "editor_shows (Check_e x) v (In_check b) \<longleftrightarrow> x = b"
| "editor_shows (Num_e x _) v (In_num n) \<longleftrightarrow> x = n"
| "editor_shows (Choice_e x _ _) v (In_choice s) \<longleftrightarrow> x = s"
| "editor_shows Secret_e v (In_secret s) \<longleftrightarrow> snd (secret_input v) = s"
| "editor_shows Secret_e v (In_secret_mode m) \<longleftrightarrow> (m, True) \<in> set (fst (secret_input v))"
| "editor_shows (Mode_e m _) v (In_secret s) \<longleftrightarrow> m \<noteq> Parts_m \<and> snd (secret_input v) = s"
| "editor_shows (Mode_e m _) v (In_secret_mode m') \<longleftrightarrow> m = m' \<and> (m', True) \<in> set (fst (secret_input v))"
| "editor_shows (Mode_e m _) v (In_mode m') \<longleftrightarrow> m = m'"
| "editor_shows _ v _ \<longleftrightarrow> False"

text \<open>Which editor an option gets is a matter of its schema alone.\<close>

lemma option_editor_shape:
  "(\<exists>as obj. alternatives schema base = Some as \<and> find (\<lambda>a. jsonType a = Some ''object'' \<and> has_key a ''properties'') as = Some obj \<and>
      (\<forall>v. option_editor base sec schema v = Mode_e (mode_of v) obj)) \<or>
   (\<forall>v. option_editor base sec schema v = Secret_e) \<or>
   (\<exists>tokens dflt. \<forall>v. option_editor base sec schema v = Choice_e (str_or_empty v) tokens dflt) \<or>
   (\<forall>v. option_editor base sec schema v = typed_editor schema v)"
  by (cases "alternatives schema base"; cases "enumTokens schema")
    (auto simp: option_editor_def Let_def)

lemma mode_simps [simp]:
  "mode_of (JStr s) = Literal_m" "mode_of JUndef = Literal_m" "mode_of (JObj [(''env'', x)]) = Env_m"
  "\<not> has_key ob ''env'' \<Longrightarrow> mode_of (JObj ob) = Parts_m" "is_env v \<Longrightarrow> mode_of v = Env_m"
  by (simp_all add: mode_of_def) (simp add: is_env_def)

lemma kept_simps [simp]:
  "kept_value (JObj ob) = JObj ob" "kept_value JUndef = JUndef" "kept_value (choice_change s) = choice_change s"
  "kept_value (JStr s) = choice_change s"
  by (simp_all add: kept_value_def choice_change_def)

lemma secret_shown:
  "snd (secret_input (kept_value (secret_type s v))) = s"
  "m \<noteq> Parts_m \<Longrightarrow> (m, True) \<in> set (fst (secret_input (kept_value (secret_switch m v))))"
  "mode_of (kept_value (secret_type s v)) \<noteq> Parts_m"
  "m \<noteq> Parts_m \<Longrightarrow> mode_of (kept_value (secret_switch m v)) = m"
  by (cases m; auto simp: secret_input_def secret_type_def secret_switch_def choice_change_def)+

lemma mode_shown: "\<not> has_key (exampleFor ob) ''env'' \<Longrightarrow> mode_of (kept_value (mode_change ob m)) = m"
  by (cases m) (simp_all add: mode_change_def choice_change_def)

lemma emitted_shown:
  assumes "emits (option_editor base sec schema v) v i = Some w"
    and "\<And>as obj. alternatives schema base = Some as \<Longrightarrow> obj \<in> set as \<Longrightarrow> \<not> has_key (exampleFor obj) ''env''"
  shows "editor_shows (option_editor base sec schema (kept_value w)) (kept_value w) i"
  using option_editor_shape [of schema base sec]
proof (elim disjE exE conjE)
  fix as obj
  assume a: "alternatives schema base = Some as" "find (\<lambda>a. jsonType a = Some ''object'' \<and> has_key a ''properties'') as = Some obj"
    and e: "\<forall>v. option_editor base sec schema v = Mode_e (mode_of v) obj"
  have "\<not> has_key (exampleFor obj) ''env''" using assms(2) [OF a(1)] a(2) by (auto simp: find_Some_iff)
  then show ?thesis using assms(1) unfolding e [rule_format]
    by (cases i)
      (auto simp: secret_shown mode_shown split: if_splits)
next
  assume e: "\<forall>v. option_editor base sec schema v = Secret_e"
  show ?thesis using assms(1) unfolding e [rule_format]
    by (cases i) (auto simp: secret_shown split: if_splits)
next
  fix tokens dflt
  assume e: "\<forall>v. option_editor base sec schema v = Choice_e (str_or_empty v) tokens dflt"
  show ?thesis using assms(1) unfolding e [rule_format]
    by (cases i) (auto simp: kept_value_def choice_change_def str_or_empty_def split: if_splits)
next
  assume e: "\<forall>v. option_editor base sec schema v = typed_editor schema v"
  show ?thesis using assms(1) unfolding e [rule_format]
    by (cases i) (auto simp: typed_editor_def Let_def kept_value_def choice_change_def str_or_empty_def
        split: if_splits option.splits js.splits)
qed

section \<open>What is set is shown\<close>

lemma option_field_simps [simp]:
  "fd_name (option_field_of t base req sec name schema v) = name"
  "fd_value (option_field_of t base req sec name schema v) = v"
  by (simp_all add: option_field_of_def Let_def)

lemma form_key_inline:
  "key \<in> fst ` set (form_entries d) \<Longrightarrow> key \<in> fst ` set (primary_entries d) \<or> key \<in> fst ` set (tuning_entries d)"
  by (force simp: tuning_entries_def list_ex_iff)

lemma form_entry_subset:
  "set (primary_entries d) \<subseteq> set (form_entries d)" "set (tuning_entries d) \<subseteq> set (form_entries d)"
  by (auto simp: primary_entries_def tuning_entries_def)

lemma map_of_named:
  "\<forall>x \<in> set xs. fd_value x = js_prop v (fd_name x) \<Longrightarrow>
    map_of (map (\<lambda>x. (fd_name x, fd_value x)) xs) key = (if key \<in> fd_name ` set xs then Some (js_prop v key) else None)"
  by (induction xs) auto

text \<open>Every option of the adapter has one value in its form, the entry's.\<close>

lemma field_value_of:
  "field_value (adapter_view_of t d value) key = (if key \<in> fst ` set (form_entries d) then Some (js_prop value key) else None)"
proof -
  let ?fs = "adv_primary (adapter_view_of t d value) @ adv_tuning (adapter_view_of t d value)"
  have p: "map fd_name (adv_primary (adapter_view_of t d value)) = map fst (primary_entries d)"
    and q: "map fd_name (adv_tuning (adapter_view_of t d value)) = map fst (tuning_entries d)"
    by (simp_all add: adapter_view_of_def Let_def case_prod_beta comp_def)
  have "fd_name ` set ?fs = fst ` set (primary_entries d) \<union> fst ` set (tuning_entries d)"
    using arg_cong [OF p, of set] arg_cong [OF q, of set] by (simp add: image_Un)
  also have "\<dots> = fst ` set (form_entries d)"
    using form_entry_subset [of d] form_key_inline [of _ d] by blast
  finally have names: "fd_name ` set ?fs = fst ` set (form_entries d)" .
  have vals: "\<forall>x \<in> set ?fs. fd_value x = js_prop value (fd_name x)"
    by (auto simp: adapter_view_of_def Let_def)
  have "map_of (map (\<lambda>x. (fd_name x, fd_value x)) ?fs) key = (if key \<in> fd_name ` set ?fs then Some (js_prop value key) else None)"
    using map_of_named [OF vals] by simp
  then show ?thesis unfolding field_value_def names by simp
qed

text \<open>What the adapters have to declare, and an entry that is an object like any other.\<close>

definition adapters_ok :: "adapter_description list \<Rightarrow> bool" where
  "adapters_ok ads \<longleftrightarrow>
     (\<forall>d \<in> set ads. ad_kind d \<noteq> '''' \<and> obj_wf (ad_example d) \<and> \<not> has_key (ad_example d) ''type'' \<and> ''backfill'' \<notin> fst ` set (form_entries d))"

definition config_wf :: "config_toml \<Rightarrow> bool" where
  "config_wf c \<longleftrightarrow> obj_wf (cfg_source c) \<and> obj_wf (case cfg_stream c of Some s \<Rightarrow> s | None \<Rightarrow> []) \<and>
     obj_wf (sinks_of c) \<and> (\<forall>x \<in> set (sinks_of c). obj_wf (as_obj (snd x)))"

lemma form_key_not_type: "key \<in> fst ` set (form_entries d) \<Longrightarrow> key \<noteq> ''type''"
  by (auto simp: form_entries_def)

lemma kept_prop: "js_prop (form_set key v value) key = kept_value v"
  by (simp add: form_set_get kept_value_def)

lemma split_none: "splitEntry None = splitEntry (Some [])"
  by (simp add: splitEntry_def)

lemma set_option_entry:
  assumes "obj_wf e" "key \<noteq> ''type''"
  shows "fst (splitEntry (Some (joinEntry kind (form_set key v (snd (splitEntry (Some e))))))) = kind"
    and "js_prop (snd (splitEntry (Some (joinEntry kind (form_set key v (snd (splitEntry (Some e)))))))) key = kept_value v"
proof -
  have ok: "obj_wf (form_set key v (snd (splitEntry (Some e))))" "\<not> has_key (form_set key v (snd (splitEntry (Some e)))) ''type''"
    using splitEntry_wf [OF assms(1)] assms(2) by (simp_all add: form_set_wf) (simp add: form_set_def has_key_put has_key_delete)
  show "fst (splitEntry (Some (joinEntry kind (form_set key v (snd (splitEntry (Some e))))))) = kind"
    using join_split(1) [OF ok] .
  show "js_prop (snd (splitEntry (Some (joinEntry kind (form_set key v (snd (splitEntry (Some e)))))))) key = kept_value v"
    using join_split(2) [OF ok] kept_prop by simp
qed

lemma form_option:
  "offers_option (map_option (\<lambda>d. adapter_view_of t d value) a) key \<longleftrightarrow>
     (case a of Some d \<Rightarrow> key \<in> fst ` set (form_entries d) | None \<Rightarrow> False)"
  "shown_option (map_option (\<lambda>d. adapter_view_of t d value) a) key =
     (case a of Some d \<Rightarrow> if key \<in> fst ` set (form_entries d) then js_prop value key else JUndef | None \<Rightarrow> JUndef)"
  "shown_option (Some (adapter_view_of t d value)) key = (if key \<in> fst ` set (form_entries d) then js_prop value key else JUndef)"
  by (simp_all add: offers_option_def shown_option_def field_value_of split: option.splits)

lemma picked_shown: "picks_kind (kind_toggle ks k) k"
  by (auto simp: picks_kind_def kind_toggle_def list_all_iff)

lemma port_picked: "picks_kind (port_picker ads port k) k"
  by (simp add: port_picker_def picked_shown) (simp add: picks_kind_def)

lemma offered_kind: "offers_kind (port_picker ads port v) k \<Longrightarrow> \<exists>d \<in> set ads. ad_kind d = k"
  by (auto simp: port_picker_def kind_toggle_def offers_kind_def port_adapters_def split: if_splits)

section \<open>A sink's card\<close>

lemma withBackfill_prop:
  "js_prop (withBackfill e on) k = (if k = ''backfill'' \<and> \<not> on then JBool False else js_prop e k)"
  by (simp add: withBackfill_def js_prop_put)

lemma sink_card_simps [simp]:
  "sk_kinds (sink_card_of t ads names draft name sink) =
     kind_toggle (map ad_kind (port_adapters ads ''sink'')) (fst (splitEntry (Some sink)))"
  "sk_form (sink_card_of t ads names draft name sink) =
     map_option (\<lambda>d. adapter_view_of t d (sink_options sink)) (find_adapter ads ''sink'' (fst (splitEntry (Some sink))))"
  "sk_backfill (sink_card_of t ads names draft name sink) = sink_backfill sink"
  by (simp_all add: sink_card_of_def Let_def)

lemma split_kind: "js_prop e ''type'' = JStr k \<Longrightarrow> fst (splitEntry (Some e)) = k"
  by (simp add: splitEntry_def Let_def)

lemma find_in: "find P xs = Some x \<Longrightarrow> x \<in> set xs \<and> P x"
  by (induction xs) (auto split: if_splits)

lemma find_adapter_in: "find_adapter ads port k = Some d \<Longrightarrow> d \<in> set ads \<and> ad_kind d = k"
  using find_in [of "\<lambda>a. ad_kind a = k" "filter (\<lambda>a. ad_port a = port) ads" d] by (auto simp: find_adapter_def)

lemma sink_put_get:
  assumes ads: "adapters_ok ads" and wf: "obj_wf sink" and off: "sink_offers (sink_card_of t ads names draft name sink) e"
  shows "sink_reads (sink_card_of t ads names' draft' name (edit_sink ads e sink)) e"
proof (cases e)
  case (Sink_kind k)
  define ex where "ex = (case find (\<lambda>a. ad_kind a = k) (port_adapters ads ''sink'') of Some a \<Rightarrow> ad_example a | None \<Rightarrow> [])"
  have "obj_wf ex \<and> \<not> has_key ex ''type''"
  proof (cases "find (\<lambda>a. ad_kind a = k) (port_adapters ads ''sink'')")
    case None
    then show ?thesis by (simp add: ex_def has_key_def obj_get_def)
  next
    case (Some a)
    then have "a \<in> set ads" using find_in by (fastforce simp: port_adapters_def)
    then show ?thesis using ads Some by (simp add: ex_def adapters_ok_def)
  qed
  then have "js_prop (edit_sink ads e sink) ''type'' = JStr k"
    by (simp add: Sink_kind sink_kind_change_def withBackfill_prop joinEntry_prop flip: ex_def)
  then show ?thesis by (simp add: Sink_kind split_kind picked_shown)
next
  case (Sink_option key v)
  let ?kind = "fst (splitEntry (Some sink))"
  obtain d where d: "find_adapter ads ''sink'' ?kind = Some d" "key \<in> fst ` set (form_entries d)"
    using off by (auto simp: Sink_option form_option split: option.splits)
  then have key: "key \<noteq> ''type''" "key \<noteq> ''backfill''"
    using form_key_not_type [OF d(2)] find_adapter_in [OF d(1)] ads d(2) unfolding adapters_ok_def by metis+
  have ok: "obj_wf (form_set key v (sink_options sink))" "\<not> has_key (form_set key v (sink_options sink)) ''type''"
    using sink_options_wf [OF wf] key by (simp_all add: form_set_wf) (simp add: form_set_def has_key_put has_key_delete)
  have props: "js_prop (edit_sink ads e sink) k =
      (if k = ''backfill'' \<and> \<not> sink_backfill sink then JBool False else if k = ''type'' then JStr ?kind
       else js_prop (form_set key v (sink_options sink)) k)" for k
    by (simp add: Sink_option sink_options_change_def withBackfill_prop joinEntry_prop [OF ok])
  have "fst (splitEntry (Some (edit_sink ads e sink))) = ?kind" by (rule split_kind) (simp add: props)
  moreover have "js_prop (sink_options (edit_sink ads e sink)) key = kept_value v"
    using key by (simp add: sink_options_prop props kept_prop)
  ultimately show ?thesis using d by (simp add: Sink_option form_option)
next
  case (Sink_backfill on)
  have "js_prop (edit_sink ads e sink) ''backfill'' = (if on then JUndef else JBool False)"
    using sink_options_wf [OF wf]
    by (simp add: Sink_backfill sink_backfill_change_def withBackfill_prop joinEntry_prop sink_options_prop)
  then have "sink_backfill (edit_sink ads e sink) = on"
    by (simp add: sink_backfill_def splitEntry_def Let_def js_prop_delete)
  then show ?thesis by (simp add: Sink_backfill)
qed

section \<open>The screen shows what was set\<close>

lemma deployment_view_simps [simp]:
  "dv_prefix (deployment_view_of t ads dr p c) = (case cfg_prefix c of Some p \<Rightarrow> p | None \<Rightarrow> '''')"
  "dv_on_error (deployment_view_of t ads dr p c) = policy_of c"
  "dv_max_changes (deployment_view_of t ads dr p c) = fst (batch_of c)"
  "dv_max_delay (deployment_view_of t ads dr p c) = snd (batch_of c)"
  "dv_public (deployment_view_of t ads dr p c) = address_of ''public_address'' c"
  "dv_private (deployment_view_of t ads dr p c) = address_of ''private_address'' c"
  "dv_source_kinds (deployment_view_of t ads dr p c) = port_picker ads ''source'' (fst (splitEntry (Some (cfg_source c))))"
  "dv_source_form (deployment_view_of t ads dr p c) =
     map_option (\<lambda>d. adapter_view_of t d (snd (splitEntry (Some (cfg_source c)))))
       (find_adapter ads ''source'' (fst (splitEntry (Some (cfg_source c)))))"
  "dv_stream_kinds (deployment_view_of t ads dr p c) = port_picker ads ''stream'' (stream_kind c)"
  "dv_stream_form (deployment_view_of t ads dr p c) =
     map_option (\<lambda>d. adapter_view_of t d (snd (splitEntry (cfg_stream c)))) (find_adapter ads ''stream'' (stream_kind c))"
  "dv_indexes (deployment_view_of t ads dr p c) = map (index_row_of c) (entries_of c)"
  by (simp_all add: deployment_view_of_def Let_def)

lemma sink_card_at:
  "map_of (dv_sinks (deployment_view_of t ads dr p c)) name =
     map_option (\<lambda>s. sink_card_of t ads (obj_keys (sinks_of c)) (dr name) name (as_obj s)) (obj_get (sinks_of c) name)"
proof -
  have "map_of (map (\<lambda>(n, s). (n, f n s)) xs) name = map_option (f name) (map_of xs name)" for f :: "string \<Rightarrow> js \<Rightarrow> sink_card" and xs
    by (induction xs) auto
  then show ?thesis by (simp add: deployment_view_of_def Let_def obj_get_def)
qed

lemma cfg_simps [simp]:
  "entries_of (c\<lparr>cfg_index := Some es\<rparr>) = es" "sinks_of (c\<lparr>cfg_sinks := Some ss\<rparr>) = ss"
  by (simp_all add: entries_of_def sinks_of_def)

lemma schemaList_simps: "s \<in> set (schemaList c e) \<longleftrightarrow> s \<noteq> '''' \<and> (s = row_suggestion e \<or> s \<in> e_schema ` set (entries_of c))"
  by (auto simp: schemaList_def set_js_set)

lemma row_put_get:
  assumes "js_get (entries_of c) i = Some x" "row_offers e"
  shows "row_reads (index_row_of (setEntry i (edit_row_entry e x) c) (edit_row_entry e x)) e"
proof -
  have "i < length (entries_of c)" using assms(1) by (auto simp: js_get_eq_Some)
  then have "edit_row_entry e x \<in> set (entries_of (setEntry i (edit_row_entry e x) c))"
    by (simp add: setEntry_def set_update_memI)
  then show ?thesis using assms(2)
    by (cases e) (force simp: index_row_of_def schemaList_simps row_on_error_def nullish_or_def)+
qed

lemma stream_join_kind:
  assumes "k \<noteq> ''''" "obj_wf e" "key \<noteq> ''type''"
  shows "stream_kind (c\<lparr>cfg_stream := Some (joinEntry k (form_set key v (snd (splitEntry (Some e)))))\<rparr>) = k"
  using assms by (simp add: stream_kind_def Let_def set_option_entry)

lemma stream_kind_nonempty: "stream_kind c \<noteq> ''''"
  by (simp add: stream_kind_def Let_def)

lemma stream_put_get:
  assumes "config_wf c" and "offers_option (dv_stream_form (deployment_view_of t ads dr p c)) key"
  shows "shown_option (dv_stream_form (deployment_view_of t ads dr' p' (edit_deployment ads (D_stream_option key v) c))) key = kept_value v"
proof -
  define e where "e = (case cfg_stream c of Some s \<Rightarrow> s | None \<Rightarrow> [])"
  have split: "splitEntry (cfg_stream c) = splitEntry (Some e)" by (simp add: e_def split_none split: option.splits)
  have wf: "obj_wf e" using assms(1) by (simp add: config_wf_def e_def)
  let ?opts = "form_set key v (snd (splitEntry (Some e)))"
  obtain d where d: "find_adapter ads ''stream'' (stream_kind c) = Some d" "key \<in> fst ` set (form_entries d)"
    using assms(2) by (auto simp: form_option split: option.splits)
  note key = form_key_not_type [OF d(2)] and kind = find_adapter_in [OF d(1)]
  show ?thesis
  proof (cases "?opts = []")
    case True
    then have "kept_value v = JUndef" using kept_prop [of key v "snd (splitEntry (Some e))"] by (simp add: js_prop_def obj_get_def)
    moreover have "js_prop (snd (splitEntry None)) key = JUndef"
      by (simp add: splitEntry_def Let_def js_prop_delete) (simp add: js_prop_def obj_get_def)
    ultimately show ?thesis using True d(1)
      by (simp add: set_stream_options_def split form_option split: option.splits)
  next
    case False
    let ?c = "c\<lparr>cfg_stream := Some (joinEntry (ad_kind d) ?opts)\<rparr>"
    have "stream_kind ?c = stream_kind c"
      using stream_join_kind [where k = "ad_kind d" and c = c and v = v, OF _ wf key] kind stream_kind_nonempty by simp
    moreover have "edit_deployment ads (D_stream_option key v) c = ?c"
      using d(1) False by (simp add: set_stream_options_def split)
    ultimately show ?thesis using d set_option_entry(2) [OF wf key] by (simp add: form_option)
  qed
qed

lemma deploy_put_get:
  assumes ads: "adapters_ok ads" and wf: "config_wf c" and off: "deploy_offers (deployment_view_of t ads dr p c) e"
  shows "deploy_reads (deployment_view_of t ads dr' p' (edit_deployment ads e c)) e"
proof (cases e)
  case (D_on_error v)
  then show ?thesis by (auto simp: set_on_error_def policy_of_def nullish_or_def index_row_of_def list_all_iff entries_of_def)
next
  case (D_public v)
  then show ?thesis by (simp add: set_address_def address_of_def js_prop_put nullish_or_def)
next
  case (D_private v)
  then show ?thesis by (simp add: set_address_def address_of_def js_prop_put nullish_or_def)
next
  case (D_source_kind k)
  then show ?thesis by (simp add: set_source_kind_def port_picked split_kind js_prop_def obj_get_def)
next
  case (D_source_option key v)
  obtain d where d: "find_adapter ads ''source'' (fst (splitEntry (Some (cfg_source c)))) = Some d" "key \<in> fst ` set (form_entries d)"
    using off by (auto simp: D_source_option form_option split: option.splits)
  have "obj_wf (cfg_source c)" using wf by (simp add: config_wf_def)
  then show ?thesis using d set_option_entry [OF _ form_key_not_type [OF d(2)]]
    by (simp add: D_source_option set_source_options_def form_option)
next
  case (D_stream_kind k)
  have "k \<noteq> '''' \<Longrightarrow> stream_kind (set_stream_kind k c) = k"
    by (simp add: set_stream_kind_def stream_kind_def Let_def split_kind js_prop_def obj_get_def)
  moreover have "k \<noteq> ''''" using off ads offered_kind by (fastforce simp: D_stream_kind adapters_ok_def)
  ultimately show ?thesis by (simp add: D_stream_kind port_picked)
next
  case (D_stream_option key v)
  then show ?thesis using stream_put_get [OF wf] off by simp
next
  case (D_row i x)
  then obtain en where en: "js_get (entries_of c) i = Some en" "row_offers x"
    using off by (auto simp: js_get_eq_Some)
  then have "js_get (map (index_row_of (setEntry i (edit_row_entry x en) c)) (entries_of (setEntry i (edit_row_entry x en) c))) i =
      Some (index_row_of (setEntry i (edit_row_entry x en) c) (edit_row_entry x en))"
    by (auto simp: js_get_eq_Some setEntry_def)
  then show ?thesis using en row_put_get [OF en] by (simp add: D_row)
next
  case D_add_index
  then show ?thesis by (simp add: add_index_def index_row_of_def)
next
  case (D_sink name x)
  obtain s where s: "obj_get (sinks_of c) name = Some s" "sink_offers (sink_card_of t ads (obj_keys (sinks_of c)) (dr name) name (as_obj s)) x"
    using off by (auto simp: D_sink sink_card_at split: option.splits)
  have "obj_wf (as_obj s)" using s(1) wf by (force simp: config_wf_def obj_get_def dest: map_of_SomeD)
  then show ?thesis using s sink_put_get [OF ads _ s(2)]
    by (simp add: D_sink sink_card_at setSink_def obj_get_put) (simp add: as_obj_def)
next
  case (D_remove_sink name)
  have "fst ` set (dv_sinks (deployment_view_of t ads dr' p' c')) = fst ` set (sinks_of c')" for c'
    by (force simp: deployment_view_of_def Let_def)
  then show ?thesis by (auto simp: D_remove_sink removeSink_def obj_delete_def)
qed (simp_all add: set_prefix_def set_max_changes_def set_max_delay_ms_def batch_of_def)

section \<open>Only the table of indexes touches a schema\<close>

definition spares_indexes :: "deploy_edit \<Rightarrow> bool" where
  "spares_indexes e \<longleftrightarrow> (case e of D_row i (Row_name _) \<Rightarrow> False | D_add_index \<Rightarrow> False | D_remove_index _ \<Rightarrow> False | _ \<Rightarrow> True)"

lemma entries_of_edits [simp]:
  "entries_of (set_prefix x1 c) = entries_of c" "entries_of (set_on_error x2 c) = entries_of c"
  "entries_of (set_max_changes x3 c) = entries_of c" "entries_of (set_max_delay_ms x3 c) = entries_of c"
  "entries_of (set_address w x2 c) = entries_of c" "entries_of (set_source_kind x2 c) = entries_of c"
  "entries_of (set_source_options x4 c) = entries_of c" "entries_of (set_stream_kind x2 c) = entries_of c"
  "entries_of (set_stream_options d x4 c) = entries_of c" "entries_of (setSink x2 x4 c) = entries_of c"
  "entries_of (removeSink x2 c) = entries_of c" "entries_of (renameSink x2 x5 c) = entries_of c"
  "entries_of (add_sink ads c) = entries_of c"
  by (simp_all add: entries_of_def set_prefix_def set_on_error_def set_max_changes_def set_max_delay_ms_def set_address_def
      set_source_kind_def set_source_options_def set_stream_kind_def set_stream_options_def setSink_def removeSink_def
      renameSink_def add_sink_def Let_def)

lemma names_of_same: "js_get (entries_of c) i = Some y \<Longrightarrow> (names_of c)[i := e_name y] = names_of c"
  by (auto simp: names_of_def js_get_eq_Some simp flip: map_update)

lemma edit_spares_names: "spares_indexes e \<Longrightarrow> names_of (edit_deployment ads e c) = names_of c"
proof (cases e)
  case (D_row i x)
  assume "spares_indexes e"
  then have "e_name (edit_row_entry x y) = e_name y" for y
    by (cases x) (auto simp: D_row spares_indexes_def row_on_error_def row_toggle_def)
  then show ?thesis
    using names_of_same by (simp add: D_row names_of_setEntry split: option.splits)
qed (auto simp: spares_indexes_def names_of_def split: option.splits)

text \<open>Handed to the store, such an edit leaves every schema as it is.\<close>

lemma deployment_spares_schemas:
  assumes "ds_doc s = Some d" "spares_indexes e"
  shows "\<exists>d'. ds_doc (setConfig newId (edit_deployment ads e (doc_config d)) s) = Some d' \<and>
    names_of (doc_config d') = names_of (doc_config d) \<and> (\<forall>k. obj_get (doc_schemas d') k = obj_get (doc_schemas d) k)"
proof -
  have n: "names_of (edit_deployment ads e (doc_config d)) = names_of (doc_config d)" using edit_spares_names assms(2) .
  have "list_all (\<lambda>(a, b). a = b) (zip xs xs)" for xs :: "string list" by (induction xs) auto
  then show ?thesis
    using setConfig_aligned [OF assms(1), of "edit_deployment ads e (doc_config d)" newId]
      setConfig_doc [OF assms(1), of newId "edit_deployment ads e (doc_config d)"] n by auto
qed

text \<open>Emptying the only option of the stream drops its entry, and with it its kind.\<close>

lemma stream_kind_lost:
  assumes "stream_kind c = k" "k \<noteq> ''channel''" "find_adapter ads ''stream'' k = Some d"
    and "snd (splitEntry (cfg_stream c)) = [(key, x)]"
  shows "stream_kind (edit_deployment ads (D_stream_option key JUndef) c) = ''channel''"
proof -
  have "form_set key JUndef [(key, x)] = []" by (simp add: form_set_def obj_delete_def)
  then show ?thesis using assms by (simp add: set_stream_options_def stream_kind_def Let_def splitEntry_def js_prop_def obj_get_def)
qed

text \<open>
  Following \<open>allOf\<close> or a reference drops the keys beside it, so an option that is a choice with a default
  is shown among the required ones, with no entry for its default.
\<close>

definition choice_with_default :: "js jobj" where
  "choice_with_default =
     [(''default'', JStr ''builtin''), (''allOf'', JArr [JObj [(''$ref'', JStr ''#/definitions/TextAnalysis'')]])]"

definition choice_adapter :: adapter_description where
  "choice_adapter =
     \<lparr>ad_port = ''sink'', ad_kind = ''opensearch'',
      ad_schema =
        [(''properties'', JObj [(''text_analysis'', JObj choice_with_default)]),
         (''definitions'', JObj [(''TextAnalysis'', JObj [(''enum'', JArr [JStr ''builtin'', JStr ''icu''])])])],
      ad_example = [], ad_secrets = []\<rparr>"

lemma choice_default_lost:
  "map fst (primary_entries choice_adapter) = [''text_analysis'']"
  "option_editor (ad_schema choice_adapter) False (resolve_schema choice_with_default (ad_schema choice_adapter)) JUndef =
     Choice_e '''' [''builtin'', ''icu''] False"
  by code_simp+

end
