(* ===== verification/Dialog_Views.thy ===== *)
theory Dialog_Views
  imports Review_Dialog New_Index Diff_Pane
begin

text \<open>
  What the two dialogs of \<^verbatim>\<open>App.tsx\<close> show, as data: the review of a save (\<open>DiffModal\<close>) with its
  folders, rows and boxes, and the wizard for a new index (\<open>NewIndex\<close>, \<open>WizardSteps\<close>). Everything a
  user can do in one of them is a step, and what a dialog promises on its buttons is an invariant of the
  steps: the number of files to write, the path of the index to create.
\<close>

section \<open>The review of a save\<close>

datatype tick = Ticked | Unticked | Mixed

definition tick_of :: "bool \<Rightarrow> bool \<Rightarrow> tick" where
  "tick_of every none = (if every then Ticked else if none then Unticked else Mixed)"

record file_row =
  fr_path :: string
  fr_indented :: bool
  fr_selected :: bool
  fr_on :: bool
  fr_title :: string
  fr_base :: string
  fr_outside :: bool
  fr_badge :: badge
  fr_adds :: "nat option"
  fr_dels :: "nat option"

definition file_row_of :: "translate \<Rightarrow> string \<Rightarrow> op_diff list \<Rightarrow> review \<Rightarrow> string \<Rightarrow> op_diff \<Rightarrow> file_row" where
  "file_row_of t dots changed rv dir d =
     (let counts = diffStats (d_current d) (d_next d) in
      \<lparr>fr_path = d_path d, fr_indented = (dir \<noteq> ''''),
       fr_selected = (index_of_diff changed d = Some (rv_selected rv)), fr_on = (d_path d \<in> set (rv_include rv)),
       fr_title = (if truthy (d_from d) then t ''diff.movedFrom'' [(''path'', JStr (shortenPath dots (the (d_from d))))]
                   else d_path d),
       fr_base = base_of dots d, fr_outside = (d_warning d = Some ''outside_base''), fr_badge = op_badge d,
       fr_adds = (if d_op d \<noteq> D_delete then Some (fst counts) else None),
       fr_dels = (if d_op d \<noteq> D_write \<or> d_current d \<noteq> '''' then Some (snd counts) else None)\<rparr>)"

text \<open>A folder without a name, the files at the top, has no header.\<close>

record folder_row =
  fo_dir :: string
  fo_tick :: tick
  fo_rows :: "file_row list"

definition folder_row_of ::
  "translate \<Rightarrow> string \<Rightarrow> op_diff list \<Rightarrow> review \<Rightarrow> string \<times> op_diff list \<Rightarrow> folder_row" where
  "folder_row_of t dots changed rv g =
     \<lparr>fo_dir = fst g,
      fo_tick = tick_of (list_all (\<lambda>f. d_path f \<in> set (rv_include rv)) (snd g))
                  (list_all (\<lambda>f. d_path f \<notin> set (rv_include rv)) (snd g)),
      fo_rows = map (file_row_of t dots changed rv (fst g)) (snd g)\<rparr>"

record review_view =
  rw_modes :: "(diff_mode \<times> bool) list"
  rw_chip :: chip
  rw_detail :: "(string option \<times> diagnostic list) option"
  rw_filter :: bool
  rw_clear :: bool
  rw_tick :: tick
  rw_count :: "nat \<times> nat"
  rw_folders :: "folder_row list"
  rw_no_files :: bool
  rw_pane :: "op_diff option"
  rw_write_disabled :: bool
  rw_write :: nat
  rw_hints :: "(string list \<times> string) list"

text \<open>The hints of the footer; keys are spelled by their names.\<close>

definition review_hints :: "translate \<Rightarrow> (string list \<times> string) list" where
  "review_hints t =
     [([''ArrowUp'', ''ArrowDown''], t ''diff.kbdNavigate'' []), ([''Enter''], t ''diff.kbdToggle'' []),
      ([''cmd'', ''A''], t ''diff.kbdToggleAll'' []), ([''cmd'', ''Enter''], t ''diff.kbdSave'' []),
      ([''Esc''], t ''diff.kbdClear'' [])]"

definition write_button :: "bool \<Rightarrow> review \<Rightarrow> bool \<times> nat" where
  "write_button saving rv = (saving \<or> length (rv_include rv) = 0, length (rv_include rv))"

definition review_view_of ::
  "translate \<Rightarrow> string \<Rightarrow> check \<Rightarrow> bool \<Rightarrow> diff_mode \<Rightarrow> op_diff list \<Rightarrow> review \<Rightarrow> review_view" where
  "review_view_of t dots check saving shown_mode changed rv =
     \<lparr>rw_modes = map (\<lambda>m. (m, m = shown_mode)) [Split, Unified, OldSide, NewSide], rw_chip = check_chip check,
      rw_detail = check_detail check, rw_filter = (length changed > 3), rw_clear = (rv_query rv \<noteq> ''''),
      rw_tick = tick_of (allShown changed rv) (shownIncluded changed rv = 0),
      rw_count = (length (rv_include rv), length changed),
      rw_folders = map (folder_row_of t dots changed rv) (folder_groups dots (shown_files changed rv)),
      rw_no_files = (length (shown_files changed rv) = 0), rw_pane = active_file changed rv,
      rw_write_disabled = fst (write_button saving rv), rw_write = snd (write_button saving rv), rw_hints = review_hints t\<rparr>"

definition review_rows :: "review_view \<Rightarrow> file_row list" where
  "review_rows rw = concat (map fo_rows (rw_folders rw))"

text \<open>Everything the dialog lets one do; a filter box is there when there are more than three files.\<close>

inductive review_step :: "string \<Rightarrow> op_diff list \<Rightarrow> review \<Rightarrow> review \<Rightarrow> bool" for dots changed where
  file_box: "d \<in> set (shown_files changed rv) \<Longrightarrow> review_step dots changed rv (toggle_file (d_path d) rv)"
| folder_box: "(dir, fs) \<in> set (folder_groups dots (shown_files changed rv)) \<Longrightarrow>
    review_step dots changed rv (toggleFolder fs rv)"
| all_box: "review_step dots changed rv (toggleAll changed rv)"
| row_click: "d \<in> set (shown_files changed rv) \<Longrightarrow> index_of_diff changed d = Some i \<Longrightarrow>
    review_step dots changed rv (rv\<lparr>rv_selected := i\<rparr>)"
| filter_typed: "length changed > 3 \<Longrightarrow> review_step dots changed rv (rv\<lparr>rv_query := q\<rparr>)"
| key_pressed: "review_step dots changed rv (fst (onDialogKey changed saving e rv))"
| escaped: "review_step dots changed rv (escape_key rv)"

inductive review_reachable :: "string \<Rightarrow> op_diff list \<Rightarrow> review \<Rightarrow> bool" for dots changed where
  opened: "review_reachable dots changed (open_review changed)"
| went_on: "review_reachable dots changed rv \<Longrightarrow> review_step dots changed rv rv' \<Longrightarrow> review_reachable dots changed rv'"

definition review_inv :: "op_diff list \<Rightarrow> review \<Rightarrow> bool" where
  "review_inv changed rv \<longleftrightarrow> distinct (rv_include rv) \<and> set (rv_include rv) \<subseteq> d_path ` set changed"

lemma toggle_file_inv: "review_inv changed rv \<Longrightarrow> d \<in> set changed \<Longrightarrow> review_inv changed (toggle_file (d_path d) rv)"
  by (auto simp: review_inv_def toggle_file_def)

lemma include_all_inv:
  assumes "review_inv changed rv" "set files \<subseteq> set changed"
  shows "review_inv changed (include_all clear files rv)"
proof -
  have "distinct (foldl (\<lambda>s d. if clear then set_delete (d_path d) s else set_add (d_path d) s) s files)" if "distinct s" for s
    using that by (induction files arbitrary: s) auto
  then have "distinct (rv_include (include_all clear files rv))"
    using assms(1) by (simp add: include_all_def review_inv_def)
  then show ?thesis using assms by (auto simp: review_inv_def set_include_all)
qed

lemma folder_files:
  assumes "(dir, fs) \<in> set (folder_groups dots (shown_files changed rv))"
  shows "set fs \<subseteq> set (shown_files changed rv)"
proof -
  have "fs \<in> set (map snd (folder_groups dots (shown_files changed rv)))" using assms by force
  then have "set fs \<subseteq> set (concat (map snd (folder_groups dots (shown_files changed rv))))" by auto
  then show ?thesis by (simp only: folder_groups_files)
qed

lemma review_step_inv:
  assumes "review_step dots changed rv rv'" "review_inv changed rv"
  shows "review_inv changed rv'"
  using assms
proof cases
  case (file_box d)
  then show ?thesis using toggle_file_inv [OF assms(2)] shown_files_subset by blast
next
  case (folder_box dir fs)
  then have "set fs \<subseteq> set changed" using folder_files shown_files_subset by blast
  then show ?thesis using folder_box include_all_inv [OF assms(2)] by (simp add: toggleFolder_def)
next
  case all_box
  then show ?thesis using include_all_inv [OF assms(2) shown_files_subset] by (simp add: toggleAll_def)
next
  case (key_pressed e)
  have all: "review_inv changed (toggleAll changed rv)"
    using include_all_inv [OF assms(2) shown_files_subset] by (simp add: toggleAll_def)
  have sel: "review_inv changed (select_shown changed i rv)" for i
    using assms(2) by (auto simp: select_shown_def review_inv_def split: option.splits)
  have tog: "review_inv changed (toggle_file (d_path (shown_files changed rv ! i)) rv)" if "i < length (shown_files changed rv)" for i
    using toggle_file_inv [OF assms(2)] nth_mem [OF that] shown_files_subset by blast
  have pos: "shown_pos changed rv = Some p \<Longrightarrow> p < length (shown_files changed rv)" for p
    by (auto simp: shown_pos_def Let_def find_Some_iff)
  show ?thesis using assms(2) unfolding key_pressed
    by (auto simp: onDialogKey_def Let_def all sel intro!: tog split: option.splits dest: pos)
next
  case (row_click d i)
  then show ?thesis using assms(2) by (simp add: review_inv_def)
next
  case (filter_typed q)
  then show ?thesis using assms(2) by (simp add: review_inv_def)
next
  case escaped
  then show ?thesis using assms(2) by (simp add: review_inv_def escape_key_def)
qed

lemma review_reachable_inv: "review_reachable dots changed rv \<Longrightarrow> review_inv changed rv"
proof (induction rule: review_reachable.induct)
  case opened
  show ?case by (simp add: review_inv_def open_review_def set_js_set distinct_js_set)
qed (rule review_step_inv)

text \<open>The count of the dialog is the number of files its button writes.\<close>

lemma written_count:
  assumes "review_inv changed rv" "distinct (map d_path changed)"
  shows "length (filter (\<lambda>d. d_path d \<notin> set (ignoreList changed rv)) changed) = length (rv_include rv)"
proof -
  have "filter (\<lambda>d. d_path d \<notin> set (ignoreList changed rv)) changed = filter (\<lambda>d. d_path d \<in> set (rv_include rv)) changed"
    by (rule filter_cong) (auto simp: set_ignoreList)
  moreover have "length (filter (\<lambda>d. d_path d \<in> set (rv_include rv)) changed) =
      card (set (filter (\<lambda>x. x \<in> set (rv_include rv)) (map d_path changed)))"
    using assms(2) by (subst distinct_card) (simp_all add: filter_map comp_def distinct_map_filter)
  moreover have "set (filter (\<lambda>x. x \<in> set (rv_include rv)) (map d_path changed)) = set (rv_include rv)"
    using assms(1) by (auto simp: review_inv_def)
  ultimately show ?thesis using assms(1) by (simp add: review_inv_def distinct_card)
qed

text \<open>The rows are the shown files in their order; a row's box is on when the file is written.\<close>

lemma file_row_simps [simp]:
  "fr_path (file_row_of t dots changed rv dir d) = d_path d"
  "fr_on (file_row_of t dots changed rv dir d) \<longleftrightarrow> d_path d \<in> set (rv_include rv)"
  "fr_selected (file_row_of t dots changed rv dir d) \<longleftrightarrow> index_of_diff changed d = Some (rv_selected rv)"
  by (simp_all add: file_row_of_def Let_def)

lemma review_rows_of:
  "review_rows (review_view_of t dots ck sv m changed rv) =
     concat (map (\<lambda>(dir, fs). map (file_row_of t dots changed rv dir) fs) (folder_groups dots (shown_files changed rv)))"
  by (simp add: review_rows_def review_view_of_def folder_row_of_def comp_def split_def)

lemma review_rows_paths:
  "map fr_path (review_rows (review_view_of t dots ck sv m changed rv)) = map d_path (shown_files changed rv)"
proof -
  have "map fr_path (concat (map (\<lambda>(dir, fs). map (file_row_of t dots changed rv dir) fs) gs)) =
      map d_path (concat (map snd gs))" for gs
    by (induction gs) (auto simp: comp_def)
  then show ?thesis by (simp only: review_rows_of folder_groups_files)
qed

lemma review_row_of:
  assumes "row \<in> set (review_rows (review_view_of t dots ck sv m changed rv))"
  shows "\<exists>d dir. d \<in> set (shown_files changed rv) \<and> row = file_row_of t dots changed rv dir d"
proof -
  obtain dir fs d where "(dir, fs) \<in> set (folder_groups dots (shown_files changed rv))" "d \<in> set fs"
    "row = file_row_of t dots changed rv dir d"
    using assms by (auto simp: review_rows_of)
  then show ?thesis using folder_files by blast
qed

lemma row_ticked:
  assumes "row \<in> set (review_rows (review_view_of t dots ck sv m changed rv))"
  shows "fr_on row \<longleftrightarrow> fr_path row \<notin> set (ignoreList changed rv)"
  using review_row_of [OF assms] shown_files_subset [of changed rv] by (auto simp: set_ignoreList)

text \<open>The row that is marked is the one whose file the pane shows.\<close>

lemma marked_row:
  assumes "row \<in> set (review_rows (review_view_of t dots ck sv m changed rv))" "fr_selected row"
  shows "\<exists>d. rw_pane (review_view_of t dots ck sv m changed rv) = Some d \<and> d_path d = fr_path row"
proof -
  obtain d where d: "index_of_diff changed d = Some (rv_selected rv)" "fr_path row = d_path d"
    using review_row_of [OF assms(1)] assms(2) by auto
  have "js_get changed (rv_selected rv) = Some d" using index_of_diff_Some [OF d(1)] by (simp add: js_get_eq_Some)
  then show ?thesis using d(2) by (simp add: review_view_of_def active_file_def)
qed

text \<open>The counts of a row are those of the header of its diff.\<close>

lemma row_counts:
  "fr_adds (file_row_of t dots changed rv dir d) = Some n \<Longrightarrow> n = dh_adds (diff_header_of p (d_current d) (d_next d))"
  "fr_dels (file_row_of t dots changed rv dir d) = Some n \<Longrightarrow> n = dh_dels (diff_header_of p (d_current d) (d_next d))"
  using header_counts [of p "d_current d" "d_next d"]
  by (auto simp: file_row_of_def Let_def split: if_splits dest: sym)

text \<open>The box above the list: on when every row's is, off when none is.\<close>

lemma master_tick:
  "rw_tick (review_view_of t dots ck sv m changed rv) = Ticked \<longleftrightarrow>
     review_rows (review_view_of t dots ck sv m changed rv) \<noteq> [] \<and>
     list_all fr_on (review_rows (review_view_of t dots ck sv m changed rv))"
proof -
  let ?rows = "review_rows (review_view_of t dots ck sv m changed rv)"
  have on: "fr_on row \<longleftrightarrow> fr_path row \<in> set (rv_include rv)" if "row \<in> set ?rows" for row
    using review_row_of [OF that] by auto
  have paths: "fr_path ` set ?rows = d_path ` set (shown_files changed rv)"
    using arg_cong [OF review_rows_paths [of t dots ck sv m changed rv], of set] by simp
  have "?rows \<noteq> [] \<longleftrightarrow> shown_files changed rv \<noteq> []"
    using arg_cong [OF review_rows_paths [of t dots ck sv m changed rv], of length] by auto
  moreover have "list_all fr_on ?rows \<longleftrightarrow> fr_path ` set ?rows \<subseteq> set (rv_include rv)"
    using on by (auto simp: list_all_iff)
  ultimately show ?thesis
    by (simp add: paths) (simp add: review_view_of_def tick_of_def allShown_iff)
qed

text \<open>The write button and its key are the same.\<close>

lemma write_key:
  assumes "ke_key e = ''Enter''" "ke_meta e \<or> ke_ctrl e"
  shows "onDialogKey changed sv e rv =
    (rv, if rw_write_disabled (review_view_of t dots ck sv m changed rv) then None else Some (ignoreList changed rv))"
  using assms by (auto simp: onDialogKey_def review_view_of_def write_button_def Let_def)

lemma review_promises:
  assumes "review_reachable dots changed rv" "distinct (map d_path changed)"
  shows "length (filter (\<lambda>d. d_path d \<notin> set (ignoreList changed rv)) changed) =
      rw_write (review_view_of t dots ck sv m changed rv)"
    and "rw_count (review_view_of t dots ck sv m changed rv) =
      (rw_write (review_view_of t dots ck sv m changed rv), length changed)"
  using written_count [OF review_reachable_inv [OF assms(1)] assms(2)]
  by (simp_all add: review_view_of_def write_button_def)

section \<open>The wizard for a new index\<close>

datatype table_input =
    Table_picker string "(string \<times> bool) list"   \<comment> \<open>each table, and whether it is a junction\<close>
  | Table_text string

datatype file_input = Whole_name string string | Base_name string string string

datatype wizard_page =
    Details_page string table_input
  | File_page string "(string \<times> string) list" file_input string

record wizard_view =
  wv_rail :: "(nat \<times> string \<times> bool \<times> bool) list"   \<comment> \<open>number, label, reached, current\<close>
  wv_page :: wizard_page
  wv_back :: string
  wv_forward :: "string \<times> bool"                      \<comment> \<open>its label, and whether it is disabled\<close>

definition wizard_rail :: "string list \<Rightarrow> nat \<Rightarrow> (nat \<times> string \<times> bool \<times> bool) list" where
  "wizard_rail labels current =
     map (\<lambda>(i, label). (Suc i, label, i \<le> current, i = current)) (zip [0..<length labels] labels)"

definition dir_options :: "translate \<Rightarrow> string list \<Rightarrow> (string \<times> string) list" where
  "dir_options t dirs = ('''', t ''sidebar.rootDir'' []) # map (\<lambda>d. (d, d)) dirs"

definition file_input_of :: "wizard \<Rightarrow> file_input" where
  "file_input_of w =
     (if wz_override w
      then Whole_name (wz_overrideName w) (if wz_name w \<noteq> '''' then wz_name w @ ''.schema.yml'' else ''x.schema.yml'')
      else Base_name (if wz_baseEdited w then wz_base w else wz_name w) (if wz_name w \<noteq> '''' then wz_name w else ''name'') SUFFIX)"

definition wizard_page_of :: "translate \<Rightarrow> string list \<Rightarrow> string list \<Rightarrow> string list \<Rightarrow> wizard \<Rightarrow> wizard_page" where
  "wizard_page_of t tables junctions dirs w =
     (if wz_step w = 0
      then Details_page (wz_name w)
        (if tables \<noteq> [] then Table_picker (wz_table w) (map (\<lambda>x. (x, x \<in> set junctions)) tables) else Table_text (wz_table w))
      else File_page (wz_dir w) (dir_options t dirs) (file_input_of w)
        (if effectivePath w \<noteq> '''' then effectivePath w else t ''sidebar.schemaFileHint'' []))"

definition wizard_view_of :: "translate \<Rightarrow> string list \<Rightarrow> string list \<Rightarrow> string list \<Rightarrow> wizard \<Rightarrow> wizard_view" where
  "wizard_view_of t tables junctions dirs w =
     \<lparr>wv_rail = wizard_rail [t ''sidebar.stepDetails'' [], t ''sidebar.stepFile'' []] (wz_step w),
      wv_page = wizard_page_of t tables junctions dirs w,
      wv_back = (if wz_step w = 0 then t ''common.cancel'' [] else t ''common.back'' []),
      wv_forward = (if wz_step w = 0 then (t ''common.next'' [], \<not> detailsOk w)
                    else (t ''sidebar.create'' [], effectivePath w = ''''))\<rparr>"

text \<open>What can be done in the wizard: an input is there on its page only.\<close>

inductive wizard_step :: "string \<Rightarrow> string list \<Rightarrow> wizard \<times> design_state \<Rightarrow> wizard \<times> design_state \<Rightarrow> bool"
  for newId tables where
  pressed_open: "\<not> wz_open w \<Longrightarrow> wizard_step newId tables (w, s) (open_wizard tables w, s)"
| commanded_open: "\<not> wz_open w \<Longrightarrow> wizard_step newId tables (w, s) (w\<lparr>wz_open := True\<rparr>, s)"
| closed: "wizard_step newId tables (w, s) (reset_wizard tables w, s)"
| named: "wz_step w = 0 \<Longrightarrow> wizard_step newId tables (w, s) (w\<lparr>wz_name := x\<rparr>, s)"
| rooted: "wz_step w = 0 \<Longrightarrow> wizard_step newId tables (w, s) (w\<lparr>wz_table := x\<rparr>, s)"
| went_next: "wz_step w = 0 \<Longrightarrow> detailsOk w \<Longrightarrow> wizard_step newId tables (w, s) (w\<lparr>wz_step := 1\<rparr>, s)"
| placed: "wz_step w = 1 \<Longrightarrow> wizard_step newId tables (w, s) (w\<lparr>wz_dir := x\<rparr>, s)"
| based: "wz_step w = 1 \<Longrightarrow> \<not> wz_override w \<Longrightarrow> wizard_step newId tables (w, s) (type_base x w, s)"
| overridden: "wz_step w = 1 \<Longrightarrow> \<not> wz_override w \<Longrightarrow> wizard_step newId tables (w, s) (start_override w, s)"
| whole_named: "wz_step w = 1 \<Longrightarrow> wz_override w \<Longrightarrow> wizard_step newId tables (w, s) (w\<lparr>wz_overrideName := x\<rparr>, s)"
| locked: "wz_step w = 1 \<Longrightarrow> wz_override w \<Longrightarrow> wizard_step newId tables (w, s) (w\<lparr>wz_override := False\<rparr>, s)"
| went_back: "wizard_step newId tables (w, s) (back_button tables w, s)"
| entered: "wizard_step newId tables (w, s) (wizard_enter newId tables picker (w, s))"
| created: "wz_step w = 1 \<Longrightarrow> wizard_step newId tables (w, s) (create newId tables (w, s))"

inductive wizard_reachable :: "string \<Rightarrow> string list \<Rightarrow> design_state \<Rightarrow> wizard \<times> design_state \<Rightarrow> bool"
  for newId tables s0 where
  mounted: "wizard_reachable newId tables s0 (init_wizard early, s0)"
| moved_on: "wizard_reachable newId tables s0 st \<Longrightarrow> wizard_step newId tables st st' \<Longrightarrow> wizard_reachable newId tables s0 st'"

definition wizard_inv :: "wizard \<Rightarrow> bool" where
  "wizard_inv w \<longleftrightarrow> wz_step w \<le> 1 \<and> (wz_step w = 1 \<longrightarrow> detailsOk w)"

lemmas wizard_defs = wizard_inv_def detailsOk_def reset_wizard_def open_wizard_def type_base_def start_override_def
  back_button_def create_def wizard_enter_def init_wizard_def

lemma wizard_step_inv:
  assumes "wizard_step newId tables st st'" "wizard_inv (fst st)"
  shows "wizard_inv (fst st')"
  using assms by cases (auto simp: wizard_defs)

lemma wizard_reachable_inv: "wizard_reachable newId tables s0 st \<Longrightarrow> wizard_inv (fst st)"
proof (induction rule: wizard_reachable.induct)
  case (mounted early)
  then show ?case by (simp add: wizard_defs)
qed (rule wizard_step_inv)

text \<open>The second page shows the file the index gets, and its button is on when pressing it creates one.\<close>

lemma create_as_shown:
  assumes "wizard_reachable newId tables s0 (w, s)" "wz_step w = 1"
  shows "create newId tables (w, s) =
    (if snd (wv_forward (wizard_view_of t tables junctions dirs w)) then (w, s)
     else (reset_wizard tables w, createIndex newId (wz_name w) (wz_table w) (effectivePath w) s))"
    and "\<not> snd (wv_forward (wizard_view_of t tables junctions dirs w)) \<Longrightarrow>
      \<exists>dir ds fi. wv_page (wizard_view_of t tables junctions dirs w) = File_page dir ds fi (effectivePath w)"
proof -
  have "detailsOk w" using wizard_reachable_inv [OF assms(1)] assms(2) by (simp add: wizard_inv_def)
  then show "create newId tables (w, s) =
    (if snd (wv_forward (wizard_view_of t tables junctions dirs w)) then (w, s)
     else (reset_wizard tables w, createIndex newId (wz_name w) (wz_table w) (effectivePath w) s))"
    using assms(2) by (simp add: create_def wizard_view_of_def)
qed (use assms(2) in \<open>simp add: wizard_view_of_def wizard_page_of_def\<close>)

text \<open>Until it creates, the wizard changes nothing of the project.\<close>

lemma wizard_step_design:
  assumes "wizard_step newId tables (w, s) (w', s')"
  shows "s' = s \<or> (detailsOk w \<and> effectivePath w \<noteq> '''' \<and>
    s' = createIndex newId (wz_name w) (wz_table w) (effectivePath w) s \<and> w' = reset_wizard tables w)"
  using assms by cases (auto simp: create_def wizard_enter_def split: if_splits)

text \<open>Overriding and locking again shows the file that was shown.\<close>

lemma override_shows_file:
  "\<not> wz_override w \<Longrightarrow> file_input_of (start_override w) =
     Whole_name (effectiveFile w) (if wz_name w \<noteq> '''' then wz_name w @ ''.schema.yml'' else ''x.schema.yml'')"
  "\<not> wz_override w \<Longrightarrow> file_input_of (start_override w\<lparr>wz_override := False\<rparr>) = file_input_of w"
  by (simp_all add: file_input_of_def start_override_def)

text \<open>One page of the rail is the current one, and those before it are reached.\<close>

lemma rail_pages:
  "wizard_rail [a, b] 0 = [(1, a, True, True), (2, b, False, False)]"
  "wizard_rail [a, b] 1 = [(1, a, True, False), (2, b, True, True)]"
  by (simp_all add: wizard_rail_def)

end
