(* ===== verification/Catalog_View.thy ===== *)
theory Catalog_View
  imports Tables_Browser App_Shell
begin

text \<open>
  What \<^verbatim>\<open>components/CatalogBrowser.tsx\<close> shows, as data: the title and the filter's count, the row of a
  table with the part of it that matched, the columns of the selected table with their links, and the
  tables that refer to it.
\<close>

record table_row =
  tr_table :: string
  tr_name :: "string list"              \<comment> \<open>in parts, the second emphasised\<close>
  tr_junction :: bool
  tr_columns :: "string list option"
  tr_count :: nat
  tr_active :: bool

datatype key_icon = Key_icon | Link_icon | Blank_icon

record column_line =
  cl_icon :: key_icon
  cl_name :: "string list"
  cl_nullable :: bool
  cl_link :: "(string \<times> string) option"  \<comment> \<open>its text, the table it leads to\<close>
  cl_hit :: bool
  cl_sql_type :: string
  cl_class :: string

record table_page =
  tp_table :: string
  tp_junction :: bool
  tp_schema :: string
  tp_count :: nat
  tp_columns :: "column_line list"
  tp_incoming :: "(string \<times> string) list"

record tables_view =
  tv_count :: nat
  tv_error :: "string option"
  tv_matches :: "nat option"
  tv_clear :: bool
  tv_rows :: "table_row list"
  tv_page :: "table_page option"

definition is_junction :: "catalog_response \<Rightarrow> string \<Rightarrow> bool" where
  "is_junction catalog T \<longleftrightarrow> T \<in> jn_table ` set (cat_junctions catalog)"

definition name_hit :: "tables_browser \<Rightarrow> string \<Rightarrow> bool" where
  "name_hit b n \<longleftrightarrow> needle b = '''' \<or> includes_str (needle b) (to_lower n)"

definition table_row_of :: "catalog_response \<Rightarrow> tables_browser \<Rightarrow> table_shape \<Rightarrow> table_row" where
  "table_row_of catalog b tbl =
     (let cols = matchesCol b tbl in
      \<lparr>tr_table = t_name tbl, tr_name = mark (t_name tbl) (if name_hit b (t_name tbl) then needle b else ''''),
       tr_junction = is_junction catalog (t_name tbl),
       tr_columns = (if length cols > 0 \<and> \<not> includes_str (needle b) (to_lower (t_name tbl))
                     then Some (mark (join_with '', '' (map cs_name cols)) (needle b)) else None),
       tr_count = length (t_columns tbl),
       tr_active = (map_option t_name (selected_table (cat_tables catalog) b) = Some (t_name tbl))\<rparr>)"

definition ref_link :: "ref \<Rightarrow> string \<times> string" where
  "ref_link r = (rf_table r @ ''.'' @ rf_column r, rf_table r)"

text \<open>A suggested type that is no scalar has the family of the types it does not know.\<close>

definition suggested_family :: "column_shape \<Rightarrow> string" where
  "suggested_family c = typeClass (case cs_suggested_type c of Some (Scalar ty) \<Rightarrow> scalar_name ty | _ \<Rightarrow> ''other'')"

definition column_line_of :: "catalog_response \<Rightarrow> tables_browser \<Rightarrow> string \<Rightarrow> column_shape \<Rightarrow> column_line" where
  "column_line_of catalog b T c =
     (let r = target_of (cat_tables catalog) T (cs_name c) in
      \<lparr>cl_icon = (if cs_is_primary_key c then Key_icon else if r \<noteq> None then Link_icon else Blank_icon),
       cl_name = mark (cs_name c) (needle b), cl_nullable = cs_nullable c, cl_link = map_option ref_link r,
       cl_hit = (needle b \<noteq> '''' \<and> includes_str (needle b) (to_lower (cs_name c))),
       cl_sql_type = cs_sql_type c, cl_class = suggested_family c\<rparr>)"

definition table_page_of :: "catalog_response \<Rightarrow> tables_browser \<Rightarrow> table_shape \<Rightarrow> table_page" where
  "table_page_of catalog b tbl =
     \<lparr>tp_table = t_name tbl, tp_junction = is_junction catalog (t_name tbl), tp_schema = t_schema tbl,
      tp_count = length (t_columns tbl), tp_columns = map (column_line_of catalog b (t_name tbl)) (t_columns tbl),
      tp_incoming = map ref_link (incoming_of (cat_tables catalog) (t_name tbl))\<rparr>"

text \<open>With an error only the banner is shown.\<close>

definition tables_view_of :: "catalog_response \<Rightarrow> tables_browser \<Rightarrow> tables_view" where
  "tables_view_of catalog b =
     (let rows = filtered (cat_tables catalog) b; bad = truthy (cat_error catalog) in
      \<lparr>tv_count = length (cat_tables catalog), tv_error = (if bad then cat_error catalog else None),
       tv_matches = (if bad \<or> needle b = '''' then None else Some (length rows)), tv_clear = (\<not> bad \<and> br_q b \<noteq> ''''),
       tv_rows = (if bad then [] else map (table_row_of catalog b) rows),
       tv_page = (if bad then None else map_option (table_page_of catalog b) (selected_table (cat_tables catalog) b))\<rparr>)"

section \<open>What the marks show\<close>

lemma includes_index: "includes_str p s \<longleftrightarrow> index_of p s \<noteq> None"
  by (induction p s rule: includes_str.induct) (auto simp: starts_with_def)

text \<open>The emphasised part spells the needle, and there is one where the needle occurs.\<close>

definition emphasised :: "string list \<Rightarrow> string option" where
  "emphasised parts = (case parts of [_, hit, _] \<Rightarrow> Some hit | _ \<Rightarrow> None)"

lemma mark_emphasised:
  assumes "q \<noteq> ''''" "includes_str q (to_lower s)"
  shows "\<exists>hit. emphasised (mark s q) = Some hit \<and> to_lower hit = q" and "concat (mark s q) = s"
proof -
  obtain i where "index_of q (to_lower s) = Some i" using assms(2) by (auto simp: includes_index)
  then show "\<exists>hit. emphasised (mark s q) = Some hit \<and> to_lower hit = q"
    using assms(1) mark_parts [of s q] by (auto simp: mark_def emphasised_def)
qed (use mark_parts in blast)

lemma starts_with_longer: "starts_with p s \<Longrightarrow> starts_with p (s @ u)"
  by (metis append.assoc append_take_drop_id starts_with_append starts_with_def)

lemma includes_str_append: "includes_str p s \<or> includes_str p u \<Longrightarrow> includes_str p (s @ u)"
proof (induction s)
  case Nil
  then show ?case by (cases u) (auto simp: starts_with_def)
next
  case (Cons c s)
  then show ?case using starts_with_longer [of p "c # s" u] by auto
qed

lemma to_lower_append: "to_lower (s @ u) = to_lower s @ to_lower u"
  by (simp add: to_lower_def)

lemma includes_join:
  "x \<in> set xs \<Longrightarrow> includes_str p (to_lower x) \<Longrightarrow> includes_str p (to_lower (join_with sep xs))"
  by (induction sep xs rule: join_with.induct) (auto simp: to_lower_append intro!: includes_str_append)

text \<open>Every row the filter keeps says why: the needle is emphasised in its name or in its columns.\<close>

lemma row_reason:
  assumes "tbl \<in> set (filtered tables b)" "needle b \<noteq> ''''"
  shows "\<exists>ps hit. (ps = tr_name (table_row_of catalog b tbl) \<or> Some ps = tr_columns (table_row_of catalog b tbl)) \<and>
    emphasised ps = Some hit \<and> to_lower hit = needle b"
proof (cases "includes_str (needle b) (to_lower (t_name tbl))")
  case True
  then show ?thesis using mark_emphasised(1) [OF assms(2)] assms(2)
    by (auto simp: table_row_of_def Let_def name_hit_def)
next
  case False
  then obtain c where c: "c \<in> set (matchesCol b tbl)" using filtered_reason [OF assms] by (cases "matchesCol b tbl") auto
  then have "includes_str (needle b) (to_lower (join_with '', '' (map cs_name (matchesCol b tbl))))"
    by (intro includes_join [of "cs_name c"]) (auto simp: matchesCol_def split: if_splits)
  from mark_emphasised(1) [OF assms(2) this] show ?thesis using False c
    by (auto simp: table_row_of_def Let_def)
qed

text \<open>A row names its table, whatever is emphasised in it.\<close>

lemma row_name: "concat (tr_name (table_row_of catalog b tbl)) = t_name tbl"
  using mark_parts by (simp add: table_row_of_def Let_def)

section \<open>The rows and the page\<close>

lemma filter_one: "distinct xs \<Longrightarrow> x \<in> set xs \<Longrightarrow> filter (\<lambda>n. n = x) xs = [x]"
  by (induction xs) (auto simp: filter_empty_conv)

text \<open>When the tables have names of their own one row is marked, that of the table on the page.\<close>

lemma one_active_row:
  assumes "distinct (map t_name (cat_tables catalog))" "tv_page (tables_view_of catalog b) = Some page"
  shows "map tr_table (filter tr_active (tv_rows (tables_view_of catalog b))) = [tp_table page]"
proof -
  have ok: "\<not> truthy (cat_error catalog)" using assms(2) by (auto simp: tables_view_of_def Let_def split: if_splits)
  then obtain tbl where tbl: "selected_table (cat_tables catalog) b = Some tbl" "tp_table page = t_name tbl"
    using assms(2) by (auto simp: tables_view_of_def Let_def table_page_of_def)
  have "distinct (map t_name (filtered (cat_tables catalog) b))"
    using assms(1) by (simp add: filtered_def distinct_map_filter)
  moreover have "t_name tbl \<in> set (map t_name (filtered (cat_tables catalog) b))"
    using selected_is_filtered [OF tbl(1)] by simp
  ultimately have "filter (\<lambda>n. n = t_name tbl) (map t_name (filtered (cat_tables catalog) b)) = [t_name tbl]"
    by (simp only: filter_one)
  moreover have "map tr_table (filter tr_active (map (table_row_of catalog b) ts)) = filter (\<lambda>n. n = t_name tbl) (map t_name ts)" for ts
    by (induction ts) (auto simp: table_row_of_def Let_def tbl(1))
  ultimately show ?thesis using ok tbl(2) by (simp add: tables_view_of_def Let_def)
qed

text \<open>A link of a column opens the page of its table, which lists the link's table among those that refer to it.\<close>

lemma link_leads:
  assumes cat: "\<not> truthy (cat_error catalog)" "distinct (map t_name (cat_tables catalog))" "tbl \<in> set (cat_tables catalog)"
    and line: "line \<in> set (tp_columns (table_page_of catalog b tbl))" "cl_link line = Some (shown, T)"
    and T: "T \<in> t_name ` set (cat_tables catalog)"
  shows "\<exists>page. tv_page (tables_view_of catalog (fst (goto T b))) = Some page \<and> tp_table page = T \<and>
    (\<exists>x \<in> set (tp_incoming page). snd x = t_name tbl)"
proof -
  obtain c where c: "line = column_line_of catalog b (t_name tbl) c" using line(1) by (auto simp: table_page_of_def)
  then obtain r where r: "target_of (cat_tables catalog) (t_name tbl) (cs_name c) = Some r" "T = rf_table r"
    using line(2) by (cases "target_of (cat_tables catalog) (t_name tbl) (cs_name c)")
      (simp_all add: column_line_of_def Let_def ref_link_def)
  obtain target where target: "find (\<lambda>t. t_name t = T) (cat_tables catalog) = Some target" "t_name target = T"
    using T by (cases "find (\<lambda>t. t_name t = T) (cat_tables catalog)") (auto simp: find_None_iff find_Some_iff)
  have "selected_table (cat_tables catalog) (fst (goto T b)) = Some target" using target(1) by (simp add: goto_shows)
  moreover obtain ref where "ref \<in> set (incoming_of (cat_tables catalog) T)" "rf_table ref = t_name tbl"
    using target_is_incoming [OF cat(2,3) r(1)] r(2) by auto
  ultimately show ?thesis using cat(1) target(2)
    by (force simp: tables_view_of_def Let_def table_page_of_def ref_link_def)
qed

end
