(* ===== verification/Work_Panes.thy ===== *)
theory Work_Panes
  imports Preview_View Canvas_View
begin

text \<open>
  What two panes show, as data: the preview drawer with its document tree whose containers open and
  close (\<^verbatim>\<open>components/Preview.tsx\<close>), and the buttons over the canvas
  (\<^verbatim>\<open>components/Canvas.tsx\<close>).
\<close>

section \<open>The document tree\<close>

text \<open>
  A \<open>Node\<close> keeps whether it is open by its place, a path of positions: \<open>shut\<close> holds the places
  whose container is closed. A row has its place and depth, the name, the text beside it, the
  colour of a leaf's chip, and of a container whether it is open.
\<close>

record tree_row =
  tr_place :: "nat list"
  tr_depth :: nat
  tr_name :: string
  tr_text :: string
  tr_class :: "string option"
  tr_nested :: bool
  tr_open :: "bool option"

definition leaf_tree_row :: "nat list \<Rightarrow> nat \<Rightarrow> document_node \<Rightarrow> tree_row" where
  "leaf_tree_row p d n =
     \<lparr>tr_place = p, tr_depth = d, tr_name = dn_name n, tr_text = dn_type n @ suffix_of n,
      tr_class = Some (typeClass (dn_type n)), tr_nested = False, tr_open = None\<rparr>"

definition container_row :: "(nat list \<Rightarrow> bool) \<Rightarrow> nat list \<Rightarrow> nat \<Rightarrow> document_node \<Rightarrow> nat \<Rightarrow> tree_row" where
  "container_row shut p d n kids =
     \<lparr>tr_place = p, tr_depth = d, tr_name = dn_name n,
      tr_text = dn_type n @ suffix_of n @ '' '' @ [CHR 0xB7] @ '' '' @ show_nat kids,
      tr_class = None, tr_nested = nested_stripe n, tr_open = Some (\<not> shut p)\<rparr>"

text \<open>All rows, also those inside a closed container: its body stays mounted.\<close>

fun tree_rows :: "(nat list \<Rightarrow> bool) \<Rightarrow> nat list \<Rightarrow> nat \<Rightarrow> document_node \<Rightarrow> tree_row list"
and forest_rows :: "(nat list \<Rightarrow> bool) \<Rightarrow> nat list \<Rightarrow> nat \<Rightarrow> nat \<Rightarrow> document_node list \<Rightarrow> tree_row list" where
  "tree_rows shut p d (Document_node n ty nullable arr None) =
     [leaf_tree_row p d (Document_node n ty nullable arr None)]"
| "tree_rows shut p d (Document_node n ty nullable arr (Some cs)) =
     container_row shut p d (Document_node n ty nullable arr (Some cs)) (length cs) #
     forest_rows shut p 0 (Suc d) cs"
| "forest_rows shut p i d [] = []"
| "forest_rows shut p i d (c # cs) = tree_rows shut (p @ [i]) d c @ forest_rows shut p (Suc i) d cs"

text \<open>The rows that can be seen: the body of a closed container has no height.\<close>

fun seen_rows :: "(nat list \<Rightarrow> bool) \<Rightarrow> nat list \<Rightarrow> nat \<Rightarrow> document_node \<Rightarrow> tree_row list"
and seen_forest :: "(nat list \<Rightarrow> bool) \<Rightarrow> nat list \<Rightarrow> nat \<Rightarrow> nat \<Rightarrow> document_node list \<Rightarrow> tree_row list" where
  "seen_rows shut p d (Document_node n ty nullable arr None) =
     [leaf_tree_row p d (Document_node n ty nullable arr None)]"
| "seen_rows shut p d (Document_node n ty nullable arr (Some cs)) =
     container_row shut p d (Document_node n ty nullable arr (Some cs)) (length cs) #
     (if shut p then [] else seen_forest shut p 0 (Suc d) cs)"
| "seen_forest shut p i d [] = []"
| "seen_forest shut p i d (c # cs) = seen_rows shut (p @ [i]) d c @ seen_forest shut p (Suc i) d cs"

definition document_rows :: "(nat list \<Rightarrow> bool) \<Rightarrow> document_node list \<Rightarrow> tree_row list" where
  "document_rows shut = seen_forest shut [] 0 0"

text \<open>A click on the header of a container.\<close>

definition toggle_place :: "nat list \<Rightarrow> (nat list \<Rightarrow> bool) \<Rightarrow> nat list \<Rightarrow> bool" where
  "toggle_place p shut = shut(p := \<not> shut p)"

text \<open>The rows are those of the tree, in its order.\<close>

lemma tree_rows_node_rows:
  "map (\<lambda>r. (tr_depth r, tr_name r, tr_text r)) (tree_rows shut p d n) = node_rows d n"
  "map (\<lambda>r. (tr_depth r, tr_name r, tr_text r)) (forest_rows shut p i d ns) = concat (map (node_rows d) ns)"
  by (induction shut p d n and shut p i d ns rule: tree_rows_forest_rows.induct)
    (simp_all add: leaf_tree_row_def container_row_def suffix_of_def Let_def)

text \<open>
  A row is seen exactly when no container around it is closed: none of the places on the way to
  it, itself not counted.
\<close>

definition around :: "nat list \<Rightarrow> nat list \<Rightarrow> nat list \<Rightarrow> bool" where
  "around p q r \<longleftrightarrow> (\<exists>a b. q = p @ a \<and> r = q @ b \<and> b \<noteq> [])"

lemma tree_row_place:
  "r \<in> set (tree_rows shut p d n) \<Longrightarrow> \<exists>a. tr_place r = p @ a"
  "r \<in> set (forest_rows shut p i d ns) \<Longrightarrow> \<exists>j a. i \<le> j \<and> tr_place r = p @ j # a"
proof (induction shut p d n and shut p i d ns rule: tree_rows_forest_rows.induct)
  case (4 shut p i d c cs)
  then show ?case by (fastforce dest: Suc_leD)
qed (auto simp: leaf_tree_row_def container_row_def)

lemma around_self: "\<not> around p q p" "around p p (p @ a) \<longleftrightarrow> a \<noteq> []"
  by (auto simp: around_def)

lemma around_child:
  "around p q (p @ i # a) \<longleftrightarrow> q = p \<or> around (p @ [i]) q (p @ i # a)"
proof
  assume "around p q (p @ i # a)"
  then obtain b c where q: "q = p @ b" "p @ i # a = q @ c" "c \<noteq> []" by (auto simp: around_def)
  show "q = p \<or> around (p @ [i]) q (p @ i # a)"
  proof (cases b)
    case (Cons x xs)
    then show ?thesis using q by (intro disjI2) (auto simp: around_def)
  qed (use q in simp)
qed (auto simp: around_def)

lemma seen_rows_filter:
  "seen_rows shut p d n =
     filter (\<lambda>r. \<not> (\<exists>q. around p q (tr_place r) \<and> shut q)) (tree_rows shut p d n)"
  "seen_forest shut p i d ns =
     filter (\<lambda>r. \<not> (\<exists>q. q \<noteq> p \<and> around p q (tr_place r) \<and> shut q)) (forest_rows shut p i d ns)"
proof (induction shut p d n and shut p i d ns rule: seen_rows_seen_forest.induct)
  case (1 shut p d n ty nullable arr)
  then show ?case by (simp add: leaf_tree_row_def around_self)
next
  case (2 shut p d n ty nullable arr cs)
  let ?fs = "forest_rows shut p 0 (Suc d) cs"
  have all: "(\<exists>q. around p q (tr_place r) \<and> shut q) \<longleftrightarrow>
      shut p \<or> (\<exists>q. q \<noteq> p \<and> around p q (tr_place r) \<and> shut q)" if r: "r \<in> set ?fs" for r
  proof -
    obtain j a where "tr_place r = p @ j # a" using tree_row_place(2) [OF r] by auto
    then have "around p p (tr_place r)" by (simp add: around_self)
    then show ?thesis by auto
  qed
  have "filter (\<lambda>r. \<not> (\<exists>q. around p q (tr_place r) \<and> shut q)) ?fs =
      filter (\<lambda>r. \<not> (shut p \<or> (\<exists>q. q \<noteq> p \<and> around p q (tr_place r) \<and> shut q))) ?fs"
    by (rule filter_cong [OF refl]) (simp only: all)
  then show ?case using 2 by (simp add: container_row_def around_self)
next
  case (4 shut p i d c cs)
  have "filter (\<lambda>r. \<not> (\<exists>q. around (p @ [i]) q (tr_place r) \<and> shut q)) (tree_rows shut (p @ [i]) d c) =
      filter (\<lambda>r. \<not> (\<exists>q. q \<noteq> p \<and> around p q (tr_place r) \<and> shut q)) (tree_rows shut (p @ [i]) d c)"
  proof (rule filter_cong [OF refl])
    fix r
    assume "r \<in> set (tree_rows shut (p @ [i]) d c)"
    then obtain a where r: "tr_place r = p @ i # a" using tree_row_place(1) by fastforce
    have "\<not> around (p @ [i]) p (p @ i # a)" by (auto simp: around_def)
    then have "around (p @ [i]) q (tr_place r) \<longleftrightarrow> q \<noteq> p \<and> around p q (tr_place r)" for q
      unfolding r around_child [of p q i a] by auto
    then show "(\<not> (\<exists>q. around (p @ [i]) q (tr_place r) \<and> shut q)) =
        (\<not> (\<exists>q. q \<noteq> p \<and> around p q (tr_place r) \<and> shut q))" by auto
  qed
  then show ?case using 4 by simp
qed simp

text \<open>With nothing closed every row is seen; a closed container keeps its header.\<close>

lemma document_rows_open: "document_rows (\<lambda>q. False) ns = forest_rows (\<lambda>q. False) [] 0 0 ns"
  by (simp add: document_rows_def seen_rows_filter(2))

lemma document_rows_complete:
  "map (\<lambda>r. (tr_depth r, tr_name r, tr_text r)) (document_rows (\<lambda>q. False) ns) = concat (map (node_rows 0) ns)"
  unfolding document_rows_open by (rule tree_rows_node_rows)

lemma toggle_twice [simp]: "toggle_place p (toggle_place p shut) = shut"
  by (simp add: toggle_place_def)

text \<open>A header says whether its container is open.\<close>

lemma row_open:
  "r \<in> set (tree_rows shut p d n) \<Longrightarrow> tr_open r = Some b \<Longrightarrow> b \<longleftrightarrow> \<not> shut (tr_place r)"
  "r \<in> set (forest_rows shut p i d ns) \<Longrightarrow> tr_open r = Some b \<Longrightarrow> b \<longleftrightarrow> \<not> shut (tr_place r)"
  by (induction shut p d n and shut p i d ns rule: tree_rows_forest_rows.induct)
    (auto simp: leaf_tree_row_def container_row_def)

text \<open>
  A click changes only what is behind its header: the places of the rows are those of the tree, and
  a row that is not inside the container is seen after the click exactly when it was before.
\<close>

lemma tree_places:
  "map tr_place (tree_rows shut p d n) = map tr_place (tree_rows shut' p d n)"
  "map tr_place (forest_rows shut p i d ns) = map tr_place (forest_rows shut' p i d ns)"
  by (induction shut p d n and shut p i d ns rule: tree_rows_forest_rows.induct)
    (simp_all add: leaf_tree_row_def container_row_def)

definition seen_places :: "(nat list \<Rightarrow> bool) \<Rightarrow> document_node list \<Rightarrow> nat list list" where
  "seen_places shut ns = map tr_place (document_rows shut ns)"

definition all_places :: "document_node list \<Rightarrow> nat list list" where
  "all_places ns = map tr_place (forest_rows (\<lambda>q. False) [] 0 0 ns)"

lemma seen_places_filter:
  "seen_places shut ns = filter (\<lambda>r. \<not> (\<exists>q. q \<noteq> [] \<and> around [] q r \<and> shut q)) (all_places ns)"
  by (simp add: seen_places_def document_rows_def seen_rows_filter(2) all_places_def
      tree_places(2) [of "\<lambda>q. False" "[]" 0 0 ns shut] filter_map comp_def)

lemma toggle_spares:
  assumes "\<not> around [] p r"
  shows "r \<in> set (seen_places (toggle_place p shut) ns) \<longleftrightarrow> r \<in> set (seen_places shut ns)"
  using assms by (auto simp: seen_places_filter toggle_place_def)

lemma toggle_hides:
  assumes "\<not> shut p" "p \<noteq> []" "around [] p r"
  shows "r \<notin> set (seen_places (toggle_place p shut) ns)"
  using assms by (auto simp: seen_places_filter toggle_place_def)

text \<open>
  The place is a position: with a field added before a closed container, the next one is closed.
\<close>

definition object_of :: "string \<Rightarrow> document_node" where
  "object_of n = Document_node n ''object'' False False (Some [Document_node ''x'' ''keyword'' False False None])"

lemma closed_moves_on:
  "map (\<lambda>r. (tr_name r, tr_open r)) (document_rows (\<lambda>q. q = [0]) [object_of ''a'']) = [(''a'', Some False)]"
  "map (\<lambda>r. (tr_name r, tr_open r)) (document_rows (\<lambda>q. q = [0]) [object_of ''new'', object_of ''a'']) =
     [(''new'', Some False), (''a'', Some True), (''x'', None)]"
  by (simp_all add: document_rows_def object_of_def container_row_def leaf_tree_row_def)

section \<open>The preview drawer\<close>

datatype tone = Error_tone | Warn_tone | Plain_tone

definition diag_line :: "diagnostic \<Rightarrow> tone \<times> string \<times> string" where
  "diag_line d =
     ((if dg_severity d = ''error'' then Error_tone
       else if dg_severity d = ''warning'' then Warn_tone else Plain_tone),
      dg_index d @ ''.'' @ dg_field d, dg_message d)"

datatype preview_body =
    Document_body "(tone \<times> string \<times> string) list" "tree_row list"
  | Code_body spans
  | Empty_body

record preview_tab =
  pt_tab :: tab
  pt_label :: string
  pt_badge :: "nat option"
  pt_active :: bool

record preview_drawer =
  pd_banner :: "(string \<times> string option) option"
  pd_tabs :: "preview_tab list"
  pd_body :: preview_body
  pd_sample :: "(bool \<times> sample_screen) option"   \<comment> \<open>mounted, and whether it is hidden\<close>

definition tab_label :: "translate \<Rightarrow> tab \<Rightarrow> string" where
  "tab_label t tb =
     (case tb of Document_tab \<Rightarrow> t ''preview.document'' [] | Yaml_tab \<Rightarrow> t ''preview.tabYaml'' []
      | Mapping_tab \<Rightarrow> t ''preview.tabMapping'' [] | Sample_tab \<Rightarrow> t ''preview.tabSample'' [])"

text \<open>\<open>pretty\<close> is \<open>JSON.stringify(\<dots>, null, 2)\<close>.\<close>

definition preview_drawer_of ::
  "translate \<Rightarrow> (js \<Rightarrow> string) \<Rightarrow> (nat list \<Rightarrow> bool) \<Rightarrow> tab \<Rightarrow> preview_response option \<Rightarrow> diagnostic list option \<Rightarrow>
     bool \<Rightarrow> sample_state \<Rightarrow> preview_drawer option" where
  "preview_drawer_of t pretty shut active preview ds onSample smp =
     map_option
       (\<lambda>pv.
         let diags = (case ds of None \<Rightarrow> [] | Some xs \<Rightarrow> xs) in
         \<lparr>pd_banner = (if pv_parse_ok pv then None else Some (t ''preview.parseError'' [], pv_parse_error pv)),
          pd_tabs = map (\<lambda>(tb, badge). \<lparr>pt_tab = tb, pt_label = tab_label t tb, pt_badge = badge, pt_active = (active = tb)\<rparr>)
                      (tabs ds onSample),
          pd_body =
            (case active of
               Document_tab \<Rightarrow> Document_body (map diag_line diags) (document_rows shut (pv_document pv))
             | Yaml_tab \<Rightarrow> Code_body (code_block Yaml (pv_yaml pv))
             | Mapping_tab \<Rightarrow> Code_body (code_block Json (pretty (pv_mapping pv)))
             | Sample_tab \<Rightarrow> Empty_body),
          pd_sample = (if onSample then Some (active \<noteq> Sample_tab, sample_view smp) else None)\<rparr>)
       preview"

lemma tabs_simps: "map fst (tabs ds os) = [Document_tab, Yaml_tab, Mapping_tab] @ (if os then [Sample_tab] else [])"
  by (simp add: tabs_def Let_def)

text \<open>A tab that is there is the one tab that is marked.\<close>

lemma one_active_tab:
  assumes "preview_drawer_of t pretty shut active (Some pv) ds os smp = Some v"
    and "active \<noteq> Sample_tab \<or> os"
  shows "map pt_tab (filter pt_active (pd_tabs v)) = [active]"
  using assms by (cases active) (auto simp: preview_drawer_of_def tabs_def Let_def)

text \<open>Pressing a tab's button shows its body, and the others' disappear but for the sample, which is kept.\<close>

lemma tab_shows_sample:
  assumes "preview_drawer_of t pretty shut active (Some pv) ds os smp = Some v"
  shows "pd_sample v = Some (False, sample_view smp) \<longleftrightarrow> os \<and> active = Sample_tab"
    and "pd_body v = Empty_body \<longleftrightarrow> active = Sample_tab"
  using assms by (cases active; cases os; auto simp: preview_drawer_of_def Let_def)+

text \<open>The badge of the first tab is the number of lines above the tree.\<close>

lemma badge_counts_lines:
  assumes "preview_drawer_of t pretty shut Document_tab (Some pv) ds os smp = Some v"
    and "pd_body v = Document_body lines rows"
  shows "pt_badge (hd (pd_tabs v)) = (if lines = [] then None else Some (length lines))"
  using assms by (auto simp: preview_drawer_of_def tabs_def Let_def split: option.splits)

text \<open>The code shown is the YAML, or the mapping, with one line break more.\<close>

lemma code_body_text:
  assumes "preview_drawer_of t pretty shut active (Some pv) ds os smp = Some v" "pd_body v = Code_body ps"
  shows "flat ps = (if active = Yaml_tab then pv_yaml pv else pretty (pv_mapping pv)) @ [line_break]"
  using assms by (auto simp: preview_drawer_of_def Let_def code_block_flat split: tab.splits)

text \<open>Until there is a preview, nothing of it is drawn, the sample included.\<close>

lemma no_preview: "preview_drawer_of t pretty shut active None ds os smp = None"
  by (simp add: preview_drawer_of_def)

section \<open>The buttons over the canvas\<close>

record tool_button =
  tb_hint :: string
  tb_pressed :: "bool option"        \<comment> \<open>of a toggle only\<close>

record canvas_tools =
  ct_collapse :: tool_button
  ct_reset :: tool_button
  ct_lock :: tool_button
  ct_zoom_in :: tool_button
  ct_zoom_out :: tool_button
  ct_fit :: tool_button
  ct_map :: tool_button
  ct_overview :: bool

definition plain_tool :: "translate \<Rightarrow> string \<Rightarrow> tool_button" where
  "plain_tool t k = \<lparr>tb_hint = t k [], tb_pressed = None\<rparr>"

definition toggle_tool :: "translate \<Rightarrow> bool \<Rightarrow> string \<Rightarrow> string \<Rightarrow> tool_button" where
  "toggle_tool t on on_key off_key = \<lparr>tb_hint = t (if on then on_key else off_key) [], tb_pressed = Some on\<rparr>"

definition canvas_tools_of :: "translate \<Rightarrow> canvas \<Rightarrow> design_state \<Rightarrow> canvas_tools" where
  "canvas_tools_of t c s =
     \<lparr>ct_collapse = toggle_tool t (allCollapsed c s) ''canvas.expandAll'' ''canvas.collapseAll'',
      ct_reset = plain_tool t ''canvas.resetLayout'',
      ct_lock = toggle_tool t (cv_locked c) ''canvas.unlock'' ''canvas.lock'',
      ct_zoom_in = plain_tool t ''canvas.zoomIn'', ct_zoom_out = plain_tool t ''canvas.zoomOut'',
      ct_fit = plain_tool t ''canvas.fitView'',
      ct_map = toggle_tool t (cv_showMap c) ''canvas.hideMinimap'' ''canvas.showMinimap'',
      ct_overview = cv_showMap c\<rparr>"

datatype canvas_tool = Collapse_tool | Reset_tool | Lock_tool | Zoom_in_tool | Zoom_out_tool | Fit_tool | Map_tool

text \<open>The calls that go to React Flow's instance.\<close>

datatype flow_call = Zoom_in_call | Zoom_out_call | Fit_call

definition press_tool ::
  "string \<Rightarrow> canvas_tool \<Rightarrow> canvas \<times> design_state \<times> storage \<Rightarrow>
     ((canvas \<times> design_state \<times> storage) \<times> flow_call option) res" where
  "press_tool indexName tool x =
     (case x of (c, s, st) \<Rightarrow>
        (case tool of
           Collapse_tool \<Rightarrow> Inr ((c, onCollapseToggle c s st), None)
         | Reset_tool \<Rightarrow> map_res (\<lambda>(c', st'). ((c', s, st'), None)) (resetLayout indexName (c, st))
         | Lock_tool \<Rightarrow> Inr ((onToggleLock c, s, st), None)
         | Map_tool \<Rightarrow> (case toggleMap indexName c st of (c', st') \<Rightarrow> Inr ((c', s, st'), None))
         | Zoom_in_tool \<Rightarrow> Inr ((c, s, st), Some Zoom_in_call)
         | Zoom_out_tool \<Rightarrow> Inr ((c, s, st), Some Zoom_out_call)
         | Fit_tool \<Rightarrow> Inr ((c, s, st), Some Fit_call)))"

text \<open>The nodes of the canvas are those of the active schema.\<close>

definition canvas_current :: "canvas \<Rightarrow> design_state \<Rightarrow> bool" where
  "canvas_current c s \<longleftrightarrow>
     (\<exists>d schema. ds_doc s = Some d \<and> obj_get (doc_schemas d) (ds_active s) = Some schema \<and>
        map vn_node (cv_nodes c) = gr_nodes (projectGraph schema))"

lemma current_nodes: "canvas_current c s \<Longrightarrow> cv_nodes c \<noteq> []"
proof -
  assume "canvas_current c s"
  then obtain schema where "map vn_node (cv_nodes c) = gr_nodes (projectGraph schema)" by (auto simp: canvas_current_def)
  then show "cv_nodes c \<noteq> []"
    using graph_root [of schema] by (metis length_greater_0_conv length_pos_if_in_set list.map_disc_iff)
qed

lemma collapse_all_ids:
  assumes "canvas_current c s" "\<not> allCollapsed c s" "onCollapseToggle c s st = (s', st')"
  shows "s' = s\<lparr>ds_collapsed := map (\<lambda>v. n_id (vn_node v)) (cv_nodes c)\<rparr>"
proof -
  obtain d schema where d: "ds_doc s = Some d" "obj_get (doc_schemas d) (ds_active s) = Some schema"
      "map vn_node (cv_nodes c) = gr_nodes (projectGraph schema)"
    using assms(1) by (auto simp: canvas_current_def)
  have "live_ids schema = map (\<lambda>v. n_id (vn_node v)) (cv_nodes c)"
    unfolding live_ids_def by (simp add: comp_def flip: d(3))
  moreover have "js_set (live_ids schema) = live_ids schema"
    unfolding live_ids_def by (rule js_set_distinct [OF graph_ids_distinct])
  ultimately show ?thesis using assms(2,3) d by (simp add: onCollapseToggle_def collapseAll_def Let_def)
qed

text \<open>
  The hint of the first button says what a press does: with ``expand'' nothing is collapsed
  afterwards, with ``collapse'' every node is, and the hint is then the other one.
\<close>

lemma collapse_hint:
  assumes "canvas_current c s" and "press_tool i Collapse_tool (c, s, st) = Inr ((c', s', st'), r)"
  shows "ds_collapsed s' = (if tb_pressed (ct_collapse (canvas_tools_of t c s)) = Some True then []
      else map (\<lambda>v. n_id (vn_node v)) (cv_nodes c))"
    and "tb_pressed (ct_collapse (canvas_tools_of t c' s')) =
      map_option Not (tb_pressed (ct_collapse (canvas_tools_of t c s)))"
proof -
  have eq: "c' = c" "onCollapseToggle c s st = (s', st')" using assms(2) by (auto simp: press_tool_def)
  show collapsed: "ds_collapsed s' = (if tb_pressed (ct_collapse (canvas_tools_of t c s)) = Some True then []
      else map (\<lambda>v. n_id (vn_node v)) (cv_nodes c))"
  proof (cases "allCollapsed c s")
    case True
    then show ?thesis using eq(2) by (auto simp: canvas_tools_of_def toggle_tool_def onCollapseToggle_def expandAll_def)
  next
    case False
    then show ?thesis
      using collapse_all_ids [OF assms(1) False eq(2)] by (simp add: canvas_tools_of_def toggle_tool_def)
  qed
  have "length (cv_nodes c) > 0" using current_nodes [OF assms(1)] by simp
  then show "tb_pressed (ct_collapse (canvas_tools_of t c' s')) =
      map_option Not (tb_pressed (ct_collapse (canvas_tools_of t c s)))"
    using collapsed by (simp add: canvas_tools_of_def toggle_tool_def allCollapsed_def eq(1))
qed

text \<open>The lock and the overview are toggles too; the overview's state is stored for the index.\<close>

lemma lock_toggles:
  "press_tool i Lock_tool (c, s, st) = Inr ((c', s', st'), r) \<Longrightarrow>
     tb_pressed (ct_lock (canvas_tools_of t c' s')) = map_option Not (tb_pressed (ct_lock (canvas_tools_of t c s))) \<and>
     s' = s \<and> st' = st"
  by (auto simp: press_tool_def onToggleLock_def canvas_tools_of_def toggle_tool_def)

lemma overview_toggles:
  assumes "st_usable st" "press_tool i Map_tool (c, s, st) = Inr ((c', s', st'), r)"
  shows "ct_overview (canvas_tools_of t c' s') \<longleftrightarrow> \<not> ct_overview (canvas_tools_of t c s)"
    and "cv_showMap (switch_map i st' c'') = ct_overview (canvas_tools_of t c' s')"
  using assms minimap_roundtrip [OF assms(1)]
  by (auto simp: press_tool_def toggleMap_def canvas_tools_of_def switch_map_def)

text \<open>No button edits the project: the schema, the configuration and the selection stay.\<close>

lemma tools_spare_document:
  assumes "press_tool i tool (c, s, st) = Inr ((c', s', st'), r)"
  shows "ds_doc s' = ds_doc s" "ds_selection s' = ds_selection s" "ds_active s' = ds_active s"
    "map vn_node (cv_nodes c') = map vn_node (cv_nodes c)"
  using assms
  by (cases tool;
      auto simp: press_tool_def onCollapseToggle_def collapseAll_def expandAll_def onToggleLock_def toggleMap_def
        resetLayout_def map_res_def Let_def comp_def split: option.splits if_splits sum.splits prod.splits)+

lemma tools_keep_current:
  assumes "canvas_current c s" "press_tool i tool (c, s, st) = Inr ((c', s', st'), r)"
  shows "canvas_current c' s'"
  using assms(1) tools_spare_document [OF assms(2)] by (simp add: canvas_current_def)

end
