(* ===== verification/Filter_Form.thy ===== *)
theory Filter_Form
  imports Filters Widgets
begin

text \<open>
  What \<^verbatim>\<open>components/Filters.tsx\<close> and the pickers of \<^verbatim>\<open>components/widgets.tsx\<close> draw, as data: the rows of
  the filter form with the boxes that fit the filter, and the open list of a combobox. The lemmas
  say that a control shows what it was set to, and that it leaves the other rows alone.
\<close>

section \<open>The lists of the selects\<close>

definition kindOptions :: "translate \<Rightarrow> (filter_kind \<times> string \<times> string) list" where
  "kindOptions t =
     [(Raw_k, t ''filters.kindRaw'' [], t ''filters.kindRawDesc'' []),
      (Null_check_k, t ''filters.kindNullCheck'' [], t ''filters.kindNullCheckDesc'' []),
      (Value_op_k, t ''filters.kindValueOp'' [], t ''filters.kindValueOpDesc'' [])]"

definition valueOpOptions :: "translate \<Rightarrow> (filter_op \<times> string \<times> string) list" where
  "valueOpOptions t =
     [(Op_eq, ''='', t ''filters.opEq'' []),
      (Op_neq, ''!='', t ''filters.opNeq'' []),
      (Op_lt, ''<'', t ''filters.opLt'' []),
      (Op_lte, ''<='', t ''filters.opLte'' []),
      (Op_gt, ''>'', t ''filters.opGt'' []),
      (Op_gte, ''>='', t ''filters.opGte'' []),
      (Op_in, ''IN'', t ''filters.opIn'' []),
      (Op_not_in, ''NOT IN'', t ''filters.opNotIn'' []),
      (Op_like, ''LIKE'', t ''filters.opLike'' []),
      (Op_ilike, ''ILIKE'', t ''filters.opIlike'' []),
      (Op_between, ''BETWEEN'', t ''filters.opBetween'' [])]"

definition nullOpOptions :: "translate \<Rightarrow> (null_op \<times> string \<times> string) list" where
  "nullOpOptions t =
     [(Is_null, ''IS NULL'', t ''filters.opIsNull'' []),
      (Is_not_null, ''IS NOT NULL'', t ''filters.opIsNotNull'' [])]"

text \<open>Every kind and operator is offered, once, under a label of its own.\<close>

lemma kind_offered: "k \<in> set (map fst (kindOptions t))" "distinct (map fst (kindOptions t))"
  by (cases k) (simp_all add: kindOptions_def)

lemma op_offered:
  "op \<in> set (map fst (valueOpOptions t))" "distinct (map fst (valueOpOptions t))"
  "distinct (map (fst \<circ> snd) (valueOpOptions t))"
  by (cases op) (simp_all add: valueOpOptions_def)

lemma null_op_offered:
  "n \<in> set (map fst (nullOpOptions t))" "distinct (map fst (nullOpOptions t))"
  by (cases n) (simp_all add: nullOpOptions_def)

section \<open>A row\<close>

text \<open>The boxes of the operands; an item has a button that removes it, but for the first.\<close>

datatype operand_boxes =
    One_box string
  | Two_boxes string string
  | Item_boxes "(string \<times> bool) list"

datatype filter_boxes =
    Raw_box string
  | Null_boxes string null_op
  | Op_boxes string filter_op operand_boxes

definition item_boxes :: "string list \<Rightarrow> (string \<times> bool) list" where
  "item_boxes ss = zip ss (map (\<lambda>j. j > 0) [0..<length ss])"

fun operand_boxes_of :: "filter_value \<Rightarrow> operand_boxes" where
  "operand_boxes_of (Single s) = One_box s"
| "operand_boxes_of (Range lo hi) = Two_boxes lo hi"
| "operand_boxes_of (List ss) = Item_boxes (item_boxes ss)"

fun filter_boxes_of :: "filter \<Rightarrow> filter_boxes" where
  "filter_boxes_of (Raw s) = Raw_box s"
| "filter_boxes_of (Null_check c op) = Null_boxes c op"
| "filter_boxes_of (Value_op c op v) = Op_boxes c op (operand_boxes_of v)"

record filter_row =
  fw_kind :: filter_kind
  fw_boxes :: filter_boxes

definition filter_row_of :: "filter \<Rightarrow> filter_row" where
  "filter_row_of f = \<lparr>fw_kind = kindOf f, fw_boxes = filter_boxes_of f\<rparr>"

definition filter_form_of :: "filter list \<Rightarrow> filter_row list" where
  "filter_form_of = map filter_row_of"

text \<open>The edits a row has a control for.\<close>

fun boxes_offer :: "filter_boxes \<Rightarrow> row_edit \<Rightarrow> bool" where
  "boxes_offer (Raw_box _) (Raw_edit _) = True"
| "boxes_offer (Null_boxes _ _) (Column_edit _) = True"
| "boxes_offer (Null_boxes _ _) (Null_op_edit _) = True"
| "boxes_offer (Op_boxes _ _ _) (Column_edit _) = True"
| "boxes_offer (Op_boxes _ _ _) (Op_edit _) = True"
| "boxes_offer (Op_boxes _ _ (One_box _)) (Single_edit _) = True"
| "boxes_offer (Op_boxes _ _ (Two_boxes _ _)) (Lo_edit _) = True"
| "boxes_offer (Op_boxes _ _ (Two_boxes _ _)) (Hi_edit _) = True"
| "boxes_offer (Op_boxes _ _ (Item_boxes is)) (Item_edit j _) = (j < length is)"
| "boxes_offer (Op_boxes _ _ (Item_boxes is)) (Remove_item j) = (j < length is \<and> snd (is ! j))"
| "boxes_offer (Op_boxes _ _ (Item_boxes _)) Add_item = True"
| "boxes_offer _ _ = False"

fun row_offers_edit :: "filter_row \<Rightarrow> row_edit \<Rightarrow> bool" where
  "row_offers_edit r (Kind_edit k) = True"
| "row_offers_edit r e = boxes_offer (fw_boxes r) e"

text \<open>What the row's control shows once it was set; a new item is an empty box at the end.\<close>

fun boxes_read :: "filter_boxes \<Rightarrow> row_edit \<Rightarrow> bool" where
  "boxes_read (Raw_box s) (Raw_edit s') = (s = s')"
| "boxes_read (Null_boxes c _) (Column_edit c') = (c = c')"
| "boxes_read (Null_boxes _ op) (Null_op_edit op') = (op = op')"
| "boxes_read (Op_boxes c _ _) (Column_edit c') = (c = c')"
| "boxes_read (Op_boxes _ op _) (Op_edit op') = (op = op')"
| "boxes_read (Op_boxes _ _ (One_box s)) (Single_edit s') = (s = s')"
| "boxes_read (Op_boxes _ _ (Two_boxes lo _)) (Lo_edit s) = (lo = s)"
| "boxes_read (Op_boxes _ _ (Two_boxes _ hi)) (Hi_edit s) = (hi = s)"
| "boxes_read (Op_boxes _ _ (Item_boxes is)) (Item_edit j s) = (j < length is \<and> fst (is ! j) = s)"
| "boxes_read (Op_boxes _ _ (Item_boxes is)) (Remove_item j) = (is \<noteq> [])"
| "boxes_read (Op_boxes _ _ (Item_boxes is)) Add_item = (is \<noteq> [] \<and> fst (last is) = '''')"
| "boxes_read _ _ = False"

fun row_reads_edit :: "filter_row \<Rightarrow> row_edit \<Rightarrow> bool" where
  "row_reads_edit r (Kind_edit k) = (fw_kind r = k)"
| "row_reads_edit r e = boxes_read (fw_boxes r) e"

lemma item_boxes_length [simp]: "length (item_boxes ss) = length ss"
  by (simp add: item_boxes_def)

lemma item_boxes_Nil [simp]: "item_boxes ss = [] \<longleftrightarrow> ss = []"
  by (metis item_boxes_length length_0_conv)

lemma item_boxes_nth [simp]: "j < length ss \<Longrightarrow> item_boxes ss ! j = (ss ! j, j > 0)"
  by (simp add: item_boxes_def)

lemma last_item_box [simp]: "fst (last (item_boxes (ss @ [s]))) = s"
proof -
  have "last (item_boxes (ss @ [s])) = item_boxes (ss @ [s]) ! length ss"
    by (subst last_conv_nth) simp_all
  then show ?thesis by simp
qed

lemma item_stays: "0 < j \<Longrightarrow> j < length ss \<Longrightarrow> without_index j ss \<noteq> []"
  by (rule without_index_nonempty) auto

lemma filter_row_put_get:
  assumes "row_offers_edit (filter_row_of f) e"
  shows "row_reads_edit (filter_row_of (edit_row e f)) e"
proof (cases "\<exists>k. e = Kind_edit k")
  case True
  then show ?thesis by (auto simp: filter_row_of_def)
next
  case False
  then have off: "boxes_offer (filter_boxes_of f) e" using assms by (cases e) (auto simp: filter_row_of_def)
  have "boxes_read (filter_boxes_of (edit_row e f)) e"
  proof (cases f)
    case (Value_op c op v)
    show ?thesis
      using off Value_op False
      by (cases v; cases e)
        (simp_all add: item_stays)
  qed (use off in \<open>cases e; simp\<close>)+
  then show ?thesis using False by (cases e) (auto simp: filter_row_of_def)
qed

section \<open>The form\<close>

datatype form_edit = In_row nat row_edit | Remove_row nat | Add_row

definition edit_form :: "form_edit \<Rightarrow> filter list \<Rightarrow> filter list option" where
  "edit_form e fs =
     (case e of
        In_row i re \<Rightarrow> (case js_get fs i of Some f \<Rightarrow> filters_set i (edit_row re f) fs | None \<Rightarrow> Some fs)
      | Remove_row i \<Rightarrow> filters_remove i fs
      | Add_row \<Rightarrow> filters_add fs)"

text \<open>A caller shows the empty list for filters that are not there.\<close>

definition shown_filters :: "filter list option \<Rightarrow> filter list" where
  "shown_filters v = (case v of None \<Rightarrow> [] | Some fs \<Rightarrow> fs)"

text \<open>A control shows what it was set to, and the other rows stay.\<close>

lemma filter_form_put_get:
  assumes "i < length fs" and "row_offers_edit (filter_form_of fs ! i) e"
  shows "\<exists>f. shown_filters (edit_form (In_row i e) fs) = fs[i := f] \<and>
    row_reads_edit (filter_form_of (fs[i := f]) ! i) e"
proof -
  have "row_offers_edit (filter_row_of (fs ! i)) e" using assms by (simp add: filter_form_of_def)
  then have "row_reads_edit (filter_row_of (edit_row e (fs ! i))) e" by (rule filter_row_put_get)
  then show ?thesis
    using assms(1)
    by (intro exI [of _ "edit_row e (fs ! i)"])
      (simp add: edit_form_def js_get_def filters_set_def shown_filters_def filter_form_of_def)
qed

text \<open>The removed row is the one that goes, and the field is dropped with the last.\<close>

lemma without_index_map: "map f (without_index i xs) = without_index i (map f xs)"
  by (simp add: without_index_take_drop take_map drop_map)

lemma filter_form_remove:
  "filter_form_of (shown_filters (edit_form (Remove_row i) fs)) = without_index i (filter_form_of fs)"
  "edit_form (Remove_row i) fs = None \<longleftrightarrow> without_index i fs = []"
  by (simp_all add: edit_form_def filters_remove_def shown_filters_def filter_form_of_def Let_def
      flip: without_index_map)

lemma filter_form_add:
  "filter_form_of (shown_filters (edit_form Add_row fs)) =
     filter_form_of fs @ [\<lparr>fw_kind = Value_op_k, fw_boxes = Op_boxes '''' Op_eq (One_box '''')\<rparr>]"
  by (simp add: edit_form_def filters_add_def shown_filters_def filter_form_of_def filter_row_of_def)

text \<open>Whatever was done in the form, no row with an operator is without a box to type in.\<close>

definition form_fits :: "filter list \<Rightarrow> bool" where
  "form_fits fs \<longleftrightarrow> (\<forall>f \<in> set fs. filter_fits f)"

lemma set_without_index: "set (without_index i xs) \<subseteq> set xs"
  by (auto simp: without_index_take_drop dest: in_set_takeD in_set_dropD)

lemma form_stays_fit:
  assumes "form_fits fs"
  shows "form_fits (shown_filters (edit_form e fs))"
proof (cases e)
  case (In_row i re)
  then show ?thesis
    using assms
    by (auto simp: edit_form_def form_fits_def filters_set_def shown_filters_def js_get_eq_Some edit_row_fits
        split: option.splits dest!: subsetD [OF set_update_subset_insert])
next
  case (Remove_row i)
  then show ?thesis
    using assms set_without_index [of i fs]
    by (auto simp: edit_form_def form_fits_def filters_remove_def shown_filters_def Let_def)
next
  case Add_row
  then show ?thesis
    using assms blank_fits [of Value_op_k]
    by (auto simp: edit_form_def form_fits_def filters_add_def shown_filters_def)
qed

section \<open>A combobox, open\<close>

record pick_row =
  pk_value :: string
  pk_text :: string
  pk_icon :: bool
  pk_class :: "string option"
  pk_detail :: "string option"
  pk_checked :: bool

record picker =
  pi_label :: string
  pi_label_class :: "string option"
  pi_placeholder :: "string option"
  pi_rows :: "pick_row list"          \<comment> \<open>of the list, when it is open, before its own filter\<close>
  pi_nothing :: string

definition option_row :: "(string \<Rightarrow> bool) \<Rightarrow> string \<Rightarrow> opt \<Rightarrow> pick_row" where
  "option_row icon current x =
     \<lparr>pk_value = o_value x, pk_text = o_label x, pk_icon = icon (o_value x), pk_class = o_class x,
      pk_detail = (case o_description x of Some s \<Rightarrow> if s \<noteq> '''' then Some s else None | None \<Rightarrow> None),
      pk_checked = (current = o_value x)\<rparr>"

definition typed_row :: "translate \<Rightarrow> string \<Rightarrow> pick_row" where
  "typed_row t query =
     \<lparr>pk_value = query, pk_text = t ''common.useValue'' [(''v'', JStr query)], pk_icon = False, pk_class = None,
      pk_detail = None, pk_checked = False\<rparr>"

definition picker_of ::
  "translate \<Rightarrow> bool \<Rightarrow> (string \<Rightarrow> bool) \<Rightarrow> opt list \<Rightarrow> string \<Rightarrow> string \<Rightarrow> combobox \<Rightarrow> picker" where
  "picker_of t allowCustom icon options placeholder current cb =
     \<lparr>pi_label = combobox_label options current,
      pi_label_class = (case find (\<lambda>x. o_value x = current) options of Some x \<Rightarrow> o_class x | None \<Rightarrow> None),
      pi_placeholder = (if shows_placeholder options current then Some placeholder else None),
      pi_rows =
        (if cb_open cb then
           (if custom_row allowCustom options (cb_query cb) then [typed_row t (cb_query cb)] else []) @
           map (option_row icon current) options
         else []),
      pi_nothing = (if allowCustom then '''' else t ''common.noMatch'' [])\<rparr>"

definition column_picker_of ::
  "translate \<Rightarrow> column_shape list \<Rightarrow> string \<Rightarrow> string \<Rightarrow> combobox \<Rightarrow> picker res" where
  "column_picker_of t cols placeholder current cb =
     map_res (\<lambda>os. picker_of t True (\<lambda>v. False) os placeholder current cb) (column_options cols)"

definition table_picker_of ::
  "translate \<Rightarrow> string list \<Rightarrow> string list \<Rightarrow> string \<Rightarrow> string \<Rightarrow> combobox \<Rightarrow> picker" where
  "table_picker_of t junctions tables placeholder current cb =
     picker_of t True (\<lambda>v. v \<in> set junctions) (table_options (\<lambda>k. t k []) junctions tables) placeholder current cb"

lemma picker_row_values:
  "cb_open cb \<Longrightarrow> map pk_value (pi_rows (picker_of t al icon os ph v cb)) = combobox_rows al os (cb_query cb)"
  by (simp add: picker_of_def combobox_rows_def option_row_def typed_row_def comp_def)

text \<open>The checked row is the one of the current value; a value that is not listed has none.\<close>

lemma picker_checked:
  assumes "cb_open cb"
  shows "(\<exists>r \<in> set (pi_rows (picker_of t al icon os ph v cb)). pk_checked r) \<longleftrightarrow> v \<in> set (map o_value os)"
    and "r \<in> set (pi_rows (picker_of t al icon os ph v cb)) \<Longrightarrow> pk_checked r \<Longrightarrow> pk_value r = v"
proof -
  have "(\<exists>r \<in> set (map (option_row icon v) os). pk_checked r) \<longleftrightarrow> v \<in> set (map o_value os)"
    by (auto simp: option_row_def)
  then show "(\<exists>r \<in> set (pi_rows (picker_of t al icon os ph v cb)). pk_checked r) \<longleftrightarrow> v \<in> set (map o_value os)"
    using assms by (cases "custom_row al os (cb_query cb)") (simp_all add: picker_of_def typed_row_def)
qed (use assms in \<open>auto simp: picker_of_def option_row_def typed_row_def split: if_splits\<close>)

text \<open>
  The row that is picked is the text of the closed box, in its colour; a typed value is its own
  text. The list opens again with an empty query and that row checked.
\<close>

lemma picked_is_shown:
  assumes "distinct (map o_value os)" and "x \<in> set os"
  shows "pi_label (picker_of t al icon os ph (fst (combobox_pick (o_value x) cb)) cb') = o_label x"
    and "pi_label_class (picker_of t al icon os ph (fst (combobox_pick (o_value x) cb)) cb') = o_class x"
    and "pi_placeholder (picker_of t al icon os ph (fst (combobox_pick (o_value x) cb)) cb') = None"
proof -
  have "find (\<lambda>y. o_value y = o_value x) os = Some x" using assms by (induction os) auto
  then show "pi_label (picker_of t al icon os ph (fst (combobox_pick (o_value x) cb)) cb') = o_label x"
    "pi_label_class (picker_of t al icon os ph (fst (combobox_pick (o_value x) cb)) cb') = o_class x"
    "pi_placeholder (picker_of t al icon os ph (fst (combobox_pick (o_value x) cb)) cb') = None"
    by (simp_all add: picker_of_def combobox_pick_def combobox_label_def shows_placeholder_def)
qed

lemma typed_is_shown:
  assumes "custom_row al os q"
  shows "pi_label (picker_of t al icon os ph (fst (combobox_pick q cb)) cb') = q"
    and "pi_placeholder (picker_of t al icon os ph (fst (combobox_pick q cb)) cb') = None"
proof -
  have "find (\<lambda>y. o_value y = q) os = None" "q \<noteq> ''''" using assms by (auto simp: custom_row_def find_None_iff)
  then show "pi_label (picker_of t al icon os ph (fst (combobox_pick q cb)) cb') = q"
    "pi_placeholder (picker_of t al icon os ph (fst (combobox_pick q cb)) cb') = None"
    by (simp_all add: picker_of_def combobox_pick_def combobox_label_def shows_placeholder_def)
qed

text \<open>After a pick the list is closed; opened again it has every option and no typed row.\<close>

lemma picked_closes:
  "pi_rows (picker_of t al icon os ph v (snd (combobox_pick w cb))) = []"
  "pi_rows (picker_of t al icon os ph v ((snd (combobox_pick w cb))\<lparr>cb_open := True\<rparr>)) = map (option_row icon v) os"
  by (simp_all add: picker_of_def combobox_pick_def custom_row_def)

end
