(* ===== verification/Node_Menus.thy ===== *)
theory Node_Menus
  imports Node_Rows
begin

text \<open>
  The menus at the foot of a node (\<^verbatim>\<open>components/DocNodeView.tsx\<close>): the searchable menu that both
  pickers share, the picker of the suggested relations with its sections by verb, and the boxes in
  which a name is typed. The list's own filter is the command package's.
\<close>

section \<open>The searchable menu\<close>

text \<open>A row: the text it is searched by, what it shows, and what a choice of it does.\<close>

record 'a menu_row =
  mr_search :: string
  mr_label :: string
  mr_detail :: 'a
  mr_class :: string

datatype 'a menu_list = Closed_menu | Open_menu string "(string \<times> 'a menu_row list) list" string

definition search_text :: "string \<Rightarrow> string \<Rightarrow> string" where
  "search_text label key = label @ '' '' @ key"

definition search_menu_of ::
  "translate \<Rightarrow> string \<Rightarrow> (string \<times> 'a menu_row list) list \<Rightarrow> search_menu \<Rightarrow> 'a menu_list" where
  "search_menu_of t placeholder sections m =
     (if mn_open m then Open_menu placeholder sections (t ''common.noMatch'' []) else Closed_menu)"

section \<open>The relations\<close>

fun verb_name :: "verb \<Rightarrow> string" where
  "verb_name Belongs_to_v = ''belongs_to''"
| "verb_name Has_one_v = ''has_one''"
| "verb_name Has_many_v = ''has_many''"
| "verb_name Many_to_many_v = ''many_to_many''"

definition relation_row :: "suggestion \<Rightarrow> detail menu_row" where
  "relation_row sg =
     \<lparr>mr_search = search_text (su_target sg) (su_key sg), mr_label = su_target sg, mr_detail = su_detail sg,
      mr_class = kindColorClass (verb_name (su_verb sg))\<rparr>"

record relation_picker =
  rp_count :: string
  rp_menu :: "detail menu_list"

text \<open>Without a suggestion there is no picker.\<close>

definition relation_picker_of :: "translate \<Rightarrow> suggestion list \<Rightarrow> search_menu \<Rightarrow> relation_picker option" where
  "relation_picker_of t suggestions m =
     (if length suggestions = 0 then None
      else Some \<lparr>rp_count = t ''node.addRelation'' [(''n'', JNum (Fin (of_nat (length suggestions))))],
                 rp_menu = search_menu_of t (t ''node.searchRelations'' [])
                   (map (\<lambda>(v, sgs). (verb_name v, map relation_row sgs)) (relation_sections suggestions)) m\<rparr>)"

definition field_row :: "menu_entry \<Rightarrow> string option menu_row" where
  "field_row e =
     \<lparr>mr_search = search_text (me_label e) (me_key e), mr_label = me_label e, mr_detail = me_detail e, mr_class = me_class e\<rparr>"

definition field_picker_of :: "translate \<Rightarrow> search_menu \<Rightarrow> string option menu_list" where
  "field_picker_of t m =
     search_menu_of t (t ''node.searchFields'' []) (map (\<lambda>(h, es). (h, map field_row es)) (field_menu t)) m"

text \<open>A choice: the relation is added, the menu closes and its query is cleared.\<close>

definition choose_relation ::
  "doc_node \<Rightarrow> suggestion \<Rightarrow> search_menu \<times> design_state \<Rightarrow> (search_menu \<times> design_state) res" where
  "choose_relation node sg x =
     (case x of (m, s) \<Rightarrow> map_res (\<lambda>s'. dismiss (\<lambda>_. s') (m, s)) (pickRelation node sg s))"

fun menu_rows :: "'a menu_list \<Rightarrow> 'a menu_row list" where
  "menu_rows Closed_menu = []"
| "menu_rows (Open_menu _ sections _) = concat (map snd sections)"

fun menu_headings :: "'a menu_list \<Rightarrow> string list" where
  "menu_headings Closed_menu = []"
| "menu_headings (Open_menu _ sections _) = map fst sections"

lemma concat_by_verb:
  "mset (concat (map snd (relation_sections ss))) = filter_mset (\<lambda>s. su_verb s \<noteq> Has_one_v) (mset ss)"
proof -
  have drop: "concat (map snd (filter (\<lambda>(v, es). length es > 0) xs)) = concat (map snd xs)"
    for xs :: "(verb \<times> suggestion list) list"
    by (induction xs) auto
  have "mset (concat (map snd (relation_sections ss))) =
      filter_mset (\<lambda>s. su_verb s = Belongs_to_v) (mset ss) + filter_mset (\<lambda>s. su_verb s = Has_many_v) (mset ss) +
      filter_mset (\<lambda>s. su_verb s = Many_to_many_v) (mset ss)"
    unfolding relation_sections_def drop by (simp add: REL_VERB_ORDER_def mset_filter)
  also have "\<dots> = filter_mset (\<lambda>s. su_verb s \<noteq> Has_one_v) (mset ss)"
  proof (induction ss)
    case (Cons a ss)
    then show ?case by (cases "su_verb a") simp_all
  qed simp
  finally show ?thesis .
qed

text \<open>
  The open menu has one row for each suggestion of the catalog, as many as the trigger counts, and
  a heading for each verb that occurs.
\<close>

lemma relation_rows:
  assumes "relation_picker_of t (suggestRelations catalog table) m = Some rp" "mn_open m"
  shows "mset (menu_rows (rp_menu rp)) = image_mset relation_row (mset (suggestRelations catalog table))"
proof -
  have "\<forall>s \<in> set (suggestRelations catalog table). su_verb s \<noteq> Has_one_v" using suggestion_verb by blast
  then have all: "mset (concat (map snd (relation_sections (suggestRelations catalog table)))) =
      mset (suggestRelations catalog table)"
    by (simp add: concat_by_verb filter_mset_eq_conv)
  have "menu_rows (rp_menu rp) = map relation_row (concat (map snd (relation_sections (suggestRelations catalog table))))"
    using assms by (auto simp: relation_picker_of_def search_menu_of_def map_concat comp_def case_prod_beta split: if_splits)
  then show ?thesis by (simp add: all)
qed

lemma relation_headings_sub:
  "relation_picker_of t ss m = Some rp \<Longrightarrow> v \<in> set (menu_headings (rp_menu rp)) \<Longrightarrow>
     \<exists>s \<in> set ss. v = verb_name (su_verb s)"
proof -
  assume rp: "relation_picker_of t ss m = Some rp" and v: "v \<in> set (menu_headings (rp_menu rp))"
  then obtain w es where w: "(w, es) \<in> set (relation_sections ss)" "v = verb_name w"
    by (auto simp: relation_picker_of_def search_menu_of_def split: if_splits)
  from relation_sections_sound [OF w(1)] obtain s where "s \<in> set es" "su_verb s = w" "s \<in> set ss"
    by (metis list.set_sel(1) subsetD)
  then show ?thesis using w(2) by auto
qed

lemma choose_closes:
  assumes "choose_relation node sg (m, s) = Inr (m', s')"
  shows "search_menu_of t ph secs m' = Closed_menu" "mn_query m' = ''''" "pickRelation node sg s = Inr s'"
  using assms by (auto simp: choose_relation_def dismiss_def search_menu_of_def map_res_def split: sum.splits)

text \<open>
  Two foreign keys onto one table that share their first column have one key, so one row of the
  menu stands for both: a composite key's other columns are in neither the key nor the join.
\<close>

lemma shared_first_column:
  assumes "col0 fk = col0 fk'" "ref0 fk = ref0 fk'" "fk_references_table fk = fk_references_table fk'"
  shows "belongs_to_suggestion catalog self fk = belongs_to_suggestion catalog self fk'"
  using assms by (simp add: belongs_to_suggestion_def fk_nullable_def)

text \<open>The kinds of the field menu are searched by their names alone.\<close>

lemma field_rows_search:
  "r \<in> set (menu_rows (field_picker_of t m)) \<Longrightarrow> mr_search r = mr_label r @ '' '' @ mr_label r"
  by (auto simp: field_picker_of_def search_menu_of_def field_menu_def field_row_def kind_entry_def search_text_def
      split: if_splits)

section \<open>The box for a root table\<close>

text \<open>Enter picks the table of the trimmed text; unlike the column box it keeps its text.\<close>

definition root_enter :: "catalog_response option \<Rightarrow> string \<Rightarrow> design_state \<Rightarrow> design_state res" where
  "root_enter catalog name s = (if trim name \<noteq> '''' then pickRootTable catalog (trim name) s else Inr s)"

lemma root_enter_blank: "trim name = '''' \<Longrightarrow> root_enter catalog name s = Inr s"
  by (simp add: root_enter_def)

end
