(* ===== verification/Locale_Check.thy ===== *)
theory Locale_Check
  imports Search_Palette Catalogs
begin

text \<open>
  \<^verbatim>\<open>scripts/check-i18n.mjs\<close>: the check that every message the sources ask for is in the English
  table and that the other tables have its keys. It reads the files as text: the keys of a table
  and the keys that are used are what its regular expressions match. The directory is an argument.
\<close>

section \<open>The patterns\<close>

definition is_letter :: "char \<Rightarrow> bool" where
  "is_letter c \<longleftrightarrow> is_lower c \<or> is_upper c"

definition is_quote :: "char \<Rightarrow> bool" where
  "is_quote c \<longleftrightarrow> c = CHR 0x22 \<or> c = CHR 0x27"

text \<open>\<open>[a-z][a-zA-Z]*\.[a-zA-Z_]+\<close>, with what follows it.\<close>

definition namespaced :: "string \<Rightarrow> (string \<times> string) option" where
  "namespaced s =
     (if s \<noteq> [] \<and> is_lower (hd s) then
        (let a = takeWhile is_letter (tl s); r = dropWhile is_letter (tl s) in
         if r \<noteq> [] \<and> hd r = CHR ''.'' then
           (let b = takeWhile (\<lambda>x. is_letter x \<or> x = CHR ''_'') (tl r) in
            if b = [] then None else Some (hd s # a @ ''.'' @ b, drop (length b) (tl r)))
         else None)
      else None)"

text \<open>\<open>kindHelp\.[a-z_]+\<close>\<close>

definition kind_help_key :: "string \<Rightarrow> (string \<times> string) option" where
  "kind_help_key s =
     (if starts_with ''kindHelp.'' s then
        (let b = takeWhile (\<lambda>x. is_lower x \<or> x = CHR ''_'') (drop 9 s) in
         if b = [] then None else Some (''kindHelp.'' @ b, drop (9 + length b) s))
      else None)"

text \<open>A pattern between two quotes, either kind on either side.\<close>

definition quoted :: "(string \<Rightarrow> (string \<times> string) option) \<Rightarrow> string \<Rightarrow> (string \<times> string) option" where
  "quoted p s =
     (case s of
        [] \<Rightarrow> None
      | q # s' \<Rightarrow>
          if is_quote q then
            (case p s' of
               Some (k, q' # r) \<Rightarrow> if is_quote q' then Some (k, r) else None
             | _ \<Rightarrow> None)
          else None)"

text \<open>\<open>keyRe\<close>: a quoted key with a colon behind it.\<close>

definition key_re :: "char option \<Rightarrow> string \<Rightarrow> (string \<times> string) option" where
  "key_re prev s =
     (case quoted namespaced s of
        Some (k, r) \<Rightarrow>
          (let r' = dropWhile is_space r in if r' \<noteq> [] \<and> hd r' = CHR '':'' then Some (k, tl r') else None)
      | None \<Rightarrow> None)"

text \<open>\<open>(?<![A-Za-z0-9_])t\(\s*\<close> and a quoted key: a call of the translator.\<close>

definition call_re :: "char option \<Rightarrow> string \<Rightarrow> (string \<times> string) option" where
  "call_re prev s =
     (if (case prev of None \<Rightarrow> True | Some c \<Rightarrow> \<not> (is_letter c \<or> is_digit c \<or> c = CHR ''_'')) \<and> starts_with ''t('' s
      then quoted namespaced (dropWhile is_space (drop 2 s)) else None)"

definition help_re :: "char option \<Rightarrow> string \<Rightarrow> (string \<times> string) option" where
  "help_re prev s = quoted kind_help_key s"

text \<open>\<open>matchAll\<close>: from left to right, going on behind each match; \<open>prev\<close> is the character in front.\<close>

fun match_all :: "(char option \<Rightarrow> string \<Rightarrow> (string \<times> string) option) \<Rightarrow> char option \<Rightarrow> string \<Rightarrow> string list" where
  "match_all f prev [] = []"
| "match_all f prev (c # s) =
     (case f prev (c # s) of
        None \<Rightarrow> match_all f (Some c) s
      | Some (k, r) \<Rightarrow>
          if length r \<le> length s then k # match_all f (Some ((c # s) ! (length s - length r))) r else [])"

section \<open>The keys\<close>

definition catalogKeys :: "string \<Rightarrow> string list" where
  "catalogKeys txt = js_set (match_all key_re None txt)"

datatype entry = Dir string "entry list" | Leaf_file string string

text \<open>\<open>/\.tsx?$/\<close>, but not the translator itself.\<close>

definition source_file :: "string \<Rightarrow> bool" where
  "source_file n \<longleftrightarrow> (ends_with ''.ts'' n \<or> ends_with ''.tsx'' n) \<and> n \<noteq> ''i18n.tsx''"

fun walk :: "entry \<Rightarrow> string list" where
  "walk (Dir n es) = (if n \<noteq> ''locales'' then concat (map walk es) else [])"
| "walk (Leaf_file n txt) =
     (if source_file n then match_all call_re None txt @ match_all help_re None txt else [])"

definition usedKeys :: "entry list \<Rightarrow> string list" where
  "usedKeys es = js_set (concat (map walk es))"

section \<open>The check\<close>

datatype check_error = Not_in_base string | Missing_in string string | Extra_in string string

text \<open>The tables are the files of the directory by name, without the ending.\<close>

definition i18n_errors :: "string list \<Rightarrow> string list \<Rightarrow> (string \<times> string list) list \<Rightarrow> check_error list" where
  "i18n_errors used base locales =
     map Not_in_base (filter (\<lambda>k. k \<notin> set base) used) @
     concat (map (\<lambda>(loc, keys).
        if loc = ''en'' then []
        else map (Missing_in loc) (filter (\<lambda>k. k \<notin> set keys) base) @ map (Extra_in loc) (filter (\<lambda>k. k \<notin> set base) keys)) locales)"

definition i18n_warnings :: "string list \<Rightarrow> string list \<Rightarrow> string list" where
  "i18n_warnings used base = filter (\<lambda>k. k \<notin> set used) base"

text \<open>The exit code and the warnings; without an English table reading it throws.\<close>

definition check_i18n :: "entry list \<Rightarrow> (string \<times> string) list \<Rightarrow> (nat \<times> string list) res" where
  "check_i18n src locales =
     (case map_of locales ''en'' of
        None \<Rightarrow> Inl (Thrown ''ENOENT'')
      | Some txt \<Rightarrow>
          (let base = catalogKeys txt; used = usedKeys src;
               errors = i18n_errors used base (map (\<lambda>(n, t). (n, catalogKeys t)) locales)
           in Inr (if length errors > 0 then 1 else 0, i18n_warnings used base)))"

text \<open>The check passes exactly when nothing is asked for in vain and all tables have the same keys.\<close>

lemma i18n_errors_none:
  "i18n_errors used base locales = [] \<longleftrightarrow>
     set used \<subseteq> set base \<and> (\<forall>(loc, keys) \<in> set locales. loc \<noteq> ''en'' \<longrightarrow> set keys = set base)"
  by (auto simp: i18n_errors_def filter_empty_conv split: prod.splits if_splits)

lemma check_passes_iff:
  assumes "map_of locales ''en'' = Some txt"
  shows "(\<exists>ws. check_i18n src locales = Inr (0, ws)) \<longleftrightarrow>
    set (usedKeys src) \<subseteq> set (catalogKeys txt) \<and>
    (\<forall>(loc, t) \<in> set locales. loc \<noteq> ''en'' \<longrightarrow> set (catalogKeys t) = set (catalogKeys txt))"
  using assms by (auto simp: check_i18n_def Let_def i18n_errors_none)

text \<open>The shipped tables have the same keys, so the check has no error about Italian.\<close>

lemma shipped_in_lockstep:
  assumes "set keys = set (map fst en_catalog)" "set keys' = set (map fst it_catalog)"
  shows "i18n_errors used keys [(''en'', keys), (''it'', keys')] = map Not_in_base (filter (\<lambda>k. k \<notin> set keys) used)"
  using assms same_keys by (auto simp: i18n_errors_def)

section \<open>What is read is what is written\<close>

text \<open>A table as the files write it, one row a line.\<close>

definition row_text :: "string \<times> string \<Rightarrow> string" where
  "row_text r =
     ''  '' @ CHR 0x22 # fst r @ CHR 0x22 # '': '' @ CHR 0x22 # snd r @ CHR 0x22 # [CHR '','', CHR 0x0A]"

definition table_text :: "(string \<times> string) list \<Rightarrow> string" where
  "table_text rows = concat (map row_text rows)"

definition key_shape :: "string \<Rightarrow> bool" where
  "key_shape k \<longleftrightarrow> namespaced k = Some (k, [])"

definition unquoted :: "string \<Rightarrow> bool" where
  "unquoted s \<longleftrightarrow> (\<forall>c \<in> set s. \<not> is_quote c)"

lemma quote_no_word: "is_quote q \<Longrightarrow> \<not> is_letter q \<and> q \<noteq> CHR ''_'' \<and> q \<noteq> CHR ''.'' \<and> \<not> is_lower q"
  by (auto simp: is_quote_def is_letter_def is_lower_def is_upper_def code_unit_def)

lemma stop_at: "\<not> P q \<Longrightarrow> takeWhile P (xs @ q # r) = takeWhile P xs" "\<not> P q \<Longrightarrow> dropWhile P (xs @ q # r) = dropWhile P xs @ q # r"
  by (induction xs) auto

lemma namespaced_quote:
  assumes "is_quote q"
  shows "namespaced (x @ q # r) = map_option (\<lambda>(k, m). (k, m @ q # r)) (namespaced x)"
proof (cases x)
  case Nil
  then show ?thesis using quote_no_word [OF assms] by (simp add: namespaced_def)
next
  case x: (Cons c s)
  note q = quote_no_word [OF assms]
  show ?thesis
  proof (cases "dropWhile is_letter s")
    case Nil
    then show ?thesis using q x by (simp add: namespaced_def stop_at Let_def)
  next
    case (Cons d m)
    have "length (takeWhile P m) \<le> length m" for P by (rule length_takeWhile_le)
    then show ?thesis using q x Cons by (simp add: namespaced_def stop_at Let_def)
  qed
qed

lemma namespaced_rest: "namespaced s = Some (k, m) \<Longrightarrow> set m \<subseteq> set s"
proof -
  assume "namespaced s = Some (k, m)"
  then obtain n where "m = drop n (tl (dropWhile is_letter (tl s)))"
    by (auto simp: namespaced_def Let_def split: if_splits)
  moreover have "set (tl xs) \<subseteq> set xs" for xs :: string by (cases xs) auto
  ultimately show "set m \<subseteq> set s" using set_drop_subset set_dropWhileD by (metis (no_types, lifting) subsetD subsetI)
qed

lemma key_re_prev: "match_all key_re p s = match_all key_re None s"
  by (cases s) (simp_all add: key_re_def)

lemma match_skip:
  assumes "key_re None (c # s) = None"
  shows "match_all key_re p (c # s) = match_all key_re None s"
  using assms key_re_prev [of "Some c" s] key_re_prev [of p "c # s"] by simp

lemma match_take:
  assumes "key_re None (c # s) = Some (k, r)" "length r \<le> length s"
  shows "match_all key_re p (c # s) = k # match_all key_re None r"
proof -
  have "match_all key_re None (c # s) = k # match_all key_re (Some ((c # s) ! (length s - length r))) r"
    using assms by simp
  also have "\<dots> = k # match_all key_re None r" by (simp only: key_re_prev [of "Some _" r])
  finally show ?thesis by (simp only: key_re_prev [of p])
qed

lemma match_quiet: "unquoted xs \<Longrightarrow> match_all key_re p (xs @ ys) = match_all key_re None ys"
proof (induction xs arbitrary: p)
  case Nil
  show ?case by (simp only: append_Nil) (rule key_re_prev)
next
  case (Cons x xs)
  then have "key_re None (x # xs @ ys) = None" by (simp add: key_re_def quoted_def unquoted_def)
  then show ?case using Cons match_skip by (simp add: unquoted_def)
qed

lemma quote_22 [simp]: "is_quote (CHR 0x22)"
  by (simp add: is_quote_def)

lemma no_spaces [simp]: "\<not> is_space (CHR '':'')" "\<not> is_space (CHR '','')"
  by code_simp+

text \<open>A quoted value with no colon behind it is no key, whatever it says.\<close>

lemma value_no_key:
  assumes "unquoted v"
  shows "match_all key_re p (CHR 0x22 # v @ CHR 0x22 # CHR '','' # s) = match_all key_re None (CHR '','' # s)"
proof -
  have "key_re None (CHR 0x22 # v @ CHR 0x22 # CHR '','' # s) = None"
  proof (cases "namespaced v")
    case None
    then show ?thesis by (simp add: key_re_def quoted_def namespaced_quote)
  next
    case (Some km)
    obtain k m where km: "km = (k, m)" by (cases km)
    show ?thesis
    proof (cases m)
      case Nil
      then show ?thesis using Some km by (simp add: key_re_def quoted_def namespaced_quote)
    next
      case (Cons a m')
      then have "\<not> is_quote a" using namespaced_rest [of v k m] Some km assms by (auto simp: unquoted_def)
      then show ?thesis using Some km Cons by (simp add: key_re_def quoted_def namespaced_quote)
    qed
  qed
  moreover have "key_re None (CHR 0x22 # CHR '','' # s) = None"
    by (simp add: key_re_def quoted_def namespaced_def is_lower_def code_unit_def)
  ultimately show ?thesis by (simp add: match_skip match_quiet [OF assms] del: match_all.simps)
qed

lemma row_key:
  assumes "key_shape (fst r)" "unquoted (snd r)"
  shows "match_all key_re p (row_text r @ s) = fst r # match_all key_re None s"
proof -
  let ?v = "CHR 0x22 # snd r @ CHR 0x22 # CHR '','' # CHR 0x0A # s"
  have "key_re None (CHR 0x22 # fst r @ CHR 0x22 # CHR '':'' # CHR '' '' # ?v) = Some (fst r, CHR '' '' # ?v)"
    using assms(1) by (simp add: key_re_def quoted_def namespaced_quote key_shape_def)
  then have key: "match_all key_re None (CHR 0x22 # fst r @ CHR 0x22 # CHR '':'' # CHR '' '' # ?v) =
      fst r # match_all key_re None (CHR '' '' # ?v)"
    by (rule match_take) simp
  have spaces: "unquoted ''  ''" "unquoted '' ''" "unquoted [CHR '','', CHR 0x0A]"
    by (simp_all add: unquoted_def is_quote_def)
  have "match_all key_re None (CHR '' '' # ?v) = match_all key_re None ([CHR '','', CHR 0x0A] @ s)"
    using match_quiet [OF spaces(2), of None ?v] value_no_key [OF assms(2)] by (simp del: match_all.simps)
  also have "\<dots> = match_all key_re None s" by (rule match_quiet [OF spaces(3)])
  finally show ?thesis
    using match_quiet [OF spaces(1), of p "CHR 0x22 # fst r @ CHR 0x22 # CHR '':'' # CHR '' '' # ?v"] key
    by (simp add: row_text_def del: match_all.simps)
qed

lemma table_keys:
  assumes "\<forall>r \<in> set rows. key_shape (fst r) \<and> unquoted (snd r)"
  shows "match_all key_re p (table_text rows) = map fst rows"
  using assms by (induction rows arbitrary: p) (simp_all add: table_text_def row_key)

text \<open>So of a table whose keys are different and whose messages have no quotation mark, they are its keys.\<close>

lemma catalogKeys_table:
  assumes "\<forall>r \<in> set rows. key_shape (fst r) \<and> unquoted (snd r)" "distinct (map fst rows)"
  shows "catalogKeys (table_text rows) = map fst rows"
  using assms by (simp add: catalogKeys_def table_keys js_set_distinct)

text \<open>A message that quotes a name in front of a colon adds a key that is none.\<close>

lemma quoted_message_counts:
  "catalogKeys (row_text (''a.b'', [CHR 0x27] @ ''c.d'' @ [CHR 0x27] @ '': no'')) = [''a.b'', ''c.d'']"
  by code_simp

end
