(* ===== verification/Spec2Isabelle.thy ===== *)
theory Spec2Isabelle
  imports Edits Preview_Prune Issues Line_Diff Ui_Store Save_Review Recents I18n Router Layout Relations
    Search_Palette Anchors Code_Mode App_Shell Palette Adapter_Form Config_Panel Filters Review_Dialog
    New_Index Node_View Canvas_View Sample Highlight Inspector Inspector_Panel Widgets Tables_Browser
    Code_View Preview_View App_View Node_Rows Diff_Pane Catalogs Editor_Pane Inspector_Forms
    Palette_Pane Deployment_View Dialog_Views Catalog_View Work_Panes Filter_Form Node_Menus
    Locale_Check
begin

text \<open>
  The schema designer of flusso (\<^verbatim>\<open>src/apps/design/frontend/src\<close>, TypeScript), its logic in HOL,
  with the two routes of its server that a save goes through (\<^verbatim>\<open>src/apps/design/src/api.rs\<close>).

  The program. A project is a configuration (\<^verbatim>\<open>flusso.toml\<close>) and one schema file per index. The
  designer holds both as a document in the design store, edits the document by path-addressed
  edits of a schema's tree, shows a schema as a graph on a canvas or as text in Code mode, and
  saves by planning file operations, reviewing their diff and having the server apply them.

  The theories, in the order of their imports.

    \<^item> \<^verbatim>\<open>Js_Prelude\<close>, \<^verbatim>\<open>Js_Object\<close>, \<^verbatim>\<open>Js_Value\<close>: what the TypeScript uses of JavaScript. A result that
      may throw is \<^typ>\<open>'a res\<close>; an object is a list of entries in enumeration order, with the
      locale \<open>record_store\<close> as its interface; \<open>localStorage\<close> is a map with the locale \<open>kv_store\<close>.
      \<^verbatim>\<open>Js_Value\<close> also models \<^verbatim>\<open>model/generic.ts\<close>.
    \<^item> \<^verbatim>\<open>Schema\<close> (\<^verbatim>\<open>api.ts\<close>), \<^verbatim>\<open>Field_Kinds\<close> (\<^verbatim>\<open>fields.ts\<close>): the data, and the requests of the client.
    \<^item> \<^verbatim>\<open>Schema_Tree\<close> (\<^verbatim>\<open>model/tree.ts\<close>), \<^verbatim>\<open>Edits\<close> (\<^verbatim>\<open>model/edit.ts\<close>): reading and rebuilding at a path,
      whose laws are the locale \<open>path_store\<close>, interpreted as \<open>tree\<close>; every edit is a function of
      the children at a path, so its effect, its frame and its inverse follow from those laws.
    \<^item> \<^verbatim>\<open>Preview_Prune\<close> (\<^verbatim>\<open>model/prune.ts\<close>, \<^verbatim>\<open>model/complete.ts\<close>), \<^verbatim>\<open>Issues\<close> (\<^verbatim>\<open>model/issues.ts\<close>), \<^verbatim>\<open>Theme\<close>,
      \<^verbatim>\<open>Relations\<close> (\<^verbatim>\<open>model/relations.ts\<close>): functions of a schema and the catalog.
    \<^item> \<^verbatim>\<open>Design_Store\<close>, \<^verbatim>\<open>Ui_Store\<close> (\<^verbatim>\<open>store/\<close>): the two stores, a record each and a function per
      action; \<^verbatim>\<open>store_step\<close> is the step relation of the actions, its invariant is \<^const>\<open>active_ok\<close>.
    \<^item> \<^verbatim>\<open>Line_Diff\<close> (\<^verbatim>\<open>model/diff.ts\<close>, \<^verbatim>\<open>components/DiffView.tsx\<close>), \<^verbatim>\<open>Save_Review\<close> (\<^verbatim>\<open>App.tsx\<close> and the
      server), \<^verbatim>\<open>Review_Dialog\<close>: the diff against the reference \<^const>\<open>lcs_len\<close>, the plan of a save, its
      review and what the disk holds afterwards. \<^verbatim>\<open>Diff_Pane\<close>: what the review paints, read back.
      \<^verbatim>\<open>Dialog_Views\<close>: the review and the wizard for a new index as data, everything a user does in
      them as the step relations \<^verbatim>\<open>review_step\<close> and \<^verbatim>\<open>wizard_step\<close>.
    \<^item> \<^verbatim>\<open>Code_Mode\<close>, \<^verbatim>\<open>App_Shell\<close>, \<^verbatim>\<open>New_Index\<close> (\<^verbatim>\<open>App.tsx\<close>), \<^verbatim>\<open>Anchors\<close> (\<^verbatim>\<open>model/anchors.ts\<close>), \<^verbatim>\<open>Router\<close>: the
      buffer with its timers, open requests and replies as a step relation \<^verbatim>\<open>code_step\<close>, every
      interleaving of them a run; routing, loading, validation and the keys. \<^verbatim>\<open>App_View\<close>: what
      the bars, the sidebar, the main area and the drawer show, as data.
    \<^item> \<^verbatim>\<open>Recents\<close>, \<^verbatim>\<open>Search_Palette\<close>, \<^verbatim>\<open>Palette\<close>: the search, its ranking and what a choice does;
      \<^verbatim>\<open>Palette_Pane\<close>: the rows, the preview and the hints that are shown.
    \<^item> \<^verbatim>\<open>Layout\<close> (\<^verbatim>\<open>model/layout.ts\<close>), \<^verbatim>\<open>Canvas_View\<close>, \<^verbatim>\<open>Node_View\<close>: the canvas and its nodes;
      \<^verbatim>\<open>Node_Rows\<close>: what a node shows, drawn from the projected node and edited in the schema;
      \<^verbatim>\<open>Node_Menus\<close>: the menus at its foot; \<^verbatim>\<open>Work_Panes\<close>: the buttons over the canvas and the preview
      drawer, whose document tree is folded by place.
    \<^item> \<^verbatim>\<open>Adapter_Form\<close>, \<^verbatim>\<open>Config_Panel\<close>, \<^verbatim>\<open>Filters\<close>, \<^verbatim>\<open>Widgets\<close>: the forms and their inputs;
      \<^verbatim>\<open>Filter_Form\<close>: the filter form and the pickers as data, a lens as the other forms are;
      \<^verbatim>\<open>Deployment_View\<close>: the screen of the deployment with the adapters' forms, a lens over the
      configuration as the inspector is over a field. \<^verbatim>\<open>I18n\<close>: the
      message formatter; \<^verbatim>\<open>Catalogs\<close> (\<^verbatim>\<open>locales/\<close>): the two tables of messages and which arguments each
      message names; \<^verbatim>\<open>Locale_Check\<close> (\<^verbatim>\<open>scripts/check-i18n.mjs\<close>): the check of the tables' keys.
    \<^item> \<^verbatim>\<open>Inspector\<close> (\<^verbatim>\<open>components/Inspector.tsx\<close>): what each control makes of the part it edits;
      \<^verbatim>\<open>Inspector_Panel\<close>: the panels on the schema, with \<open>same_shape\<close>, that two lists of fields have the
      same paths, as what every form keeps. \<^verbatim>\<open>Inspector_Forms\<close>: the forms as data, which with the edits
      are lenses: a control that is offered shows afterwards what it was set to.
    \<^item> \<^verbatim>\<open>Tables_Browser\<close> (\<^verbatim>\<open>components/CatalogBrowser.tsx\<close>) with \<^verbatim>\<open>Catalog_View\<close>, what it shows, \<^verbatim>\<open>Code_View\<close> (\<^verbatim>\<open>components/CodeView.tsx\<close>,
      \<^verbatim>\<open>model/format.ts\<close>) with \<^verbatim>\<open>Editor_Pane\<close>, the editor's text against its parent's value as the step
      relation \<^verbatim>\<open>editor_step\<close>, \<^verbatim>\<open>Highlight\<close> (\<^verbatim>\<open>components/highlight.tsx\<close>), \<^verbatim>\<open>Preview_View\<close>
      (\<^verbatim>\<open>components/Preview.tsx\<close>, whose requests are the step relation \<^verbatim>\<open>sample_step\<close>).
    \<^item> \<^verbatim>\<open>Sample\<close>: one small project at which the theorems below are evaluated.

  Fuel. \<^const>\<open>autoLayout\<close> recurses with one more than the deepest node of the graph, which is enough
  because a child is one deeper than its parent (\<open>place_answers\<close>); \<^const>\<open>format_message\<close> with
  one more than the number of opening braces, which every argument body has fewer of
  (\<open>format_answers\<close>); the candidates of a fresh name with one more than the names taken, as
  pairwise distinct candidates cannot all be taken (\<open>fresh_name\<close>). \<^const>\<open>resolve_schema\<close> has the eight
  rounds of the code itself.

  Bounds. A string is a list of characters below 256 (\<^verbatim>\<open>Catalogs\<close> writes the few others as
  control characters); numbers are exact rationals where the code
  computes with them (layout, scores), so no rounding is modelled; \<open>JSON.stringify\<close> and \<open>parse\<close>
  are an abstract pair that drops what JSON cannot hold. Time, identifiers, the search engine,
  the translator and the server's code generator are arguments.

  Not modelled. The class names and layout boxes of the components and React's scheduling (only
  the order of the effects where behaviour depends on it), React Flow, CodeMirror, cmdk and the undo
  package; the Rust
  crates but for the two routes; directories, temporary files and I/O failures of a save.

  The theorems C1 to C40 are the development's properties; those marked as a known fault or loss
  state what the code does where it does not do what it means to.
\<close>

section \<open>Saving\<close>







text \<open>C2: A known loss: when an index is deleted and another one (a new id) is put at its file in
  the same save, the server writes the new file and then removes it, because removals come after
  the writes. The saved index has no file afterwards.\<close>

theorem recreated_index_is_deleted:
  assumes "save_project sv disk config (map pl_op (buildOps (Some d) (Some sd))) skip = Inr (disk', r)"
    and "q \<in> set (entries_of (doc_config sd))" and "truthy (e_id q)"
    and "\<forall>e \<in> set (entries_of (doc_config d)). e_id e \<noteq> e_id q"
    and "disk (at_path sv q) \<noteq> None" and "at_path sv q \<notin> set skip"
    and "e \<in> set (entries_of (doc_config d))" and "at_path sv e = at_path sv q"
  shows "disk' (at_path sv e) = None"
  using assms by (rule recreated_index_lost)

definition recreated_doc :: doc where
  "recreated_doc =
     \<lparr>doc_config = (config_of [])\<lparr>cfg_index := Some [(entry_of ''a'')\<lparr>e_id := Some ''new''\<rparr>]\<rparr>,
      doc_schemas = [(''a'', users_schema)]\<rparr>"

lemma recreated_saved:
  "case save_project plain_server plain_disk (config_of [''a''])
      (map pl_op (buildOps (Some recreated_doc) (Some empty_doc))) [] of
     Inr x \<Rightarrow> True | Inl e \<Rightarrow> False"
  by code_simp

theorem recreated_index_is_deleted_witness:
  "\<exists>disk' r. save_project plain_server plain_disk (config_of [''a''])
      (map pl_op (buildOps (Some recreated_doc) (Some empty_doc))) [] = Inr (disk', r) \<and>
    disk' ''a.schema.yml'' = None"
proof -
  obtain disk' r where run: "save_project plain_server plain_disk (config_of [''a''])
      (map pl_op (buildOps (Some recreated_doc) (Some empty_doc))) [] = Inr (disk', r)"
    using recreated_saved by (auto split: sum.splits)
  let ?e = "(entry_of ''a'')\<lparr>e_id := Some ''new''\<rparr>"
  have path: "at_path plain_server ?e = ''a.schema.yml''" "at_path plain_server (entry_of ''a'') = ''a.schema.yml''"
    by code_simp+
  have "entries_of (doc_config recreated_doc) = [?e]" by (simp add: recreated_doc_def)
  then show ?thesis
    using recreated_index_is_deleted [OF run, of "entry_of ''a''" ?e] path run
    by (auto simp: empty_doc_def truthy_def plain_disk_def)
qed

text \<open>C3: A save that fails changes nothing but the message: the document, the snapshot and the
  open review stay, and another save can start.\<close>

theorem failed_save_keeps_review:
  assumes "app_doc a = Some d" and "ui_diffs (ap_ui a) = Some rds"
    and "api (api_save (doc_config d) (map pl_op (buildOps (Some d) (app_saved a))) (skip_set (Some d) (app_saved a) rds skip)) = Inl e"
  shows "ap_design (performSave t api skip a) = ap_design a \<and>
    ui_diffs (ap_ui (performSave t api skip a)) = Some rds \<and> \<not> ui_saving (ap_ui (performSave t api skip a))"
  using assms(3,1,2) by (rule performSave_failure)

theorem failed_save_keeps_review_witness:
  "ui_diffs (ap_ui (performSave (\<lambda>k v. k) (\<lambda>rq. Inl (Thrown ''disk full'')) []
     (on_ui (setDiffs (Some [])) (app_of ''a'' empty_doc users_doc)))) = Some []"
  using failed_save_keeps_review [of "on_ui (setDiffs (Some [])) (app_of ''a'' empty_doc users_doc)" users_doc "[]"
      "\<lambda>rq. Inl (Thrown ''disk full'')" "[]" "Thrown ''disk full''" "\<lambda>k v. k"]
  by (simp add: on_ui_def setDiffs_def)

section \<open>The review's diff\<close>

text \<open>C4: What the review paints of a file is faithful to both versions of it: with no gap left folded, the
  first column, read line by line with its numbers and without what is marked as added, is the
  current file (unless only the new side is shown), and the last column is the next one.\<close>

theorem pane_shows_both_files:
  assumes "no_gap (pane c n mode expanded)"
  shows "(mode \<noteq> NewSide \<longrightarrow> reads_as (concat (map read_old (hd (pane c n mode expanded)))) (file_lines c)) \<and>
    (mode \<noteq> OldSide \<longrightarrow> reads_as (concat (map read_new (last (pane c n mode expanded)))) (file_lines n))"
  using pane_reads [OF assms] by simp

theorem pane_shows_both_files_witness:
  "reads_as (concat (map read_new (last (pane ''a'' ''b'' Split [])))) [(Some 1, ''b'')]"
proof -
  have "no_gap (pane ''a'' ''b'' Split [])" "file_lines ''b'' = [(Some 1, ''b'')]" by code_simp+
  then show ?thesis using pane_shows_both_files [of "''a''" "''b''" Split "[]"] by simp
qed

text \<open>C5: The diff is minimal: no list of rows that shows both files has fewer added or fewer
  removed rows than \<open>diffStats\<close> counts, so the dynamic program finds a longest common
  subsequence of the lines.\<close>

theorem diff_is_minimal:
  assumes "map r_text (old_rows rows) = splitLines c" and "map r_text (new_rows rows) = splitLines n"
  shows "fst (diffStats c n) \<le> length (filter (\<lambda>r. r_type r = Add) rows) \<and>
    snd (diffStats c n) \<le> length (filter (\<lambda>r. r_type r = Del) rows)"
  using assms by (rule diffLines_minimal)

definition replaced_rows :: "row list" where
  "replaced_rows =
     [\<lparr>r_type = Del, r_text = ''a'', r_oldNo = Some 1, r_newNo = None, r_seg = None\<rparr>,
      \<lparr>r_type = Add, r_text = ''b'', r_oldNo = None, r_newNo = Some 1, r_seg = None\<rparr>]"

theorem diff_is_minimal_witness: "fst (diffStats ''a'' ''b'') \<le> 1"
proof -
  have "map r_text (old_rows replaced_rows) = splitLines ''a''" "map r_text (new_rows replaced_rows) = splitLines ''b''"
    by code_simp+
  from diff_is_minimal [OF this] show ?thesis by (simp add: replaced_rows_def)
qed

section \<open>The document store\<close>



text \<open>C7: Renaming indexes in place, to names the configuration does not use yet, carries each schema to
  the index's new name.\<close>

theorem rename_keeps_schemas:
  assumes "ds_doc s = Some d" and "inplace_rename (names_of (doc_config d)) (names_of new)"
    and "set (obj_keys (doc_schemas d)) \<subseteq> set (names_of (doc_config d))" and "i < length (names_of new)"
  shows "\<exists>d'. ds_doc (setConfig newId new s) = Some d' \<and>
    obj_get (doc_schemas d') (names_of new ! i) = obj_get (doc_schemas d) (names_of (doc_config d) ! i)"
  using assms by (rule setConfig_rename_gen)

theorem rename_keeps_schemas_witness:
  "\<exists>d'. ds_doc (setConfig (\<lambda>i. ''i'') (config_of [''c'', ''b'']) (design_of ''a'' two_docs two_docs)) = Some d' \<and>
     obj_get (doc_schemas d') ''c'' = Some users_schema"
  using rename_keeps_schemas [of "design_of ''a'' two_docs two_docs" two_docs "config_of [''c'', ''b'']" 0 "\<lambda>i. ''i''"]
  by (simp add: two_docs_def inplace_rename_def obj_keys_def obj_get_def)

text \<open>C8: An edit of the canvas or the inspector touches the active index's schema and nothing
  else of the store: not the configuration, not another schema, not the view.\<close>

theorem edit_touches_one_schema:
  assumes "apply_edit fn s = Inr s'" and "ds_doc s = Some d" and "ds_active s \<noteq> ''config''"
  shows "\<exists>d' x. ds_doc s' = Some d' \<and> doc_config d' = doc_config d \<and>
    fn (case obj_get (doc_schemas d) (ds_active s) of None \<Rightarrow> emptySchema '''' None | Some y \<Rightarrow> y) = Inr x \<and>
    obj_get (doc_schemas d') (ds_active s) = Some x \<and>
    (\<forall>k. k \<noteq> ds_active s \<longrightarrow> obj_get (doc_schemas d') k = obj_get (doc_schemas d) k) \<and>
    s'\<lparr>ds_doc := ds_doc s\<rparr> = s"
  using assms by (rule apply_edit_frame)

theorem edit_touches_one_schema_witness:
  "\<exists>s' d'. apply_edit (\<lambda>x. Inr (emptySchema ''t'' None)) (design_of ''a'' two_docs two_docs) = Inr s' \<and>
     ds_doc s' = Some d' \<and> obj_get (doc_schemas d') ''b'' = Some (emptySchema ''orders'' None)"
proof -
  obtain s' where s': "apply_edit (\<lambda>x. Inr (emptySchema ''t'' None)) (design_of ''a'' two_docs two_docs) = Inr s'"
    by (simp add: apply_edit_def)
  from edit_touches_one_schema [OF this, of two_docs] s' show ?thesis
    by (fastforce simp: two_docs_def obj_get_def)
qed

section \<open>Edits of the tree\<close>



text \<open>C10: The canvas graph has one node per container of the schema, the root included, each under
  an identity of its own.\<close>

theorem graph_of_the_schema:
  "map n_path (gr_nodes (projectGraph schema)) = container_paths (s_fields schema) \<and>
   set (map n_path (gr_nodes (projectGraph schema))) = {p. live_path schema p} \<and>
   distinct (map n_id (gr_nodes (projectGraph schema)))"
  by (simp only: graph_paths set_container_paths graph_ids_distinct live_path_def)

text \<open>C11: The tidy layout answers within its fuel for every schema; each node stands in the column of
  its depth, and two nodes of a column are at least the gap apart, whatever their heights.\<close>

theorem layout_never_overlaps:
  assumes "\<And>n. 0 \<le> h n"
  shows "\<exists>pos. autoLayout (gr_nodes (projectGraph schema)) h = Some pos \<and>
    (\<forall>n \<in> set (gr_nodes (projectGraph schema)).
       \<exists>y. obj_get pos (n_id n) = Some (of_nat (n_depth n) * COL_W, y) \<and> 0 \<le> y) \<and>
    (\<forall>m \<in> set (gr_nodes (projectGraph schema)). \<forall>n \<in> set (gr_nodes (projectGraph schema)).
       m \<noteq> n \<and> n_depth m = n_depth n \<longrightarrow> clear_of h pos m n)"
  using assms by (rule layout_answers)

theorem layout_never_overlaps_witness:
  "\<exists>pos. autoLayout (gr_nodes (projectGraph users_schema)) (estimateHeight None) = Some pos"
proof -
  have "0 \<le> estimateHeight None n" for n using estimateHeight_bounds(1) [of None n] by linarith
  from layout_never_overlaps [of "estimateHeight None" users_schema, OF this] show ?thesis by (elim exE conjE) (rule exI)
qed


text \<open>C13: \<open>Fix all\<close> removes every type mismatch and nothing else from the issues: the errors stay,
  the warnings go, and a second run changes nothing.\<close>

theorem fix_all_types_fixes:
  "countTypeMismatches (fixAllTypes schema catalog) catalog = 0 \<and>
   fixAllTypes (fixAllTypes schema catalog) catalog = fixAllTypes schema catalog \<and>
   requiredDefaultIssues (fixAllTypes schema catalog) catalog index t =
     filter (\<lambda>d. dg_severity d = ''error'') (requiredDefaultIssues schema catalog index t)"
  by (simp add: countTypeMismatches_fix fixAllTypes_none issues_fix)

text \<open>C14: A suggested relation is complete as it is offered: on a catalog with its keys, the join it
  builds needs no further input and is named like its target.\<close>

theorem suggested_join_complete:
  assumes "catalog_ok catalog" and "s \<in> set (suggestRelations catalog fromTable)"
  shows "\<not> joinIncomplete (Some (su_build s)) \<and> f_field (su_build s) = su_target s \<and> su_target s \<noteq> ''''"
  using assms by (rule suggestion_complete)

definition shop_catalog :: catalog_response where
  "shop_catalog =
     \<lparr>cat_tables =
        [\<lparr>t_schema = ''public'', t_name = ''users'', t_columns = [], t_primary_key = [''id''], t_foreign_keys = []\<rparr>,
         \<lparr>t_schema = ''public'', t_name = ''orders'', t_columns = [], t_primary_key = [''id''],
          t_foreign_keys = [\<lparr>fk_columns = [''user_id''], fk_references_schema = ''public'',
            fk_references_table = ''users'', fk_references_columns = [''id'']\<rparr>]\<rparr>],
      cat_junctions = [], cat_error = None\<rparr>"

theorem suggested_join_complete_witness:
  "\<exists>s. suggestRelations shop_catalog ''orders'' = [s] \<and> su_target s = ''users'' \<and> \<not> joinIncomplete (Some (su_build s))"
proof -
  have one: "length (suggestRelations shop_catalog ''orders'') = 1 \<and>
      map su_target (suggestRelations shop_catalog ''orders'') = [''users'']" by code_simp
  then obtain s where s: "suggestRelations shop_catalog ''orders'' = [s]" by (auto simp: length_Suc_conv)
  have "catalog_ok shop_catalog" by code_simp
  from suggested_join_complete [OF this, of s "''orders''"] s one show ?thesis by simp
qed

section \<open>The canvas\<close>

text \<open>C15: What is collapsed survives a reload: toggling a node of the active index and loading the
  stored set gives the state after the toggle.\<close>

theorem collapse_survives_reload:
  assumes "st_usable st" and "ds_active s \<noteq> ''config''" and "ds_doc s = Some d"
    and "obj_get (doc_schemas d) (ds_active s) = Some schema"
    and "distinct (ds_collapsed s)" and "set (ds_collapsed s) \<subseteq> set (live_ids schema)"
    and "i \<in> set (live_ids schema)" and "toggleCollapsed i s st = (s', st')"
  shows "loadCollapsed (ds_active s) s st' = Inr (s', st') \<and>
    (i \<in> set (ds_collapsed s') \<longleftrightarrow> i \<notin> set (ds_collapsed s))"
  using assms by (rule toggle_reload)

lemma sample_collapsed [simp]: "ds_collapsed (design_of n sd d) = []"
  by (simp add: design_of_def init_design_def)

lemma sample_storage [simp]: "st_usable empty_storage"
  by (simp add: st_usable_def empty_storage_def)

lemma root_live: "pathId [] \<in> set (live_ids users_schema)"
  by code_simp

theorem collapse_survives_reload_witness:
  "\<exists>s' st'. toggleCollapsed (pathId []) (design_of ''a'' users_doc users_doc) empty_storage = (s', st') \<and>
     loadCollapsed ''a'' (design_of ''a'' users_doc users_doc) st' = Inr (s', st')"
proof -
  obtain s' st' where t: "toggleCollapsed (pathId []) (design_of ''a'' users_doc users_doc) empty_storage = (s', st')"
    by (metis surj_pair)
  show ?thesis
    using collapse_survives_reload [OF sample_storage _ _ _ _ _ root_live t, of users_doc] t
    by (simp add: users_doc_def obj_get_def)
qed

definition previous_collapsed :: design_state where
  "previous_collapsed = (design_of ''b'' two_docs two_docs)\<lparr>ds_collapsed := [pathId [], pathId [1]]\<rparr>"

definition remembered_storage :: storage where
  "remembered_storage = persistCollapsed ''b'' [] empty_storage"

lemma previous_switched:
  "case switch_effects None ''b'' (emptySchema ''orders'' None) (init_canvas ''b'' remembered_storage, previous_collapsed, remembered_storage) of
     Inr x \<Rightarrow> True | Inl e \<Rightarrow> False"
  by code_simp

lemma orders_live: "live_ids (emptySchema ''orders'' None) = [pathId []]"
  by code_simp

text \<open>C16: A focus request is served once and only when its node is there: before, it waits and nothing
  changes; then the node is expanded, the request cleared and the canvas asked to fit the node.\<close>

theorem focus_request_served:
  assumes "ds_focus s = Some (index, nodeId)" and "focus_effect indexName c (s, st) = ((s', st'), r)"
  shows "if index = indexName \<and> nodeId \<in> set (map (\<lambda>v. n_id (vn_node v)) (cv_nodes c))
    then nodeId \<notin> set (ds_collapsed s') \<and> ds_focus s' = None \<and> r = Some (Fit_node nodeId) \<and>
      focus_effect indexName c (s', st') = ((s', st'), None)
    else s' = s \<and> st' = st \<and> r = None"
  using focus_done [of s indexName nodeId c st s' st' r] focus_waits [of s index nodeId indexName c st] assms by auto

definition users_canvas :: canvas where
  "users_canvas = (init_canvas ''a'' empty_storage)
     \<lparr>cv_nodes := map (\<lambda>n. \<lparr>vn_node = n, vn_position = (0, 0), vn_measured = None\<rparr>) (gr_nodes (projectGraph users_schema))\<rparr>"

definition focusing :: design_state where
  "focusing = (design_of ''a'' users_doc users_doc)\<lparr>ds_collapsed := [pathId [1]], ds_focus := Some (''a'', pathId [1])\<rparr>"

theorem focus_request_served_witness:
  "\<exists>s' st'. focus_effect ''a'' users_canvas (focusing, empty_storage) = ((s', st'), Some (Fit_node (pathId [1]))) \<and>
     pathId [1] \<notin> set (ds_collapsed s')"
proof -
  obtain s' st' r where run: "focus_effect ''a'' users_canvas (focusing, empty_storage) = ((s', st'), r)"
    by (metis surj_pair)
  have "live_path users_schema [1]"
    by (simp add: live_path_def path_simps users_schema_def email_field_def orders_field_def js_get_def child_list_def is_container_def)
  then have "[1] \<in> set (map n_path (gr_nodes (projectGraph users_schema)))"
    by (simp add: graph_paths set_container_paths live_path_def)
  then obtain n where n: "n \<in> set (gr_nodes (projectGraph users_schema))" "n_path n = [1]" by auto
  then have "pathId [1] \<in> set (map (\<lambda>v. n_id (vn_node v)) (cv_nodes users_canvas))"
    using graph_node_id [OF n(1)] by (auto simp: users_canvas_def image_iff intro!: bexI [of _ n])
  then show ?thesis
    using focus_request_served [OF _ run, of "''a''" "pathId [1]"] run by (simp add: focusing_def)
qed

section \<open>Code mode\<close>

text \<open>C17: A reply to a parse writes only what the buffer still says: in every reachable state in which
  the buffer is synced, the reply leaves the document alone or puts its schema at the index and for
  the text that are now open.\<close>

theorem reply_matches_buffer:
  assumes "code_reachable st" and "(seq, index, txt0) \<in> set (cm_open st)" and "sync_on st"
    and "app_doc (cm_app st) = Some d" and "st' = settle st (parse_reply (seq, index, txt0) (Inr resp) st)"
  shows "app_doc (cm_app st') = Some d \<or>
    (index = cm_active st \<and> txt0 = cm_rawText st \<and>
     (\<exists>parsed. pr_schema resp = Some parsed \<and>
        app_doc (cm_app st') = Some (d\<lparr>doc_schemas := obj_put (doc_schemas d) index parsed\<rparr>)))"
  using assms by (rule synced_reply)

definition code_start :: code_state where
  "code_start = code_init (app_of ''a'' two_docs two_docs)"

definition code_waiting :: code_state where
  "code_waiting = fire_sync (settle code_start (openRaw code_start))"

definition parsed_reply :: parse_response where
  "parsed_reply =
     \<lparr>pr_schema = Some (emptySchema ''t'' None), pr_error = None, pr_location = None, pr_field = None, pr_type_tag = None\<rparr>"

lemma code_waiting_reachable: "code_reachable code_waiting"
proof -
  have "\<not> ui_rawMode (init_ui empty_storage)" by code_simp
  then have "code_reachable code_start" unfolding code_start_def by (intro code_reachable.start) simp
  then show ?thesis unfolding code_waiting_def by (blast intro: code_reachable.step code_step.intros)
qed

lemma code_waiting_facts:
  "cm_open code_waiting = [(1, ''a'', '''')]" "cm_rawMode code_waiting" "cm_active code_waiting = ''a''"
  "cm_rawFor code_waiting = ''a''" "cm_seq code_waiting = 1"
  by (code_simp, code_simp, code_simp, code_simp, code_simp)

lemma settle_doc: "app_doc (cm_app (settle old st)) = app_doc (cm_app st)"
  by (simp add: settle_frame)

lemma code_waiting_doc: "app_doc (cm_app code_waiting) = Some two_docs"
  by (simp add: code_waiting_def fire_sync_def settle_doc code_start_def code_init_def openRaw_def code_frames Let_def
      split: option.splits)

theorem reply_matches_buffer_witness:
  "let st' = settle code_waiting (parse_reply (1, ''a'', '''') (Inr parsed_reply) code_waiting) in
     app_doc (cm_app st') = Some two_docs \<or>
     app_doc (cm_app st') = Some (two_docs\<lparr>doc_schemas := obj_put (doc_schemas two_docs) ''a'' (emptySchema ''t'' None)\<rparr>)"
proof -
  have "(1, ''a'', '''') \<in> set (cm_open code_waiting)" "sync_on code_waiting"
    by (simp_all add: code_waiting_facts sync_on_def)
  from reply_matches_buffer [OF code_waiting_reachable this code_waiting_doc refl, of parsed_reply]
  show ?thesis by (auto simp: Let_def parsed_reply_def)
qed

text \<open>C18: A known race: with a parse of one index still open, switching to another index and then
  receiving the reply writes the first index's schema over the second's.\<close>

theorem switch_writes_other_index:
  assumes "sync_on st" and "b \<noteq> cm_active st" and "b \<noteq> ''config''" and "app_doc (cm_app st) = Some d"
    and "pr_schema resp = Some parsed" and "obj_get (doc_schemas d) (cm_active st) \<noteq> Some parsed"
    and "st1 = settle st (on_app (on_design (openIndex b)) st)"
    and "st2 = settle st1 (parse_reply (cm_seq st, cm_active st, txt0) (Inr resp) st1)"
  shows "cm_active st2 = b \<and> schema_at (cm_app st2) b = Some parsed"
  using assms by (rule switch_index_race)

theorem switch_writes_other_index_witness:
  "let st1 = settle code_waiting (on_app (on_design (openIndex ''b'')) code_waiting);
       st2 = settle st1 (parse_reply (1, ''a'', '''') (Inr parsed_reply) st1)
   in schema_at (cm_app st2) ''b'' = Some (emptySchema ''t'' None)"
proof -
  have on: "sync_on code_waiting" by (simp add: code_waiting_facts sync_on_def)
  have ne: "obj_get (doc_schemas two_docs) ''a'' \<noteq> Some (emptySchema ''t'' None)"
    by (simp add: two_docs_def obj_get_def users_schema_def emptySchema_def)
  show ?thesis
    using switch_writes_other_index [OF on _ _ code_waiting_doc _ _ refl refl, of "''b''" parsed_reply] ne
    by (simp add: Let_def code_waiting_facts parsed_reply_def)
qed

section \<open>Addresses and keys\<close>

text \<open>C19: The address of a view reads back as the view; an index of any name, slashes, percent signs
  and spaces included, keeps it through the encoding.\<close>

theorem route_roundtrip:
  assumes "\<And>name code. r = Index name code \<Longrightarrow> name \<noteq> ''''"
  shows "parseRoute (formatRoute r) = Inr (Some r)"
  using assms by (cases r) (simp_all add: parse_format_index parse_format_views)

theorem route_roundtrip_witness: "parseRoute (formatRoute (Index ''a/b 50%'' True)) = Inr (Some (Index ''a/b 50%'' True))"
  by (rule route_roundtrip) simp



text \<open>C21: A key press that is not undo or redo touches at most the schema of the active index; while
  the user types in a field it touches no schema at all.\<close>

theorem keys_touch_active_schema:
  assumes "handleKey en e sh = Inr sh'" and "app_doc (sh_app sh) = Some d"
    and "ke_editing e \<or> to_lower (ke_key e) \<noteq> ''z''"
  shows "\<exists>d'. app_doc (sh_app sh') = Some d' \<and> doc_config d' = doc_config d \<and>
    (\<forall>n. n \<noteq> ds_active (ap_design (sh_app sh)) \<longrightarrow> obj_get (doc_schemas d') n = obj_get (doc_schemas d) n) \<and>
    (ke_editing e \<longrightarrow> d' = d)"
proof (cases "ke_editing e")
  case True
  then show ?thesis using handleKey_typing [OF True, of en sh] assms(1,2) by auto
next
  case False
  show ?thesis
  proof (cases "delete_selection sh = Inr sh'")
    case True
    with delete_selection_frame [OF True assms(2)] False show ?thesis by blast
  next
    case other: False
    have "app_doc (sh_app sh') = Some d"
      using assms other False
      by (auto simp: handleKey_def Let_def shell_frames save_doc split: if_splits)
    then show ?thesis by simp
  qed
qed

definition plain_env :: shell_env where
  "plain_env =
     \<lparr>en_undo = id, en_redo = id, en_canUndo = False, en_canRedo = False, en_t = (\<lambda>k v. k),
      en_diff = (\<lambda>rq. Inl TypeError), en_validate = (\<lambda>rq. Inl TypeError)\<rparr>"

definition field_shell :: shell where
  "field_shell =
     \<lparr>sh_code = code_init ((app_of ''a'' two_docs two_docs)
        \<lparr>ap_design := setSelection (Some (Field_sel [] 0)) (design_of ''a'' two_docs two_docs)\<rparr>),
      sh_paletteOpen = False, sh_newIndexOpen = False\<rparr>"

definition delete_key :: key_event where
  "delete_key = \<lparr>ke_key = ''Delete'', ke_meta = False, ke_ctrl = False, ke_shift = False, ke_editing = False\<rparr>"

lemma delete_key_runs: "case handleKey plain_env delete_key field_shell of Inr x \<Rightarrow> True | Inl e \<Rightarrow> False"
  by code_simp

theorem keys_touch_active_schema_witness:
  "\<exists>sh' d'. handleKey plain_env delete_key field_shell = Inr sh' \<and> app_doc (sh_app sh') = Some d' \<and>
     obj_get (doc_schemas d') ''b'' = Some (emptySchema ''orders'' None)"
proof -
  obtain sh' where run: "handleKey plain_env delete_key field_shell = Inr sh'"
    using delete_key_runs by (auto split: sum.splits)
  have "app_doc (sh_app field_shell) = Some two_docs" "ds_active (ap_design (sh_app field_shell)) = ''a''"
    by (simp_all add: field_shell_def code_init_def setSelection_def)
  moreover have "to_lower (ke_key delete_key) \<noteq> ''z''" by code_simp
  ultimately show ?thesis
    using keys_touch_active_schema [OF run, of two_docs] run by (auto simp: two_docs_def obj_get_def)
qed

section \<open>Search and the palette\<close>

text \<open>C22: Every record the search offers leads somewhere: its target names an index of the
  configuration, a container of a schema, a leaf that exists, or a fixed view.\<close>

theorem every_record_resolves:
  assumes "r \<in> set (buildSearchRecords d catalog t dash)"
  shows "\<exists>x. rc_target r = Some x \<and> resolves d x"
  using assms by (rule record_resolves)

theorem every_record_resolves_witness:
  "\<exists>r. buildSearchRecords users_doc None (\<lambda>k v. k) ''-'' \<noteq> [] \<and> hd (buildSearchRecords users_doc None (\<lambda>k v. k) ''-'') = r \<and>
     (\<exists>x. rc_target r = Some x \<and> resolves users_doc x)"
proof -
  have "buildSearchRecords users_doc None (\<lambda>k v. k) ''-'' \<noteq> []"
    by (simp add: buildSearchRecords_def Let_def users_doc_def)
  from every_record_resolves [OF hd_in_set [OF this]] this show ?thesis by blast
qed

text \<open>C23: Choosing a field in the palette lands on it: its index is shown, the selection is the leaf,
  the canvas is asked to focus the node that holds it, and that node and leaf are in the graph.\<close>

theorem chosen_field_is_shown:
  assumes "r \<in> set (buildSearchRecords d catalog t dash)" and "rc_target r = Some (To_field name path leaf)"
    and "app_doc a = Some d" and "obj_wf (doc_schemas d)" and "name \<noteq> ''config''"
  shows "\<exists>schema n l. shown_schema (navigate (To_field name path leaf) a) = Some schema \<and>
    ds_selection (ap_design (navigate (To_field name path leaf) a)) = Some (Field_sel path leaf) \<and>
    ds_focus (ap_design (navigate (To_field name path leaf) a)) = Some (name, n_id n) \<and>
    n \<in> set (gr_nodes (projectGraph schema)) \<and> n_path n = path \<and> l \<in> set (n_leaves n) \<and> lf_index l = leaf"
  using assms by (rule field_jump_lands)

lemma email_record:
  "list_ex (\<lambda>r. case rc_target r of Some (To_field n p l) \<Rightarrow> n = ''a'' \<and> p = [] \<and> l = 0 | _ \<Rightarrow> False)
     (buildSearchRecords users_doc None (\<lambda>k v. k) ''-'')"
  by code_simp

theorem chosen_field_is_shown_witness:
  "ds_selection (ap_design (navigate (To_field ''a'' [] 0) (app_of ''config'' users_doc users_doc))) = Some (Field_sel [] 0)"
proof -
  obtain r where r: "r \<in> set (buildSearchRecords users_doc None (\<lambda>k v. k) ''-'')" "rc_target r = Some (To_field ''a'' [] 0)"
  proof -
    have "(case x of None \<Rightarrow> False | Some (To_field n p l) \<Rightarrow> n = ''a'' \<and> p = [] \<and> l = 0 | _ \<Rightarrow> False) \<longleftrightarrow>
        x = Some (To_field ''a'' [] 0)" for x
      by (cases x) (auto split: target.splits)
    with email_record that show thesis by (auto simp: list_ex_iff)
  qed
  have "obj_wf (doc_schemas users_doc)" by code_simp
  from chosen_field_is_shown [OF r _ this, of "app_of ''config'' users_doc users_doc"] show ?thesis by auto
qed

section \<open>Values and forms\<close>

text \<open>C24: A message is always formatted: whatever the braces, plurals and selects of the text, the
  formatter ends within its fuel and answers.\<close>

theorem message_is_formatted:
  assumes "intl_ok il"
  shows "\<exists>x. format_message il vs lang message = Some x"
  using assms by (rule format_message_answers)

theorem message_is_formatted_witness:
  "\<exists>x. format_message plain_intl [] ''en'' ''{n, plural, one {# file} other {{'' = Some x"
  by (rule message_is_formatted) (simp add: intl_ok_def plain_intl_def)

text \<open>C25: The filter editor keeps every filter well-shaped: through any sequence of edits, the value of
  an operator has that operator's number of operands.\<close>

theorem filter_stays_shaped:
  assumes "filter_fits f"
  shows "filter_fits (edit_rows es f)"
  using assms by (rule edit_rows_fits)

theorem filter_stays_shaped_witness: "filter_fits (edit_rows [Op_edit Op_between, Op_edit Op_in] (Value_op ''age'' Op_eq (Single ''1'')))"
  by (rule filter_stays_shaped) (simp add: opArity_def)

section \<open>The inspector\<close>

text \<open>C26: The form of a leaf edits that leaf only: through any run of edits, names, types,
  aggregates and options alike, no edit fails, every other field of the node stays, every path
  still leads where it led, the leaf keeps the kind of its body and a well-formed aggregate stays
  one.\<close>

theorem form_edits_one_leaf:
  assumes "live_path sc path" and "i < length (nodeFields sc path)" and "leaf_ok (nodeFields sc path ! i)"
  shows "\<exists>sc' f. edit_fields path i es sc = Inr sc' \<and> nodeFields sc' path = (nodeFields sc path)[i := f] \<and>
    (\<forall>p. live_path sc' p = live_path sc p) \<and> leaf_ok f \<and>
    childFields f = childFields (nodeFields sc path ! i) \<and>
    fieldHelpKind (f_source f) = fieldHelpKind (f_source (nodeFields sc path ! i))"
  using edit_fields_run [OF assms(1,2), of es] fold_edit_leaf(3) [OF assms(3), of es] fold_edit_leaf(1,2) by metis

theorem form_edits_one_leaf_witness:
  "\<exists>sc' f. edit_fields [] 0 [L_name ''mail'', L_column (C_type Text_t), L_add_option] users_schema = Inr sc' \<and>
     nodeFields sc' [] = [f, orders_field]"
  using form_edits_one_leaf [of users_schema "[]" 0 "[L_name ''mail'', L_column (C_type Text_t), L_add_option]"]
  by (auto simp: leaf_ok_def email_field_def column_field_def)

text \<open>C27: The bulk panel does what its buttons count: including adds every column it counted and
  leaves none to include, removing leaves no selected row, and of the node's fields it takes only
  those of a selected name or column.\<close>

theorem bulk_panel_does_all:
  assumes "live_path sc path" and "scalar_shapes cols"
  shows "\<exists>added removed. includeAll cols sc path names sc = Inr added \<and> toInclude cols added path names = [] \<and>
    set (toRemove added path names) = set (toRemove sc path names) \<union> set (toInclude cols sc path names) \<and>
    removeFields sc path names = Inr removed \<and> toRemove removed path names = [] \<and>
    nodeFields removed path = filter (\<lambda>f. \<not> drops_field names f) (nodeFields sc path)"
  using includeAll_complete [OF assms] removeFields_complete [OF assms(1)] by metis

definition age_shape :: column_shape where
  "age_shape =
     \<lparr>cs_name = ''age'', cs_sql_type = ''integer'', cs_nullable = True, cs_is_primary_key = False,
      cs_suggested_type = Some (Scalar Integer_t)\<rparr>"

theorem bulk_panel_does_all_witness:
  "\<exists>added. includeAll [age_shape] users_schema [] [''age'', ''email''] users_schema = Inr added \<and>
     set (toRemove added [] [''age'', ''email'']) = {''age'', ''email''}"
proof -
  have "scalar_shapes [age_shape]" by code_simp
  moreover have "toInclude [age_shape] users_schema [] [''age'', ''email''] = [''age'']"
      "toRemove users_schema [] [''age'', ''email''] = [''email'']"
    by code_simp+
  ultimately show ?thesis using bulk_panel_does_all [of users_schema "[]" "[age_shape]" "[''age'', ''email'']"] by force
qed

text \<open>C28: The form and the checks agree on a missing default: the inspector flags a column's default
  exactly when the catalog checks report an error for that column.\<close>

theorem form_flags_what_checks_report:
  assumes "catalog_usable catalog = Some cat" and "col_column c \<noteq> ''''"
  shows "default_missing (src_nullable catalog table c) c \<longleftrightarrow>
    (\<exists>d \<in> set (column_issues cat index t table name c). dg_severity d = ''error'')"
  using assms by (rule default_missing_issue)

definition people_table :: table_shape where
  "people_table =
     \<lparr>t_schema = ''public'', t_name = ''people'', t_columns = [age_shape], t_primary_key = [],
      t_foreign_keys = [\<lparr>fk_columns = [''age''], fk_references_schema = ''public'', fk_references_table = ''ages'',
                         fk_references_columns = [''id'']\<rparr>]\<rparr>"

definition people_catalog :: catalog_response where
  "people_catalog = \<lparr>cat_tables = [people_table], cat_junctions = [], cat_error = None\<rparr>"

definition age_column :: column where
  "age_column =
     \<lparr>col_column = ''age'', col_ty = Scalar Integer_t, col_nullable = False, col_transforms = None,
      col_default = None, col_enum_order = None\<rparr>"

theorem form_flags_what_checks_report_witness:
  "\<exists>d \<in> set (column_issues people_catalog ''a'' (\<lambda>k v. k) ''people'' ''age'' age_column). dg_severity d = ''error''"
proof -
  have "catalog_usable (Some people_catalog) = Some people_catalog" by code_simp
  moreover have "default_missing (src_nullable (Some people_catalog) ''people'' age_column) age_column" by code_simp
  ultimately show ?thesis
    using form_flags_what_checks_report [of "Some people_catalog" people_catalog age_column "''people''"
        "''a''" "\<lambda>k v. k" "''age''"]
    by (simp add: age_column_def)
qed

section \<open>The other panels\<close>

text \<open>C29: Every problem the Code view lists is placed in the buffer: it starts in the text, ends at
  most one behind it, a jump lands on its start, and the syntax problems come in the text's order.\<close>

theorem problems_in_the_buffer:
  assumes "doc_in (length t) (ya_doc y)" and "p \<in> set (problems y t ds err)"
  shows "pb_from p \<le> pb_to p \<and> pb_from p \<le> length t \<and> pb_to p \<le> max (length t) (Suc (pb_from p)) \<and>
    jumpTo t p = pb_from p \<and> sorted_wrt (\<lambda>a b. pb_from a \<le> pb_from b) (syntaxProblemsOf y t)"
proof -
  have "near_buffer t p" using assms by (rule problems_near)
  then show ?thesis using jump_lands syntax_sorted by (simp add: near_buffer_def)
qed

definition broken_parse :: parsed where
  "broken_parse =
     \<lparr>ya_doc = [], ya_errors = [\<lparr>ye_pos = (9, 12), ye_line_pos = None, ye_message = ''bad''\<rparr>],
      ya_warnings = [], ya_string = ''''\<rparr>"

theorem problems_in_the_buffer_witness: "jumpTo ''a: b'' (hd (problems broken_parse ''a: b'' [] None)) \<le> 4"
proof -
  have "problems broken_parse ''a: b'' [] None \<noteq> []" by code_simp
  then have "hd (problems broken_parse ''a: b'' [] None) \<in> set (problems broken_parse ''a: b'' [] None)"
    by (rule hd_in_set)
  from problems_in_the_buffer [OF _ this] show ?thesis by (simp add: doc_in_def broken_parse_def)
qed



section \<open>The screen\<close>








section \<open>The catalogs\<close>


text \<open>C35: A known fault: the apostrophe of the Italian prompt opens a quotation, so the prompt shows its
  placeholder, whatever the index is called; the English one shows the name.\<close>

theorem italian_prompt_names_nothing:
  "t_of il catalogs_shipped ''it'' ''config.removeIndex'' vs =
     Some ''Rimuovere lindice \"{name}\"? (il file schema resta su disco)'' \<and>
   t_of il catalogs_shipped ''en'' ''config.removeIndex'' [(''name'', v)] =
     Some (''Remove index \"'' @ js_text il (Some v) @ ''\"? (the schema file is left on disk)'')"
  using removal_in_italian removal_in_english by blast

section \<open>The editor and the forms\<close>

text \<open>C36: However keystrokes, caret moves, changes by the parent, commits and effects come after one
  another, two renders without further input bring the editor to rest, and at rest the text in the
  editor is its value as the editor writes it.\<close>

theorem editor_comes_to_rest:
  assumes "editor_reachable lf remap s" and "\<forall>x. lf (lf x) = lf x"
  shows "let s' = settle_editor lf remap (settle_editor lf remap s) in
    at_rest s' \<and> ed_doc s' = lf (ed_value s') \<and> (at_rest s \<longrightarrow> ed_doc s = lf (ed_value s))"
proof -
  have lf: "\<And>x. lf (lf x) = lf x" using assms(2) by blast
  have step: "editor_reachable lf remap (settle_editor lf remap u)" if "editor_reachable lf remap u" for u
    using that unfolding settle_editor_def by (intro editor_reachable.stepped [OF _ editor_step.effect]
      editor_reachable.stepped [OF _ editor_step.committed])
  have "editor_inv lf (settle_editor lf remap (settle_editor lf remap s))" "editor_inv lf s"
    using editor_reachable_inv [OF _ lf] step assms(1) by blast+
  moreover from this have "at_rest (settle_editor lf remap (settle_editor lf remap s))"
    using settle_rests [OF lf] by (simp add: editor_inv_def)
  ultimately show ?thesis by (simp add: editor_inv_def Let_def)
qed

definition drop_returns :: "string \<Rightarrow> string" where
  "drop_returns = filter (\<lambda>c. c \<noteq> CHR 0x0D)"

theorem editor_comes_to_rest_witness:
  "at_rest (settle_editor drop_returns (\<lambda>h m n. 0)
     (settle_editor drop_returns (\<lambda>h m n. 0) (type_text ''ab'' 2 (mount_editor drop_returns ''a''))))"
proof -
  have "editor_reachable drop_returns (\<lambda>h m n. 0) (type_text ''ab'' 2 (mount_editor drop_returns ''a''))"
    by (rule editor_reachable.stepped [OF editor_reachable.mounted editor_step.typed]) (simp add: drop_returns_def)
  moreover have "\<forall>x. drop_returns (drop_returns x) = drop_returns x" by (simp add: drop_returns_def)
  ultimately show ?thesis using editor_comes_to_rest by (metis (mono_tags, lifting))
qed



section \<open>The screens\<close>










end
